(* ===== verification/Hal_Prelude.thy ===== *)
theory Hal_Prelude
  imports Main "HOL-Library.State_Monad" "HOL-Library.Word"
begin

text \<open>
  Shared vocabulary of the development: the integer and pointer types, the status codes that
  every component returns, the collections of simplification rules, lemmas on lists, and the
  transition-system interface through which the state machines lift one-step facts to runs.
\<close>

unbundle bit_operations_syntax

named_theorems hal_run "rules that execute one monadic step of the camera HAL model"
named_theorems sm_defs "definitions of the state handlers of the camera state machine"
named_theorems agps_defs "definitions of the handlers of the AGPS state machine"

section \<open>Machine types and status codes\<close>

type_synonym int32 = "32 word"
type_synonym ptr = nat

abbreviation NULL :: ptr where
  "NULL \<equiv> 0"

text \<open>
  The status codes of the platform header utils/Errors.h, which the sources use by name; the
  numbers are the negated errno values that header documents.
\<close>

definition NO_ERROR :: int32 where
  "NO_ERROR = 0"

definition UNKNOWN_ERROR :: int32 where
  "UNKNOWN_ERROR = - 2147483648"

definition NO_MEMORY :: int32 where
  "NO_MEMORY = - 12"

definition NO_INIT :: int32 where
  "NO_INIT = - 19"

definition BAD_VALUE :: int32 where
  "BAD_VALUE = - 22"

definition DEAD_OBJECT :: int32 where
  "DEAD_OBJECT = - 32"

definition INVALID_OPERATION :: int32 where
  "INVALID_OPERATION = - 38"

lemmas status_defs =
  NO_ERROR_def UNKNOWN_ERROR_def NO_MEMORY_def NO_INIT_def BAD_VALUE_def DEAD_OBJECT_def
  INVALID_OPERATION_def

lemma error_codes_distinct [simp]:
  "UNKNOWN_ERROR \<noteq> NO_ERROR" "NO_MEMORY \<noteq> NO_ERROR" "NO_INIT \<noteq> NO_ERROR"
  "BAD_VALUE \<noteq> NO_ERROR" "DEAD_OBJECT \<noteq> NO_ERROR" "INVALID_OPERATION \<noteq> NO_ERROR"
  "NO_ERROR \<noteq> UNKNOWN_ERROR" "NO_ERROR \<noteq> NO_MEMORY" "NO_ERROR \<noteq> NO_INIT"
  "NO_ERROR \<noteq> BAD_VALUE" "NO_ERROR \<noteq> DEAD_OBJECT" "NO_ERROR \<noteq> INVALID_OPERATION"
  by (simp_all add: status_defs)

section \<open>Lists\<close>

text \<open>The first element that satisfies a test, taken out of a list.\<close>

fun take_first :: "('a \<Rightarrow> bool) \<Rightarrow> 'a list \<Rightarrow> ('a \<times> 'a list) option" where
  "take_first P [] = None"
| "take_first P (x # xs) =
     (if P x then Some (x, xs)
      else map_option (\<lambda>(y, ys). (y, x # ys)) (take_first P xs))"

lemma take_first_None_iff: "take_first P xs = None \<longleftrightarrow> (\<forall>x \<in> set xs. \<not> P x)"
  by (induction xs) auto

lemma take_first_Some:
  "take_first P xs = Some (y, ys) \<Longrightarrow>
     \<exists>us vs. xs = us @ y # vs \<and> ys = us @ vs \<and> P y \<and> (\<forall>u \<in> set us. \<not> P u)"
proof (induction xs arbitrary: ys)
  case Nil
  then show ?case by simp
next
  case (Cons x xs)
  show ?case
  proof (cases "P x")
    case True
    with Cons.prems have "y = x" "ys = xs" by auto
    with True show ?thesis by (intro exI [of _ "[]"] exI [of _ xs]) simp
  next
    case False
    with Cons.prems obtain zs where zs: "take_first P xs = Some (y, zs)" "ys = x # zs"
      by auto
    from Cons.IH [OF zs(1)] obtain us vs where
      "xs = us @ y # vs" "zs = us @ vs" "P y" "\<forall>u \<in> set us. \<not> P u"
      by blast
    with False zs(2) show ?thesis
      by (intro exI [of _ "x # us"] exI [of _ vs]) auto
  qed
qed

lemma take_first_append:
  "take_first P (xs @ ys) =
     (case take_first P xs of
        Some (y, zs) \<Rightarrow> Some (y, zs @ ys)
      | None \<Rightarrow> map_option (\<lambda>(y, zs). (y, xs @ zs)) (take_first P ys))"
proof (induction xs)
  case Nil
  then show ?case by (cases "take_first P ys") auto
next
  case (Cons x xs)
  then show ?case
    by (cases "take_first P xs"; cases "take_first P ys") auto
qed

lemma take_first_map:
  "take_first P (map g xs) =
     map_option (\<lambda>(x, ys). (g x, map g ys)) (take_first (\<lambda>x. P (g x)) xs)"
proof (induction xs)
  case Nil
  then show ?case by simp
next
  case (Cons x xs)
  then show ?case by (cases "take_first (\<lambda>x. P (g x)) xs") auto
qed

lemma map_of_eq_filter_hd:
  "map_of xs k = (case filter (\<lambda>p. fst p = k) xs of [] \<Rightarrow> None | p # _ \<Rightarrow> Some (snd p))"
  by (induction xs) auto

section \<open>Transition systems\<close>

text \<open>
  A deterministic component with inputs: a step function and the set of states it promises
  to stay in. Both state machines of the development interpret this interface, and a
  one-step fact lifts to every run.
\<close>

fun run_steps :: "('i \<Rightarrow> 's \<Rightarrow> 's) \<Rightarrow> 'i list \<Rightarrow> 's \<Rightarrow> 's" where
  "run_steps f [] s = s"
| "run_steps f (i # is) s = run_steps f is (f i s)"

lemma run_steps_append: "run_steps f (is @ js) s = run_steps f js (run_steps f is s)"
  by (induction "is" arbitrary: s) auto

locale invariant_system =
  fixes step :: "'i \<Rightarrow> 's \<Rightarrow> 's"
    and inv :: "'s \<Rightarrow> bool"
  assumes step_inv: "inv s \<Longrightarrow> inv (step i s)"
begin

lemma run_inv: "inv s \<Longrightarrow> inv (run_steps step is s)"
  by (induction "is" arbitrary: s) (simp_all add: step_inv)

lemma run_inv_rel:
  assumes "inv s" and "\<And>s i. inv s \<Longrightarrow> R s (step i s)"
    and "\<And>s. R s s" and "\<And>a b c. R a b \<Longrightarrow> R b c \<Longrightarrow> R a c"
  shows "R s (run_steps step is s)"
  using assms(1)
proof (induction "is" arbitrary: s)
  case Nil
  then show ?case using assms(3) by simp
next
  case (Cons i "is")
  from Cons.prems have "R s (step i s)" by (rule assms(2))
  moreover have "R (step i s) (run_steps step is (step i s))"
    by (rule Cons.IH) (rule step_inv [OF Cons.prems])
  ultimately show ?case using assms(4) by simp
qed

end

end
