(* ===== verification/Camera_Queue.thy ===== *)
theory Camera_Queue
  imports Hal_Prelude
begin

text \<open>
  The camera command queue: the intrusive doubly linked list of
  camera/QCamera2/stack/common/cam_list.h over an explicit store of next and prev links, the
  class QCameraQueue of camera/QCamera2/util/QCameraQueue.cpp on top of it, the list it
  represents, and the queue interface its clients rely on. A critical section under m_lock is
  one step of the model. A data pointer is an option, None being the null pointer, and malloc
  is the address it returns, NULL when it fails.
\<close>

section \<open>cam\_list.h\<close>

record links =
  nxt :: "ptr \<Rightarrow> ptr"
  prv :: "ptr \<Rightarrow> ptr"

definition cam_list_init :: "ptr \<Rightarrow> links \<Rightarrow> links" where
  "cam_list_init p st = st\<lparr>nxt := (nxt st)(p := p), prv := (prv st)(p := p)\<rparr>"

definition cam_list_add_tail_node :: "ptr \<Rightarrow> ptr \<Rightarrow> links \<Rightarrow> links" where
  "cam_list_add_tail_node item head st =
     (let prev = prv st head;
          st1 = st\<lparr>prv := (prv st)(head := item)\<rparr>;
          st2 = st1\<lparr>nxt := (nxt st1)(item := head)\<rparr>;
          st3 = st2\<lparr>prv := (prv st2)(item := prev)\<rparr>
      in st3\<lparr>nxt := (nxt st3)(prev := item)\<rparr>)"

definition cam_list_insert_before_node :: "ptr \<Rightarrow> ptr \<Rightarrow> links \<Rightarrow> links" where
  "cam_list_insert_before_node item node st =
     (let st1 = st\<lparr>nxt := (nxt st)(item := node)\<rparr>;
          st2 = st1\<lparr>prv := (prv st1)(item := prv st1 node)\<rparr>;
          st3 = st2\<lparr>nxt := (nxt st2)(prv st2 item := item)\<rparr>
      in st3\<lparr>prv := (prv st3)(node := item)\<rparr>)"

definition cam_list_del_node :: "ptr \<Rightarrow> links \<Rightarrow> links" where
  "cam_list_del_node p st =
     (let prev = prv st p; next = nxt st p;
          st1 = st\<lparr>prv := (prv st)(next := prv st p)\<rparr>;
          st2 = st1\<lparr>nxt := (nxt st1)(prev := nxt st1 p)\<rparr>;
          st3 = st2\<lparr>nxt := (nxt st2)(p := p)\<rparr>
      in st3\<lparr>prv := (prv st3)(p := p)\<rparr>)"

text \<open>
  A chain of nodes from a to b, linked both ways, and the ring around the dummy head.
\<close>

fun linked :: "links \<Rightarrow> ptr \<Rightarrow> ptr list \<Rightarrow> ptr \<Rightarrow> bool" where
  "linked st a [] b \<longleftrightarrow> nxt st a = b \<and> prv st b = a"
| "linked st a (x # xs) b \<longleftrightarrow> nxt st a = x \<and> prv st x = a \<and> linked st x xs b"

definition ring :: "links \<Rightarrow> ptr \<Rightarrow> ptr list \<Rightarrow> bool" where
  "ring st h xs \<longleftrightarrow> distinct (h # xs) \<and> linked st h xs h"

lemma linked_append:
  "linked st a (xs @ y # ys) b \<longleftrightarrow> linked st a xs y \<and> linked st y ys b"
  by (induction xs arbitrary: a) auto

lemma linked_frame:
  assumes "linked st a xs b"
    and "\<forall>p \<in> insert a (set xs). nxt st' p = nxt st p"
    and "\<forall>p \<in> insert b (set xs). prv st' p = prv st p"
  shows "linked st' a xs b"
  using assms by (induction xs arbitrary: a) auto

lemma linked_nxt: "linked st a xs b \<Longrightarrow> nxt st a = (case xs of [] \<Rightarrow> b | x # _ \<Rightarrow> x)"
  by (cases xs) auto

lemma linked_prv: "linked st a xs b \<Longrightarrow> prv st b = (if xs = [] then a else last xs)"
  by (induction xs arbitrary: a) auto

lemma ring_init: "ring (cam_list_init h st) h []"
  by (simp add: ring_def cam_list_init_def)

lemma linked_retarget:
  assumes "linked st a xs b" "distinct (a # xs)" "b \<notin> set xs" "c \<notin> insert a (set xs)"
    "nxt st' (if xs = [] then a else last xs) = c"
    "prv st' c = (if xs = [] then a else last xs)"
    "\<forall>p \<in> insert a (set xs) - {if xs = [] then a else last xs}. nxt st' p = nxt st p"
    "\<forall>p \<in> set xs. prv st' p = prv st p"
  shows "linked st' a xs c"
  using assms
proof (induction xs arbitrary: a)
  case Nil
  then show ?case by simp
next
  case (Cons x xs)
  have x: "nxt st a = x" "prv st x = a" "linked st x xs b"
    using Cons.prems(1) by auto
  have "linked st' x xs c"
    by (rule Cons.IH [OF x(3)]) (use Cons.prems in auto)
  moreover have "nxt st' a = x" "prv st' x = a"
    using Cons.prems x by (auto split: if_splits)
  ultimately show ?case by simp
qed

lemma ring_add_tail:
  assumes "ring st h xs" "n \<notin> set (h # xs)"
  shows "ring (cam_list_add_tail_node n h st) h (xs @ [n])"
proof -
  let ?st = "cam_list_add_tail_node n h st"
  let ?l = "if xs = [] then h else last xs"
  have l: "linked st h xs h" "distinct (h # xs)" using assms(1) by (auto simp: ring_def)
  have p: "prv st h = ?l" using linked_prv [OF l(1)] .
  have eqs: "nxt ?st = (nxt st)(n := h, ?l := n)" "prv ?st = (prv st)(h := n, n := ?l)"
    using p by (simp_all add: cam_list_add_tail_node_def Let_def)
  have ne: "?l \<noteq> n" "h \<noteq> n" using assms(2) by (auto split: if_splits)
  have "linked ?st h xs n"
    by (rule linked_retarget [OF l(1)]) (use l(2) assms(2) ne in \<open>auto simp: eqs\<close>)
  moreover have "linked ?st n [] h" using ne by (simp add: eqs)
  ultimately have "linked ?st h (xs @ [n]) h" by (simp add: linked_append)
  then show ?thesis using l(2) assms(2) by (auto simp: ring_def)
qed

lemma ring_add_front:
  assumes "ring st h xs" "n \<notin> set (h # xs)"
    and eqs: "nxt st' = (nxt st)(h := n, n := nxt st h)"
      "prv st' = (prv st)(nxt st h := n, n := h)"
  shows "ring st' h (n # xs)"
proof -
  have l: "linked st h xs h" "distinct (h # xs)" using assms(1) by (auto simp: ring_def)
  have ne: "h \<noteq> n" "n \<notin> set xs" using assms(2) by auto
  have "linked st' n xs h"
  proof (cases xs)
    case Nil
    then show ?thesis using l ne by (simp add: eqs)
  next
    case (Cons x ys)
    then have x: "nxt st h = x" "linked st x ys h" "x \<noteq> h" "h \<notin> set ys" "x \<notin> set ys"
      "n \<noteq> x" "n \<notin> set ys"
      using l ne by auto
    have "linked st' x ys h"
      by (rule linked_frame [OF x(2)]) (use x ne in \<open>auto simp: eqs\<close>)
    then show ?thesis using Cons x ne by (simp add: eqs)
  qed
  then have "linked st' h (n # xs) h" using ne by (simp add: eqs)
  then show ?thesis using l(2) ne by (auto simp: ring_def)
qed

lemma del_node_links:
  assumes "prv st p = a" "nxt st p = b" "p \<noteq> a" "p \<noteq> b"
  shows "nxt (cam_list_del_node p st) = (nxt st)(a := b, p := p)"
    and "prv (cam_list_del_node p st) = (prv st)(b := a, p := p)"
  using assms by (simp_all add: cam_list_del_node_def Let_def)

lemma ring_del_node:
  assumes "ring st h (us @ p # vs)"
  shows "ring (cam_list_del_node p st) h (us @ vs)"
proof -
  let ?st = "cam_list_del_node p st"
  let ?a = "if us = [] then h else last us"
  have l: "linked st h us p" "linked st p vs h" "distinct (h # us @ p # vs)"
    using assms by (auto simp: ring_def linked_append)
  let ?b = "case vs of [] \<Rightarrow> h | v # _ \<Rightarrow> v"
  have ab: "prv st p = ?a" "nxt st p = ?b"
    using linked_prv [OF l(1)] linked_nxt [OF l(2)] by auto
  have ne: "p \<noteq> ?a" "p \<noteq> ?b" using l(3) by (auto split: list.splits if_splits)
  note eqs = del_node_links [OF ab ne]
  have a_in: "?a \<in> insert h (set us)" by auto
  show ?thesis
  proof (cases vs)
    case Nil
    have "linked ?st h us h"
      by (cases us rule: rev_cases)
        (use l Nil in \<open>auto simp: eqs linked_append intro: linked_frame\<close>)
    then show ?thesis using l(3) Nil by (auto simp: ring_def)
  next
    case (Cons v ws)
    have lv: "linked st v ws h" using l(2) Cons by simp
    have "linked ?st h us v"
      by (rule linked_retarget [OF l(1)]) (use l(3) Cons a_in in \<open>auto simp: eqs\<close>)
    moreover have "linked ?st v ws h"
      by (rule linked_frame [OF lv]) (use l(3) Cons a_in in \<open>auto simp: eqs\<close>)
    ultimately have "linked ?st h (us @ v # ws) h" by (simp add: linked_append)
    then show ?thesis using l(3) Cons by (auto simp: ring_def)
  qed
qed

section \<open>QCameraQueue\<close>

text \<open>
  The object: the links of every node, the dummy head m\_head, the data pointer of each
  allocated camera\_q\_node, m\_size and m\_active. flush and flushNodes return the data they
  hand to m\_dataFn (when there is one) and then free, in that order.  The counter is an int; it is
  taken not to overflow, as the nodes that it counts would not fit into memory.
\<close>

record 'd camera_queue =
  q_links :: links
  m_head :: ptr
  node_data :: "ptr \<Rightarrow> 'd option option"
  m_size :: int
  m_active :: bool

definition data_at :: "'d camera_queue \<Rightarrow> ptr \<Rightarrow> 'd option" where
  "data_at q p = (case node_data q p of Some d \<Rightarrow> d | None \<Rightarrow> None)"

definition QCameraQueue :: "ptr \<Rightarrow> links \<Rightarrow> 'd camera_queue" where
  "QCameraQueue h st =
     \<lparr>q_links = cam_list_init h st, m_head = h, node_data = (\<lambda>_. None), m_size = 0,
      m_active = True\<rparr>"

definition queue_init :: "'d camera_queue \<Rightarrow> 'd camera_queue" where
  "queue_init q = q\<lparr>m_active := True\<rparr>"

definition isEmpty :: "'d camera_queue \<Rightarrow> bool" where
  "isEmpty q = (\<not> 0 < m_size q)"

definition enqueue :: "ptr \<Rightarrow> 'd option \<Rightarrow> 'd camera_queue \<Rightarrow> bool \<times> 'd camera_queue" where
  "enqueue node data q =
     (if node = NULL then (False, q)
      else let q1 = q\<lparr>node_data := (node_data q)(node := Some data)\<rparr> in
        if m_active q1
        then (True, q1\<lparr>q_links := cam_list_add_tail_node node (m_head q1) (q_links q1),
                        m_size := m_size q1 + 1\<rparr>)
        else (False, q1\<lparr>node_data := (node_data q1)(node := None)\<rparr>))"

definition enqueueWithPriority :: "ptr \<Rightarrow> 'd option \<Rightarrow> 'd camera_queue \<Rightarrow> bool \<times> 'd camera_queue" where
  "enqueueWithPriority node data q =
     (if node = NULL then (False, q)
      else let q1 = q\<lparr>node_data := (node_data q)(node := Some data)\<rparr> in
        if m_active q1
        then let h = m_head q1; st = q_links q1; p_next = nxt st h;
                 st1 = st\<lparr>nxt := (nxt st)(h := node)\<rparr>;
                 st2 = st1\<lparr>prv := (prv st1)(p_next := node)\<rparr>;
                 st3 = st2\<lparr>nxt := (nxt st2)(node := p_next)\<rparr>;
                 st4 = st3\<lparr>prv := (prv st3)(node := h)\<rparr>
             in (True, q1\<lparr>q_links := st4, m_size := m_size q1 + 1\<rparr>)
        else (False, q1\<lparr>node_data := (node_data q1)(node := None)\<rparr>))"

definition peek :: "'d camera_queue \<Rightarrow> 'd option" where
  "peek q =
     (if m_active q
      then let pos = nxt (q_links q) (m_head q) in
        (if pos \<noteq> m_head q then data_at q pos else None)
      else None)"

definition unlink_node :: "ptr \<Rightarrow> 'd camera_queue \<Rightarrow> 'd camera_queue" where
  "unlink_node p q =
     q\<lparr>q_links := cam_list_del_node p (q_links q), m_size := m_size q - 1,
       node_data := (node_data q)(p := None)\<rparr>"

definition dequeue :: "bool \<Rightarrow> 'd camera_queue \<Rightarrow> 'd option \<times> 'd camera_queue" where
  "dequeue bFromHead q =
     (if m_active q
      then let pos = (if bFromHead then nxt (q_links q) (m_head q)
                      else prv (q_links q) (m_head q)) in
        (if pos \<noteq> m_head q then (data_at q pos, unlink_node pos q) else (None, q))
      else (None, q))"

definition non_null :: "'d option list \<Rightarrow> 'd list" where
  "non_null ds = concat (map (\<lambda>d. case d of Some x \<Rightarrow> [x] | None \<Rightarrow> []) ds)"

lemma non_null_simps [simp]:
  "non_null [] = []" "non_null (None # ds) = non_null ds"
  "non_null (Some x # ds) = x # non_null ds"
  "non_null (ds @ es) = non_null ds @ non_null es"
  by (simp_all add: non_null_def)

text \<open>
  The loops follow the pos pointer around the ring. They are partial functions, None being a
  walk that never comes back to the head.
\<close>

partial_function (option) dequeue_match_loop ::
  "('d option \<Rightarrow> bool) \<Rightarrow> ptr \<Rightarrow> 'd camera_queue \<Rightarrow> ('d option \<times> 'd camera_queue) option" where
  "dequeue_match_loop match pos q =
     (if pos = m_head q then Some (None, q)
      else let node = pos; pos' = nxt (q_links q) pos in
        (if node \<noteq> NULL \<and> match (data_at q node)
         then Some (data_at q node, unlink_node node q)
         else dequeue_match_loop match pos' q))"

definition dequeue_match ::
  "('d option \<Rightarrow> bool) option \<Rightarrow> 'd camera_queue \<Rightarrow> ('d option \<times> 'd camera_queue) option" where
  "dequeue_match match q =
     (case match of
        None \<Rightarrow> Some (None, q)
      | Some f \<Rightarrow>
          (if m_active q then dequeue_match_loop f (nxt (q_links q) (m_head q)) q
           else Some (None, q)))"

partial_function (option) flush_loop ::
  "('d option \<Rightarrow> bool) \<Rightarrow> ptr \<Rightarrow> 'd camera_queue \<Rightarrow> 'd list \<Rightarrow>
     ('d camera_queue \<times> 'd list) option" where
  "flush_loop match pos q released =
     (if pos = m_head q then Some (q, released)
      else let node = pos; pos' = nxt (q_links q) pos in
        (if match (data_at q node)
         then flush_loop match pos' (unlink_node node q)
                (released @ non_null [data_at q node])
         else flush_loop match pos' q released))"

definition flush :: "'d camera_queue \<Rightarrow> ('d camera_queue \<times> 'd list) option" where
  "flush q =
     (if m_active q
      then map_option (\<lambda>(q', released). (q'\<lparr>m_size := 0, m_active := False\<rparr>, released))
             (flush_loop (\<lambda>_. True) (nxt (q_links q) (m_head q)) q [])
      else Some (q, []))"

definition flushNodes ::
  "('d option \<Rightarrow> bool) option \<Rightarrow> 'd camera_queue \<Rightarrow> ('d camera_queue \<times> 'd list) option" where
  "flushNodes match q =
     (case match of
        None \<Rightarrow> Some (q, [])
      | Some f \<Rightarrow>
          (if m_active q then flush_loop f (nxt (q_links q) (m_head q)) q []
           else Some (q, [])))"

text \<open>The second overload hands the data of its caller on to the match function.\<close>

definition flushNodes_data ::
  "('d option \<Rightarrow> 'm \<Rightarrow> bool) option \<Rightarrow> 'm \<Rightarrow> 'd camera_queue \<Rightarrow>
     ('d camera_queue \<times> 'd list) option" where
  "flushNodes_data match match_data q =
     (case match of
        None \<Rightarrow> Some (q, [])
      | Some f \<Rightarrow>
          (if m_active q
           then flush_loop (\<lambda>d. f d match_data) (nxt (q_links q) (m_head q)) q []
           else Some (q, [])))"

section \<open>The list a queue represents\<close>

definition queue_nodes :: "'d camera_queue \<Rightarrow> ptr list \<Rightarrow> bool" where
  "queue_nodes q xs \<longleftrightarrow>
     ring (q_links q) (m_head q) xs \<and> NULL \<notin> set (m_head q # xs) \<and>
     dom (node_data q) = set xs \<and> m_size q = int (length xs)"

definition queue_rep :: "'d camera_queue \<Rightarrow> 'd option list \<Rightarrow> bool \<Rightarrow> bool" where
  "queue_rep q ds active \<longleftrightarrow>
     (\<exists>xs. queue_nodes q xs \<and> ds = map (data_at q) xs) \<and> m_active q = active"

definition fresh_node :: "ptr \<Rightarrow> 'd camera_queue \<Rightarrow> bool" where
  "fresh_node p q \<longleftrightarrow> p \<noteq> NULL \<and> p \<noteq> m_head q \<and> p \<notin> dom (node_data q)"

lemma queue_repE:
  assumes "queue_rep q ds active"
  obtains xs where "queue_nodes q xs" "ds = map (data_at q) xs" "m_active q = active"
  using assms by (auto simp: queue_rep_def)

lemma queue_nodes_unlink:
  assumes "queue_nodes q (us @ p # vs)"
  shows "queue_nodes (unlink_node p q) (us @ vs)"
    and "map (data_at (unlink_node p q)) (us @ vs) = map (data_at q) (us @ vs)"
proof -
  have d: "p \<notin> set (us @ vs)" using assms by (auto simp: queue_nodes_def ring_def)
  show "queue_nodes (unlink_node p q) (us @ vs)"
    using assms d ring_del_node by (auto simp: queue_nodes_def unlink_node_def)
  show "map (data_at (unlink_node p q)) (us @ vs) = map (data_at q) (us @ vs)"
    using d by (auto simp: data_at_def unlink_node_def)
qed

lemma queue_head_next:
  "queue_nodes q xs \<Longrightarrow> nxt (q_links q) (m_head q) = (case xs of [] \<Rightarrow> m_head q | x # _ \<Rightarrow> x)"
  by (simp add: queue_nodes_def ring_def linked_nxt)

lemma queue_head_prev:
  "queue_nodes q xs \<Longrightarrow> prv (q_links q) (m_head q) = (if xs = [] then m_head q else last xs)"
  by (simp add: queue_nodes_def ring_def linked_prv)

lemma queue_node_next:
  "queue_nodes q (us @ p # vs) \<Longrightarrow>
     nxt (q_links q) p = (case vs of [] \<Rightarrow> m_head q | x # _ \<Rightarrow> x)"
  by (simp add: queue_nodes_def ring_def linked_append linked_nxt)

section \<open>Every operation against the represented list\<close>

lemma QCameraQueue_rep: "h \<noteq> NULL \<Longrightarrow> queue_rep (QCameraQueue h st) [] True"
  by (auto simp: queue_rep_def queue_nodes_def QCameraQueue_def ring_init)

lemma queue_init_rep: "queue_rep q ds a \<Longrightarrow> queue_rep (queue_init q) ds True"
  by (auto simp: queue_rep_def queue_nodes_def queue_init_def data_at_def)

lemma isEmpty_rep: "queue_rep q ds a \<Longrightarrow> isEmpty q \<longleftrightarrow> ds = []"
  by (auto simp: queue_rep_def queue_nodes_def isEmpty_def)

lemma enqueue_NULL [simp]: "enqueue NULL d q = (False, q)"
  by (simp add: enqueue_def)

lemma enqueue_inactive:
  "queue_rep q ds False \<Longrightarrow> fresh_node n q \<Longrightarrow> enqueue n d q = (False, q)"
  by (auto simp: queue_rep_def fresh_node_def enqueue_def Let_def fun_upd_idem_iff)

lemma enqueue_rep:
  assumes "queue_rep q ds True" "fresh_node n q"
  shows "\<exists>q'. enqueue n d q = (True, q') \<and> queue_rep q' (ds @ [d]) True"
proof -
  from assms(1) obtain xs where xs: "queue_nodes q xs" "ds = map (data_at q) xs" "m_active q"
    by (rule queue_repE) auto
  have n: "n \<notin> set (m_head q # xs)" "n \<noteq> NULL"
    using assms(2) xs(1) by (auto simp: fresh_node_def queue_nodes_def)
  define q' where "q' = snd (enqueue n d q)"
  have e: "enqueue n d q = (True, q')"
    using n xs(3) by (simp add: q'_def enqueue_def Let_def)
  have f: "q_links q' = cam_list_add_tail_node n (m_head q) (q_links q)"
    "node_data q' = (node_data q)(n := Some d)" "m_head q' = m_head q"
    "m_size q' = m_size q + 1" "m_active q'"
    using n xs(3) by (simp_all add: q'_def enqueue_def Let_def)
  have "queue_nodes q' (xs @ [n])"
    using xs(1) n ring_add_tail by (auto simp: queue_nodes_def f)
  moreover have "map (data_at q') (xs @ [n]) = ds @ [d]"
    using xs(2) n by (auto simp: data_at_def f)
  ultimately have "queue_rep q' (ds @ [d]) True" using f(5) unfolding queue_rep_def by metis
  with e show ?thesis by blast
qed

lemma enqueueWithPriority_rep:
  assumes "queue_rep q ds True" "fresh_node n q"
  shows "\<exists>q'. enqueueWithPriority n d q = (True, q') \<and> queue_rep q' (d # ds) True"
proof -
  from assms(1) obtain xs where xs: "queue_nodes q xs" "ds = map (data_at q) xs" "m_active q"
    by (rule queue_repE) auto
  have n: "n \<notin> set (m_head q # xs)" "n \<noteq> NULL"
    using assms(2) xs(1) by (auto simp: fresh_node_def queue_nodes_def)
  define q' where "q' = snd (enqueueWithPriority n d q)"
  have e: "enqueueWithPriority n d q = (True, q')"
    using n xs(3) by (simp add: q'_def enqueueWithPriority_def Let_def)
  have f: "nxt (q_links q') = (nxt (q_links q))(m_head q := n, n := nxt (q_links q) (m_head q))"
    "prv (q_links q') = (prv (q_links q))(nxt (q_links q) (m_head q) := n, n := m_head q)"
    "node_data q' = (node_data q)(n := Some d)" "m_head q' = m_head q"
    "m_size q' = m_size q + 1" "m_active q'"
    using n xs(3) by (simp_all add: q'_def enqueueWithPriority_def Let_def)
  have "ring (q_links q') (m_head q) (n # xs)"
    by (rule ring_add_front [OF _ n(1) f(1,2)]) (use xs(1) in \<open>simp add: queue_nodes_def\<close>)
  then have "queue_nodes q' (n # xs)"
    using xs(1) n by (auto simp: queue_nodes_def f)
  moreover have "map (data_at q') (n # xs) = d # ds"
    using xs(2) n by (auto simp: data_at_def f)
  ultimately have "queue_rep q' (d # ds) True" using f(6) unfolding queue_rep_def by metis
  with e show ?thesis by blast
qed

lemma peek_rep: "queue_rep q ds True \<Longrightarrow> peek q = (case ds of [] \<Rightarrow> None | d # _ \<Rightarrow> d)"
proof (erule queue_repE)
  fix xs
  assume xs: "queue_nodes q xs" "ds = map (data_at q) xs" "m_active q = True"
  then have "\<forall>x \<in> set xs. x \<noteq> m_head q" by (auto simp: queue_nodes_def ring_def)
  with xs queue_head_next [OF xs(1)] show ?thesis
    by (cases xs) (simp_all add: peek_def)
qed

lemma queue_rep_unlink:
  assumes "queue_nodes q (us @ p # vs)" "m_active q"
  shows "queue_rep (unlink_node p q) (map (data_at q) (us @ vs)) True"
proof -
  have "m_active (unlink_node p q)" using assms(2) by (simp add: unlink_node_def)
  moreover note queue_nodes_unlink [OF assms(1)]
  ultimately show ?thesis unfolding queue_rep_def by metis
qed

lemma dequeue_empty: "queue_rep q [] True \<Longrightarrow> dequeue b q = (None, q)"
  by (auto simp: queue_rep_def dequeue_def Let_def queue_head_next queue_head_prev)

lemma dequeue_head_rep:
  assumes "queue_rep q (d # ds) True"
  shows "\<exists>q'. dequeue True q = (d, q') \<and> queue_rep q' ds True"
proof -
  from assms obtain x xs where x: "queue_nodes q ([] @ x # xs)" "m_active q"
      "d = data_at q x" "ds = map (data_at q) xs"
    by (rule queue_repE) (auto simp: Cons_eq_map_conv)
  have "x \<noteq> m_head q" using x(1) by (auto simp: queue_nodes_def ring_def)
  then have "dequeue True q = (d, unlink_node x q)"
    using queue_head_next [OF x(1)] x(2,3) by (simp add: dequeue_def)
  then show ?thesis using queue_rep_unlink [OF x(1,2)] x(4) by simp
qed

lemma dequeue_tail_rep:
  assumes "queue_rep q (ds @ [d]) True"
  shows "\<exists>q'. dequeue False q = (d, q') \<and> queue_rep q' ds True"
proof -
  from assms obtain ys where ys: "queue_nodes q ys" "ds @ [d] = map (data_at q) ys" "m_active q"
    by (rule queue_repE) auto
  from ys(2) obtain xs x where x: "ys = xs @ [x]" by (cases ys rule: rev_cases) auto
  have n: "queue_nodes q (xs @ x # [])" "d = data_at q x" "ds = map (data_at q) xs"
    using ys x by simp_all
  have "x \<noteq> m_head q" using n(1) by (auto simp: queue_nodes_def ring_def)
  then have "dequeue False q = (d, unlink_node x q)"
    using queue_head_prev [OF n(1)] ys(3) n(2) by (simp add: dequeue_def)
  then show ?thesis using queue_rep_unlink [OF n(1) ys(3)] n(3) by simp
qed

lemma dequeue_match_loop_walk:
  assumes "queue_nodes q (us @ vs)"
  shows "dequeue_match_loop f (case vs of [] \<Rightarrow> m_head q | x # _ \<Rightarrow> x) q =
    (case take_first (\<lambda>p. f (data_at q p)) vs of
       None \<Rightarrow> Some (None, q)
     | Some (p, _) \<Rightarrow> Some (data_at q p, unlink_node p q))"
  using assms
proof (induction vs arbitrary: us)
  case Nil
  then show ?case by (simp add: dequeue_match_loop.simps)
next
  case (Cons x vs)
  have x: "x \<noteq> m_head q" "x \<noteq> NULL" using Cons.prems by (auto simp: queue_nodes_def ring_def)
  show ?case
  proof (cases "f (data_at q x)")
    case True
    with x show ?thesis by (simp add: dequeue_match_loop.simps)
  next
    case False
    have "dequeue_match_loop f x q = dequeue_match_loop f (nxt (q_links q) x) q"
      using False x by (subst dequeue_match_loop.simps) (simp add: Let_def)
    also have "nxt (q_links q) x = (case vs of [] \<Rightarrow> m_head q | y # _ \<Rightarrow> y)"
      using queue_node_next [OF Cons.prems] .
    also have "dequeue_match_loop f \<dots> q = (case take_first (\<lambda>p. f (data_at q p)) vs of
       None \<Rightarrow> Some (None, q) | Some (p, _) \<Rightarrow> Some (data_at q p, unlink_node p q))"
      by (rule Cons.IH [of "us @ [x]"]) (use Cons.prems in simp)
    finally show ?thesis using False by (auto split: option.splits)
  qed
qed

lemma flush_loop_walk:
  assumes "queue_nodes q (us @ vs)"
  shows "\<exists>q'. flush_loop f (case vs of [] \<Rightarrow> m_head q | x # _ \<Rightarrow> x) q released =
      Some (q', released @ non_null (filter f (map (data_at q) vs))) \<and>
    queue_nodes q' (us @ filter (\<lambda>p. \<not> f (data_at q p)) vs) \<and>
    map (data_at q') (us @ filter (\<lambda>p. \<not> f (data_at q p)) vs) =
      map (data_at q) (us @ filter (\<lambda>p. \<not> f (data_at q p)) vs) \<and>
    m_active q' = m_active q \<and> m_head q' = m_head q"
  using assms
proof (induction vs arbitrary: us q released)
  case Nil
  then show ?case by (simp add: flush_loop.simps)
next
  case (Cons x vs)
  have x: "x \<noteq> m_head q" using Cons.prems by (auto simp: queue_nodes_def ring_def)
  have nx: "nxt (q_links q) x = (case vs of [] \<Rightarrow> m_head q | y # _ \<Rightarrow> y)"
    using queue_node_next [OF Cons.prems] .
  show ?case
  proof (cases "f (data_at q x)")
    case False
    have "flush_loop f x q released = flush_loop f (nxt (q_links q) x) q released"
      using False x by (subst flush_loop.simps) (simp add: Let_def)
    with Cons.IH [of q "us @ [x]" released] Cons.prems False nx show ?thesis by simp
  next
    case True
    let ?q = "unlink_node x q" and ?r = "released @ non_null [data_at q x]"
    note u = queue_nodes_unlink [OF Cons.prems]
    have h: "m_head ?q = m_head q" "m_active ?q = m_active q" by (simp_all add: unlink_node_def)
    have d: "\<forall>p \<in> set us \<union> set vs. data_at ?q p = data_at q p" using u(2) by auto
    have fl: "filter (\<lambda>p. \<not> f (data_at ?q p)) vs = filter (\<lambda>p. \<not> f (data_at q p)) vs"
      "map (data_at ?q) vs = map (data_at q) vs"
      using d by (auto intro: filter_cong)
    have "flush_loop f x q released = flush_loop f (nxt (q_links q) x) ?q ?r"
      using True x by (subst flush_loop.simps) (simp add: Let_def)
    also have "nxt (q_links q) x = (case vs of [] \<Rightarrow> m_head ?q | y # _ \<Rightarrow> y)"
      unfolding h by (rule nx)
    finally have step: "flush_loop f x q released =
        flush_loop f (case vs of [] \<Rightarrow> m_head ?q | y # _ \<Rightarrow> y) ?q ?r" .
    have "non_null (filter f (map (data_at q) (x # vs))) =
        non_null [data_at q x] @ non_null (filter f (map (data_at q) vs))"
      using True by (cases "data_at q x") auto
    then show ?thesis
      using Cons.IH [OF u(1), of ?r] True step d by (auto simp: h fl)
  qed
qed

lemma dequeue_match_rep:
  assumes "queue_rep q ds True"
  shows "\<exists>q'. dequeue_match (Some f) q =
      Some (case take_first f ds of None \<Rightarrow> None | Some (d, _) \<Rightarrow> d, q') \<and>
    queue_rep q' (case take_first f ds of None \<Rightarrow> ds | Some (_, ds') \<Rightarrow> ds') True"
proof -
  from assms obtain xs where xs: "queue_nodes q ([] @ xs)" "ds = map (data_at q) xs" "m_active q"
    by (rule queue_repE) auto
  have tf: "take_first f ds =
      map_option (\<lambda>(p, ps). (data_at q p, map (data_at q) ps))
        (take_first (\<lambda>p. f (data_at q p)) xs)"
    unfolding xs(2) by (rule take_first_map)
  have loop: "dequeue_match (Some f) q = (case take_first (\<lambda>p. f (data_at q p)) xs of
      None \<Rightarrow> Some (None, q) | Some (p, _) \<Rightarrow> Some (data_at q p, unlink_node p q))"
    using dequeue_match_loop_walk [OF xs(1), of f] xs(1,3)
    by (simp add: dequeue_match_def queue_head_next)
  show ?thesis
  proof (cases "take_first (\<lambda>p. f (data_at q p)) xs")
    case None
    with loop tf assms show ?thesis by simp
  next
    case (Some y)
    obtain p ps where y: "y = (p, ps)" by (cases y) auto
    obtain us vs where v: "xs = us @ p # vs" "ps = us @ vs"
      using take_first_Some [OF Some [unfolded y]] by auto
    have "queue_nodes q (us @ p # vs)" using xs(1) v(1) by simp
    then have "queue_rep (unlink_node p q) (map (data_at q) ps) True"
      unfolding v(2) by (rule queue_rep_unlink) (rule xs(3))
    moreover have "take_first f ds = Some (data_at q p, map (data_at q) ps)"
      unfolding tf Some y by simp
    moreover have "dequeue_match (Some f) q = Some (data_at q p, unlink_node p q)"
      unfolding loop Some y by simp
    ultimately show ?thesis by (intro exI [of _ "unlink_node p q"]) simp
  qed
qed

lemma flush_loop_rep:
  assumes "queue_rep q ds True"
  shows "\<exists>q'. flush_loop f (nxt (q_links q) (m_head q)) q [] =
      Some (q', non_null (filter f ds)) \<and> queue_rep q' (filter (\<lambda>d. \<not> f d) ds) True"
proof -
  from assms obtain xs where xs: "queue_nodes q ([] @ xs)" "ds = map (data_at q) xs" "m_active q"
    by (rule queue_repE) auto
  have fm: "map (data_at q) (filter (\<lambda>p. \<not> f (data_at q p)) xs) = filter (\<lambda>d. \<not> f d) ds"
    unfolding xs(2) by (induction xs) auto
  obtain q' where q': "flush_loop f (nxt (q_links q) (m_head q)) q [] =
        Some (q', non_null (filter f (map (data_at q) xs)))"
      "queue_nodes q' (filter (\<lambda>p. \<not> f (data_at q p)) xs)"
      "map (data_at q') (filter (\<lambda>p. \<not> f (data_at q p)) xs) =
        map (data_at q) (filter (\<lambda>p. \<not> f (data_at q p)) xs)" "m_active q'"
    using flush_loop_walk [OF xs(1), of f "[]"] xs(1,3) by (auto simp: queue_head_next)
  have "queue_rep q' (filter (\<lambda>d. \<not> f d) ds) True"
    unfolding queue_rep_def using q'(2,3,4) fm by metis
  with q'(1) xs(2) show ?thesis by blast
qed

lemma flushNodes_rep:
  "queue_rep q ds True \<Longrightarrow>
     \<exists>q'. flushNodes (Some f) q = Some (q', non_null (filter f ds)) \<and>
       queue_rep q' (filter (\<lambda>d. \<not> f d) ds) True"
  using flush_loop_rep [of q ds f] by (auto simp: flushNodes_def queue_rep_def)

lemma flushNodes_data_rep:
  "queue_rep q ds True \<Longrightarrow>
     \<exists>q'. flushNodes_data (Some f) m q = Some (q', non_null (filter (\<lambda>d. f d m) ds)) \<and>
       queue_rep q' (filter (\<lambda>d. \<not> f d m) ds) True"
  using flush_loop_rep [of q ds "\<lambda>d. f d m"] by (auto simp: flushNodes_data_def queue_rep_def)

lemma flush_rep:
  assumes "queue_rep q ds True"
  shows "\<exists>q'. flush q = Some (q', non_null ds) \<and> queue_rep q' [] False"
proof -
  obtain q' where q': "flush_loop (\<lambda>_. True) (nxt (q_links q) (m_head q)) q [] =
      Some (q', non_null ds)" "queue_rep q' [] True"
    using flush_loop_rep [OF assms, of "\<lambda>_. True"] by auto
  have "queue_rep (q'\<lparr>m_size := 0, m_active := False\<rparr>) [] False"
    using q'(2) by (auto simp: queue_rep_def queue_nodes_def)
  moreover have "m_active q" using assms by (simp add: queue_rep_def)
  ultimately show ?thesis using q'(1) by (simp add: flush_def)
qed

section \<open>The queue interface\<close>

text \<open>
  What the clients of a queue rely on: a queue represents a list and is open or closed; an
  enqueue on an open queue appends, on a closed one it is refused and changes nothing; a
  dequeue takes the oldest element, and returns the null element when there is none. The
  allocator is a parameter, since enqueue needs a node.
\<close>

fun enq_all :: "('m \<Rightarrow> 'a \<Rightarrow> 'q \<Rightarrow> bool \<times> 'q) \<Rightarrow> ('m \<times> 'a) list \<Rightarrow> 'q \<Rightarrow> bool list \<times> 'q" where
  "enq_all enq [] q = ([], q)"
| "enq_all enq ((m, x) # ms) q =
     (let (ok, q1) = enq m x q; (oks, q2) = enq_all enq ms q1 in (ok # oks, q2))"

fun all_fresh :: "('m \<Rightarrow> 'q \<Rightarrow> bool) \<Rightarrow> ('m \<Rightarrow> 'a \<Rightarrow> 'q \<Rightarrow> bool \<times> 'q) \<Rightarrow>
    ('m \<times> 'a) list \<Rightarrow> 'q \<Rightarrow> bool" where
  "all_fresh fresh enq [] q \<longleftrightarrow> True"
| "all_fresh fresh enq ((m, x) # ms) q \<longleftrightarrow>
     fresh m q \<and> all_fresh fresh enq ms (snd (enq m x q))"

fun deq_times :: "('q \<Rightarrow> 'a \<times> 'q) \<Rightarrow> nat \<Rightarrow> 'q \<Rightarrow> 'a list \<times> 'q" where
  "deq_times deq 0 q = ([], q)"
| "deq_times deq (Suc n) q =
     (let (x, q1) = deq q; (xs, q2) = deq_times deq n q1 in (x # xs, q2))"

locale data_queue =
  fixes rep :: "'q \<Rightarrow> 'a list \<Rightarrow> bool \<Rightarrow> bool"
    and fresh :: "'m \<Rightarrow> 'q \<Rightarrow> bool"
    and enq :: "'m \<Rightarrow> 'a \<Rightarrow> 'q \<Rightarrow> bool \<times> 'q"
    and deq :: "'q \<Rightarrow> 'a \<times> 'q"
    and null :: 'a
  assumes enq_open: "rep q xs True \<Longrightarrow> fresh m q \<Longrightarrow>
      \<exists>q'. enq m x q = (True, q') \<and> rep q' (xs @ [x]) True"
    and enq_closed: "rep q xs False \<Longrightarrow> fresh m q \<Longrightarrow> enq m x q = (False, q)"
    and deq_some: "rep q (x # xs) True \<Longrightarrow> \<exists>q'. deq q = (x, q') \<and> rep q' xs True"
    and deq_none: "rep q [] True \<Longrightarrow> deq q = (null, q)"
begin

lemma enq_all_appends:
  "rep q xs True \<Longrightarrow> all_fresh fresh enq ms q \<Longrightarrow>
     \<exists>q'. enq_all enq ms q = (map (\<lambda>_. True) ms, q') \<and> rep q' (xs @ map snd ms) True"
proof (induction ms arbitrary: q xs)
  case Nil
  then show ?case by simp
next
  case (Cons y ms)
  obtain m x where y: "y = (m, x)" by (cases y) auto
  from Cons.prems y obtain q1 where q1: "enq m x q = (True, q1)" "rep q1 (xs @ [x]) True"
    using enq_open by force
  with Cons.prems y have "all_fresh fresh enq ms q1" by simp
  from Cons.IH [OF q1(2) this] q1(1) y show ?case by auto
qed

lemma deq_times_takes:
  "rep q (xs @ ys) True \<Longrightarrow>
     \<exists>q'. deq_times deq (length xs) q = (xs, q') \<and> rep q' ys True"
proof (induction xs arbitrary: q)
  case Nil
  then show ?case by simp
next
  case (Cons x xs)
  then obtain q1 where q1: "deq q = (x, q1)" "rep q1 (xs @ ys) True"
    using deq_some by force
  from Cons.IH [OF q1(2)] q1(1) show ?case by auto
qed

lemma fifo_order:
  assumes "rep q [] True" "all_fresh fresh enq ms q"
  shows "\<exists>q1 q2. enq_all enq ms q = (map (\<lambda>_. True) ms, q1) \<and>
    deq_times deq (length ms) q1 = (map snd ms, q2) \<and> rep q2 [] True \<and>
    deq q2 = (null, q2)"
proof -
  obtain q1 where q1: "enq_all enq ms q = (map (\<lambda>_. True) ms, q1)" "rep q1 (map snd ms @ []) True"
    using enq_all_appends [OF assms] by auto
  obtain q2 where "deq_times deq (length (map snd ms)) q1 = (map snd ms, q2)" "rep q2 [] True"
    using deq_times_takes [OF q1(2)] by blast
  with q1(1) deq_none show ?thesis by auto
qed

end

interpretation cam_queue: data_queue queue_rep fresh_node enqueue "dequeue True" None
  by unfold_locales
    (simp_all add: enqueue_rep enqueue_inactive dequeue_head_rep dequeue_empty)

text \<open>
  The list-level queue that the state machine model uses for its two command queues: the
  same operations on the represented list.
\<close>

record 'd fifo =
  fifo_items :: "'d list"
  fifo_active :: bool

definition fifo_enqueue :: "bool \<Rightarrow> 'd \<Rightarrow> 'd fifo \<Rightarrow> bool \<times> 'd fifo" where
  "fifo_enqueue malloc_ok d q =
     (if \<not> malloc_ok then (False, q)
      else if fifo_active q then (True, q\<lparr>fifo_items := fifo_items q @ [d]\<rparr>)
      else (False, q))"

definition fifo_dequeue :: "'d fifo \<Rightarrow> 'd option \<times> 'd fifo" where
  "fifo_dequeue q =
     (if fifo_active q
      then (case fifo_items q of
              [] \<Rightarrow> (None, q)
            | d # ds \<Rightarrow> (Some d, q\<lparr>fifo_items := ds\<rparr>))
      else (None, q))"

text \<open>
  The pointer queue refines the list queue: related queues answer an enqueue and a dequeue
  alike and stay related.
\<close>

definition queue_refines :: "'d camera_queue \<Rightarrow> 'd fifo \<Rightarrow> bool" where
  "queue_refines q f \<longleftrightarrow> queue_rep q (map Some (fifo_items f)) (fifo_active f)"

lemma queue_refines_enqueue:
  assumes "queue_refines q f" "n = NULL \<or> fresh_node n q"
  shows "fst (enqueue n (Some d) q) = fst (fifo_enqueue (n \<noteq> NULL) d f) \<and>
    queue_refines (snd (enqueue n (Some d) q)) (snd (fifo_enqueue (n \<noteq> NULL) d f))"
proof (cases "n = NULL")
  case True
  then show ?thesis using assms by (simp add: fifo_enqueue_def)
next
  case False
  with assms have fr: "fresh_node n q" by simp
  show ?thesis
  proof (cases "fifo_active f")
    case True
    with assms(1) have "queue_rep q (map Some (fifo_items f)) True" by (simp add: queue_refines_def)
    from cam_queue.enq_open [OF this fr, of "Some d"] True False show ?thesis
      by (auto simp: fifo_enqueue_def queue_refines_def)
  next
    case inactive: False
    with assms(1) have "queue_rep q (map Some (fifo_items f)) False" by (simp add: queue_refines_def)
    from cam_queue.enq_closed [OF this fr, of "Some d"] inactive False assms(1) show ?thesis
      by (simp add: fifo_enqueue_def)
  qed
qed

lemma queue_refines_dequeue:
  assumes "queue_refines q f"
  shows "fst (dequeue True q) = fst (fifo_dequeue f) \<and>
    queue_refines (snd (dequeue True q)) (snd (fifo_dequeue f))"
proof (cases "fifo_active f")
  case False
  with assms have "\<not> m_active q" by (simp add: queue_refines_def queue_rep_def)
  with False assms show ?thesis by (simp add: dequeue_def fifo_dequeue_def)
next
  case True
  show ?thesis
  proof (cases "fifo_items f")
    case Nil
    with True assms have "queue_rep q [] True" by (simp add: queue_refines_def)
    from cam_queue.deq_none [OF this] Nil True assms show ?thesis by (simp add: fifo_dequeue_def)
  next
    case (Cons d ds)
    with True assms have "queue_rep q (Some d # map Some ds) True" by (simp add: queue_refines_def)
    from cam_queue.deq_some [OF this] Cons True show ?thesis
      by (auto simp: fifo_dequeue_def queue_refines_def)
  qed
qed

end
