(* ===== verification/Queue_Theorems.thy ===== *)
theory Queue_Theorems
  imports Camera_Queue
begin

text \<open>
  The properties of QCameraQueue: it keeps the order of its data, the priority end goes first,
  the searching operations terminate and act on the represented list as their list counterparts
  do, and the pointer structure refines the list queue of the state machine model.
\<close>

section \<open>A queue for the witnesses\<close>

definition demo_queue :: "nat camera_queue" where
  "demo_queue = QCameraQueue 1 \<lparr>nxt = (\<lambda>_. 0), prv = (\<lambda>_. 0)\<rparr>"

lemma demo_queue_rep: "queue_rep demo_queue [] True"
  by (simp add: demo_queue_def QCameraQueue_rep)

lemma demo_fresh: "2 \<le> n \<Longrightarrow> fresh_node n demo_queue"
  by (simp add: fresh_node_def demo_queue_def QCameraQueue_def)

definition demo_queue1 :: "nat camera_queue" where
  "demo_queue1 = snd (enqueue 2 (Some 7) demo_queue)"

lemma demo_queue1_rep: "queue_rep demo_queue1 [Some 7] True"
  using enqueue_rep [OF demo_queue_rep demo_fresh [of 2], of "Some 7"]
  by (auto simp: demo_queue1_def)

lemma demo_fresh1: "3 \<le> n \<Longrightarrow> fresh_node n demo_queue1"
  by (simp add: fresh_node_def demo_queue1_def demo_queue_def QCameraQueue_def enqueue_def Let_def)

section \<open>Properties\<close>

text \<open>
  First in, first out: data enqueued into an empty open queue comes out of dequeue in the
  order it went in, and then the queue is empty and answers NULL.
\<close>

theorem queue_first_in_first_out:
  assumes "queue_rep q [] True" and "all_fresh fresh_node enqueue ms q"
  shows "\<exists>q1 q2. enq_all enqueue ms q = (map (\<lambda>_. True) ms, q1) \<and>
    deq_times (dequeue True) (length ms) q1 = (map snd ms, q2) \<and> queue_rep q2 [] True \<and>
    dequeue True q2 = (None, q2)"
  by (rule cam_queue.fifo_order [OF assms])

lemma queue_first_in_first_out_witness:
  "\<exists>q1 q2. enq_all enqueue [(2, Some 7), (3, Some 8)] demo_queue =
      (map (\<lambda>_. True) [(2::ptr, Some (7::nat)), (3, Some 8)], q1) \<and>
    deq_times (dequeue True) (length [(2::ptr, Some (7::nat)), (3, Some 8)]) q1 =
      (map snd [(2::ptr, Some (7::nat)), (3, Some 8)], q2) \<and> queue_rep q2 [] True \<and>
    dequeue True q2 = (None, q2)"
  using demo_fresh [of 2] demo_fresh1 [of 3]
  by (intro queue_first_in_first_out demo_queue_rep) (simp add: demo_queue1_def [symmetric])

text \<open>
  What enqueueWithPriority takes comes out before everything that waits: the next dequeue
  returns it and leaves the queue with the data it had.
\<close>

theorem queue_priority_first:
  assumes "queue_rep q ds True" and "fresh_node n q"
  shows "\<exists>q1 q2. enqueueWithPriority n d q = (True, q1) \<and> dequeue True q1 = (d, q2) \<and>
    queue_rep q2 ds True"
  using enqueueWithPriority_rep [OF assms, of d] dequeue_head_rep by fastforce

lemma queue_priority_first_witness:
  "\<exists>q1 q2. enqueueWithPriority 3 (Some 8) demo_queue1 = (True, q1) \<and>
    dequeue True q1 = (Some 8, q2) \<and> queue_rep q2 [Some 7] True"
  by (rule queue_priority_first [OF demo_queue1_rep]) (simp add: demo_fresh1)

text \<open>
  dequeue from the tail takes the newest element and leaves the rest in order.
\<close>

theorem queue_tail_newest:
  assumes "queue_rep q (ds @ [d]) True"
  shows "\<exists>q'. dequeue False q = (d, q') \<and> queue_rep q' ds True"
  using dequeue_tail_rep [OF assms] .

lemma queue_tail_newest_witness:
  "\<exists>q'. dequeue False demo_queue1 = (Some 7, q') \<and> queue_rep q' [] True"
  by (rule queue_tail_newest) (simp add: demo_queue1_rep)

text \<open>
  The searching dequeue always returns: it takes the first element that matches out of the
  queue and keeps the order of the others, or returns NULL and changes nothing.
\<close>

theorem queue_match_terminates:
  assumes "queue_rep q ds True"
  shows "\<exists>q'. dequeue_match (Some f) q =
      Some (case take_first f ds of None \<Rightarrow> None | Some (d, _) \<Rightarrow> d, q') \<and>
    queue_rep q' (case take_first f ds of None \<Rightarrow> ds | Some (_, ds') \<Rightarrow> ds') True"
  by (rule dequeue_match_rep [OF assms])

lemma queue_match_terminates_witness:
  "\<exists>q'. dequeue_match (Some (\<lambda>d. d = Some 7)) demo_queue1 = Some (Some 7, q') \<and>
    queue_rep q' [] True"
  using queue_match_terminates [OF demo_queue1_rep, of "\<lambda>d. d = Some 7"] by simp

text \<open>
  flush always returns, hands every non-null element to the release function in queue order,
  and leaves the queue empty and closed, so that a later enqueue is refused.
\<close>

theorem queue_flush_terminates:
  assumes "queue_rep q ds True"
  shows "\<exists>q'. flush q = Some (q', non_null ds) \<and> queue_rep q' [] False \<and>
    (\<forall>n d. fst (enqueue n d q') = False)"
proof -
  obtain q' where q': "flush q = Some (q', non_null ds)" "queue_rep q' [] False"
    using flush_rep [OF assms] by auto
  have "fst (enqueue n d q') = False" for n d
    using q'(2) by (auto simp: queue_rep_def enqueue_def Let_def)
  with q' show ?thesis by blast
qed

lemma queue_flush_terminates_witness:
  "\<exists>q'. flush demo_queue1 = Some (q', non_null [Some 7]) \<and> queue_rep q' [] False \<and>
    (\<forall>n d. fst (enqueue n d q') = False)"
  by (rule queue_flush_terminates [OF demo_queue1_rep])

text \<open>
  flushNodes always returns, releases exactly the matching elements in queue order and keeps
  the others in order, the queue staying open.
\<close>

theorem queue_flush_nodes_filters:
  assumes "queue_rep q ds True"
  shows "\<exists>q'. flushNodes (Some f) q = Some (q', non_null (filter f ds)) \<and>
    queue_rep q' (filter (\<lambda>d. \<not> f d) ds) True"
  by (rule flushNodes_rep [OF assms])

lemma queue_flush_nodes_filters_witness:
  "\<exists>q'. flushNodes (Some (\<lambda>d. d = Some 9)) demo_queue1 =
      Some (q', non_null (filter (\<lambda>d. d = Some 9) [Some 7])) \<and>
    queue_rep q' (filter (\<lambda>d. \<not> d = Some 9) [Some 7]) True"
  by (rule queue_flush_nodes_filters [OF demo_queue1_rep])

text \<open>
  C13: The pointer queue refines the list queue with which the state machine is modelled: related
  queues answer an enqueue and a dequeue alike and stay related.
\<close>

theorem queue_refines_list_queue:
  assumes "queue_refines q f" and "n = NULL \<or> fresh_node n q"
  shows "fst (enqueue n (Some d) q) = fst (fifo_enqueue (n \<noteq> NULL) d f) \<and>
    queue_refines (snd (enqueue n (Some d) q)) (snd (fifo_enqueue (n \<noteq> NULL) d f)) \<and>
    fst (dequeue True q) = fst (fifo_dequeue f) \<and>
    queue_refines (snd (dequeue True q)) (snd (fifo_dequeue f))"
  using queue_refines_enqueue [OF assms] queue_refines_dequeue [OF assms(1)] by simp

lemma queue_refines_list_queue_witness:
  "fst (dequeue True demo_queue1) = fst (fifo_dequeue \<lparr>fifo_items = [7], fifo_active = True\<rparr>)"
  using queue_refines_list_queue
    [of demo_queue1 "\<lparr>fifo_items = [7], fifo_active = True\<rparr>" NULL 0]
  by (simp add: queue_refines_def demo_queue1_rep)

end
