(* ===== verification/Sm_Types.thy ===== *)
theory Sm_Types
  imports Camera_Queue
begin

text \<open>
  Data of the camera state machine (camera/QCamera2/HAL/QCameraStateMachine.h) and the calls it
  makes on its parent, the class QCamera2HardwareInterface. The model state holds the fields of
  the state machine, the few fields of the parent it reads or writes directly, and the trace of
  the calls it has made. What a call answers is decided by an environment, an arbitrary function
  of the calls made so far: it stands for the mm-camera stack, the driver and the other threads.
\<close>

section \<open>Events, states and results\<close>

datatype (plugins only: code size) sm_evt =
    EVT_SET_PREVIEW_WINDOW
  | EVT_SET_CALLBACKS
  | EVT_ENABLE_MSG_TYPE
  | EVT_DISABLE_MSG_TYPE
  | EVT_MSG_TYPE_ENABLED
  | EVT_SET_PARAMS
  | EVT_SET_PARAMS_STOP
  | EVT_SET_PARAMS_COMMIT
  | EVT_SET_PARAMS_RESTART
  | EVT_GET_PARAMS
  | EVT_PUT_PARAMS
  | EVT_PREPARE_PREVIEW
  | EVT_START_PREVIEW
  | EVT_START_NODISPLAY_PREVIEW
  | EVT_STOP_PREVIEW
  | EVT_PREVIEW_ENABLED
  | EVT_STORE_METADATA_IN_BUFS
  | EVT_PRE_START_RECORDING
  | EVT_START_RECORDING
  | EVT_STOP_RECORDING
  | EVT_RECORDING_ENABLED
  | EVT_RELEASE_RECORIDNG_FRAME
  | EVT_PREPARE_SNAPSHOT
  | EVT_PRE_TAKE_PICTURE
  | EVT_TAKE_PICTURE
  | EVT_CANCEL_PICTURE
  | EVT_START_AUTO_FOCUS
  | EVT_STOP_AUTO_FOCUS
  | EVT_SEND_COMMAND
  | EVT_RELEASE
  | EVT_DUMP
  | EVT_REG_FACE_IMAGE
  | EVT_EVT_INTERNAL
  | EVT_EVT_NOTIFY
  | EVT_JPEG_EVT_NOTIFY
  | EVT_SNAPSHOT_DONE
  | EVT_THERMAL_NOTIFY
  | EVT_STOP_CAPTURE_CHANNEL
  | EVT_RESTART_PERVIEW
  | EVT_DELAYED_RESTART
  | EVT_SEND_COMMAND_RESTART
  | EVT_RESTART_START_PREVIEW
  | EVT_RESTART_STOP_PREVIEW
  | EVT_MAX

text \<open>The enumerator values; the code compares some of them with integers.\<close>

definition evt_value :: "sm_evt \<Rightarrow> int32" where
  "evt_value e = (case e of
      EVT_SET_PREVIEW_WINDOW \<Rightarrow> 1 | EVT_SET_CALLBACKS \<Rightarrow> 2
    | EVT_ENABLE_MSG_TYPE \<Rightarrow> 3 | EVT_DISABLE_MSG_TYPE \<Rightarrow> 4
    | EVT_MSG_TYPE_ENABLED \<Rightarrow> 5 | EVT_SET_PARAMS \<Rightarrow> 6
    | EVT_SET_PARAMS_STOP \<Rightarrow> 7 | EVT_SET_PARAMS_COMMIT \<Rightarrow> 8
    | EVT_SET_PARAMS_RESTART \<Rightarrow> 9 | EVT_GET_PARAMS \<Rightarrow> 10
    | EVT_PUT_PARAMS \<Rightarrow> 11 | EVT_PREPARE_PREVIEW \<Rightarrow> 12
    | EVT_START_PREVIEW \<Rightarrow> 13 | EVT_START_NODISPLAY_PREVIEW \<Rightarrow> 14
    | EVT_STOP_PREVIEW \<Rightarrow> 15 | EVT_PREVIEW_ENABLED \<Rightarrow> 16
    | EVT_STORE_METADATA_IN_BUFS \<Rightarrow> 17 | EVT_PRE_START_RECORDING \<Rightarrow> 18
    | EVT_START_RECORDING \<Rightarrow> 19 | EVT_STOP_RECORDING \<Rightarrow> 20
    | EVT_RECORDING_ENABLED \<Rightarrow> 21 | EVT_RELEASE_RECORIDNG_FRAME \<Rightarrow> 22
    | EVT_PREPARE_SNAPSHOT \<Rightarrow> 23 | EVT_PRE_TAKE_PICTURE \<Rightarrow> 24
    | EVT_TAKE_PICTURE \<Rightarrow> 25 | EVT_CANCEL_PICTURE \<Rightarrow> 26
    | EVT_START_AUTO_FOCUS \<Rightarrow> 27 | EVT_STOP_AUTO_FOCUS \<Rightarrow> 28
    | EVT_SEND_COMMAND \<Rightarrow> 29 | EVT_RELEASE \<Rightarrow> 30 | EVT_DUMP \<Rightarrow> 31
    | EVT_REG_FACE_IMAGE \<Rightarrow> 32 | EVT_EVT_INTERNAL \<Rightarrow> 33
    | EVT_EVT_NOTIFY \<Rightarrow> 34 | EVT_JPEG_EVT_NOTIFY \<Rightarrow> 35
    | EVT_SNAPSHOT_DONE \<Rightarrow> 36 | EVT_THERMAL_NOTIFY \<Rightarrow> 37
    | EVT_STOP_CAPTURE_CHANNEL \<Rightarrow> 38 | EVT_RESTART_PERVIEW \<Rightarrow> 39
    | EVT_DELAYED_RESTART \<Rightarrow> 40 | EVT_SEND_COMMAND_RESTART \<Rightarrow> 41
    | EVT_RESTART_START_PREVIEW \<Rightarrow> 42 | EVT_RESTART_STOP_PREVIEW \<Rightarrow> 43
    | EVT_MAX \<Rightarrow> 44)"

datatype (plugins only: code size) sm_state =
    STATE_PREVIEW_STOPPED
  | STATE_PREVIEW_READY
  | STATE_PREVIEWING
  | STATE_PREPARE_SNAPSHOT
  | STATE_PIC_TAKING
  | STATE_RECORDING
  | STATE_VIDEO_PIC_TAKING
  | STATE_PREVIEW_PIC_TAKING

datatype api_result_type =
    API_RESULT_TYPE_DEF
  | API_RESULT_TYPE_ENABLE_FLAG
  | API_RESULT_TYPE_PARAMS
  | API_RESULT_TYPE_HANDLE

text \<open>The anonymous union of an API result; memset leaves it at zero.\<close>

datatype api_union = U_zero | U_enabled int32 | U_params ptr | U_handle int32

record api_result =
  status :: int32
  request_api :: sm_evt
  result_type :: api_result_type
  result_union :: api_union

record setcb_payload =
  notify_cb :: ptr
  data_cb :: ptr
  data_cb_timestamp :: ptr
  get_memory :: ptr
  cb_user :: ptr

text \<open>The commands of the platform header system/camera.h that the code names.\<close>

datatype (plugins only: code size) camera_cmd =
    CAMERA_CMD_LONGSHOT_ON
  | CAMERA_CMD_LONGSHOT_OFF
  | CAMERA_CMD_HISTOGRAM_ON
  | CAMERA_CMD_HISTOGRAM_OFF
  | CAMERA_CMD_HISTOGRAM_SEND_DATA
  | CAMERA_CMD_START_FACE_DETECTION
  | CAMERA_CMD_STOP_FACE_DETECTION
  | CAMERA_CMD_OTHER int32

record command_payload =
  cmd :: camera_cmd
  arg1 :: int32
  arg2 :: int32

record reg_face_payload =
  img_ptr :: ptr
  config :: ptr

datatype (plugins only: code size) internal_evt_type =
    INTERNAL_EVT_FOCUS_UPDATE
  | INTERNAL_EVT_PREP_SNAPSHOT_DONE
  | INTERNAL_EVT_FACE_DETECT_RESULT
  | INTERNAL_EVT_HISTOGRAM_STATS
  | INTERNAL_EVT_CROP_INFO
  | INTERNAL_EVT_ASD_UPDATE
  | INTERNAL_EVT_READY_FOR_SNAPSHOT
  | INTERNAL_EVT_LED_MODE_OVERRIDE
  | INTERNAL_EVT_AWB_UPDATE
  | INTERNAL_EVT_AE_UPDATE
  | INTERNAL_EVT_FOCUS_POS_UPDATE
  | INTERNAL_EVT_HDR_UPDATE
  | INTERNAL_EVT_RETRO_AEC_UNLOCK
  | INTERNAL_EVT_ZSL_CAPTURE_DONE
  | INTERNAL_EVT_DUAL_CAM_UPDATE
  | INTERNAL_EVT_MAX

text \<open>The union of an internal event is passed on as a whole: an opaque value.\<close>

record internal_evt_payload =
  evt_type :: internal_evt_type
  evt_data :: nat

datatype (plugins only: code size) cam_event_type =
    CAM_EVENT_TYPE_MAP_UNMAP_DONE
  | CAM_EVENT_TYPE_AUTO_FOCUS_DONE
  | CAM_EVENT_TYPE_ZOOM_DONE
  | CAM_EVENT_TYPE_DAEMON_DIED
  | CAM_EVENT_TYPE_INT_TAKE_JPEG
  | CAM_EVENT_TYPE_INT_TAKE_RAW
  | CAM_EVENT_TYPE_DAEMON_PULL_REQ
  | CAM_EVENT_TYPE_CAC_DONE
  | CAM_EVENT_TYPE_MAX

text \<open>
  A handler casts its void payload to the type its event carries; the model's payload has one
  reading per cast.
\<close>

record payload =
  as_ptr :: ptr
  as_setcb :: setcb_payload
  as_int32 :: int32
  as_command :: command_payload
  as_reg_face :: reg_face_payload
  as_internal :: internal_evt_payload
  as_cam_event :: cam_event_type

datatype sm_cmd_type = CMD_TYPE_API | CMD_TYPE_EVT | CMD_TYPE_EXIT

record sm_cmd =
  cmd_type :: sm_cmd_type
  cmd_evt :: sm_evt
  cmd_payload :: payload

datatype (plugins only: code size) ch_type =
    CH_TYPE_ZSL | CH_TYPE_CAPTURE | CH_TYPE_PREVIEW | CH_TYPE_VIDEO | CH_TYPE_SNAPSHOT
  | CH_TYPE_RAW | CH_TYPE_METADATA | CH_TYPE_ANALYSIS | CH_TYPE_CALLBACK

section \<open>Calls on the parent\<close>

text \<open>Questions to the parent or to the allocator, with no effect of their own.\<close>

datatype (plugins only: code size) hal_query =
    Q_isZSLMode
  | Q_isLongshotEnabled
  | Q_isPreviewRestartEnabled
  | Q_isRetroPicture
  | Q_isCACEnabled
  | Q_isOEMFeatEnabled
  | Q_isCaptureShutterEnabled
  | Q_getRecordingHintValue
  | Q_getManualCaptureMode
  | Q_isUBWCEnabled
  | Q_channelExists ch_type
  | Q_isActive ch_type
  | Q_snapshotBuffersShort
  | Q_syncControlOn
  | Q_mPrepSnapRun
  | Q_needRestart
  | Q_faceID
  | Q_malloc
  | Q_isNoDisplayMode
  | Q_mFlashNeeded
  | Q_isChromaFlashEnabled
  | Q_getNumOfRetroSnapshots
  | Q_isLiveSnapshot
  | Q_isHDRMode
  | Q_mLongshotEnabled
  | Q_indeterminate

text \<open>The consumers of the metadata events.\<close>

datatype (plugins only: code size) process_op =
    P_AutoFocusEvent | P_PrepSnapshotDoneEvent | P_FaceDetectionResult | P_HistogramStats
  | P_ZoomEvent | P_ASDUpdate | P_updateFlashMode | P_transAwbMetaToParams | P_AEInfo
  | P_FocusPositionInfo | P_HDRData | P_RetroAECUnlock | P_ZSLCaptureDone | P_DualCameraUpdate

datatype (plugins only: code size) hal_flag =
    F_mCACDoneReceived | F_m_bPreviewStarted | F_mPrepSnapRun | F_mLongshotEnabled
  | F_m_bRecordStarted | F_mPreviewRestartNeeded | F_mRetroPicture | F_m_bLedAfAecLock

datatype (plugins only: code size) hal_call =
    H_query hal_query
  | H_process process_op nat
  | H_set hal_flag bool
  | H_signalAPIResult api_result
  | H_signalEvtResult api_result
  | H_sendEvtNotify int32 int32 int32
  | H_waitDeferredWork
  | H_setCallBacks setcb_payload
  | H_updateParameters ptr
  | H_commitParameterChanges
  | H_getParameters
  | H_putParameters ptr
  | H_memoryPool_clear
  | H_preparePreview
  | H_unpreparePreview
  | H_startPreview
  | H_stopPreview
  | H_startChannel ch_type
  | H_stopChannel ch_type
  | H_storeMetaDataInBuffers int32
  | H_preStartRecording
  | H_startRecording
  | H_stopRecording
  | H_releaseRecordingFrame ptr
  | H_closeNativeHandle ptr
  | H_prepareHardwareForSnapshot bool
  | H_preTakePicture
  | H_takePicture
  | H_takeLiveSnapshot
  | H_longShot
  | H_cancelPicture
  | H_cancelLiveSnapshot
  | H_unconfigureAdvancedCapture
  | H_stopCaptureChannel bool
  | H_stop_zsl_snapshot
  | H_updateRecordingHintValue bool
  | H_updateZSLModeValue bool
  | H_autoFocus
  | H_cancelAutoFocus
  | H_registerFaceImage reg_face_payload
  | H_release
  | H_dump int32
  | H_updateThermalLevel ptr
  | H_processJpegNotify ptr
  | H_playShutter
  | H_perfLockAcq
  | H_perfLockRel
  | H_perfLockRelTimed
  | H_powerHintOff
  | H_setLongshotEnable bool
  | H_setHistogram bool
  | H_setFaceDetectionOption bool
  | H_setFaceDetection bool

section \<open>State and primitive steps\<close>

record hal =
  m_state :: sm_state
  m_bDelayPreviewMsgs :: bool
  m_bPreviewNeedsRestart :: bool
  m_bPreviewDelayedRestart :: bool
  m_DelayedMsgs :: int32
  m_RestoreZSL :: bool
  m_bPreviewCallbackNeeded :: bool
  api_queue :: "sm_cmd fifo"
  evt_queue :: "sm_cmd fifo"
  cmd_sem :: nat
  cmd_pid :: bool
  mPreviewWindow :: ptr
  mMsgEnabled :: int32
  m_bNeedRestart :: bool
  trace :: "hal_call list"
  env :: "hal_call list \<Rightarrow> hal_call \<Rightarrow> int32"

type_synonym 'a hal_m = "(hal, 'a) state"

definition ask :: "hal_call \<Rightarrow> int32 hal_m" where
  "ask c = State (\<lambda>s. (env s (trace s) c, s\<lparr>trace := trace s @ [c]\<rparr>))"

definition tell :: "hal_call \<Rightarrow> unit hal_m" where
  "tell c = State (\<lambda>s. ((), s\<lparr>trace := trace s @ [c]\<rparr>))"

definition query :: "hal_query \<Rightarrow> int32 hal_m" where
  "query q = ask (H_query q)"

definition query_bool :: "hal_query \<Rightarrow> bool hal_m" where
  "query_bool q = do { r \<leftarrow> query q; State_Monad.return (r \<noteq> 0) }"

definition gets :: "(hal \<Rightarrow> 'a) \<Rightarrow> 'a hal_m" where
  "gets f = State (\<lambda>s. (f s, s))"

definition modify :: "(hal \<Rightarrow> hal) \<Rightarrow> unit hal_m" where
  "modify f = State (\<lambda>s. ((), f s))"

definition set_state :: "sm_state \<Rightarrow> unit hal_m" where
  "set_state st = modify (\<lambda>s. s\<lparr>m_state := st\<rparr>)"

definition skip :: "unit hal_m" where
  "skip = State_Monad.return ()"

lemma run_bind [hal_run]:
  "run_state (m \<bind> f) s = run_state (f (fst (run_state m s))) (snd (run_state m s))"
  by (simp add: case_prod_beta)

lemma run_ask [hal_run]:
  "run_state (ask c) s = (env s (trace s) c, s\<lparr>trace := trace s @ [c]\<rparr>)"
  by (simp add: ask_def)

lemma run_tell [hal_run]: "run_state (tell c) s = ((), s\<lparr>trace := trace s @ [c]\<rparr>)"
  by (simp add: tell_def)

lemma run_query [hal_run]:
  "run_state (query q) s = (env s (trace s) (H_query q), s\<lparr>trace := trace s @ [H_query q]\<rparr>)"
  by (simp add: query_def run_ask)

lemma run_query_bool [hal_run]:
  "run_state (query_bool q) s =
     (env s (trace s) (H_query q) \<noteq> 0, s\<lparr>trace := trace s @ [H_query q]\<rparr>)"
  by (simp add: query_bool_def run_query case_prod_beta)

lemma run_gets [hal_run]: "run_state (gets f) s = (f s, s)"
  by (simp add: gets_def)

lemma run_modify [hal_run]: "run_state (modify f) s = ((), f s)"
  by (simp add: modify_def)

lemma run_set_state [hal_run]: "run_state (set_state st) s = ((), s\<lparr>m_state := st\<rparr>)"
  by (simp add: set_state_def run_modify)

lemma run_skip [hal_run]: "run_state skip s = ((), s)"
  by (simp add: skip_def)

lemma run_if [hal_run]:
  "run_state (if b then m else n) s = (if b then run_state m s else run_state n s)"
  by simp

text \<open>
  The bind rule of the library splits the pair; the one above projects it, which keeps a run
  first-order. A choice is pushed to the fields of the record, where equal branches cancel.
\<close>

declare run_state_bind [simp del]
declare if_weak_cong [cong del]

lemma run_branch [hal_run]:
  fixes x y :: "'a \<times> 'b"
  shows "fst (if b then x else y) = (if b then fst x else fst y)"
    "snd (if b then x else y) = (if b then snd x else snd y)"
  by simp_all

lemma field_branch [hal_run]:
  fixes x y :: hal
  shows "m_state (if b then x else y) = (if b then m_state x else m_state y)"
    "m_bDelayPreviewMsgs (if b then x else y) =
       (if b then m_bDelayPreviewMsgs x else m_bDelayPreviewMsgs y)"
    "m_bPreviewNeedsRestart (if b then x else y) =
       (if b then m_bPreviewNeedsRestart x else m_bPreviewNeedsRestart y)"
    "m_bPreviewDelayedRestart (if b then x else y) =
       (if b then m_bPreviewDelayedRestart x else m_bPreviewDelayedRestart y)"
    "m_DelayedMsgs (if b then x else y) = (if b then m_DelayedMsgs x else m_DelayedMsgs y)"
    "m_RestoreZSL (if b then x else y) = (if b then m_RestoreZSL x else m_RestoreZSL y)"
    "m_bPreviewCallbackNeeded (if b then x else y) =
       (if b then m_bPreviewCallbackNeeded x else m_bPreviewCallbackNeeded y)"
    "api_queue (if b then x else y) = (if b then api_queue x else api_queue y)"
    "evt_queue (if b then x else y) = (if b then evt_queue x else evt_queue y)"
    "cmd_sem (if b then x else y) = (if b then cmd_sem x else cmd_sem y)"
    "mPreviewWindow (if b then x else y) = (if b then mPreviewWindow x else mPreviewWindow y)"
    "mMsgEnabled (if b then x else y) = (if b then mMsgEnabled x else mMsgEnabled y)"
    "m_bNeedRestart (if b then x else y) = (if b then m_bNeedRestart x else m_bNeedRestart y)"
    "trace (if b then x else y) = (if b then trace x else trace y)"
    "env (if b then x else y) = (if b then env x else env y)"
  by simp_all

end
