(* ===== verification/Sm_Ops.thy ===== *)
theory Sm_Ops
  imports Sm_Types
begin

text \<open>
  The operations the state handlers are made of: posting results, the message masks with their
  delayed part (applyDelayedMsgs), the parameter update, sendCommand, and the posting side of the
  two command queues (procAPI, procEvt). Each comes with its frame lemmas: which fields it keeps,
  and that it posts no API or event result.
\<close>

section \<open>Platform constants\<close>

text \<open>Values of system/camera.h.\<close>

definition CAMERA_MSG_ERROR :: int32 where
  "CAMERA_MSG_ERROR = 0x0001"

definition CAMERA_MSG_PREVIEW_FRAME :: int32 where
  "CAMERA_MSG_PREVIEW_FRAME = 0x0010"

definition CAMERA_ERROR_SERVER_DIED :: int32 where
  "CAMERA_ERROR_SERVER_DIED = 100"

text \<open>cam\_manual\_capture\_type, an enumeration compared with >=.\<close>

definition CAM_MANUAL_CAPTURE_TYPE_3 :: int32 where
  "CAM_MANUAL_CAPTURE_TYPE_3 = 3"

section \<open>Queries of the state machine\<close>

definition sm_isRecording :: "sm_state \<Rightarrow> bool" where
  "sm_isRecording st = (case st of
      STATE_RECORDING \<Rightarrow> True
    | STATE_VIDEO_PIC_TAKING \<Rightarrow> True
    | _ \<Rightarrow> False)"

definition sm_isPreviewRunning :: "sm_state \<Rightarrow> bool" where
  "sm_isPreviewRunning st = (case st of
      STATE_PREVIEWING \<Rightarrow> True
    | STATE_RECORDING \<Rightarrow> True
    | STATE_VIDEO_PIC_TAKING \<Rightarrow> True
    | STATE_PREVIEW_PIC_TAKING \<Rightarrow> True
    | STATE_PREPARE_SNAPSHOT \<Rightarrow> True
    | STATE_PREVIEW_READY \<Rightarrow> True
    | _ \<Rightarrow> False)"

definition sm_isPreviewReady :: "sm_state \<Rightarrow> bool" where
  "sm_isPreviewReady st = (case st of STATE_PREVIEW_READY \<Rightarrow> True | _ \<Rightarrow> False)"

definition sm_isCaptureRunning :: "sm_state \<Rightarrow> bool" where
  "sm_isCaptureRunning st = (case st of
      STATE_PIC_TAKING \<Rightarrow> True
    | STATE_VIDEO_PIC_TAKING \<Rightarrow> True
    | STATE_PREVIEW_PIC_TAKING \<Rightarrow> True
    | _ \<Rightarrow> False)"

definition sm_isNonZSLCaptureRunning :: "sm_state \<Rightarrow> bool" where
  "sm_isNonZSLCaptureRunning st = (case st of STATE_PIC_TAKING \<Rightarrow> True | _ \<Rightarrow> False)"

section \<open>Posting results\<close>

definition signalAPIResult :: "api_result \<Rightarrow> unit hal_m" where
  "signalAPIResult r = tell (H_signalAPIResult r)"

definition signalEvtResult :: "api_result \<Rightarrow> unit hal_m" where
  "signalEvtResult r = tell (H_signalEvtResult r)"

text \<open>
  The ends of a handler's case: the result is filled in with the status, the request and the
  result type and posted, and the case returns rc.
\<close>

definition reply :: "sm_evt \<Rightarrow> int32 \<Rightarrow> int32 hal_m" where
  "reply evt rc = do {
     signalAPIResult \<lparr>status = rc, request_api = evt, result_type = API_RESULT_TYPE_DEF,
                       result_union = U_zero\<rparr>;
     State_Monad.return rc }"

definition reply_flag :: "sm_evt \<Rightarrow> int32 \<Rightarrow> int32 \<Rightarrow> int32 hal_m" where
  "reply_flag evt rc enabled = do {
     signalAPIResult \<lparr>status = rc, request_api = evt,
                       result_type = API_RESULT_TYPE_ENABLE_FLAG,
                       result_union = U_enabled enabled\<rparr>;
     State_Monad.return rc }"

definition reply_params :: "sm_evt \<Rightarrow> ptr \<Rightarrow> int32 hal_m" where
  "reply_params evt p = do {
     let rc = (if p \<noteq> NULL then NO_ERROR else UNKNOWN_ERROR);
     signalAPIResult \<lparr>status = rc, request_api = evt, result_type = API_RESULT_TYPE_PARAMS,
                       result_union = U_params p\<rparr>;
     State_Monad.return rc }"

definition reply_handle :: "sm_evt \<Rightarrow> int32 \<Rightarrow> int32 \<Rightarrow> int32 hal_m" where
  "reply_handle evt rc handle = do {
     signalAPIResult \<lparr>status = rc, request_api = evt, result_type = API_RESULT_TYPE_HANDLE,
                       result_union = U_handle handle\<rparr>;
     State_Monad.return rc }"

definition reply_evt :: "sm_evt \<Rightarrow> int32 \<Rightarrow> int32 hal_m" where
  "reply_evt evt rc = do {
     signalEvtResult \<lparr>status = rc, request_api = evt, result_type = API_RESULT_TYPE_DEF,
                       result_union = U_zero\<rparr>;
     State_Monad.return rc }"

lemmas reply_defs =
  reply_def reply_flag_def reply_params_def reply_handle_def reply_evt_def signalAPIResult_def
  signalEvtResult_def

text \<open>What a trace has posted.\<close>

definition api_signal :: "hal_call \<Rightarrow> api_result list" where
  "api_signal c = (case c of H_signalAPIResult r \<Rightarrow> [r] | _ \<Rightarrow> [])"

definition evt_signal :: "hal_call \<Rightarrow> api_result list" where
  "evt_signal c = (case c of H_signalEvtResult r \<Rightarrow> [r] | _ \<Rightarrow> [])"

definition api_signals :: "hal_call list \<Rightarrow> api_result list" where
  "api_signals tr = concat (map api_signal tr)"

definition evt_signals :: "hal_call list \<Rightarrow> api_result list" where
  "evt_signals tr = concat (map evt_signal tr)"

lemma signals_simps [simp]:
  "api_signals [] = []" "evt_signals [] = []"
  "api_signals (xs @ ys) = api_signals xs @ api_signals ys"
  "evt_signals (xs @ ys) = evt_signals xs @ evt_signals ys"
  "api_signals (c # cs) = api_signal c @ api_signals cs"
  "evt_signals (c # cs) = evt_signal c @ evt_signals cs"
  by (simp_all add: api_signals_def evt_signals_def)

section \<open>Message types\<close>

definition msgTypeEnabled :: "int32 \<Rightarrow> int32 hal_m" where
  "msgTypeEnabled msg = gets (\<lambda>s. mMsgEnabled s AND msg)"

definition preview_channel :: "ch_type hal_m" where
  "preview_channel = do {
     zsl \<leftarrow> query_bool Q_isZSLMode;
     if zsl then do {
       hint \<leftarrow> query_bool Q_getRecordingHintValue;
       State_Monad.return (if \<not> hint then CH_TYPE_ZSL else CH_TYPE_PREVIEW) }
     else State_Monad.return CH_TYPE_PREVIEW }"

definition enableMsgType :: "int32 \<Rightarrow> int32 hal_m" where
  "enableMsgType msg = do {
     ubwc \<leftarrow> query_bool Q_isUBWCEnabled;
     enabled \<leftarrow> msgTypeEnabled CAMERA_MSG_PREVIEW_FRAME;
     rc \<leftarrow> (if ubwc \<and> enabled = 0 \<and> msg AND CAMERA_MSG_PREVIEW_FRAME \<noteq> 0 then do {
              ch \<leftarrow> preview_channel;
              callbackCh \<leftarrow> query_bool (Q_channelExists CH_TYPE_CALLBACK);
              previewCh \<leftarrow> query_bool (Q_channelExists ch);
              active \<leftarrow> query_bool (Q_isActive ch);
              if callbackCh \<and> previewCh \<and> active then ask (H_startChannel CH_TYPE_CALLBACK)
              else State_Monad.return NO_ERROR }
            else State_Monad.return NO_ERROR);
     modify (\<lambda>s. s\<lparr>mMsgEnabled := mMsgEnabled s OR msg\<rparr>);
     State_Monad.return rc }"

definition disableMsgType :: "int32 \<Rightarrow> int32 hal_m" where
  "disableMsgType msg = do {
     ubwc \<leftarrow> query_bool Q_isUBWCEnabled;
     enabled \<leftarrow> msgTypeEnabled CAMERA_MSG_PREVIEW_FRAME;
     rc \<leftarrow> (if ubwc \<and> enabled \<noteq> 0 \<and> msg AND CAMERA_MSG_PREVIEW_FRAME \<noteq> 0 then do {
              callbackCh \<leftarrow> query_bool (Q_channelExists CH_TYPE_CALLBACK);
              active \<leftarrow> query_bool (Q_isActive CH_TYPE_CALLBACK);
              if callbackCh \<and> active then ask (H_stopChannel CH_TYPE_CALLBACK)
              else State_Monad.return NO_ERROR }
            else State_Monad.return NO_ERROR);
     modify (\<lambda>s. s\<lparr>mMsgEnabled := mMsgEnabled s AND NOT msg\<rparr>);
     State_Monad.return rc }"

definition applyDelayedMsgs :: "int32 hal_m" where
  "applyDelayedMsgs = do {
     delay \<leftarrow> gets m_bDelayPreviewMsgs;
     msgs \<leftarrow> gets m_DelayedMsgs;
     if delay \<and> msgs \<noteq> 0 then do {
       rc \<leftarrow> enableMsgType msgs;
       modify (\<lambda>s. s\<lparr>m_bDelayPreviewMsgs := False\<rparr>);
       modify (\<lambda>s. s\<lparr>m_DelayedMsgs := 0\<rparr>);
       State_Monad.return rc }
     else if delay then do {
       modify (\<lambda>s. s\<lparr>m_bDelayPreviewMsgs := False\<rparr>);
       State_Monad.return NO_ERROR }
     else State_Monad.return NO_ERROR }"

section \<open>Preview window, parameters, face image\<close>

definition setPreviewWindow :: "ptr \<Rightarrow> int32 hal_m" where
  "setPreviewWindow w = do {
     modify (\<lambda>s. s\<lparr>mPreviewWindow := w\<rparr>);
     State_Monad.return NO_ERROR }"

definition setNeedRestart :: "bool \<Rightarrow> unit hal_m" where
  "setNeedRestart b = modify (\<lambda>s. s\<lparr>m_bNeedRestart := b\<rparr>)"

definition updateParameters :: "ptr \<Rightarrow> (int32 \<times> bool) hal_m" where
  "updateParameters parms = do {
     rc \<leftarrow> ask (H_updateParameters parms);
     needRestart \<leftarrow> query_bool Q_needRestart;
     setNeedRestart needRestart;
     State_Monad.return (rc, needRestart) }"

definition registerFaceImage :: "reg_face_payload \<Rightarrow> (int32 \<times> int32) hal_m" where
  "registerFaceImage p = do {
     rc \<leftarrow> ask (H_registerFaceImage p);
     faceID \<leftarrow> query Q_faceID;
     State_Monad.return (rc, faceID) }"

definition getParameters :: "ptr hal_m" where
  "getParameters = do { p \<leftarrow> ask H_getParameters; State_Monad.return (unat p) }"

section \<open>Posting to the command queues\<close>

definition procAPI :: "sm_evt \<Rightarrow> payload \<Rightarrow> int32 hal_m" where
  "procAPI evt p = do {
     node \<leftarrow> query_bool Q_malloc;
     if \<not> node then State_Monad.return NO_MEMORY
     else do {
       q_node \<leftarrow> query_bool Q_malloc;
       q \<leftarrow> gets api_queue;
       let (ok, q') = fifo_enqueue q_node
             \<lparr>cmd_type = CMD_TYPE_API, cmd_evt = evt, cmd_payload = p\<rparr> q;
       modify (\<lambda>s. s\<lparr>api_queue := q'\<rparr>);
       if ok then do {
         modify (\<lambda>s. s\<lparr>cmd_sem := cmd_sem s + 1\<rparr>);
         State_Monad.return NO_ERROR }
       else State_Monad.return UNKNOWN_ERROR } }"

definition procEvt :: "sm_evt \<Rightarrow> payload \<Rightarrow> int32 hal_m" where
  "procEvt evt p = do {
     node \<leftarrow> query_bool Q_malloc;
     if \<not> node then State_Monad.return NO_MEMORY
     else do {
       q_node \<leftarrow> query_bool Q_malloc;
       q \<leftarrow> gets evt_queue;
       let (ok, q') = fifo_enqueue q_node
             \<lparr>cmd_type = CMD_TYPE_EVT, cmd_evt = evt, cmd_payload = p\<rparr> q;
       modify (\<lambda>s. s\<lparr>evt_queue := q'\<rparr>);
       if ok then do {
         modify (\<lambda>s. s\<lparr>cmd_sem := cmd_sem s + 1\<rparr>);
         State_Monad.return NO_ERROR }
       else State_Monad.return UNKNOWN_ERROR } }"

text \<open>The NULL payload of an event: every reading of it is void.\<close>

definition null_payload :: payload where
  "null_payload =
     \<lparr>as_ptr = NULL,
      as_setcb = \<lparr>notify_cb = NULL, data_cb = NULL, data_cb_timestamp = NULL,
                  get_memory = NULL, cb_user = NULL\<rparr>,
      as_int32 = 0,
      as_command = \<lparr>cmd = CAMERA_CMD_OTHER 0, arg1 = 0, arg2 = 0\<rparr>,
      as_reg_face = \<lparr>img_ptr = NULL, config = NULL\<rparr>,
      as_internal = \<lparr>evt_type = INTERNAL_EVT_MAX, evt_data = 0\<rparr>,
      as_cam_event = CAM_EVENT_TYPE_MAX\<rparr>"

section \<open>sendCommand\<close>

text \<open>
  The two argument references are results: enabling longshot clears them, and asks for a
  preview restart through them. Q\_snapshotBuffersShort is the inner search for a snapshot
  stream of the ZSL channel with fewer buffers than longshot needs.
\<close>

definition longshot_on :: "(int32 \<times> int32 \<times> int32) hal_m" where
  "longshot_on = do {
     tell H_perfLockAcq;
     st \<leftarrow> gets m_state;
     if \<not> sm_isCaptureRunning st then do {
       tell (H_set F_mLongshotEnabled True);
       rc \<leftarrow> ask (H_setLongshotEnable True);
       zsl \<leftarrow> query_bool Q_isZSLMode;
       short \<leftarrow> (if zsl \<and> sm_isPreviewRunning st then query_bool Q_snapshotBuffersShort
                else State_Monad.return False);
       sync \<leftarrow> (if short then query_bool Q_syncControlOn else State_Monad.return False);
       tell (H_set F_mPrepSnapRun False);
       tell (H_set F_mCACDoneReceived False);
       State_Monad.return
         (rc, if short then evt_value EVT_RESTART_PERVIEW else 0,
          if sync then evt_value EVT_DELAYED_RESTART else 0) }
     else State_Monad.return (NO_INIT, 0, 0) }"

definition longshot_off :: "int32 hal_m" where
  "longshot_off = do {
     tell H_perfLockRel;
     st \<leftarrow> gets m_state;
     longshot \<leftarrow> query_bool Q_isLongshotEnabled;
     (if longshot \<and> sm_isCaptureRunning st then do {
        _ \<leftarrow> ask H_cancelPicture;
        _ \<leftarrow> procEvt EVT_SNAPSHOT_DONE null_payload;
        zsl \<leftarrow> query_bool Q_isZSLMode;
        ch \<leftarrow> query_bool (Q_channelExists CH_TYPE_ZSL);
        prep \<leftarrow> query_bool Q_mPrepSnapRun;
        if zsl \<and> ch \<and> prep then tell H_stop_zsl_snapshot else skip }
      else skip);
     tell (H_set F_mPrepSnapRun False);
     tell (H_set F_mLongshotEnabled False);
     rc \<leftarrow> ask (H_setLongshotEnable False);
     tell (H_set F_mCACDoneReceived False);
     State_Monad.return rc }"

definition sendCommand :: "command_payload \<Rightarrow> (int32 \<times> int32 \<times> int32) hal_m" where
  "sendCommand p = (case cmd p of
      CAMERA_CMD_LONGSHOT_ON \<Rightarrow> longshot_on
    | CAMERA_CMD_LONGSHOT_OFF \<Rightarrow> do {
        rc \<leftarrow> longshot_off;
        State_Monad.return (rc, arg1 p, arg2 p) }
    | CAMERA_CMD_HISTOGRAM_ON \<Rightarrow> do {
        rc \<leftarrow> ask (H_setHistogram True);
        State_Monad.return (rc, arg1 p, arg2 p) }
    | CAMERA_CMD_HISTOGRAM_OFF \<Rightarrow> do {
        rc \<leftarrow> ask (H_setHistogram False);
        State_Monad.return (rc, arg1 p, arg2 p) }
    | CAMERA_CMD_START_FACE_DETECTION \<Rightarrow> do {
        tell (H_setFaceDetectionOption True);
        rc \<leftarrow> ask (H_setFaceDetection True);
        State_Monad.return (rc, arg1 p, arg2 p) }
    | CAMERA_CMD_STOP_FACE_DETECTION \<Rightarrow> do {
        tell (H_setFaceDetectionOption False);
        rc \<leftarrow> ask (H_setFaceDetection False);
        State_Monad.return (rc, arg1 p, arg2 p) }
    | _ \<Rightarrow> State_Monad.return (NO_ERROR, arg1 p, arg2 p))"

section \<open>Fragments that the handlers share\<close>

text \<open>Work that must not start before the deferred parameter initialisation has succeeded.\<close>

definition afterParamInit :: "int32 hal_m \<Rightarrow> int32 hal_m" where
  "afterParamInit m = do {
     rc \<leftarrow> ask H_waitDeferredWork;
     if rc \<noteq> NO_ERROR then State_Monad.return rc else m }"

definition start_or_unprepare :: "int32 hal_m" where
  "start_or_unprepare = do {
     rc \<leftarrow> ask H_startPreview;
     (if rc \<noteq> NO_ERROR then tell H_unpreparePreview else skip);
     State_Monad.return rc }"

definition prepare_and_start :: "int32 hal_m" where
  "prepare_and_start = do {
     rc \<leftarrow> ask H_preparePreview;
     if rc = NO_ERROR then start_or_unprepare else State_Monad.return rc }"

text \<open>The same with the delayed messages applied between the two.\<close>

definition prepare_apply_start :: "int32 hal_m" where
  "prepare_apply_start = do {
     rc \<leftarrow> ask H_preparePreview;
     if rc = NO_ERROR then do { _ \<leftarrow> applyDelayedMsgs; start_or_unprepare }
     else State_Monad.return rc }"

definition notify_server_died :: "cam_event_type \<Rightarrow> unit hal_m" where
  "notify_server_died e =
     (if e = CAM_EVENT_TYPE_DAEMON_DIED
      then tell (H_sendEvtNotify CAMERA_MSG_ERROR CAMERA_ERROR_SERVER_DIED 0) else skip)"

definition reject :: "sm_evt \<Rightarrow> int32 hal_m" where
  "reject evt = reply evt INVALID_OPERATION"

lemmas [sm_defs] =
  afterParamInit_def start_or_unprepare_def prepare_and_start_def prepare_apply_start_def
  notify_server_died_def reject_def reply_defs setPreviewWindow_def setNeedRestart_def
  updateParameters_def registerFaceImage_def getParameters_def msgTypeEnabled_def

section \<open>Frames\<close>

text \<open>
  The calls that matter to the order of operations: everything but the questions and the
  bookkeeping of the callback channel.
\<close>

definition major_call :: "hal_call \<Rightarrow> bool" where
  "major_call c = (case c of
      H_query _ \<Rightarrow> False
    | H_startChannel ch \<Rightarrow> ch \<noteq> CH_TYPE_CALLBACK
    | H_stopChannel ch \<Rightarrow> ch \<noteq> CH_TYPE_CALLBACK
    | _ \<Rightarrow> True)"

definition major :: "hal_call list \<Rightarrow> hal_call list" where
  "major tr = filter major_call tr"

lemma major_simps [simp]:
  "major [] = []" "major (xs @ ys) = major xs @ major ys"
  "major (c # cs) = (if major_call c then c # major cs else major cs)"
  by (simp_all add: major_def)

lemmas call_kinds = api_signal_def evt_signal_def major_call_def

named_theorems frame "fields an operation keeps"

lemma preview_channel_frame [frame]:
  fixes s :: hal
  defines "t \<equiv> snd (run_state preview_channel s)"
  shows "m_state t = m_state s" "m_bDelayPreviewMsgs t = m_bDelayPreviewMsgs s"
    "m_DelayedMsgs t = m_DelayedMsgs s" "m_RestoreZSL t = m_RestoreZSL s"
    "mPreviewWindow t = mPreviewWindow s" "mMsgEnabled t = mMsgEnabled s"
    "m_bNeedRestart t = m_bNeedRestart s" "env t = env s" "api_queue t = api_queue s"
    "evt_queue t = evt_queue s" "cmd_sem t = cmd_sem s"
    "m_bPreviewNeedsRestart t = m_bPreviewNeedsRestart s"
    "m_bPreviewDelayedRestart t = m_bPreviewDelayedRestart s"
    "m_bPreviewCallbackNeeded t = m_bPreviewCallbackNeeded s"
    "api_signals (trace t) = api_signals (trace s)"
    "evt_signals (trace t) = evt_signals (trace s)"
    "major (trace t) = major (trace s)"
  unfolding t_def by (simp_all add: preview_channel_def hal_run call_kinds)

lemma enableMsgType_frame [frame]:
  fixes s :: hal and m :: int32
  defines "t \<equiv> snd (run_state (enableMsgType m) s)"
  shows "m_state t = m_state s" "m_bDelayPreviewMsgs t = m_bDelayPreviewMsgs s"
    "m_DelayedMsgs t = m_DelayedMsgs s" "m_RestoreZSL t = m_RestoreZSL s"
    "mPreviewWindow t = mPreviewWindow s" "mMsgEnabled t = mMsgEnabled s OR m"
    "m_bNeedRestart t = m_bNeedRestart s" "env t = env s" "api_queue t = api_queue s"
    "evt_queue t = evt_queue s" "cmd_sem t = cmd_sem s"
    "m_bPreviewNeedsRestart t = m_bPreviewNeedsRestart s"
    "m_bPreviewDelayedRestart t = m_bPreviewDelayedRestart s"
    "m_bPreviewCallbackNeeded t = m_bPreviewCallbackNeeded s"
    "api_signals (trace t) = api_signals (trace s)"
    "evt_signals (trace t) = evt_signals (trace s)"
    "major (trace t) = major (trace s)"
  unfolding t_def
  by (simp_all add: enableMsgType_def msgTypeEnabled_def hal_run call_kinds frame)

lemma disableMsgType_frame [frame]:
  fixes s :: hal and m :: int32
  defines "t \<equiv> snd (run_state (disableMsgType m) s)"
  shows "m_state t = m_state s" "m_bDelayPreviewMsgs t = m_bDelayPreviewMsgs s"
    "m_DelayedMsgs t = m_DelayedMsgs s" "m_RestoreZSL t = m_RestoreZSL s"
    "mPreviewWindow t = mPreviewWindow s" "mMsgEnabled t = mMsgEnabled s AND NOT m"
    "m_bNeedRestart t = m_bNeedRestart s" "env t = env s" "api_queue t = api_queue s"
    "evt_queue t = evt_queue s" "cmd_sem t = cmd_sem s"
    "m_bPreviewNeedsRestart t = m_bPreviewNeedsRestart s"
    "m_bPreviewDelayedRestart t = m_bPreviewDelayedRestart s"
    "m_bPreviewCallbackNeeded t = m_bPreviewCallbackNeeded s"
    "api_signals (trace t) = api_signals (trace s)"
    "evt_signals (trace t) = evt_signals (trace s)"
    "major (trace t) = major (trace s)"
  unfolding t_def
  by (simp_all add: disableMsgType_def msgTypeEnabled_def hal_run call_kinds frame)

lemma applyDelayedMsgs_frame [frame]:
  fixes s :: hal
  defines "t \<equiv> snd (run_state applyDelayedMsgs s)"
  shows "m_state t = m_state s" "m_bDelayPreviewMsgs t = False"
    "m_DelayedMsgs t = (if m_bDelayPreviewMsgs s then 0 else m_DelayedMsgs s)"
    "m_RestoreZSL t = m_RestoreZSL s" "mPreviewWindow t = mPreviewWindow s"
    "mMsgEnabled t =
       (if m_bDelayPreviewMsgs s then mMsgEnabled s OR m_DelayedMsgs s else mMsgEnabled s)"
    "m_bNeedRestart t = m_bNeedRestart s" "env t = env s" "api_queue t = api_queue s"
    "evt_queue t = evt_queue s" "cmd_sem t = cmd_sem s"
    "m_bPreviewNeedsRestart t = m_bPreviewNeedsRestart s"
    "m_bPreviewDelayedRestart t = m_bPreviewDelayedRestart s"
    "m_bPreviewCallbackNeeded t = m_bPreviewCallbackNeeded s"
    "api_signals (trace t) = api_signals (trace s)"
    "evt_signals (trace t) = evt_signals (trace s)"
    "major (trace t) = major (trace s)"
  unfolding t_def
  by (simp_all add: applyDelayedMsgs_def hal_run frame)

lemma procEvt_frame [frame]:
  fixes s :: hal and e :: sm_evt and p :: payload
  defines "t \<equiv> snd (run_state (procEvt e p) s)"
  shows "m_state t = m_state s" "m_bDelayPreviewMsgs t = m_bDelayPreviewMsgs s"
    "m_DelayedMsgs t = m_DelayedMsgs s" "m_RestoreZSL t = m_RestoreZSL s"
    "mPreviewWindow t = mPreviewWindow s" "mMsgEnabled t = mMsgEnabled s"
    "m_bNeedRestart t = m_bNeedRestart s" "env t = env s" "api_queue t = api_queue s"
    "m_bPreviewNeedsRestart t = m_bPreviewNeedsRestart s"
    "m_bPreviewDelayedRestart t = m_bPreviewDelayedRestart s"
    "m_bPreviewCallbackNeeded t = m_bPreviewCallbackNeeded s"
    "api_signals (trace t) = api_signals (trace s)"
    "evt_signals (trace t) = evt_signals (trace s)"
    "major (trace t) = major (trace s)"
  unfolding t_def
  by (simp_all add: procEvt_def hal_run call_kinds case_prod_beta)

lemma sendCommand_frame [frame]:
  fixes s :: hal and p :: command_payload
  defines "t \<equiv> snd (run_state (sendCommand p) s)"
  shows "m_state t = m_state s" "m_bDelayPreviewMsgs t = m_bDelayPreviewMsgs s"
    "m_DelayedMsgs t = m_DelayedMsgs s" "m_RestoreZSL t = m_RestoreZSL s"
    "mPreviewWindow t = mPreviewWindow s" "mMsgEnabled t = mMsgEnabled s"
    "m_bNeedRestart t = m_bNeedRestart s" "env t = env s" "api_queue t = api_queue s"
    "m_bPreviewNeedsRestart t = m_bPreviewNeedsRestart s"
    "m_bPreviewDelayedRestart t = m_bPreviewDelayedRestart s"
    "m_bPreviewCallbackNeeded t = m_bPreviewCallbackNeeded s"
    "api_signals (trace t) = api_signals (trace s)"
    "evt_signals (trace t) = evt_signals (trace s)"
  unfolding t_def
  by (simp_all add: sendCommand_def longshot_on_def longshot_off_def hal_run call_kinds frame
      split: camera_cmd.split)

end
