(* ===== verification/Sm_Spec.thy ===== *)
theory Sm_Spec
  imports Sm_Ops
begin

text \<open>
  The abstract specification of the camera state machine that the handlers are checked against:
  which events are asynchronous, which are answered at once, the transition graph, the events a
  state refuses, and the invariant of the delayed preview message. The handler theories prove
  one lemma per handler and specification; Sm\_Machine puts them together.
\<close>

section \<open>Who waits for an answer\<close>

text \<open>
  The events that no API wrapper sends and waits for: notifications of the camera and JPEG
  stacks and of the thermal daemon, and the two enumerators that only serve as values.
\<close>

definition async_evt :: "sm_evt \<Rightarrow> bool" where
  "async_evt evt \<longleftrightarrow> evt \<in> {EVT_EVT_INTERNAL, EVT_EVT_NOTIFY, EVT_JPEG_EVT_NOTIFY,
     EVT_SNAPSHOT_DONE, EVT_THERMAL_NOTIFY, EVT_STOP_CAPTURE_CHANNEL, EVT_RESTART_PERVIEW,
     EVT_DELAYED_RESTART, EVT_MAX}"

text \<open>The calls for which a state posts no result, ever.\<close>

definition never_answered :: "sm_state \<Rightarrow> sm_evt \<Rightarrow> bool" where
  "never_answered st evt = (case evt of
      EVT_RELEASE_RECORIDNG_FRAME \<Rightarrow>
        st \<in> {STATE_PREVIEW_STOPPED, STATE_PREVIEW_READY, STATE_PREVIEWING}
    | EVT_REG_FACE_IMAGE \<Rightarrow> st = STATE_PREPARE_SNAPSHOT
    | EVT_SEND_COMMAND_RESTART \<Rightarrow> st \<noteq> STATE_PREVIEWING
    | _ \<Rightarrow> False)"

text \<open>The calls whose result may be posted later, by a metadata event.\<close>

definition answered_later :: "sm_state \<Rightarrow> sm_evt \<Rightarrow> bool" where
  "answered_later st evt = (case evt of
      EVT_PREPARE_SNAPSHOT \<Rightarrow> st \<in> {STATE_PREVIEWING, STATE_PREVIEW_PIC_TAKING}
    | EVT_TAKE_PICTURE \<Rightarrow> st = STATE_PREVIEWING
    | _ \<Rightarrow> False)"

definition sync_call :: "sm_state \<Rightarrow> sm_evt \<Rightarrow> bool" where
  "sync_call st evt \<longleftrightarrow> \<not> async_evt evt \<and> \<not> never_answered st evt \<and> \<not> answered_later st evt"

lemmas sync_defs = sync_call_def async_evt_def never_answered_def answered_later_def

definition answered :: "sm_evt \<Rightarrow> int32 hal_m \<Rightarrow> hal \<Rightarrow> bool" where
  "answered evt m s \<longleftrightarrow>
     (\<exists>r. api_signals (trace (snd (run_state m s))) = api_signals (trace s) @ [r] \<and>
          request_api r = evt \<and> status r = fst (run_state m s))"

text \<open>An event result is posted for EVT\_SNAPSHOT\_DONE, once, and for no other event.\<close>

definition evt_reported :: "sm_evt \<Rightarrow> int32 hal_m \<Rightarrow> hal \<Rightarrow> bool" where
  "evt_reported evt m s \<longleftrightarrow>
     (if evt = EVT_SNAPSHOT_DONE
      then \<exists>r. evt_signals (trace (snd (run_state m s))) = evt_signals (trace s) @ [r] \<and>
             request_api r = evt \<and> status r = fst (run_state m s)
      else evt_signals (trace (snd (run_state m s))) = evt_signals (trace s))"

section \<open>The transition graph\<close>

definition next_states :: "sm_state \<Rightarrow> sm_evt \<Rightarrow> sm_state list" where
  "next_states st evt = (case st of
      STATE_PREVIEW_STOPPED \<Rightarrow> (case evt of
          EVT_PREPARE_PREVIEW \<Rightarrow> [STATE_PREVIEW_STOPPED, STATE_PREVIEW_READY]
        | EVT_START_PREVIEW \<Rightarrow>
            [STATE_PREVIEW_STOPPED, STATE_PREVIEW_READY, STATE_PREVIEWING]
        | EVT_START_NODISPLAY_PREVIEW \<Rightarrow> [STATE_PREVIEW_STOPPED, STATE_PREVIEWING]
        | _ \<Rightarrow> [STATE_PREVIEW_STOPPED])
    | STATE_PREVIEW_READY \<Rightarrow> (case evt of
          EVT_SET_PREVIEW_WINDOW \<Rightarrow>
            [STATE_PREVIEW_READY, STATE_PREVIEWING, STATE_PREVIEW_STOPPED]
        | EVT_SET_PARAMS_RESTART \<Rightarrow> [STATE_PREVIEW_READY, STATE_PREVIEW_STOPPED]
        | EVT_START_NODISPLAY_PREVIEW \<Rightarrow> [STATE_PREVIEWING, STATE_PREVIEW_STOPPED]
        | EVT_START_PREVIEW \<Rightarrow>
            [STATE_PREVIEW_READY, STATE_PREVIEWING, STATE_PREVIEW_STOPPED]
        | EVT_STOP_PREVIEW \<Rightarrow> [STATE_PREVIEW_STOPPED]
        | _ \<Rightarrow> [STATE_PREVIEW_READY])
    | STATE_PREVIEWING \<Rightarrow> (case evt of
          EVT_SET_PARAMS_RESTART \<Rightarrow> [STATE_PREVIEWING, STATE_PREVIEW_STOPPED]
        | EVT_STOP_PREVIEW \<Rightarrow> [STATE_PREVIEW_STOPPED]
        | EVT_START_RECORDING \<Rightarrow> [STATE_PREVIEWING, STATE_RECORDING]
        | EVT_PREPARE_SNAPSHOT \<Rightarrow> [STATE_PREVIEWING, STATE_PREPARE_SNAPSHOT]
        | EVT_TAKE_PICTURE \<Rightarrow>
            [STATE_PREVIEWING, STATE_PREVIEW_STOPPED, STATE_PIC_TAKING,
             STATE_PREVIEW_PIC_TAKING]
        | _ \<Rightarrow> [STATE_PREVIEWING])
    | STATE_PREPARE_SNAPSHOT \<Rightarrow> (case evt of
          EVT_EVT_INTERNAL \<Rightarrow> [STATE_PREPARE_SNAPSHOT, STATE_PREVIEWING]
        | _ \<Rightarrow> [STATE_PREPARE_SNAPSHOT])
    | STATE_PIC_TAKING \<Rightarrow> (case evt of
          EVT_STOP_PREVIEW \<Rightarrow> [STATE_PREVIEW_STOPPED]
        | EVT_SEND_COMMAND \<Rightarrow> [STATE_PIC_TAKING, STATE_PREVIEWING]
        | EVT_CANCEL_PICTURE \<Rightarrow> [STATE_PREVIEW_STOPPED]
        | EVT_SNAPSHOT_DONE \<Rightarrow> [STATE_PREVIEWING, STATE_PREVIEW_STOPPED]
        | _ \<Rightarrow> [STATE_PIC_TAKING])
    | STATE_RECORDING \<Rightarrow> (case evt of
          EVT_TAKE_PICTURE \<Rightarrow> [STATE_RECORDING, STATE_VIDEO_PIC_TAKING]
        | EVT_STOP_RECORDING \<Rightarrow> [STATE_PREVIEWING]
        | EVT_STOP_PREVIEW \<Rightarrow> [STATE_PREVIEW_STOPPED]
        | _ \<Rightarrow> [STATE_RECORDING])
    | STATE_VIDEO_PIC_TAKING \<Rightarrow> (case evt of
          EVT_STOP_RECORDING \<Rightarrow> [STATE_PREVIEWING]
        | EVT_CANCEL_PICTURE \<Rightarrow> [STATE_RECORDING]
        | EVT_STOP_PREVIEW \<Rightarrow> [STATE_PREVIEW_STOPPED]
        | EVT_SNAPSHOT_DONE \<Rightarrow> [STATE_RECORDING]
        | _ \<Rightarrow> [STATE_VIDEO_PIC_TAKING])
    | STATE_PREVIEW_PIC_TAKING \<Rightarrow> (case evt of
          EVT_SET_PARAMS_RESTART \<Rightarrow> [STATE_PREVIEW_PIC_TAKING, STATE_PIC_TAKING]
        | EVT_SEND_COMMAND \<Rightarrow> [STATE_PREVIEW_PIC_TAKING, STATE_PREVIEWING]
        | EVT_CANCEL_PICTURE \<Rightarrow> [STATE_PREVIEWING]
        | EVT_STOP_PREVIEW \<Rightarrow> [STATE_PREVIEW_STOPPED]
        | EVT_START_RECORDING \<Rightarrow> [STATE_PREVIEW_PIC_TAKING, STATE_VIDEO_PIC_TAKING]
        | EVT_SNAPSHOT_DONE \<Rightarrow> [STATE_PREVIEWING]
        | _ \<Rightarrow> [STATE_PREVIEW_PIC_TAKING]))"

section \<open>Refused events\<close>

text \<open>The events a state refuses with INVALID\_OPERATION, whatever the parent answers.\<close>

definition refused :: "sm_state \<Rightarrow> sm_evt list" where
  "refused st = (case st of
      STATE_PREVIEW_STOPPED \<Rightarrow>
        [EVT_PRE_START_RECORDING, EVT_RESTART_STOP_PREVIEW, EVT_RESTART_START_PREVIEW,
         EVT_START_RECORDING, EVT_STOP_RECORDING, EVT_PREPARE_SNAPSHOT, EVT_PRE_TAKE_PICTURE,
         EVT_TAKE_PICTURE]
    | STATE_PREVIEW_READY \<Rightarrow>
        [EVT_PRE_START_RECORDING, EVT_RESTART_STOP_PREVIEW, EVT_RESTART_START_PREVIEW,
         EVT_START_RECORDING, EVT_STOP_RECORDING, EVT_PREPARE_SNAPSHOT, EVT_PRE_TAKE_PICTURE,
         EVT_TAKE_PICTURE, EVT_CANCEL_PICTURE, EVT_RELEASE]
    | STATE_PREVIEWING \<Rightarrow> [EVT_SET_PREVIEW_WINDOW, EVT_RELEASE]
    | STATE_PREPARE_SNAPSHOT \<Rightarrow>
        [EVT_SET_PREVIEW_WINDOW, EVT_SET_CALLBACKS, EVT_ENABLE_MSG_TYPE, EVT_DISABLE_MSG_TYPE,
         EVT_MSG_TYPE_ENABLED, EVT_SET_PARAMS, EVT_SET_PARAMS_STOP, EVT_SET_PARAMS_COMMIT,
         EVT_SET_PARAMS_RESTART, EVT_GET_PARAMS, EVT_PUT_PARAMS, EVT_PREPARE_PREVIEW,
         EVT_START_PREVIEW, EVT_START_NODISPLAY_PREVIEW, EVT_STOP_PREVIEW,
         EVT_PREVIEW_ENABLED, EVT_RECORDING_ENABLED, EVT_STORE_METADATA_IN_BUFS, EVT_DUMP,
         EVT_START_AUTO_FOCUS, EVT_STOP_AUTO_FOCUS, EVT_PRE_START_RECORDING,
         EVT_RESTART_STOP_PREVIEW, EVT_RESTART_START_PREVIEW, EVT_START_RECORDING,
         EVT_PRE_TAKE_PICTURE, EVT_TAKE_PICTURE, EVT_PREPARE_SNAPSHOT, EVT_SEND_COMMAND,
         EVT_CANCEL_PICTURE, EVT_STOP_RECORDING, EVT_RELEASE_RECORIDNG_FRAME, EVT_RELEASE]
    | STATE_PIC_TAKING \<Rightarrow>
        [EVT_SET_PREVIEW_WINDOW, EVT_PREPARE_SNAPSHOT, EVT_PRE_START_RECORDING,
         EVT_RESTART_STOP_PREVIEW, EVT_RESTART_START_PREVIEW, EVT_START_RECORDING,
         EVT_STOP_RECORDING, EVT_RELEASE_RECORIDNG_FRAME, EVT_PREPARE_PREVIEW,
         EVT_START_PREVIEW, EVT_START_NODISPLAY_PREVIEW, EVT_RELEASE]
    | STATE_RECORDING \<Rightarrow>
        [EVT_SET_PARAMS_STOP, EVT_SET_PARAMS_RESTART, EVT_CANCEL_PICTURE,
         EVT_START_NODISPLAY_PREVIEW, EVT_RELEASE]
    | STATE_VIDEO_PIC_TAKING \<Rightarrow>
        [EVT_SET_PREVIEW_WINDOW, EVT_SET_PARAMS_STOP, EVT_SET_PARAMS_RESTART,
         EVT_PRE_START_RECORDING, EVT_RESTART_STOP_PREVIEW, EVT_RESTART_START_PREVIEW,
         EVT_START_RECORDING, EVT_PREPARE_PREVIEW, EVT_START_PREVIEW,
         EVT_START_NODISPLAY_PREVIEW, EVT_PREPARE_SNAPSHOT, EVT_PRE_TAKE_PICTURE,
         EVT_TAKE_PICTURE, EVT_RELEASE]
    | STATE_PREVIEW_PIC_TAKING \<Rightarrow>
        [EVT_STOP_RECORDING, EVT_PREPARE_PREVIEW, EVT_START_PREVIEW,
         EVT_START_NODISPLAY_PREVIEW, EVT_SET_PREVIEW_WINDOW, EVT_RELEASE])"

section \<open>The delayed preview message\<close>

text \<open>Only the preview frame message is ever delayed, and only while the delay is on.\<close>

definition delay_ok :: "hal \<Rightarrow> bool" where
  "delay_ok s \<longleftrightarrow>
     (m_DelayedMsgs s = 0 \<or> m_DelayedMsgs s = CAMERA_MSG_PREVIEW_FRAME \<and> m_bDelayPreviewMsgs s)"

lemma preview_frame_bits: "bit CAMERA_MSG_PREVIEW_FRAME n \<longleftrightarrow> n = 4"
proof -
  have "CAMERA_MSG_PREVIEW_FRAME = 2 ^ 4" by (simp add: CAMERA_MSG_PREVIEW_FRAME_def)
  moreover have "bit (2 ^ 4 :: int32) n \<longleftrightarrow> n = 4"
    unfolding bit_exp_iff by (auto simp: possible_bit_word)
  ultimately show ?thesis by simp
qed

lemma preview_frame_and:
  "CAMERA_MSG_PREVIEW_FRAME AND x = (if bit x 4 then CAMERA_MSG_PREVIEW_FRAME else 0)"
  by (rule bit_word_eqI) (auto simp: bit_and_iff preview_frame_bits)

text \<open>The messages that the application has enabled: those in force and those delayed.\<close>

definition wanted_msgs :: "hal \<Rightarrow> int32" where
  "wanted_msgs s = mMsgEnabled s OR (if m_bDelayPreviewMsgs s then m_DelayedMsgs s else 0)"

text \<open>A refusal changes nothing: the only trace of the call is its answer.\<close>

definition refusal :: "sm_evt \<Rightarrow> hal \<Rightarrow> int32 \<times> hal" where
  "refusal evt s =
     (INVALID_OPERATION,
      s\<lparr>trace := trace s @ [H_signalAPIResult \<lparr>status = INVALID_OPERATION, request_api = evt,
          result_type = API_RESULT_TYPE_DEF, result_union = U_zero\<rparr>]\<rparr>)"

section \<open>Automation\<close>

lemma branch_signals [hal_run]:
  "api_signals (if b then x else y) = (if b then api_signals x else api_signals y)"
  "evt_signals (if b then x else y) = (if b then evt_signals x else evt_signals y)"
  "major (if b then x else y) = (if b then major x else major y)"
  by simp_all

section \<open>Queues and semaphore\<close>

text \<open>
  Both queues accept commands, each holds only its kind, and the semaphore counts exactly the
  commands that wait: no wake-up is lost and none is spurious.
\<close>

definition queues_ok :: "hal \<Rightarrow> bool" where
  "queues_ok s \<longleftrightarrow>
     fifo_active (api_queue s) \<and> fifo_active (evt_queue s) \<and>
     cmd_sem s = length (fifo_items (api_queue s)) + length (fifo_items (evt_queue s)) \<and>
     (\<forall>c \<in> set (fifo_items (api_queue s)). cmd_type c \<noteq> CMD_TYPE_EVT) \<and>
     (\<forall>c \<in> set (fifo_items (evt_queue s)). cmd_type c = CMD_TYPE_EVT)"

lemma queues_ok_update [simp]:
  "queues_ok (m_state_update f1 s) = queues_ok s"
  "queues_ok (m_bDelayPreviewMsgs_update f2 s) = queues_ok s"
  "queues_ok (m_bPreviewNeedsRestart_update f3 s) = queues_ok s"
  "queues_ok (m_bPreviewDelayedRestart_update f4 s) = queues_ok s"
  "queues_ok (m_DelayedMsgs_update f5 s) = queues_ok s"
  "queues_ok (m_RestoreZSL_update f6 s) = queues_ok s"
  "queues_ok (m_bPreviewCallbackNeeded_update f7 s) = queues_ok s"
  "queues_ok (mPreviewWindow_update f8 s) = queues_ok s"
  "queues_ok (mMsgEnabled_update f9 s) = queues_ok s"
  "queues_ok (m_bNeedRestart_update f10 s) = queues_ok s"
  "queues_ok (trace_update f11 s) = queues_ok s"
  by (simp_all add: queues_ok_def)

lemma queues_ok_branch [hal_run]:
  "queues_ok (if b then x else y) = (if b then queues_ok x else queues_ok y)"
  by simp

lemma queues_ok_frame [frame]:
  "queues_ok (snd (run_state preview_channel s)) = queues_ok s"
  "queues_ok (snd (run_state (enableMsgType m) s)) = queues_ok s"
  "queues_ok (snd (run_state (disableMsgType m) s)) = queues_ok s"
  "queues_ok (snd (run_state applyDelayedMsgs s)) = queues_ok s"
  by (simp_all add: queues_ok_def frame)

lemma procEvt_queues_ok [frame]:
  "queues_ok s \<Longrightarrow> queues_ok (snd (run_state (procEvt e p) s))"
  by (auto simp: queues_ok_def procEvt_def fifo_enqueue_def hal_run)

lemma sendCommand_queues_ok [frame]:
  "queues_ok s \<Longrightarrow> queues_ok (snd (run_state (sendCommand c) s))"
  by (simp add: sendCommand_def longshot_on_def longshot_off_def hal_run frame
      split: camera_cmd.split)

lemmas handler_run = hal_run call_kinds frame case_prod_beta Let_def

lemmas evt_splits = internal_evt_type.split cam_event_type.split

end
