(* ===== verification/Sm_Preview.thy ===== *)
theory Sm_Preview
  imports Sm_Spec
begin

text \<open>
  The handlers of the two states in which no frame flows: procEvtPreviewStoppedState and
  procEvtPreviewReadyState of QCameraStateMachine.cpp. Each handler is split, in the order of
  its cases, into consecutive parts; a part hands the events it does not name to the next.
\<close>

section \<open>PREVIEW STOPPED\<close>

definition procEvtPreviewStoppedState_3 :: "sm_evt \<Rightarrow> payload \<Rightarrow> int32 hal_m" where
  "procEvtPreviewStoppedState_3 evt p = (case evt of
      EVT_RELEASE_RECORIDNG_FRAME \<Rightarrow> do {
        tell (H_closeNativeHandle (as_ptr p));
        State_Monad.return NO_ERROR }
    | EVT_PRE_START_RECORDING \<Rightarrow> reject evt
    | EVT_RESTART_STOP_PREVIEW \<Rightarrow> reject evt
    | EVT_RESTART_START_PREVIEW \<Rightarrow> reject evt
    | EVT_START_RECORDING \<Rightarrow> reject evt
    | EVT_STOP_RECORDING \<Rightarrow> reject evt
    | EVT_PREPARE_SNAPSHOT \<Rightarrow> reject evt
    | EVT_PRE_TAKE_PICTURE \<Rightarrow> reject evt
    | EVT_TAKE_PICTURE \<Rightarrow> reject evt
    | EVT_START_AUTO_FOCUS \<Rightarrow> reply evt NO_ERROR
    | EVT_CANCEL_PICTURE \<Rightarrow> reply evt NO_ERROR
    | EVT_STOP_AUTO_FOCUS \<Rightarrow> do {
        rc \<leftarrow> afterParamInit (ask H_cancelAutoFocus);
        reply evt rc }
    | EVT_REG_FACE_IMAGE \<Rightarrow> do {
        (rc, faceID) \<leftarrow> registerFaceImage (as_reg_face p);
        reply_handle evt rc faceID }
    | EVT_THERMAL_NOTIFY \<Rightarrow> afterParamInit (ask (H_updateThermalLevel (as_ptr p)))
    | EVT_EVT_NOTIFY \<Rightarrow> do {
        notify_server_died (as_cam_event p);
        State_Monad.return NO_ERROR }
    | EVT_SNAPSHOT_DONE \<Rightarrow> reply_evt evt NO_ERROR
    | EVT_EVT_INTERNAL \<Rightarrow>
        (case evt_type (as_internal p) of
           INTERNAL_EVT_LED_MODE_OVERRIDE \<Rightarrow>
             afterParamInit (ask (H_process P_updateFlashMode (evt_data (as_internal p))))
         | _ \<Rightarrow> State_Monad.return NO_ERROR)
    | _ \<Rightarrow> State_Monad.return NO_ERROR)"

definition procEvtPreviewStoppedState_2 :: "sm_evt \<Rightarrow> payload \<Rightarrow> int32 hal_m" where
  "procEvtPreviewStoppedState_2 evt p = (case evt of
      EVT_PREPARE_PREVIEW \<Rightarrow> do {
        rc \<leftarrow> afterParamInit (ask H_preparePreview);
        (if rc = NO_ERROR then set_state STATE_PREVIEW_READY else skip);
        reply evt rc }
    | EVT_START_PREVIEW \<Rightarrow> do {
        rc \<leftarrow> afterParamInit (do {
          w \<leftarrow> gets mPreviewWindow;
          if w = NULL then do {
            rc \<leftarrow> ask H_preparePreview;
            (if rc = NO_ERROR then set_state STATE_PREVIEW_READY else skip);
            State_Monad.return rc }
          else do {
            rc \<leftarrow> ask H_preparePreview;
            if rc = NO_ERROR then do {
              _ \<leftarrow> applyDelayedMsgs;
              rc \<leftarrow> ask H_startPreview;
              (if rc \<noteq> NO_ERROR then tell H_unpreparePreview
               else set_state STATE_PREVIEWING);
              State_Monad.return rc }
            else State_Monad.return rc } });
        reply evt rc }
    | EVT_START_NODISPLAY_PREVIEW \<Rightarrow> do {
        rc \<leftarrow> afterParamInit (ask H_preparePreview);
        rc \<leftarrow> (if rc = NO_ERROR then do {
                 _ \<leftarrow> applyDelayedMsgs;
                 rc \<leftarrow> ask H_startPreview;
                 (if rc \<noteq> NO_ERROR then tell H_unpreparePreview
                  else set_state STATE_PREVIEWING);
                 State_Monad.return rc }
               else State_Monad.return rc);
        reply evt rc }
    | EVT_STOP_PREVIEW \<Rightarrow> reply evt NO_ERROR
    | EVT_PREVIEW_ENABLED \<Rightarrow> reply_flag evt NO_ERROR 0
    | EVT_RECORDING_ENABLED \<Rightarrow> reply_flag evt NO_ERROR 0
    | EVT_RELEASE \<Rightarrow> do { rc \<leftarrow> ask H_release; reply evt rc }
    | EVT_STORE_METADATA_IN_BUFS \<Rightarrow> do {
        rc \<leftarrow> ask (H_storeMetaDataInBuffers (as_int32 p));
        reply evt rc }
    | EVT_DUMP \<Rightarrow> do {
        rc \<leftarrow> afterParamInit (ask (H_dump (as_int32 p)));
        reply evt rc }
    | EVT_SEND_COMMAND \<Rightarrow> do {
        rc \<leftarrow> afterParamInit (do {
          (rc, _, _) \<leftarrow> sendCommand (as_command p);
          State_Monad.return rc });
        reply evt rc }
    | _ \<Rightarrow> procEvtPreviewStoppedState_3 evt p)"

definition procEvtPreviewStoppedState :: "sm_evt \<Rightarrow> payload \<Rightarrow> int32 hal_m" where
  "procEvtPreviewStoppedState evt p = (case evt of
      EVT_SET_PREVIEW_WINDOW \<Rightarrow> do {
        rc \<leftarrow> setPreviewWindow (as_ptr p);
        reply evt rc }
    | EVT_SET_CALLBACKS \<Rightarrow> do {
        rc \<leftarrow> ask (H_setCallBacks (as_setcb p));
        reply evt rc }
    | EVT_ENABLE_MSG_TYPE \<Rightarrow> do {
        rc \<leftarrow> afterParamInit (enableMsgType (as_int32 p));
        reply evt rc }
    | EVT_DISABLE_MSG_TYPE \<Rightarrow> do {
        rc \<leftarrow> afterParamInit (disableMsgType (as_int32 p));
        reply evt rc }
    | EVT_MSG_TYPE_ENABLED \<Rightarrow> do {
        enabled \<leftarrow> msgTypeEnabled (as_int32 p);
        reply_flag evt NO_ERROR enabled }
    | EVT_SET_PARAMS \<Rightarrow> do {
        rc \<leftarrow> afterParamInit (do {
          (rc, needRestart) \<leftarrow> updateParameters (as_ptr p);
          State_Monad.return rc });
        reply evt rc }
    | EVT_SET_PARAMS_STOP \<Rightarrow> do {
        tell H_memoryPool_clear;
        reply evt NO_ERROR }
    | EVT_SET_PARAMS_COMMIT \<Rightarrow> do {
        rc \<leftarrow> ask H_commitParameterChanges;
        reply evt rc }
    | EVT_SET_PARAMS_RESTART \<Rightarrow> do {
        setNeedRestart False;
        reply evt NO_ERROR }
    | EVT_GET_PARAMS \<Rightarrow> do {
        rc \<leftarrow> ask H_waitDeferredWork;
        params \<leftarrow> (if rc \<noteq> NO_ERROR then do {
                     nullParams \<leftarrow> query Q_malloc;
                     State_Monad.return (unat nullParams) }
                   else getParameters);
        reply_params evt params }
    | EVT_PUT_PARAMS \<Rightarrow> do {
        rc \<leftarrow> ask (H_putParameters (as_ptr p));
        reply evt rc }
    | _ \<Rightarrow> procEvtPreviewStoppedState_2 evt p)"

section \<open>PREVIEW READY\<close>

definition procEvtPreviewReadyState_3 :: "sm_evt \<Rightarrow> payload \<Rightarrow> int32 hal_m" where
  "procEvtPreviewReadyState_3 evt p = (case evt of
      EVT_RELEASE_RECORIDNG_FRAME \<Rightarrow> do {
        tell (H_closeNativeHandle (as_ptr p));
        State_Monad.return NO_ERROR }
    | EVT_PRE_START_RECORDING \<Rightarrow> reject evt
    | EVT_RESTART_STOP_PREVIEW \<Rightarrow> reject evt
    | EVT_RESTART_START_PREVIEW \<Rightarrow> reject evt
    | EVT_START_RECORDING \<Rightarrow> reject evt
    | EVT_STOP_RECORDING \<Rightarrow> reject evt
    | EVT_PREPARE_SNAPSHOT \<Rightarrow> reject evt
    | EVT_PRE_TAKE_PICTURE \<Rightarrow> reject evt
    | EVT_TAKE_PICTURE \<Rightarrow> reject evt
    | EVT_CANCEL_PICTURE \<Rightarrow> reject evt
    | EVT_RELEASE \<Rightarrow> reject evt
    | EVT_EVT_NOTIFY \<Rightarrow> do {
        notify_server_died (as_cam_event p);
        State_Monad.return NO_ERROR }
    | EVT_SNAPSHOT_DONE \<Rightarrow> reply_evt evt NO_ERROR
    | EVT_EVT_INTERNAL \<Rightarrow>
        (case evt_type (as_internal p) of
           INTERNAL_EVT_LED_MODE_OVERRIDE \<Rightarrow>
             ask (H_process P_updateFlashMode (evt_data (as_internal p)))
         | _ \<Rightarrow> State_Monad.return NO_ERROR)
    | _ \<Rightarrow> State_Monad.return NO_ERROR)"

definition procEvtPreviewReadyState_2 :: "sm_evt \<Rightarrow> payload \<Rightarrow> int32 hal_m" where
  "procEvtPreviewReadyState_2 evt p = (case evt of
      EVT_START_NODISPLAY_PREVIEW \<Rightarrow> do {
        rc \<leftarrow> ask H_startPreview;
        (if rc \<noteq> NO_ERROR then do {
           tell H_unpreparePreview;
           set_state STATE_PREVIEW_STOPPED }
         else set_state STATE_PREVIEWING);
        reply evt NO_ERROR }
    | EVT_START_PREVIEW \<Rightarrow> do {
        w \<leftarrow> gets mPreviewWindow;
        (if w \<noteq> NULL then do {
           rc \<leftarrow> ask H_startPreview;
           if rc \<noteq> NO_ERROR then do {
             tell H_unpreparePreview;
             set_state STATE_PREVIEW_STOPPED }
           else set_state STATE_PREVIEWING }
         else skip);
        reply evt NO_ERROR }
    | EVT_STOP_PREVIEW \<Rightarrow> do {
        tell H_unpreparePreview;
        set_state STATE_PREVIEW_STOPPED;
        reply evt NO_ERROR }
    | EVT_PREVIEW_ENABLED \<Rightarrow> reply_flag evt NO_ERROR 1
    | EVT_RECORDING_ENABLED \<Rightarrow> reply_flag evt NO_ERROR 0
    | EVT_STORE_METADATA_IN_BUFS \<Rightarrow> do {
        rc \<leftarrow> ask (H_storeMetaDataInBuffers (as_int32 p));
        reply evt rc }
    | EVT_DUMP \<Rightarrow> do { rc \<leftarrow> ask (H_dump (as_int32 p)); reply evt rc }
    | EVT_START_AUTO_FOCUS \<Rightarrow> do { rc \<leftarrow> ask H_autoFocus; reply evt rc }
    | EVT_STOP_AUTO_FOCUS \<Rightarrow> do { rc \<leftarrow> ask H_cancelAutoFocus; reply evt rc }
    | EVT_SEND_COMMAND \<Rightarrow> do {
        (rc, _, _) \<leftarrow> sendCommand (as_command p);
        reply evt rc }
    | EVT_REG_FACE_IMAGE \<Rightarrow> do {
        (rc, faceID) \<leftarrow> registerFaceImage (as_reg_face p);
        reply_handle evt rc faceID }
    | _ \<Rightarrow> procEvtPreviewReadyState_3 evt p)"

definition procEvtPreviewReadyState :: "sm_evt \<Rightarrow> payload \<Rightarrow> int32 hal_m" where
  "procEvtPreviewReadyState evt p = (case evt of
      EVT_SET_PREVIEW_WINDOW \<Rightarrow> do {
        _ \<leftarrow> setPreviewWindow (as_ptr p);
        w \<leftarrow> gets mPreviewWindow;
        rc \<leftarrow> (if w \<noteq> NULL then do {
                 _ \<leftarrow> applyDelayedMsgs;
                 rc \<leftarrow> ask H_startPreview;
                 (if rc \<noteq> NO_ERROR then do {
                    tell H_unpreparePreview;
                    set_state STATE_PREVIEW_STOPPED }
                  else set_state STATE_PREVIEWING);
                 State_Monad.return rc }
               else State_Monad.return NO_ERROR);
        reply evt rc }
    | EVT_SET_CALLBACKS \<Rightarrow> do {
        rc \<leftarrow> ask (H_setCallBacks (as_setcb p));
        reply evt rc }
    | EVT_ENABLE_MSG_TYPE \<Rightarrow> do { rc \<leftarrow> enableMsgType (as_int32 p); reply evt rc }
    | EVT_DISABLE_MSG_TYPE \<Rightarrow> do { rc \<leftarrow> disableMsgType (as_int32 p); reply evt rc }
    | EVT_MSG_TYPE_ENABLED \<Rightarrow> do {
        enabled \<leftarrow> msgTypeEnabled (as_int32 p);
        reply_flag evt NO_ERROR enabled }
    | EVT_SET_PARAMS \<Rightarrow> do {
        (rc, needRestart) \<leftarrow> updateParameters (as_ptr p);
        reply evt rc }
    | EVT_SET_PARAMS_STOP \<Rightarrow> do {
        tell H_unpreparePreview;
        tell H_memoryPool_clear;
        reply evt NO_ERROR }
    | EVT_SET_PARAMS_COMMIT \<Rightarrow> do { rc \<leftarrow> ask H_commitParameterChanges; reply evt rc }
    | EVT_SET_PARAMS_RESTART \<Rightarrow> do {
        rc \<leftarrow> ask H_preparePreview;
        (if rc \<noteq> NO_ERROR then set_state STATE_PREVIEW_STOPPED else skip);
        setNeedRestart False;
        reply evt rc }
    | EVT_GET_PARAMS \<Rightarrow> do { params \<leftarrow> getParameters; reply_params evt params }
    | EVT_PUT_PARAMS \<Rightarrow> do {
        rc \<leftarrow> ask (H_putParameters (as_ptr p));
        reply evt rc }
    | EVT_PREPARE_PREVIEW \<Rightarrow> reply evt NO_ERROR
    | _ \<Rightarrow> procEvtPreviewReadyState_2 evt p)"

lemmas [sm_defs] =
  procEvtPreviewStoppedState_def procEvtPreviewStoppedState_2_def
  procEvtPreviewStoppedState_3_def procEvtPreviewReadyState_def procEvtPreviewReadyState_2_def
  procEvtPreviewReadyState_3_def

section \<open>The handlers meet the specification\<close>

lemma preview_stopped_answered:
  assumes "sync_call STATE_PREVIEW_STOPPED evt"
  shows "answered evt (procEvtPreviewStoppedState evt p) s"
  using assms unfolding answered_def
  by (cases evt; simp add: sync_defs sm_defs handler_run split: evt_splits)

lemma preview_stopped_next:
  assumes "m_state s = STATE_PREVIEW_STOPPED"
  shows "m_state (snd (run_state (procEvtPreviewStoppedState evt p) s)) \<in> set (next_states STATE_PREVIEW_STOPPED evt)"
  using assms
  by (cases evt; simp add: next_states_def sm_defs handler_run split: evt_splits)

lemma preview_stopped_delay:
  assumes "delay_ok s"
  shows "delay_ok (snd (run_state (procEvtPreviewStoppedState evt p) s))"
  using assms unfolding delay_ok_def
  by (elim disjE conjE; cases evt; simp add: sm_defs handler_run preview_frame_and split: evt_splits)

lemma preview_stopped_refused:
  assumes "evt \<in> set (refused STATE_PREVIEW_STOPPED)"
  shows "run_state (procEvtPreviewStoppedState evt p) s = refusal evt s"
  using assms by (auto simp: refused_def refusal_def sm_defs hal_run)

lemma preview_stopped_silent:
  assumes "never_answered STATE_PREVIEW_STOPPED evt"
  shows "api_signals (trace (snd (run_state (procEvtPreviewStoppedState evt p) s))) = api_signals (trace s)"
  using assms by (cases evt; simp add: sync_defs sm_defs handler_run)

lemma preview_stopped_evt_reported: "evt_reported evt (procEvtPreviewStoppedState evt p) s"
  unfolding evt_reported_def
  by (cases evt; simp add: sm_defs handler_run split: evt_splits)

lemma preview_stopped_keeps:
  shows "env (snd (run_state (procEvtPreviewStoppedState evt p) s)) = env s"
    "api_queue (snd (run_state (procEvtPreviewStoppedState evt p) s)) = api_queue s"
  by (cases evt; simp add: sm_defs handler_run split: evt_splits)+

lemma preview_ready_answered:
  assumes "sync_call STATE_PREVIEW_READY evt"
  shows "answered evt (procEvtPreviewReadyState evt p) s"
  using assms unfolding answered_def
  by (cases evt; simp add: sync_defs sm_defs handler_run split: evt_splits)

lemma preview_ready_next:
  assumes "m_state s = STATE_PREVIEW_READY"
  shows "m_state (snd (run_state (procEvtPreviewReadyState evt p) s)) \<in> set (next_states STATE_PREVIEW_READY evt)"
  using assms
  by (cases evt; simp add: next_states_def sm_defs handler_run split: evt_splits)

lemma preview_ready_delay:
  assumes "delay_ok s"
  shows "delay_ok (snd (run_state (procEvtPreviewReadyState evt p) s))"
  using assms unfolding delay_ok_def
  by (elim disjE conjE; cases evt; simp add: sm_defs handler_run preview_frame_and split: evt_splits)

lemma preview_ready_refused:
  assumes "evt \<in> set (refused STATE_PREVIEW_READY)"
  shows "run_state (procEvtPreviewReadyState evt p) s = refusal evt s"
  using assms by (auto simp: refused_def refusal_def sm_defs hal_run)

lemma preview_ready_silent:
  assumes "never_answered STATE_PREVIEW_READY evt"
  shows "api_signals (trace (snd (run_state (procEvtPreviewReadyState evt p) s))) = api_signals (trace s)"
  using assms by (cases evt; simp add: sync_defs sm_defs handler_run)

lemma preview_ready_evt_reported: "evt_reported evt (procEvtPreviewReadyState evt p) s"
  unfolding evt_reported_def
  by (cases evt; simp add: sm_defs handler_run split: evt_splits)

lemma preview_ready_keeps:
  shows "env (snd (run_state (procEvtPreviewReadyState evt p) s)) = env s"
    "api_queue (snd (run_state (procEvtPreviewReadyState evt p) s)) = api_queue s"
  by (cases evt; simp add: sm_defs handler_run split: evt_splits)+

lemma preview_stopped_keeps_events:
  assumes "evt \<noteq> EVT_SEND_COMMAND"
  shows "evt_queue (snd (run_state (procEvtPreviewStoppedState evt p) s)) = evt_queue s"
    "cmd_sem (snd (run_state (procEvtPreviewStoppedState evt p) s)) = cmd_sem s"
  using assms by (cases evt; simp add: sm_defs handler_run split: evt_splits)+

lemma preview_stopped_queues:
  assumes "queues_ok s"
  shows "queues_ok (snd (run_state (procEvtPreviewStoppedState evt p) s))"
  using assms by (cases evt; simp add: sm_defs handler_run split: evt_splits)

lemma preview_ready_keeps_events:
  assumes "evt \<noteq> EVT_SEND_COMMAND"
  shows "evt_queue (snd (run_state (procEvtPreviewReadyState evt p) s)) = evt_queue s"
    "cmd_sem (snd (run_state (procEvtPreviewReadyState evt p) s)) = cmd_sem s"
  using assms by (cases evt; simp add: sm_defs handler_run split: evt_splits)+

lemma preview_ready_queues:
  assumes "queues_ok s"
  shows "queues_ok (snd (run_state (procEvtPreviewReadyState evt p) s))"
  using assms by (cases evt; simp add: sm_defs handler_run split: evt_splits)

end
