(* ===== verification/Sm_Previewing.thy ===== *)
theory Sm_Previewing
  imports Sm_Spec
begin

text \<open>
  The handler of the state in which preview frames flow, procEvtPreviewingState of
  QCameraStateMachine.cpp: the entry to recording and to the capture states, the delayed
  preview message, the preview restarts of parameters and longshot, and the consumers of the
  internal metadata events.
\<close>

section \<open>Pictures\<close>

text \<open>The two branches of EVT\_TAKE\_PICTURE.\<close>

definition take_picture_zsl :: "sm_evt \<Rightarrow> int32 hal_m" where
  "take_picture_zsl evt = do {
     restartPreview \<leftarrow> query_bool Q_isPreviewRestartEnabled;
     manual3 \<leftarrow> (if restartPreview then do {
                   mode \<leftarrow> query Q_getManualCaptureMode;
                   State_Monad.return (CAM_MANUAL_CAPTURE_TYPE_3 \<le> mode) }
                 else State_Monad.return False);
     (if manual3 then do {
        _ \<leftarrow> ask H_stopPreview;
        _ \<leftarrow> ask (H_updateZSLModeValue False);
        modify (\<lambda>s. s\<lparr>m_RestoreZSL := True\<rparr>);
        modify (\<lambda>s. s\<lparr>m_bDelayPreviewMsgs := True\<rparr>);
        set_state STATE_PIC_TAKING }
      else do {
        set_state STATE_PREVIEW_PIC_TAKING;
        modify (\<lambda>s. s\<lparr>m_bDelayPreviewMsgs := True\<rparr>) });
     rc \<leftarrow> ask H_takePicture;
     (if rc \<noteq> NO_ERROR then do {
        tell H_unconfigureAdvancedCapture;
        set_state STATE_PREVIEWING }
      else skip);
     retro \<leftarrow> query_bool Q_isRetroPicture;
     if \<not> retro \<or> rc \<noteq> NO_ERROR then reply evt rc else State_Monad.return rc }"

definition take_picture_normal :: "sm_evt \<Rightarrow> int32 hal_m" where
  "take_picture_normal evt = do {
     set_state STATE_PIC_TAKING;
     rc \<leftarrow> ask H_takePicture;
     (if rc \<noteq> NO_ERROR then do {
        tell H_unconfigureAdvancedCapture;
        _ \<leftarrow> ask H_stopPreview;
        temp_rc \<leftarrow> ask H_preparePreview;
        if temp_rc = NO_ERROR then do {
          temp_rc \<leftarrow> ask H_startPreview;
          if temp_rc \<noteq> NO_ERROR then do {
            tell H_unpreparePreview;
            set_state STATE_PREVIEW_STOPPED }
          else set_state STATE_PREVIEWING }
        else set_state STATE_PREVIEW_STOPPED }
      else skip);
     reply evt rc }"

text \<open>
  Before them a preview in recording mode is restarted without the recording hint; then the
  capture mode is chosen.
\<close>

definition take_picture_prelude :: "bool hal_m" where
  "take_picture_prelude = do {
     hint \<leftarrow> query_bool Q_getRecordingHintValue;
     (if hint then do {
        _ \<leftarrow> ask H_stopPreview;
        _ \<leftarrow> ask (H_updateRecordingHintValue False);
        _ \<leftarrow> prepare_and_start;
        skip }
      else skip);
     zsl \<leftarrow> query_bool Q_isZSLMode;
     longshot \<leftarrow> (if zsl then State_Monad.return False else query_bool Q_isLongshotEnabled);
     State_Monad.return (zsl \<or> longshot) }"

definition previewing_take_picture :: "sm_evt \<Rightarrow> int32 hal_m" where
  "previewing_take_picture evt = do {
     zsl_or_longshot \<leftarrow> take_picture_prelude;
     if zsl_or_longshot then take_picture_zsl evt else take_picture_normal evt }"

section \<open>Longshot commands and their preview restart\<close>

definition previewing_send_command :: "sm_evt \<Rightarrow> payload \<Rightarrow> int32 hal_m" where
  "previewing_send_command evt p = do {
     (rc, arg1', arg2') \<leftarrow> sendCommand (as_command p);
     modify (\<lambda>s. s\<lparr>m_bPreviewNeedsRestart := (evt_value EVT_RESTART_PERVIEW = arg1')\<rparr>);
     modify (\<lambda>s. s\<lparr>m_bPreviewDelayedRestart := (evt_value EVT_DELAYED_RESTART = arg2')\<rparr>);
     needs \<leftarrow> gets m_bPreviewNeedsRestart;
     delayed \<leftarrow> gets m_bPreviewDelayedRestart;
     rc \<leftarrow> (if cmd (as_command p) = CAMERA_CMD_LONGSHOT_ON \<and> needs then do {
              _ \<leftarrow> ask H_stopPreview;
              tell H_memoryPool_clear;
              if \<not> delayed then prepare_apply_start else State_Monad.return rc }
            else State_Monad.return rc);
     reply evt rc }"

definition previewing_send_command_restart :: "sm_evt \<Rightarrow> payload \<Rightarrow> int32 hal_m" where
  "previewing_send_command_restart evt p = do {
     needs \<leftarrow> gets m_bPreviewNeedsRestart;
     delayed \<leftarrow> gets m_bPreviewDelayedRestart;
     rc \<leftarrow> (if cmd (as_command p) = CAMERA_CMD_LONGSHOT_ON \<and> needs \<and> delayed
            then prepare_and_start else State_Monad.return NO_ERROR);
     reply evt rc }"

section \<open>Internal events\<close>

definition previewing_internal :: "internal_evt_payload \<Rightarrow> int32 hal_m" where
  "previewing_internal e = (case evt_type e of
      INTERNAL_EVT_FOCUS_UPDATE \<Rightarrow> ask (H_process P_AutoFocusEvent (evt_data e))
    | INTERNAL_EVT_PREP_SNAPSHOT_DONE \<Rightarrow> State_Monad.return NO_ERROR
    | INTERNAL_EVT_FACE_DETECT_RESULT \<Rightarrow> ask (H_process P_FaceDetectionResult (evt_data e))
    | INTERNAL_EVT_HISTOGRAM_STATS \<Rightarrow> ask (H_process P_HistogramStats (evt_data e))
    | INTERNAL_EVT_CROP_INFO \<Rightarrow> ask (H_process P_ZoomEvent (evt_data e))
    | INTERNAL_EVT_ASD_UPDATE \<Rightarrow> ask (H_process P_ASDUpdate (evt_data e))
    | INTERNAL_EVT_LED_MODE_OVERRIDE \<Rightarrow> ask (H_process P_updateFlashMode (evt_data e))
    | INTERNAL_EVT_AWB_UPDATE \<Rightarrow> ask (H_process P_transAwbMetaToParams (evt_data e))
    | INTERNAL_EVT_AE_UPDATE \<Rightarrow> ask (H_process P_AEInfo (evt_data e))
    | INTERNAL_EVT_FOCUS_POS_UPDATE \<Rightarrow> ask (H_process P_FocusPositionInfo (evt_data e))
    | INTERNAL_EVT_HDR_UPDATE \<Rightarrow> ask (H_process P_HDRData (evt_data e))
    | INTERNAL_EVT_RETRO_AEC_UNLOCK \<Rightarrow> ask (H_process P_RetroAECUnlock 0)
    | INTERNAL_EVT_ZSL_CAPTURE_DONE \<Rightarrow> ask (H_process P_ZSLCaptureDone 0)
    | INTERNAL_EVT_DUAL_CAM_UPDATE \<Rightarrow> ask (H_process P_DualCameraUpdate (evt_data e))
    | INTERNAL_EVT_READY_FOR_SNAPSHOT \<Rightarrow> State_Monad.return NO_ERROR
    | INTERNAL_EVT_MAX \<Rightarrow> State_Monad.return NO_ERROR)"

section \<open>PREVIEWING\<close>

definition procEvtPreviewingState_4 :: "sm_evt \<Rightarrow> payload \<Rightarrow> int32 hal_m" where
  "procEvtPreviewingState_4 evt p = (case evt of
      EVT_SEND_COMMAND_RESTART \<Rightarrow> previewing_send_command_restart evt p
    | EVT_REG_FACE_IMAGE \<Rightarrow> do {
        (rc, faceID) \<leftarrow> registerFaceImage (as_reg_face p);
        reply_handle evt rc faceID }
    | EVT_RELEASE_RECORIDNG_FRAME \<Rightarrow> do {
        tell (H_closeNativeHandle (as_ptr p));
        State_Monad.return NO_ERROR }
    | EVT_RELEASE \<Rightarrow> reject evt
    | EVT_CANCEL_PICTURE \<Rightarrow> reply evt NO_ERROR
    | EVT_STOP_RECORDING \<Rightarrow> reply evt NO_ERROR
    | EVT_EVT_INTERNAL \<Rightarrow> previewing_internal (as_internal p)
    | EVT_EVT_NOTIFY \<Rightarrow> do {
        notify_server_died (as_cam_event p);
        State_Monad.return NO_ERROR }
    | EVT_THERMAL_NOTIFY \<Rightarrow> ask (H_updateThermalLevel (as_ptr p))
    | EVT_SNAPSHOT_DONE \<Rightarrow> reply_evt evt NO_ERROR
    | EVT_RESTART_STOP_PREVIEW \<Rightarrow> do {
        _ \<leftarrow> ask H_stopPreview;
        reply evt NO_ERROR }
    | EVT_RESTART_START_PREVIEW \<Rightarrow> do {
        rc \<leftarrow> ask H_preparePreview;
        rc \<leftarrow> (if rc = NO_ERROR then ask H_startPreview else State_Monad.return rc);
        reply evt rc }
    | _ \<Rightarrow> State_Monad.return NO_ERROR)"

definition procEvtPreviewingState_3 :: "sm_evt \<Rightarrow> payload \<Rightarrow> int32 hal_m" where
  "procEvtPreviewingState_3 evt p = (case evt of
      EVT_PREPARE_SNAPSHOT \<Rightarrow> do {
        rc \<leftarrow> ask (H_prepareHardwareForSnapshot False);
        if rc = NO_ERROR then do {
          set_state STATE_PREPARE_SNAPSHOT;
          _ \<leftarrow> applyDelayedMsgs;
          State_Monad.return rc }
        else reply evt rc }
    | EVT_PRE_TAKE_PICTURE \<Rightarrow> do { rc \<leftarrow> ask H_preTakePicture; reply evt rc }
    | EVT_TAKE_PICTURE \<Rightarrow> previewing_take_picture evt
    | EVT_SEND_COMMAND \<Rightarrow> previewing_send_command evt p
    | _ \<Rightarrow> procEvtPreviewingState_4 evt p)"

definition procEvtPreviewingState_2 :: "sm_evt \<Rightarrow> payload \<Rightarrow> int32 hal_m" where
  "procEvtPreviewingState_2 evt p = (case evt of
      EVT_PUT_PARAMS \<Rightarrow> do {
        rc \<leftarrow> ask (H_putParameters (as_ptr p));
        reply evt rc }
    | EVT_PREPARE_PREVIEW \<Rightarrow> reply evt NO_ERROR
    | EVT_START_PREVIEW \<Rightarrow> do { _ \<leftarrow> applyDelayedMsgs; reply evt NO_ERROR }
    | EVT_START_NODISPLAY_PREVIEW \<Rightarrow> do { _ \<leftarrow> applyDelayedMsgs; reply evt NO_ERROR }
    | EVT_STOP_PREVIEW \<Rightarrow> do {
        rc \<leftarrow> ask H_stopPreview;
        _ \<leftarrow> applyDelayedMsgs;
        set_state STATE_PREVIEW_STOPPED;
        reply evt rc }
    | EVT_PREVIEW_ENABLED \<Rightarrow> do { _ \<leftarrow> applyDelayedMsgs; reply_flag evt NO_ERROR 1 }
    | EVT_RECORDING_ENABLED \<Rightarrow> reply_flag evt NO_ERROR 0
    | EVT_STORE_METADATA_IN_BUFS \<Rightarrow> do {
        rc \<leftarrow> ask (H_storeMetaDataInBuffers (as_int32 p));
        reply evt rc }
    | EVT_DUMP \<Rightarrow> do { rc \<leftarrow> ask (H_dump (as_int32 p)); reply evt rc }
    | EVT_START_AUTO_FOCUS \<Rightarrow> do { rc \<leftarrow> ask H_autoFocus; reply evt rc }
    | EVT_STOP_AUTO_FOCUS \<Rightarrow> do { rc \<leftarrow> ask H_cancelAutoFocus; reply evt rc }
    | EVT_PRE_START_RECORDING \<Rightarrow> do { rc \<leftarrow> ask H_preStartRecording; reply evt rc }
    | EVT_START_RECORDING \<Rightarrow> do {
        rc \<leftarrow> ask H_startRecording;
        (if rc = NO_ERROR then do {
           set_state STATE_RECORDING;
           _ \<leftarrow> applyDelayedMsgs;
           skip }
         else skip);
        reply evt rc }
    | _ \<Rightarrow> procEvtPreviewingState_3 evt p)"

definition procEvtPreviewingState :: "sm_evt \<Rightarrow> payload \<Rightarrow> int32 hal_m" where
  "procEvtPreviewingState evt p = (case evt of
      EVT_SET_PREVIEW_WINDOW \<Rightarrow> reject evt
    | EVT_SET_CALLBACKS \<Rightarrow> do {
        rc \<leftarrow> ask (H_setCallBacks (as_setcb p));
        reply evt rc }
    | EVT_ENABLE_MSG_TYPE \<Rightarrow> do {
        delay \<leftarrow> gets m_bDelayPreviewMsgs;
        enable_msgs \<leftarrow> (if delay \<and> as_int32 p AND CAMERA_MSG_PREVIEW_FRAME \<noteq> 0 then do {
                          modify (\<lambda>s. s\<lparr>m_DelayedMsgs := CAMERA_MSG_PREVIEW_FRAME\<rparr>);
                          State_Monad.return (as_int32 p AND NOT CAMERA_MSG_PREVIEW_FRAME) }
                        else State_Monad.return (as_int32 p));
        rc \<leftarrow> enableMsgType enable_msgs;
        reply evt rc }
    | EVT_DISABLE_MSG_TYPE \<Rightarrow> do {
        delay \<leftarrow> gets m_bDelayPreviewMsgs;
        delayed \<leftarrow> gets m_DelayedMsgs;
        (if delay \<and> delayed \<noteq> 0 then do {
           modify (\<lambda>s. s\<lparr>m_DelayedMsgs := m_DelayedMsgs s AND NOT (as_int32 p)\<rparr>);
           left \<leftarrow> gets m_DelayedMsgs;
           if left = 0 then modify (\<lambda>s. s\<lparr>m_bDelayPreviewMsgs := False\<rparr>) else skip }
         else skip);
        rc \<leftarrow> disableMsgType (as_int32 p);
        reply evt rc }
    | EVT_MSG_TYPE_ENABLED \<Rightarrow> do {
        enabled \<leftarrow> msgTypeEnabled (as_int32 p);
        delay \<leftarrow> gets m_bDelayPreviewMsgs;
        delayed \<leftarrow> gets m_DelayedMsgs;
        reply_flag evt NO_ERROR
          (if delay \<and> delayed \<noteq> 0 then enabled OR (as_int32 p AND delayed) else enabled) }
    | EVT_SET_PARAMS \<Rightarrow> do {
        (rc, needRestart) \<leftarrow> updateParameters (as_ptr p);
        reply evt rc }
    | EVT_SET_PARAMS_STOP \<Rightarrow> do {
        rc \<leftarrow> ask H_stopPreview;
        tell H_memoryPool_clear;
        reply evt rc }
    | EVT_SET_PARAMS_COMMIT \<Rightarrow> do { rc \<leftarrow> ask H_commitParameterChanges; reply evt rc }
    | EVT_SET_PARAMS_RESTART \<Rightarrow> do {
        rc \<leftarrow> ask H_preparePreview;
        rc \<leftarrow> (if rc = NO_ERROR then do {
                 _ \<leftarrow> applyDelayedMsgs;
                 rc \<leftarrow> start_or_unprepare;
                 (if rc \<noteq> NO_ERROR then set_state STATE_PREVIEW_STOPPED else skip);
                 State_Monad.return rc }
               else State_Monad.return rc);
        setNeedRestart False;
        reply evt rc }
    | EVT_GET_PARAMS \<Rightarrow> do { params \<leftarrow> getParameters; reply_params evt params }
    | _ \<Rightarrow> procEvtPreviewingState_2 evt p)"

lemmas [sm_defs] =
  procEvtPreviewingState_def procEvtPreviewingState_2_def procEvtPreviewingState_3_def
  procEvtPreviewingState_4_def take_picture_zsl_def take_picture_normal_def
  take_picture_prelude_def previewing_take_picture_def previewing_send_command_def previewing_send_command_restart_def
  previewing_internal_def

section \<open>The handlers meet the specification\<close>

lemma previewing_answered:
  assumes "sync_call STATE_PREVIEWING evt"
  shows "answered evt (procEvtPreviewingState evt p) s"
  using assms unfolding answered_def
  by (cases evt; simp add: sync_defs sm_defs handler_run split: evt_splits)

lemma previewing_next:
  assumes "m_state s = STATE_PREVIEWING"
  shows "m_state (snd (run_state (procEvtPreviewingState evt p) s)) \<in> set (next_states STATE_PREVIEWING evt)"
  using assms
  by (cases evt; simp add: next_states_def sm_defs handler_run split: evt_splits)

lemma previewing_delay:
  assumes "delay_ok s"
  shows "delay_ok (snd (run_state (procEvtPreviewingState evt p) s))"
  using assms unfolding delay_ok_def
  by (elim disjE conjE; cases evt; simp add: sm_defs handler_run preview_frame_and split: evt_splits)

lemma previewing_refused:
  assumes "evt \<in> set (refused STATE_PREVIEWING)"
  shows "run_state (procEvtPreviewingState evt p) s = refusal evt s"
  using assms by (auto simp: refused_def refusal_def sm_defs hal_run)

lemma previewing_silent:
  assumes "never_answered STATE_PREVIEWING evt"
  shows "api_signals (trace (snd (run_state (procEvtPreviewingState evt p) s))) = api_signals (trace s)"
  using assms by (cases evt; simp add: sync_defs sm_defs handler_run)

lemma previewing_evt_reported: "evt_reported evt (procEvtPreviewingState evt p) s"
  unfolding evt_reported_def
  by (cases evt; simp add: sm_defs handler_run split: evt_splits)

lemma previewing_keeps:
  shows "env (snd (run_state (procEvtPreviewingState evt p) s)) = env s"
    "api_queue (snd (run_state (procEvtPreviewingState evt p) s)) = api_queue s"
  by (cases evt; simp add: sm_defs handler_run split: evt_splits)+

lemma previewing_keeps_events:
  assumes "evt \<noteq> EVT_SEND_COMMAND"
  shows "evt_queue (snd (run_state (procEvtPreviewingState evt p) s)) = evt_queue s"
    "cmd_sem (snd (run_state (procEvtPreviewingState evt p) s)) = cmd_sem s"
  using assms by (cases evt; simp add: sm_defs handler_run split: evt_splits)+

lemma previewing_queues:
  assumes "queues_ok s"
  shows "queues_ok (snd (run_state (procEvtPreviewingState evt p) s))"
  using assms by (cases evt; simp add: sm_defs handler_run split: evt_splits)

lemma take_picture_prelude_signals:
  "api_signals (trace (snd (run_state take_picture_prelude s))) = api_signals (trace s)"
  by (simp add: take_picture_prelude_def prepare_and_start_def start_or_unprepare_def hal_run
      call_kinds)

lemma take_picture_zsl_failure:
  "fst (run_state (take_picture_zsl evt) s) \<noteq> NO_ERROR \<Longrightarrow>
     answered evt (take_picture_zsl evt) s"
  unfolding answered_def by (simp add: take_picture_zsl_def reply_defs hal_run call_kinds)

lemma take_picture_normal_answered: "answered evt (take_picture_normal evt) s"
  unfolding answered_def by (simp add: take_picture_normal_def reply_defs hal_run call_kinds)

lemma previewing_later_failure:
  "fst (run_state (procEvtPreviewingState EVT_TAKE_PICTURE p) s) \<noteq> NO_ERROR \<Longrightarrow>
     answered EVT_TAKE_PICTURE (procEvtPreviewingState EVT_TAKE_PICTURE p) s"
  "fst (run_state (procEvtPreviewingState EVT_PREPARE_SNAPSHOT p) s) \<noteq> NO_ERROR \<Longrightarrow>
     answered EVT_PREPARE_SNAPSHOT (procEvtPreviewingState EVT_PREPARE_SNAPSHOT p) s"
proof -
  show "answered EVT_TAKE_PICTURE (procEvtPreviewingState EVT_TAKE_PICTURE p) s"
    if "fst (run_state (procEvtPreviewingState EVT_TAKE_PICTURE p) s) \<noteq> NO_ERROR"
    using that take_picture_prelude_signals [of s]
      take_picture_zsl_failure [of EVT_TAKE_PICTURE "snd (run_state take_picture_prelude s)"]
      take_picture_normal_answered [of EVT_TAKE_PICTURE "snd (run_state take_picture_prelude s)"]
    by (auto simp: answered_def procEvtPreviewingState_def procEvtPreviewingState_2_def
        procEvtPreviewingState_3_def previewing_take_picture_def hal_run)
  show "answered EVT_PREPARE_SNAPSHOT (procEvtPreviewingState EVT_PREPARE_SNAPSHOT p) s"
    if "fst (run_state (procEvtPreviewingState EVT_PREPARE_SNAPSHOT p) s) \<noteq> NO_ERROR"
    using that by (simp add: sm_defs hal_run answered_def call_kinds)
qed

end
