(* ===== verification/Sm_Recording.thy ===== *)
theory Sm_Recording
  imports Sm_Spec
begin

text \<open>
  The handlers of the two recording states, procEvtRecordingState and procEvtVideoPicTakingState
  (a live snapshot during a recording) of QCameraStateMachine.cpp.
\<close>

section \<open>RECORDING\<close>

text \<open>Parameters that need a preview restart are refused while recording.\<close>

definition recording_set_params :: "sm_evt \<Rightarrow> payload \<Rightarrow> int32 hal_m" where
  "recording_set_params evt p = do {
     (rc, needRestart) \<leftarrow> updateParameters (as_ptr p);
     let rc = (if rc = NO_ERROR \<and> needRestart then BAD_VALUE else rc);
     (if rc \<noteq> NO_ERROR then setNeedRestart False else skip);
     reply evt rc }"

definition recording_internal :: "internal_evt_payload \<Rightarrow> int32 hal_m" where
  "recording_internal e = (case evt_type e of
      INTERNAL_EVT_FOCUS_UPDATE \<Rightarrow> ask (H_process P_AutoFocusEvent (evt_data e))
    | INTERNAL_EVT_PREP_SNAPSHOT_DONE \<Rightarrow> State_Monad.return NO_ERROR
    | INTERNAL_EVT_FACE_DETECT_RESULT \<Rightarrow> ask (H_process P_FaceDetectionResult (evt_data e))
    | INTERNAL_EVT_HISTOGRAM_STATS \<Rightarrow> ask (H_process P_HistogramStats (evt_data e))
    | INTERNAL_EVT_CROP_INFO \<Rightarrow> ask (H_process P_ZoomEvent (evt_data e))
    | INTERNAL_EVT_ASD_UPDATE \<Rightarrow> ask (H_process P_ASDUpdate (evt_data e))
    | INTERNAL_EVT_LED_MODE_OVERRIDE \<Rightarrow> State_Monad.return NO_ERROR
    | INTERNAL_EVT_AWB_UPDATE \<Rightarrow> ask (H_process P_transAwbMetaToParams (evt_data e))
    | INTERNAL_EVT_AE_UPDATE \<Rightarrow> ask (H_process P_AEInfo (evt_data e))
    | INTERNAL_EVT_FOCUS_POS_UPDATE \<Rightarrow> ask (H_process P_FocusPositionInfo (evt_data e))
    | INTERNAL_EVT_HDR_UPDATE \<Rightarrow> ask (H_process P_HDRData (evt_data e))
    | INTERNAL_EVT_RETRO_AEC_UNLOCK \<Rightarrow> ask (H_process P_RetroAECUnlock 0)
    | INTERNAL_EVT_ZSL_CAPTURE_DONE \<Rightarrow> ask (H_process P_ZSLCaptureDone 0)
    | INTERNAL_EVT_DUAL_CAM_UPDATE \<Rightarrow> ask (H_process P_DualCameraUpdate (evt_data e))
    | INTERNAL_EVT_READY_FOR_SNAPSHOT \<Rightarrow> State_Monad.return NO_ERROR
    | INTERNAL_EVT_MAX \<Rightarrow> State_Monad.return NO_ERROR)"

definition procEvtRecordingState_3 :: "sm_evt \<Rightarrow> payload \<Rightarrow> int32 hal_m" where
  "procEvtRecordingState_3 evt p = (case evt of
      EVT_EVT_INTERNAL \<Rightarrow> recording_internal (as_internal p)
    | EVT_EVT_NOTIFY \<Rightarrow> do {
        notify_server_died (as_cam_event p);
        State_Monad.return NO_ERROR }
    | EVT_THERMAL_NOTIFY \<Rightarrow> ask (H_updateThermalLevel (as_ptr p))
    | EVT_SNAPSHOT_DONE \<Rightarrow> reply_evt evt NO_ERROR
    | _ \<Rightarrow> State_Monad.return NO_ERROR)"

definition procEvtRecordingState_2 :: "sm_evt \<Rightarrow> payload \<Rightarrow> int32 hal_m" where
  "procEvtRecordingState_2 evt p = (case evt of
      EVT_STORE_METADATA_IN_BUFS \<Rightarrow> do {
        rc \<leftarrow> ask (H_storeMetaDataInBuffers (as_int32 p));
        reply evt rc }
    | EVT_DUMP \<Rightarrow> do { rc \<leftarrow> ask (H_dump (as_int32 p)); reply evt rc }
    | EVT_START_AUTO_FOCUS \<Rightarrow> do { rc \<leftarrow> ask H_autoFocus; reply evt rc }
    | EVT_STOP_AUTO_FOCUS \<Rightarrow> do { rc \<leftarrow> ask H_cancelAutoFocus; reply evt rc }
    | EVT_SEND_COMMAND \<Rightarrow> do {
        (rc, _, _) \<leftarrow> sendCommand (as_command p);
        reply evt rc }
    | EVT_PRE_TAKE_PICTURE \<Rightarrow> reply evt NO_ERROR
    | EVT_TAKE_PICTURE \<Rightarrow> do {
        set_state STATE_VIDEO_PIC_TAKING;
        rc \<leftarrow> ask H_takeLiveSnapshot;
        (if rc \<noteq> NO_ERROR then do {
           tell H_unconfigureAdvancedCapture;
           set_state STATE_RECORDING }
         else skip);
        reply evt rc }
    | EVT_PRE_START_RECORDING \<Rightarrow> reply evt NO_ERROR
    | EVT_RESTART_STOP_PREVIEW \<Rightarrow> reply evt NO_ERROR
    | EVT_RESTART_START_PREVIEW \<Rightarrow> reply evt NO_ERROR
    | EVT_START_RECORDING \<Rightarrow> reply evt NO_ERROR
    | EVT_STOP_RECORDING \<Rightarrow> do {
        rc \<leftarrow> ask H_stopRecording;
        set_state STATE_PREVIEWING;
        reply evt rc }
    | EVT_STOP_PREVIEW \<Rightarrow> do {
        _ \<leftarrow> ask H_stopRecording;
        set_state STATE_PREVIEWING;
        rc \<leftarrow> ask H_stopPreview;
        set_state STATE_PREVIEW_STOPPED;
        reply evt rc }
    | EVT_RELEASE_RECORIDNG_FRAME \<Rightarrow> do {
        rc \<leftarrow> ask (H_releaseRecordingFrame (as_ptr p));
        reply evt rc }
    | EVT_REG_FACE_IMAGE \<Rightarrow> do {
        (rc, faceID) \<leftarrow> registerFaceImage (as_reg_face p);
        reply_handle evt rc faceID }
    | EVT_PREPARE_SNAPSHOT \<Rightarrow> reply evt NO_ERROR
    | EVT_CANCEL_PICTURE \<Rightarrow> reject evt
    | EVT_START_NODISPLAY_PREVIEW \<Rightarrow> reject evt
    | EVT_RELEASE \<Rightarrow> reject evt
    | _ \<Rightarrow> procEvtRecordingState_3 evt p)"

definition procEvtRecordingState :: "sm_evt \<Rightarrow> payload \<Rightarrow> int32 hal_m" where
  "procEvtRecordingState evt p = (case evt of
      EVT_PREPARE_PREVIEW \<Rightarrow> reply evt NO_ERROR
    | EVT_START_PREVIEW \<Rightarrow> reply evt NO_ERROR
    | EVT_SET_PREVIEW_WINDOW \<Rightarrow> reply evt NO_ERROR
    | EVT_SET_CALLBACKS \<Rightarrow> do {
        rc \<leftarrow> ask (H_setCallBacks (as_setcb p));
        reply evt rc }
    | EVT_ENABLE_MSG_TYPE \<Rightarrow> do { rc \<leftarrow> enableMsgType (as_int32 p); reply evt rc }
    | EVT_DISABLE_MSG_TYPE \<Rightarrow> do { rc \<leftarrow> disableMsgType (as_int32 p); reply evt rc }
    | EVT_MSG_TYPE_ENABLED \<Rightarrow> do {
        enabled \<leftarrow> msgTypeEnabled (as_int32 p);
        reply_flag evt NO_ERROR enabled }
    | EVT_SET_PARAMS \<Rightarrow> recording_set_params evt p
    | EVT_SET_PARAMS_COMMIT \<Rightarrow> do { rc \<leftarrow> ask H_commitParameterChanges; reply evt rc }
    | EVT_SET_PARAMS_STOP \<Rightarrow> reject evt
    | EVT_SET_PARAMS_RESTART \<Rightarrow> reject evt
    | EVT_GET_PARAMS \<Rightarrow> do { params \<leftarrow> getParameters; reply_params evt params }
    | EVT_PUT_PARAMS \<Rightarrow> do {
        rc \<leftarrow> ask (H_putParameters (as_ptr p));
        reply evt rc }
    | EVT_PREVIEW_ENABLED \<Rightarrow> reply_flag evt NO_ERROR 0
    | EVT_RECORDING_ENABLED \<Rightarrow> reply_flag evt NO_ERROR 1
    | _ \<Rightarrow> procEvtRecordingState_2 evt p)"

section \<open>VIDEO PIC TAKING\<close>

definition procEvtVideoPicTakingState_3 :: "sm_evt \<Rightarrow> payload \<Rightarrow> int32 hal_m" where
  "procEvtVideoPicTakingState_3 evt p = (case evt of
      EVT_EVT_INTERNAL \<Rightarrow> recording_internal (as_internal p)
    | EVT_EVT_NOTIFY \<Rightarrow> do {
        notify_server_died (as_cam_event p);
        State_Monad.return NO_ERROR }
    | EVT_JPEG_EVT_NOTIFY \<Rightarrow> ask (H_processJpegNotify (as_ptr p))
    | EVT_SNAPSHOT_DONE \<Rightarrow> do {
        rc \<leftarrow> ask H_cancelLiveSnapshot;
        set_state STATE_RECORDING;
        reply_evt evt rc }
    | EVT_THERMAL_NOTIFY \<Rightarrow> ask (H_updateThermalLevel (as_ptr p))
    | _ \<Rightarrow> State_Monad.return NO_ERROR)"

definition procEvtVideoPicTakingState_2 :: "sm_evt \<Rightarrow> payload \<Rightarrow> int32 hal_m" where
  "procEvtVideoPicTakingState_2 evt p = (case evt of
      EVT_STORE_METADATA_IN_BUFS \<Rightarrow> do {
        rc \<leftarrow> ask (H_storeMetaDataInBuffers (as_int32 p));
        reply evt rc }
    | EVT_DUMP \<Rightarrow> do { rc \<leftarrow> ask (H_dump (as_int32 p)); reply evt rc }
    | EVT_START_AUTO_FOCUS \<Rightarrow> do { rc \<leftarrow> ask H_autoFocus; reply evt rc }
    | EVT_STOP_AUTO_FOCUS \<Rightarrow> do { rc \<leftarrow> ask H_cancelAutoFocus; reply evt rc }
    | EVT_SEND_COMMAND \<Rightarrow> do {
        (rc, _, _) \<leftarrow> sendCommand (as_command p);
        reply evt rc }
    | EVT_STOP_RECORDING \<Rightarrow> do {
        _ \<leftarrow> ask H_cancelLiveSnapshot;
        set_state STATE_RECORDING;
        rc \<leftarrow> ask H_stopRecording;
        set_state STATE_PREVIEWING;
        reply evt rc }
    | EVT_RELEASE_RECORIDNG_FRAME \<Rightarrow> do {
        rc \<leftarrow> ask (H_releaseRecordingFrame (as_ptr p));
        reply evt rc }
    | EVT_CANCEL_PICTURE \<Rightarrow> do {
        rc \<leftarrow> ask H_cancelLiveSnapshot;
        set_state STATE_RECORDING;
        reply evt rc }
    | EVT_REG_FACE_IMAGE \<Rightarrow> do {
        (rc, faceID) \<leftarrow> registerFaceImage (as_reg_face p);
        reply_handle evt rc faceID }
    | EVT_STOP_PREVIEW \<Rightarrow> do {
        _ \<leftarrow> ask H_cancelLiveSnapshot;
        set_state STATE_RECORDING;
        _ \<leftarrow> ask H_stopRecording;
        set_state STATE_PREVIEWING;
        rc \<leftarrow> ask H_stopPreview;
        set_state STATE_PREVIEW_STOPPED;
        reply evt rc }
    | EVT_PRE_START_RECORDING \<Rightarrow> reject evt
    | EVT_RESTART_STOP_PREVIEW \<Rightarrow> reject evt
    | EVT_RESTART_START_PREVIEW \<Rightarrow> reject evt
    | EVT_START_RECORDING \<Rightarrow> reject evt
    | EVT_PREPARE_PREVIEW \<Rightarrow> reject evt
    | EVT_START_PREVIEW \<Rightarrow> reject evt
    | EVT_START_NODISPLAY_PREVIEW \<Rightarrow> reject evt
    | EVT_PREPARE_SNAPSHOT \<Rightarrow> reject evt
    | EVT_PRE_TAKE_PICTURE \<Rightarrow> reject evt
    | EVT_TAKE_PICTURE \<Rightarrow> reject evt
    | EVT_RELEASE \<Rightarrow> reject evt
    | _ \<Rightarrow> procEvtVideoPicTakingState_3 evt p)"

definition procEvtVideoPicTakingState :: "sm_evt \<Rightarrow> payload \<Rightarrow> int32 hal_m" where
  "procEvtVideoPicTakingState evt p = (case evt of
      EVT_SET_PREVIEW_WINDOW \<Rightarrow> reject evt
    | EVT_SET_CALLBACKS \<Rightarrow> do {
        rc \<leftarrow> ask (H_setCallBacks (as_setcb p));
        reply evt rc }
    | EVT_ENABLE_MSG_TYPE \<Rightarrow> do { rc \<leftarrow> enableMsgType (as_int32 p); reply evt rc }
    | EVT_DISABLE_MSG_TYPE \<Rightarrow> do { rc \<leftarrow> disableMsgType (as_int32 p); reply evt rc }
    | EVT_MSG_TYPE_ENABLED \<Rightarrow> do {
        enabled \<leftarrow> msgTypeEnabled (as_int32 p);
        reply_flag evt NO_ERROR enabled }
    | EVT_SET_PARAMS \<Rightarrow> recording_set_params evt p
    | EVT_SET_PARAMS_COMMIT \<Rightarrow> do { rc \<leftarrow> ask H_commitParameterChanges; reply evt rc }
    | EVT_SET_PARAMS_STOP \<Rightarrow> reject evt
    | EVT_SET_PARAMS_RESTART \<Rightarrow> reject evt
    | EVT_GET_PARAMS \<Rightarrow> do { params \<leftarrow> getParameters; reply_params evt params }
    | EVT_PUT_PARAMS \<Rightarrow> do {
        rc \<leftarrow> ask (H_putParameters (as_ptr p));
        reply evt rc }
    | EVT_PREVIEW_ENABLED \<Rightarrow> reply_flag evt NO_ERROR 1
    | EVT_RECORDING_ENABLED \<Rightarrow> reply_flag evt NO_ERROR 1
    | _ \<Rightarrow> procEvtVideoPicTakingState_2 evt p)"

lemmas [sm_defs] =
  recording_set_params_def recording_internal_def procEvtRecordingState_def
  procEvtRecordingState_2_def procEvtRecordingState_3_def procEvtVideoPicTakingState_def
  procEvtVideoPicTakingState_2_def procEvtVideoPicTakingState_3_def

section \<open>The handlers meet the specification\<close>

lemma recording_answered:
  assumes "sync_call STATE_RECORDING evt"
  shows "answered evt (procEvtRecordingState evt p) s"
  using assms unfolding answered_def
  by (cases evt; simp add: sync_defs sm_defs handler_run split: evt_splits)

lemma recording_next:
  assumes "m_state s = STATE_RECORDING"
  shows "m_state (snd (run_state (procEvtRecordingState evt p) s)) \<in> set (next_states STATE_RECORDING evt)"
  using assms
  by (cases evt; simp add: next_states_def sm_defs handler_run split: evt_splits)

lemma recording_delay:
  assumes "delay_ok s"
  shows "delay_ok (snd (run_state (procEvtRecordingState evt p) s))"
  using assms unfolding delay_ok_def
  by (elim disjE conjE; cases evt; simp add: sm_defs handler_run preview_frame_and split: evt_splits)

lemma recording_refused:
  assumes "evt \<in> set (refused STATE_RECORDING)"
  shows "run_state (procEvtRecordingState evt p) s = refusal evt s"
  using assms by (auto simp: refused_def refusal_def sm_defs hal_run)

lemma recording_silent:
  assumes "never_answered STATE_RECORDING evt"
  shows "api_signals (trace (snd (run_state (procEvtRecordingState evt p) s))) = api_signals (trace s)"
  using assms by (cases evt; simp add: sync_defs sm_defs handler_run)

lemma recording_evt_reported: "evt_reported evt (procEvtRecordingState evt p) s"
  unfolding evt_reported_def
  by (cases evt; simp add: sm_defs handler_run split: evt_splits)

lemma recording_keeps:
  shows "env (snd (run_state (procEvtRecordingState evt p) s)) = env s"
    "api_queue (snd (run_state (procEvtRecordingState evt p) s)) = api_queue s"
  by (cases evt; simp add: sm_defs handler_run split: evt_splits)+

lemma video_pic_taking_answered:
  assumes "sync_call STATE_VIDEO_PIC_TAKING evt"
  shows "answered evt (procEvtVideoPicTakingState evt p) s"
  using assms unfolding answered_def
  by (cases evt; simp add: sync_defs sm_defs handler_run split: evt_splits)

lemma video_pic_taking_next:
  assumes "m_state s = STATE_VIDEO_PIC_TAKING"
  shows "m_state (snd (run_state (procEvtVideoPicTakingState evt p) s)) \<in> set (next_states STATE_VIDEO_PIC_TAKING evt)"
  using assms
  by (cases evt; simp add: next_states_def sm_defs handler_run split: evt_splits)

lemma video_pic_taking_delay:
  assumes "delay_ok s"
  shows "delay_ok (snd (run_state (procEvtVideoPicTakingState evt p) s))"
  using assms unfolding delay_ok_def
  by (elim disjE conjE; cases evt; simp add: sm_defs handler_run preview_frame_and split: evt_splits)

lemma video_pic_taking_refused:
  assumes "evt \<in> set (refused STATE_VIDEO_PIC_TAKING)"
  shows "run_state (procEvtVideoPicTakingState evt p) s = refusal evt s"
  using assms by (auto simp: refused_def refusal_def sm_defs hal_run)

lemma video_pic_taking_silent:
  assumes "never_answered STATE_VIDEO_PIC_TAKING evt"
  shows "api_signals (trace (snd (run_state (procEvtVideoPicTakingState evt p) s))) = api_signals (trace s)"
  using assms by (cases evt; simp add: sync_defs sm_defs handler_run)

lemma video_pic_taking_evt_reported: "evt_reported evt (procEvtVideoPicTakingState evt p) s"
  unfolding evt_reported_def
  by (cases evt; simp add: sm_defs handler_run split: evt_splits)

lemma video_pic_taking_keeps:
  shows "env (snd (run_state (procEvtVideoPicTakingState evt p) s)) = env s"
    "api_queue (snd (run_state (procEvtVideoPicTakingState evt p) s)) = api_queue s"
  by (cases evt; simp add: sm_defs handler_run split: evt_splits)+

lemma recording_keeps_events:
  assumes "evt \<noteq> EVT_SEND_COMMAND"
  shows "evt_queue (snd (run_state (procEvtRecordingState evt p) s)) = evt_queue s"
    "cmd_sem (snd (run_state (procEvtRecordingState evt p) s)) = cmd_sem s"
  using assms by (cases evt; simp add: sm_defs handler_run split: evt_splits)+

lemma recording_queues:
  assumes "queues_ok s"
  shows "queues_ok (snd (run_state (procEvtRecordingState evt p) s))"
  using assms by (cases evt; simp add: sm_defs handler_run split: evt_splits)

lemma video_pic_taking_keeps_events:
  assumes "evt \<noteq> EVT_SEND_COMMAND"
  shows "evt_queue (snd (run_state (procEvtVideoPicTakingState evt p) s)) = evt_queue s"
    "cmd_sem (snd (run_state (procEvtVideoPicTakingState evt p) s)) = cmd_sem s"
  using assms by (cases evt; simp add: sm_defs handler_run split: evt_splits)+

lemma video_pic_taking_queues:
  assumes "queues_ok s"
  shows "queues_ok (snd (run_state (procEvtVideoPicTakingState evt p) s))"
  using assms by (cases evt; simp add: sm_defs handler_run split: evt_splits)

end
