(* ===== verification/Sm_Capture.thy ===== *)
theory Sm_Capture
  imports Sm_Spec
begin

text \<open>
  The handlers procEvtPrepareSnapshotState (the hardware prepares, every API call is refused
  until the metadata report that it is done) and procEvtPicTakingState (a picture is taken with
  the preview stopped) of QCameraStateMachine.cpp.
\<close>

section \<open>PREPARE SNAPSHOT\<close>

text \<open>The snapshot done event answers the PREPARE\_SNAPSHOT call that entered the state.\<close>

definition prep_snapshot_done :: "nat \<Rightarrow> int32 hal_m" where
  "prep_snapshot_done d = do {
     _ \<leftarrow> ask (H_process P_PrepSnapshotDoneEvent d);
     set_state STATE_PREVIEWING;
     signalAPIResult \<lparr>status = NO_ERROR, request_api = EVT_PREPARE_SNAPSHOT,
                       result_type = API_RESULT_TYPE_DEF, result_union = U_zero\<rparr>;
     State_Monad.return NO_ERROR }"

definition prepare_snapshot_internal :: "internal_evt_payload \<Rightarrow> int32 hal_m" where
  "prepare_snapshot_internal e = (case evt_type e of
      INTERNAL_EVT_FOCUS_UPDATE \<Rightarrow> ask (H_process P_AutoFocusEvent (evt_data e))
    | INTERNAL_EVT_PREP_SNAPSHOT_DONE \<Rightarrow> prep_snapshot_done (evt_data e)
    | INTERNAL_EVT_FACE_DETECT_RESULT \<Rightarrow> ask (H_process P_FaceDetectionResult (evt_data e))
    | INTERNAL_EVT_HISTOGRAM_STATS \<Rightarrow> ask (H_process P_HistogramStats (evt_data e))
    | INTERNAL_EVT_CROP_INFO \<Rightarrow> ask (H_process P_ZoomEvent (evt_data e))
    | INTERNAL_EVT_ASD_UPDATE \<Rightarrow> ask (H_process P_ASDUpdate (evt_data e))
    | INTERNAL_EVT_LED_MODE_OVERRIDE \<Rightarrow> State_Monad.return NO_ERROR
    | INTERNAL_EVT_AWB_UPDATE \<Rightarrow> ask (H_process P_transAwbMetaToParams (evt_data e))
    | INTERNAL_EVT_AE_UPDATE \<Rightarrow> ask (H_process P_AEInfo (evt_data e))
    | INTERNAL_EVT_FOCUS_POS_UPDATE \<Rightarrow> ask (H_process P_FocusPositionInfo (evt_data e))
    | INTERNAL_EVT_HDR_UPDATE \<Rightarrow> ask (H_process P_HDRData (evt_data e))
    | INTERNAL_EVT_RETRO_AEC_UNLOCK \<Rightarrow> ask (H_process P_RetroAECUnlock 0)
    | INTERNAL_EVT_ZSL_CAPTURE_DONE \<Rightarrow> ask (H_process P_ZSLCaptureDone 0)
    | INTERNAL_EVT_DUAL_CAM_UPDATE \<Rightarrow> ask (H_process P_DualCameraUpdate (evt_data e))
    | INTERNAL_EVT_READY_FOR_SNAPSHOT \<Rightarrow> State_Monad.return NO_ERROR
    | INTERNAL_EVT_MAX \<Rightarrow> State_Monad.return NO_ERROR)"

text \<open>
  The daemon died: the calls that may be waiting for a snapshot are answered before the
  application is told.
\<close>

definition daemon_died_unblock :: "int32 hal_m" where
  "daemon_died_unblock = do {
     signalAPIResult \<lparr>status = NO_ERROR, request_api = EVT_PREPARE_SNAPSHOT,
                       result_type = API_RESULT_TYPE_DEF, result_union = U_zero\<rparr>;
     signalAPIResult \<lparr>status = NO_ERROR, request_api = EVT_TAKE_PICTURE,
                       result_type = API_RESULT_TYPE_DEF, result_union = U_zero\<rparr>;
     tell (H_sendEvtNotify CAMERA_MSG_ERROR CAMERA_ERROR_SERVER_DIED 0);
     State_Monad.return NO_ERROR }"

definition procEvtPrepareSnapshotState_2 :: "sm_evt \<Rightarrow> payload \<Rightarrow> int32 hal_m" where
  "procEvtPrepareSnapshotState_2 evt p = (case evt of
      EVT_EVT_INTERNAL \<Rightarrow> prepare_snapshot_internal (as_internal p)
    | EVT_EVT_NOTIFY \<Rightarrow>
        (case as_cam_event p of
           CAM_EVENT_TYPE_DAEMON_DIED \<Rightarrow> daemon_died_unblock
         | _ \<Rightarrow> State_Monad.return NO_ERROR)
    | EVT_SNAPSHOT_DONE \<Rightarrow> reply_evt evt NO_ERROR
    | EVT_THERMAL_NOTIFY \<Rightarrow> ask (H_updateThermalLevel (as_ptr p))
    | _ \<Rightarrow> State_Monad.return NO_ERROR)"

definition procEvtPrepareSnapshotState :: "sm_evt \<Rightarrow> payload \<Rightarrow> int32 hal_m" where
  "procEvtPrepareSnapshotState evt p = (case evt of
      EVT_SET_PREVIEW_WINDOW \<Rightarrow> reject evt
    | EVT_SET_CALLBACKS \<Rightarrow> reject evt
    | EVT_ENABLE_MSG_TYPE \<Rightarrow> reject evt
    | EVT_DISABLE_MSG_TYPE \<Rightarrow> reject evt
    | EVT_MSG_TYPE_ENABLED \<Rightarrow> reject evt
    | EVT_SET_PARAMS \<Rightarrow> reject evt
    | EVT_SET_PARAMS_STOP \<Rightarrow> reject evt
    | EVT_SET_PARAMS_COMMIT \<Rightarrow> reject evt
    | EVT_SET_PARAMS_RESTART \<Rightarrow> reject evt
    | EVT_GET_PARAMS \<Rightarrow> reject evt
    | EVT_PUT_PARAMS \<Rightarrow> reject evt
    | EVT_PREPARE_PREVIEW \<Rightarrow> reject evt
    | EVT_START_PREVIEW \<Rightarrow> reject evt
    | EVT_START_NODISPLAY_PREVIEW \<Rightarrow> reject evt
    | EVT_STOP_PREVIEW \<Rightarrow> reject evt
    | EVT_PREVIEW_ENABLED \<Rightarrow> reject evt
    | EVT_RECORDING_ENABLED \<Rightarrow> reject evt
    | EVT_STORE_METADATA_IN_BUFS \<Rightarrow> reject evt
    | EVT_DUMP \<Rightarrow> reject evt
    | EVT_START_AUTO_FOCUS \<Rightarrow> reject evt
    | EVT_STOP_AUTO_FOCUS \<Rightarrow> reject evt
    | EVT_PRE_START_RECORDING \<Rightarrow> reject evt
    | EVT_RESTART_STOP_PREVIEW \<Rightarrow> reject evt
    | EVT_RESTART_START_PREVIEW \<Rightarrow> reject evt
    | EVT_START_RECORDING \<Rightarrow> reject evt
    | EVT_PRE_TAKE_PICTURE \<Rightarrow> reject evt
    | EVT_TAKE_PICTURE \<Rightarrow> reject evt
    | EVT_PREPARE_SNAPSHOT \<Rightarrow> reject evt
    | EVT_SEND_COMMAND \<Rightarrow> reject evt
    | EVT_CANCEL_PICTURE \<Rightarrow> reject evt
    | EVT_STOP_RECORDING \<Rightarrow> reject evt
    | EVT_RELEASE_RECORIDNG_FRAME \<Rightarrow> reject evt
    | EVT_RELEASE \<Rightarrow> reject evt
    | _ \<Rightarrow> procEvtPrepareSnapshotState_2 evt p)"

section \<open>PIC TAKING\<close>

definition pic_taking_internal :: "internal_evt_payload \<Rightarrow> int32 hal_m" where
  "pic_taking_internal e = (case evt_type e of
      INTERNAL_EVT_FOCUS_UPDATE \<Rightarrow> ask (H_process P_AutoFocusEvent (evt_data e))
    | INTERNAL_EVT_PREP_SNAPSHOT_DONE \<Rightarrow> State_Monad.return NO_ERROR
    | INTERNAL_EVT_FACE_DETECT_RESULT \<Rightarrow> State_Monad.return NO_ERROR
    | INTERNAL_EVT_HISTOGRAM_STATS \<Rightarrow> State_Monad.return NO_ERROR
    | INTERNAL_EVT_CROP_INFO \<Rightarrow> ask (H_process P_ZoomEvent (evt_data e))
    | INTERNAL_EVT_ASD_UPDATE \<Rightarrow> ask (H_process P_ASDUpdate (evt_data e))
    | INTERNAL_EVT_LED_MODE_OVERRIDE \<Rightarrow> State_Monad.return NO_ERROR
    | INTERNAL_EVT_AWB_UPDATE \<Rightarrow> ask (H_process P_transAwbMetaToParams (evt_data e))
    | INTERNAL_EVT_AE_UPDATE \<Rightarrow> ask (H_process P_AEInfo (evt_data e))
    | INTERNAL_EVT_FOCUS_POS_UPDATE \<Rightarrow> ask (H_process P_FocusPositionInfo (evt_data e))
    | INTERNAL_EVT_HDR_UPDATE \<Rightarrow> ask (H_process P_HDRData (evt_data e))
    | INTERNAL_EVT_RETRO_AEC_UNLOCK \<Rightarrow> ask (H_process P_RetroAECUnlock 0)
    | INTERNAL_EVT_ZSL_CAPTURE_DONE \<Rightarrow> ask (H_process P_ZSLCaptureDone 0)
    | INTERNAL_EVT_DUAL_CAM_UPDATE \<Rightarrow> ask (H_process P_DualCameraUpdate (evt_data e))
    | INTERNAL_EVT_READY_FOR_SNAPSHOT \<Rightarrow> State_Monad.return NO_ERROR
    | INTERNAL_EVT_MAX \<Rightarrow> State_Monad.return NO_ERROR)"

definition cac_done :: "int32 hal_m" where
  "cac_done = do {
     cac \<leftarrow> query_bool Q_isCACEnabled;
     oem \<leftarrow> (if cac then State_Monad.return False else query_bool Q_isOEMFeatEnabled);
     (if cac \<or> oem then do {
        longshot \<leftarrow> query_bool Q_isLongshotEnabled;
        shutter \<leftarrow> (if longshot then query_bool Q_isCaptureShutterEnabled
                   else State_Monad.return False);
        (if longshot \<and> \<not> shutter then tell H_playShutter else skip);
        tell (H_set F_mCACDoneReceived True) }
      else skip);
     State_Monad.return NO_ERROR }"

definition prepare_mark_start :: "int32 hal_m" where
  "prepare_mark_start = do {
     rc \<leftarrow> ask H_preparePreview;
     if rc = NO_ERROR then do {
       tell (H_set F_m_bPreviewStarted True);
       _ \<leftarrow> applyDelayedMsgs;
       ask H_startPreview }
     else State_Monad.return rc }"

definition pic_taking_stop_capture :: "sm_evt \<Rightarrow> int32 hal_m" where
  "pic_taking_stop_capture evt = do {
     restartPreview \<leftarrow> query_bool Q_isPreviewRestartEnabled;
     rc \<leftarrow> ask (H_stopCaptureChannel restartPreview);
     rc \<leftarrow> (if restartPreview \<and> rc = NO_ERROR then do {
              tell H_unconfigureAdvancedCapture;
              prepare_mark_start }
            else State_Monad.return rc);
     reply evt rc }"

definition pic_taking_snapshot_done :: "sm_evt \<Rightarrow> int32 hal_m" where
  "pic_taking_snapshot_done evt = do {
     rc \<leftarrow> ask H_cancelPicture;
     restartPreview \<leftarrow> query_bool Q_isPreviewRestartEnabled;
     rc \<leftarrow> (if restartPreview then do {
              mode \<leftarrow> query Q_getManualCaptureMode;
              rc \<leftarrow> (if CAM_MANUAL_CAPTURE_TYPE_3 \<le> mode then do {
                       restore \<leftarrow> gets m_RestoreZSL;
                       _ \<leftarrow> ask (H_updateZSLModeValue restore);
                       modify (\<lambda>s. s\<lparr>m_RestoreZSL := False\<rparr>);
                       prepare_mark_start }
                     else State_Monad.return rc);
              set_state STATE_PREVIEWING;
              State_Monad.return rc }
            else do {
              set_state STATE_PREVIEW_STOPPED;
              State_Monad.return rc });
     reply_evt evt rc }"

definition procEvtPicTakingState_3 :: "sm_evt \<Rightarrow> payload \<Rightarrow> int32 hal_m" where
  "procEvtPicTakingState_3 evt p = (case evt of
      EVT_EVT_INTERNAL \<Rightarrow> pic_taking_internal (as_internal p)
    | EVT_EVT_NOTIFY \<Rightarrow>
        (case as_cam_event p of
           CAM_EVENT_TYPE_DAEMON_DIED \<Rightarrow> daemon_died_unblock
         | CAM_EVENT_TYPE_CAC_DONE \<Rightarrow> cac_done
         | _ \<Rightarrow> State_Monad.return NO_ERROR)
    | EVT_JPEG_EVT_NOTIFY \<Rightarrow> ask (H_processJpegNotify (as_ptr p))
    | EVT_STOP_CAPTURE_CHANNEL \<Rightarrow> pic_taking_stop_capture evt
    | EVT_SNAPSHOT_DONE \<Rightarrow> pic_taking_snapshot_done evt
    | EVT_THERMAL_NOTIFY \<Rightarrow> ask (H_updateThermalLevel (as_ptr p))
    | _ \<Rightarrow> State_Monad.return NO_ERROR)"

definition procEvtPicTakingState_2 :: "sm_evt \<Rightarrow> payload \<Rightarrow> int32 hal_m" where
  "procEvtPicTakingState_2 evt p = (case evt of
      EVT_STORE_METADATA_IN_BUFS \<Rightarrow> do {
        rc \<leftarrow> ask (H_storeMetaDataInBuffers (as_int32 p));
        reply evt rc }
    | EVT_DUMP \<Rightarrow> do { rc \<leftarrow> ask (H_dump (as_int32 p)); reply evt rc }
    | EVT_START_AUTO_FOCUS \<Rightarrow> do { rc \<leftarrow> ask H_autoFocus; reply evt rc }
    | EVT_STOP_AUTO_FOCUS \<Rightarrow> do { rc \<leftarrow> ask H_cancelAutoFocus; reply evt rc }
    | EVT_SEND_COMMAND \<Rightarrow> do {
        (rc, _, _) \<leftarrow> sendCommand (as_command p);
        (if cmd (as_command p) = CAMERA_CMD_LONGSHOT_OFF then set_state STATE_PREVIEWING
         else skip);
        reply evt rc }
    | EVT_CANCEL_PICTURE \<Rightarrow> do {
        rc \<leftarrow> ask H_cancelPicture;
        set_state STATE_PREVIEW_STOPPED;
        reply evt rc }
    | EVT_REG_FACE_IMAGE \<Rightarrow> do {
        (rc, faceID) \<leftarrow> registerFaceImage (as_reg_face p);
        reply_handle evt rc faceID }
    | EVT_PRE_TAKE_PICTURE \<Rightarrow> do {
        longshot \<leftarrow> query_bool Q_isLongshotEnabled;
        reply evt (if longshot then NO_ERROR else INVALID_OPERATION) }
    | EVT_TAKE_PICTURE \<Rightarrow> do {
        longshot \<leftarrow> query_bool Q_isLongshotEnabled;
        rc \<leftarrow> (if longshot then ask H_longShot else State_Monad.return INVALID_OPERATION);
        reply evt rc }
    | EVT_PREPARE_SNAPSHOT \<Rightarrow> reject evt
    | EVT_PRE_START_RECORDING \<Rightarrow> reject evt
    | EVT_RESTART_STOP_PREVIEW \<Rightarrow> reject evt
    | EVT_RESTART_START_PREVIEW \<Rightarrow> reject evt
    | EVT_START_RECORDING \<Rightarrow> reject evt
    | EVT_STOP_RECORDING \<Rightarrow> reject evt
    | EVT_RELEASE_RECORIDNG_FRAME \<Rightarrow> reject evt
    | EVT_PREPARE_PREVIEW \<Rightarrow> reject evt
    | EVT_START_PREVIEW \<Rightarrow> reject evt
    | EVT_START_NODISPLAY_PREVIEW \<Rightarrow> reject evt
    | EVT_RELEASE \<Rightarrow> reject evt
    | _ \<Rightarrow> procEvtPicTakingState_3 evt p)"

definition procEvtPicTakingState :: "sm_evt \<Rightarrow> payload \<Rightarrow> int32 hal_m" where
  "procEvtPicTakingState evt p = (case evt of
      EVT_SET_PREVIEW_WINDOW \<Rightarrow> reject evt
    | EVT_SET_CALLBACKS \<Rightarrow> do {
        rc \<leftarrow> ask (H_setCallBacks (as_setcb p));
        reply evt rc }
    | EVT_ENABLE_MSG_TYPE \<Rightarrow> do { rc \<leftarrow> enableMsgType (as_int32 p); reply evt rc }
    | EVT_DISABLE_MSG_TYPE \<Rightarrow> do { rc \<leftarrow> disableMsgType (as_int32 p); reply evt rc }
    | EVT_MSG_TYPE_ENABLED \<Rightarrow> do {
        enabled \<leftarrow> msgTypeEnabled (as_int32 p);
        reply_flag evt NO_ERROR enabled }
    | EVT_SET_PARAMS \<Rightarrow> do {
        (rc, needRestart) \<leftarrow> updateParameters (as_ptr p);
        reply evt rc }
    | EVT_SET_PARAMS_STOP \<Rightarrow> reply evt NO_ERROR
    | EVT_SET_PARAMS_COMMIT \<Rightarrow> do { rc \<leftarrow> ask H_commitParameterChanges; reply evt rc }
    | EVT_SET_PARAMS_RESTART \<Rightarrow> do { setNeedRestart False; reply evt NO_ERROR }
    | EVT_GET_PARAMS \<Rightarrow> do { params \<leftarrow> getParameters; reply_params evt params }
    | EVT_PUT_PARAMS \<Rightarrow> do {
        rc \<leftarrow> ask (H_putParameters (as_ptr p));
        reply evt rc }
    | EVT_STOP_PREVIEW \<Rightarrow> do {
        rc \<leftarrow> ask H_cancelPicture;
        set_state STATE_PREVIEW_STOPPED;
        reply evt rc }
    | EVT_PREVIEW_ENABLED \<Rightarrow> reply_flag evt NO_ERROR 0
    | EVT_RECORDING_ENABLED \<Rightarrow> reply_flag evt NO_ERROR 0
    | _ \<Rightarrow> procEvtPicTakingState_2 evt p)"

lemmas [sm_defs] =
  prep_snapshot_done_def prepare_snapshot_internal_def daemon_died_unblock_def
  procEvtPrepareSnapshotState_def procEvtPrepareSnapshotState_2_def pic_taking_internal_def
  cac_done_def prepare_mark_start_def pic_taking_stop_capture_def pic_taking_snapshot_done_def
  procEvtPicTakingState_def procEvtPicTakingState_2_def procEvtPicTakingState_3_def

section \<open>The handlers meet the specification\<close>

lemma prepare_snapshot_answered:
  assumes "sync_call STATE_PREPARE_SNAPSHOT evt"
  shows "answered evt (procEvtPrepareSnapshotState evt p) s"
  using assms unfolding answered_def
  by (cases evt; simp add: sync_defs sm_defs handler_run split: evt_splits)

lemma prepare_snapshot_next:
  assumes "m_state s = STATE_PREPARE_SNAPSHOT"
  shows "m_state (snd (run_state (procEvtPrepareSnapshotState evt p) s)) \<in> set (next_states STATE_PREPARE_SNAPSHOT evt)"
  using assms
  by (cases evt; simp add: next_states_def sm_defs handler_run split: evt_splits)

lemma prepare_snapshot_delay:
  assumes "delay_ok s"
  shows "delay_ok (snd (run_state (procEvtPrepareSnapshotState evt p) s))"
  using assms unfolding delay_ok_def
  by (elim disjE conjE; cases evt; simp add: sm_defs handler_run preview_frame_and split: evt_splits)

lemma prepare_snapshot_refused:
  assumes "evt \<in> set (refused STATE_PREPARE_SNAPSHOT)"
  shows "run_state (procEvtPrepareSnapshotState evt p) s = refusal evt s"
  using assms by (auto simp: refused_def refusal_def sm_defs hal_run)

lemma prepare_snapshot_silent:
  assumes "never_answered STATE_PREPARE_SNAPSHOT evt"
  shows "api_signals (trace (snd (run_state (procEvtPrepareSnapshotState evt p) s))) = api_signals (trace s)"
  using assms by (cases evt; simp add: sync_defs sm_defs handler_run)

lemma prepare_snapshot_evt_reported: "evt_reported evt (procEvtPrepareSnapshotState evt p) s"
  unfolding evt_reported_def
  by (cases evt; simp add: sm_defs handler_run split: evt_splits)

lemma prepare_snapshot_keeps:
  shows "env (snd (run_state (procEvtPrepareSnapshotState evt p) s)) = env s"
    "api_queue (snd (run_state (procEvtPrepareSnapshotState evt p) s)) = api_queue s"
  by (cases evt; simp add: sm_defs handler_run split: evt_splits)+

lemma pic_taking_answered:
  assumes "sync_call STATE_PIC_TAKING evt"
  shows "answered evt (procEvtPicTakingState evt p) s"
  using assms unfolding answered_def
  by (cases evt; simp add: sync_defs sm_defs handler_run split: evt_splits)

lemma pic_taking_next:
  assumes "m_state s = STATE_PIC_TAKING"
  shows "m_state (snd (run_state (procEvtPicTakingState evt p) s)) \<in> set (next_states STATE_PIC_TAKING evt)"
  using assms
  by (cases evt; simp add: next_states_def sm_defs handler_run split: evt_splits)

lemma pic_taking_delay:
  assumes "delay_ok s"
  shows "delay_ok (snd (run_state (procEvtPicTakingState evt p) s))"
  using assms unfolding delay_ok_def
  by (elim disjE conjE; cases evt; auto simp: sm_defs handler_run preview_frame_and split: evt_splits)

lemma pic_taking_refused:
  assumes "evt \<in> set (refused STATE_PIC_TAKING)"
  shows "run_state (procEvtPicTakingState evt p) s = refusal evt s"
  using assms by (auto simp: refused_def refusal_def sm_defs hal_run)

lemma pic_taking_silent:
  assumes "never_answered STATE_PIC_TAKING evt"
  shows "api_signals (trace (snd (run_state (procEvtPicTakingState evt p) s))) = api_signals (trace s)"
  using assms by (cases evt; simp add: sync_defs sm_defs handler_run)

lemma pic_taking_evt_reported: "evt_reported evt (procEvtPicTakingState evt p) s"
  unfolding evt_reported_def
  by (cases evt; simp add: sm_defs handler_run split: evt_splits)

lemma pic_taking_keeps:
  shows "env (snd (run_state (procEvtPicTakingState evt p) s)) = env s"
    "api_queue (snd (run_state (procEvtPicTakingState evt p) s)) = api_queue s"
  by (cases evt; simp add: sm_defs handler_run split: evt_splits)+

lemma prepare_snapshot_keeps_events:
  assumes "evt \<noteq> EVT_SEND_COMMAND"
  shows "evt_queue (snd (run_state (procEvtPrepareSnapshotState evt p) s)) = evt_queue s"
    "cmd_sem (snd (run_state (procEvtPrepareSnapshotState evt p) s)) = cmd_sem s"
  using assms by (cases evt; simp add: sm_defs handler_run split: evt_splits)+

lemma prepare_snapshot_queues:
  assumes "queues_ok s"
  shows "queues_ok (snd (run_state (procEvtPrepareSnapshotState evt p) s))"
  using assms by (cases evt; simp add: sm_defs handler_run split: evt_splits)

lemma pic_taking_keeps_events:
  assumes "evt \<noteq> EVT_SEND_COMMAND"
  shows "evt_queue (snd (run_state (procEvtPicTakingState evt p) s)) = evt_queue s"
    "cmd_sem (snd (run_state (procEvtPicTakingState evt p) s)) = cmd_sem s"
  using assms by (cases evt; simp add: sm_defs handler_run split: evt_splits)+

lemma pic_taking_queues:
  assumes "queues_ok s"
  shows "queues_ok (snd (run_state (procEvtPicTakingState evt p) s))"
  using assms by (cases evt; simp add: sm_defs handler_run split: evt_splits)

end
