(* ===== verification/Sm_PreviewPic.thy ===== *)
theory Sm_PreviewPic
  imports Sm_Capture
begin

text \<open>
  The handler procEvtPreviewPicTakingState of QCameraStateMachine.cpp: a picture is taken from
  the ZSL queue, in longshot or as a live snapshot while the preview goes on, in retro-active
  mode with the results of PREPARE\_SNAPSHOT and TAKE\_PICTURE posted later by metadata events.
\<close>

definition retro_prep_snapshot_done :: "nat \<Rightarrow> int32 hal_m" where
  "retro_prep_snapshot_done d = do {
     retro \<leftarrow> query_bool Q_isRetroPicture;
     (if retro then do {
        _ \<leftarrow> ask (H_process P_PrepSnapshotDoneEvent d);
        signalAPIResult \<lparr>status = NO_ERROR, request_api = EVT_PREPARE_SNAPSHOT,
                          result_type = API_RESULT_TYPE_DEF, result_union = U_zero\<rparr> }
      else skip);
     State_Monad.return NO_ERROR }"

definition retro_ready_for_snapshot :: "int32 hal_m" where
  "retro_ready_for_snapshot = do {
     retro \<leftarrow> query_bool Q_isRetroPicture;
     (if retro then
        signalAPIResult \<lparr>status = NO_ERROR, request_api = EVT_TAKE_PICTURE,
                          result_type = API_RESULT_TYPE_DEF, result_union = U_zero\<rparr>
      else skip);
     State_Monad.return NO_ERROR }"

definition preview_pic_internal :: "internal_evt_payload \<Rightarrow> int32 hal_m" where
  "preview_pic_internal e = (case evt_type e of
      INTERNAL_EVT_FOCUS_UPDATE \<Rightarrow> ask (H_process P_AutoFocusEvent (evt_data e))
    | INTERNAL_EVT_PREP_SNAPSHOT_DONE \<Rightarrow> retro_prep_snapshot_done (evt_data e)
    | INTERNAL_EVT_FACE_DETECT_RESULT \<Rightarrow> ask (H_process P_FaceDetectionResult (evt_data e))
    | INTERNAL_EVT_HISTOGRAM_STATS \<Rightarrow> ask (H_process P_HistogramStats (evt_data e))
    | INTERNAL_EVT_CROP_INFO \<Rightarrow> ask (H_process P_ZoomEvent (evt_data e))
    | INTERNAL_EVT_ASD_UPDATE \<Rightarrow> ask (H_process P_ASDUpdate (evt_data e))
    | INTERNAL_EVT_LED_MODE_OVERRIDE \<Rightarrow> State_Monad.return NO_ERROR
    | INTERNAL_EVT_AWB_UPDATE \<Rightarrow> ask (H_process P_transAwbMetaToParams (evt_data e))
    | INTERNAL_EVT_AE_UPDATE \<Rightarrow> ask (H_process P_AEInfo (evt_data e))
    | INTERNAL_EVT_FOCUS_POS_UPDATE \<Rightarrow> ask (H_process P_FocusPositionInfo (evt_data e))
    | INTERNAL_EVT_HDR_UPDATE \<Rightarrow> ask (H_process P_HDRData (evt_data e))
    | INTERNAL_EVT_RETRO_AEC_UNLOCK \<Rightarrow> ask (H_process P_RetroAECUnlock 0)
    | INTERNAL_EVT_ZSL_CAPTURE_DONE \<Rightarrow> ask (H_process P_ZSLCaptureDone 0)
    | INTERNAL_EVT_DUAL_CAM_UPDATE \<Rightarrow> ask (H_process P_DualCameraUpdate (evt_data e))
    | INTERNAL_EVT_READY_FOR_SNAPSHOT \<Rightarrow> retro_ready_for_snapshot
    | INTERNAL_EVT_MAX \<Rightarrow> State_Monad.return NO_ERROR)"

text \<open>The picture in flight is cancelled the way it was taken.\<close>

definition cancel_by_mode :: "int32 hal_m" where
  "cancel_by_mode = do {
     zsl \<leftarrow> query_bool Q_isZSLMode;
     longshot \<leftarrow> (if zsl then State_Monad.return False else query_bool Q_isLongshotEnabled);
     if zsl \<or> longshot then ask H_cancelPicture else ask H_cancelLiveSnapshot }"

definition preview_pic_snapshot_done :: "sm_evt \<Rightarrow> int32 hal_m" where
  "preview_pic_snapshot_done evt = do {
     rc \<leftarrow> cancel_by_mode;
     set_state STATE_PREVIEWING;
     retro \<leftarrow> query_bool Q_isRetroPicture;
     (if retro then
        signalAPIResult \<lparr>status = rc, request_api = evt,
                          result_type = API_RESULT_TYPE_DEF, result_union = U_zero\<rparr>
      else skip);
     reply_evt evt rc }"

definition preview_pic_stop_preview :: "sm_evt \<Rightarrow> int32 hal_m" where
  "preview_pic_stop_preview evt = do {
     zsl \<leftarrow> query_bool Q_isZSLMode;
     rc \<leftarrow> (if zsl then do {
              rc \<leftarrow> ask H_cancelPicture;
              _ \<leftarrow> ask (H_stopChannel CH_TYPE_ZSL);
              State_Monad.return rc }
            else do {
              longshot \<leftarrow> query_bool Q_isLongshotEnabled;
              if longshot then ask H_cancelPicture
              else do {
                rc \<leftarrow> ask H_cancelLiveSnapshot;
                _ \<leftarrow> ask (H_stopChannel CH_TYPE_PREVIEW);
                State_Monad.return rc } });
     tell H_unpreparePreview;
     set_state STATE_PREVIEW_STOPPED;
     reply evt rc }"

text \<open>A recording may start only over a live snapshot.\<close>

definition unless_zsl_longshot :: "int32 hal_m \<Rightarrow> int32 hal_m" where
  "unless_zsl_longshot m = do {
     zsl \<leftarrow> query_bool Q_isZSLMode;
     if zsl then State_Monad.return INVALID_OPERATION
     else do {
       longshot \<leftarrow> query_bool Q_isLongshotEnabled;
       if longshot then State_Monad.return INVALID_OPERATION else m } }"

definition preview_pic_prepare_snapshot :: "sm_evt \<Rightarrow> int32 hal_m" where
  "preview_pic_prepare_snapshot evt = do {
     retro \<leftarrow> query_bool Q_isRetroPicture;
     if retro then do {
       rc \<leftarrow> ask (H_prepareHardwareForSnapshot False);
       if rc \<noteq> NO_ERROR then reply evt rc else State_Monad.return rc }
     else reject evt }"

definition procEvtPreviewPicTakingState_4 :: "sm_evt \<Rightarrow> payload \<Rightarrow> int32 hal_m" where
  "procEvtPreviewPicTakingState_4 evt p = (case evt of
      EVT_EVT_INTERNAL \<Rightarrow> preview_pic_internal (as_internal p)
    | EVT_EVT_NOTIFY \<Rightarrow>
        (case as_cam_event p of
           CAM_EVENT_TYPE_DAEMON_DIED \<Rightarrow> daemon_died_unblock
         | CAM_EVENT_TYPE_CAC_DONE \<Rightarrow> cac_done
         | _ \<Rightarrow> State_Monad.return NO_ERROR)
    | EVT_JPEG_EVT_NOTIFY \<Rightarrow> ask (H_processJpegNotify (as_ptr p))
    | EVT_SNAPSHOT_DONE \<Rightarrow> preview_pic_snapshot_done evt
    | EVT_THERMAL_NOTIFY \<Rightarrow> ask (H_updateThermalLevel (as_ptr p))
    | EVT_RESTART_STOP_PREVIEW \<Rightarrow> do {
        _ \<leftarrow> ask H_stopPreview;
        reply evt NO_ERROR }
    | EVT_RESTART_START_PREVIEW \<Rightarrow> do {
        rc \<leftarrow> ask H_preparePreview;
        rc \<leftarrow> (if rc = NO_ERROR then ask H_startPreview else State_Monad.return rc);
        reply evt rc }
    | _ \<Rightarrow> State_Monad.return NO_ERROR)"

definition procEvtPreviewPicTakingState_3 :: "sm_evt \<Rightarrow> payload \<Rightarrow> int32 hal_m" where
  "procEvtPreviewPicTakingState_3 evt p = (case evt of
      EVT_PRE_START_RECORDING \<Rightarrow> do {
        rc \<leftarrow> unless_zsl_longshot (ask H_preStartRecording);
        reply evt rc }
    | EVT_START_RECORDING \<Rightarrow> do {
        rc \<leftarrow> unless_zsl_longshot (do {
          rc \<leftarrow> ask H_startRecording;
          (if rc = NO_ERROR then set_state STATE_VIDEO_PIC_TAKING else skip);
          State_Monad.return rc });
        reply evt rc }
    | EVT_REG_FACE_IMAGE \<Rightarrow> do {
        (rc, faceID) \<leftarrow> registerFaceImage (as_reg_face p);
        reply_handle evt rc faceID }
    | EVT_PRE_TAKE_PICTURE \<Rightarrow> do {
        longshot \<leftarrow> query_bool Q_isLongshotEnabled;
        reply evt (if longshot then NO_ERROR else INVALID_OPERATION) }
    | EVT_TAKE_PICTURE \<Rightarrow> do {
        longshot \<leftarrow> query_bool Q_isLongshotEnabled;
        rc \<leftarrow> (if longshot then ask H_longShot else State_Monad.return INVALID_OPERATION);
        reply evt rc }
    | EVT_PREPARE_SNAPSHOT \<Rightarrow> preview_pic_prepare_snapshot evt
    | EVT_STOP_RECORDING \<Rightarrow> reject evt
    | EVT_PREPARE_PREVIEW \<Rightarrow> reject evt
    | EVT_START_PREVIEW \<Rightarrow> reject evt
    | EVT_START_NODISPLAY_PREVIEW \<Rightarrow> reject evt
    | EVT_SET_PREVIEW_WINDOW \<Rightarrow> reject evt
    | EVT_RELEASE \<Rightarrow> reject evt
    | _ \<Rightarrow> procEvtPreviewPicTakingState_4 evt p)"

definition procEvtPreviewPicTakingState_2 :: "sm_evt \<Rightarrow> payload \<Rightarrow> int32 hal_m" where
  "procEvtPreviewPicTakingState_2 evt p = (case evt of
      EVT_STORE_METADATA_IN_BUFS \<Rightarrow> do {
        rc \<leftarrow> ask (H_storeMetaDataInBuffers (as_int32 p));
        reply evt rc }
    | EVT_DUMP \<Rightarrow> do { rc \<leftarrow> ask (H_dump (as_int32 p)); reply evt rc }
    | EVT_START_AUTO_FOCUS \<Rightarrow> do { rc \<leftarrow> ask H_autoFocus; reply evt rc }
    | EVT_STOP_AUTO_FOCUS \<Rightarrow> do { rc \<leftarrow> ask H_cancelAutoFocus; reply evt rc }
    | EVT_SEND_COMMAND \<Rightarrow> do {
        (rc, _, _) \<leftarrow> sendCommand (as_command p);
        (if cmd (as_command p) = CAMERA_CMD_LONGSHOT_OFF then set_state STATE_PREVIEWING
         else skip);
        reply evt rc }
    | EVT_RELEASE_RECORIDNG_FRAME \<Rightarrow> do {
        rc \<leftarrow> ask (H_releaseRecordingFrame (as_ptr p));
        reply evt rc }
    | EVT_CANCEL_PICTURE \<Rightarrow> do {
        rc \<leftarrow> cancel_by_mode;
        set_state STATE_PREVIEWING;
        reply evt rc }
    | EVT_STOP_PREVIEW \<Rightarrow> preview_pic_stop_preview evt
    | _ \<Rightarrow> procEvtPreviewPicTakingState_3 evt p)"

definition procEvtPreviewPicTakingState :: "sm_evt \<Rightarrow> payload \<Rightarrow> int32 hal_m" where
  "procEvtPreviewPicTakingState evt p = (case evt of
      EVT_SET_CALLBACKS \<Rightarrow> do {
        rc \<leftarrow> ask (H_setCallBacks (as_setcb p));
        reply evt rc }
    | EVT_ENABLE_MSG_TYPE \<Rightarrow> do { rc \<leftarrow> enableMsgType (as_int32 p); reply evt rc }
    | EVT_DISABLE_MSG_TYPE \<Rightarrow> do { rc \<leftarrow> disableMsgType (as_int32 p); reply evt rc }
    | EVT_MSG_TYPE_ENABLED \<Rightarrow> do {
        enabled \<leftarrow> msgTypeEnabled (as_int32 p);
        reply_flag evt NO_ERROR enabled }
    | EVT_SET_PARAMS \<Rightarrow> do {
        (rc, needRestart) \<leftarrow> updateParameters (as_ptr p);
        reply evt rc }
    | EVT_SET_PARAMS_STOP \<Rightarrow> do {
        rc \<leftarrow> ask H_stopPreview;
        tell H_memoryPool_clear;
        reply evt rc }
    | EVT_SET_PARAMS_COMMIT \<Rightarrow> do { rc \<leftarrow> ask H_commitParameterChanges; reply evt rc }
    | EVT_SET_PARAMS_RESTART \<Rightarrow> do {
        rc \<leftarrow> prepare_apply_start;
        (if rc \<noteq> NO_ERROR then set_state STATE_PIC_TAKING else skip);
        setNeedRestart False;
        reply evt rc }
    | EVT_GET_PARAMS \<Rightarrow> do { params \<leftarrow> getParameters; reply_params evt params }
    | EVT_PUT_PARAMS \<Rightarrow> do {
        rc \<leftarrow> ask (H_putParameters (as_ptr p));
        reply evt rc }
    | EVT_PREVIEW_ENABLED \<Rightarrow> reply_flag evt NO_ERROR 1
    | EVT_RECORDING_ENABLED \<Rightarrow> reply_flag evt NO_ERROR 0
    | _ \<Rightarrow> procEvtPreviewPicTakingState_2 evt p)"

lemmas [sm_defs] =
  retro_prep_snapshot_done_def retro_ready_for_snapshot_def preview_pic_internal_def
  cancel_by_mode_def preview_pic_snapshot_done_def preview_pic_stop_preview_def
  unless_zsl_longshot_def preview_pic_prepare_snapshot_def procEvtPreviewPicTakingState_def
  procEvtPreviewPicTakingState_2_def procEvtPreviewPicTakingState_3_def
  procEvtPreviewPicTakingState_4_def

section \<open>The handlers meet the specification\<close>

lemma preview_pic_taking_answered:
  assumes "sync_call STATE_PREVIEW_PIC_TAKING evt"
  shows "answered evt (procEvtPreviewPicTakingState evt p) s"
  using assms unfolding answered_def
  by (cases evt; simp add: sync_defs sm_defs handler_run split: evt_splits)

lemma preview_pic_taking_next:
  assumes "m_state s = STATE_PREVIEW_PIC_TAKING"
  shows "m_state (snd (run_state (procEvtPreviewPicTakingState evt p) s)) \<in> set (next_states STATE_PREVIEW_PIC_TAKING evt)"
  using assms
  by (cases evt; simp add: next_states_def sm_defs handler_run split: evt_splits)

lemma preview_pic_taking_delay:
  assumes "delay_ok s"
  shows "delay_ok (snd (run_state (procEvtPreviewPicTakingState evt p) s))"
  using assms unfolding delay_ok_def
  by (elim disjE conjE; cases evt; simp add: sm_defs handler_run preview_frame_and split: evt_splits)

lemma preview_pic_taking_refused:
  assumes "evt \<in> set (refused STATE_PREVIEW_PIC_TAKING)"
  shows "run_state (procEvtPreviewPicTakingState evt p) s = refusal evt s"
  using assms by (auto simp: refused_def refusal_def sm_defs hal_run)

lemma preview_pic_taking_silent:
  assumes "never_answered STATE_PREVIEW_PIC_TAKING evt"
  shows "api_signals (trace (snd (run_state (procEvtPreviewPicTakingState evt p) s))) = api_signals (trace s)"
  using assms by (cases evt; simp add: sync_defs sm_defs handler_run)

lemma preview_pic_taking_evt_reported: "evt_reported evt (procEvtPreviewPicTakingState evt p) s"
  unfolding evt_reported_def
  by (cases evt; simp add: sm_defs handler_run split: evt_splits)

lemma preview_pic_taking_keeps:
  shows "env (snd (run_state (procEvtPreviewPicTakingState evt p) s)) = env s"
    "api_queue (snd (run_state (procEvtPreviewPicTakingState evt p) s)) = api_queue s"
  by (cases evt; simp add: sm_defs handler_run split: evt_splits)+

lemma preview_pic_taking_keeps_events:
  assumes "evt \<noteq> EVT_SEND_COMMAND"
  shows "evt_queue (snd (run_state (procEvtPreviewPicTakingState evt p) s)) = evt_queue s"
    "cmd_sem (snd (run_state (procEvtPreviewPicTakingState evt p) s)) = cmd_sem s"
  using assms by (cases evt; simp add: sm_defs handler_run split: evt_splits)+

lemma preview_pic_taking_queues:
  assumes "queues_ok s"
  shows "queues_ok (snd (run_state (procEvtPreviewPicTakingState evt p) s))"
  using assms by (cases evt; simp add: sm_defs handler_run split: evt_splits)

lemma preview_pic_later_failure:
  "fst (run_state (procEvtPreviewPicTakingState EVT_PREPARE_SNAPSHOT p) s) \<noteq> NO_ERROR \<Longrightarrow>
     answered EVT_PREPARE_SNAPSHOT (procEvtPreviewPicTakingState EVT_PREPARE_SNAPSHOT p) s"
  by (simp add: sm_defs hal_run answered_def call_kinds split: if_splits)

end
