(* ===== verification/Sm_Machine.thy ===== *)
theory Sm_Machine
  imports Sm_Preview Sm_Previewing Sm_Recording Sm_PreviewPic
begin

text \<open>
  The state machine as a whole: the dispatch on the state (stateMachine), the constructor, the
  command thread (smEvtProcRoutine) with its two queues and its semaphore, and releaseThread;
  then the properties of the machine that hold in every state and along every run.
\<close>

section \<open>Dispatch\<close>

definition stateMachine :: "sm_evt \<Rightarrow> payload \<Rightarrow> int32 hal_m" where
  "stateMachine evt p = do {
     st \<leftarrow> gets m_state;
     case st of
       STATE_PREVIEW_STOPPED \<Rightarrow> procEvtPreviewStoppedState evt p
     | STATE_PREVIEW_READY \<Rightarrow> procEvtPreviewReadyState evt p
     | STATE_PREVIEWING \<Rightarrow> procEvtPreviewingState evt p
     | STATE_PREPARE_SNAPSHOT \<Rightarrow> procEvtPrepareSnapshotState evt p
     | STATE_PIC_TAKING \<Rightarrow> procEvtPicTakingState evt p
     | STATE_RECORDING \<Rightarrow> procEvtRecordingState evt p
     | STATE_VIDEO_PIC_TAKING \<Rightarrow> procEvtVideoPicTakingState evt p
     | STATE_PREVIEW_PIC_TAKING \<Rightarrow> procEvtPreviewPicTakingState evt p }"

lemma run_stateMachine:
  "run_state (stateMachine evt p) s = (case m_state s of
       STATE_PREVIEW_STOPPED \<Rightarrow> run_state (procEvtPreviewStoppedState evt p) s
     | STATE_PREVIEW_READY \<Rightarrow> run_state (procEvtPreviewReadyState evt p) s
     | STATE_PREVIEWING \<Rightarrow> run_state (procEvtPreviewingState evt p) s
     | STATE_PREPARE_SNAPSHOT \<Rightarrow> run_state (procEvtPrepareSnapshotState evt p) s
     | STATE_PIC_TAKING \<Rightarrow> run_state (procEvtPicTakingState evt p) s
     | STATE_RECORDING \<Rightarrow> run_state (procEvtRecordingState evt p) s
     | STATE_VIDEO_PIC_TAKING \<Rightarrow> run_state (procEvtVideoPicTakingState evt p) s
     | STATE_PREVIEW_PIC_TAKING \<Rightarrow> run_state (procEvtPreviewPicTakingState evt p) s)"
  by (simp add: stateMachine_def hal_run split: sm_state.split)

section \<open>The state as text\<close>

text \<open>
  dump; every snprintf into the buffer of 128 characters fits, so none is cut. NL is the newline.
\<close>

abbreviation NL :: string where
  "NL \<equiv> [CHR 0x0A]"

definition flag_text :: "bool \<Rightarrow> string" where
  "flag_text b = (if b then ''1'' else ''0'')"

definition state_digit :: "sm_state \<Rightarrow> string" where
  "state_digit st = (case st of
      STATE_PREVIEW_STOPPED \<Rightarrow> ''0'' | STATE_PREVIEW_READY \<Rightarrow> ''1'' | STATE_PREVIEWING \<Rightarrow> ''2''
    | STATE_PREPARE_SNAPSHOT \<Rightarrow> ''3'' | STATE_PIC_TAKING \<Rightarrow> ''4'' | STATE_RECORDING \<Rightarrow> ''5''
    | STATE_VIDEO_PIC_TAKING \<Rightarrow> ''6'' | STATE_PREVIEW_PIC_TAKING \<Rightarrow> ''7'')"

definition sm_dump :: "sm_state \<Rightarrow> string" where
  "sm_dump st =
     NL @ ''Is Preview Running: '' @ flag_text (sm_isPreviewRunning st) @ NL @
     ''Is Capture Running: '' @ flag_text (sm_isCaptureRunning st) @ NL @
     ''Is Non ZSL Capture Running: '' @ flag_text (sm_isNonZSLCaptureRunning st) @ NL @
     ''Current State: '' @ state_digit st @ '' '' @ NL @
     (case st of
        STATE_PREVIEW_STOPPED \<Rightarrow> '' QCAMERA_SM_STATE_PREVIEW_STOPPED '' @ NL
      | STATE_PREVIEW_READY \<Rightarrow> '' QCAMERA_SM_STATE_PREVIEW_READY '' @ NL
      | STATE_PREVIEWING \<Rightarrow> '' QCAMERA_SM_STATE_PREVIEWING '' @ NL
      | STATE_PREPARE_SNAPSHOT \<Rightarrow> '' QCAMERA_SM_STATE_PREPARE_SNAPSHOT '' @ NL
      | STATE_PIC_TAKING \<Rightarrow> '' QCAMERA_SM_STATE_PIC_TAKING '' @ NL
      | STATE_RECORDING \<Rightarrow> '' QCAMERA_SM_STATE_RECORDING '' @ NL
      | STATE_VIDEO_PIC_TAKING \<Rightarrow> '' QCAMERA_SM_STATE_VIDEO_PIC_TAKING '' @ NL
      | STATE_PREVIEW_PIC_TAKING \<Rightarrow> '' QCAMERA_SM_STATE_PREVIEW_PIC_TAKING '' @ NL)"

section \<open>Constructor\<close>

text \<open>
  The constructor does not set the two restart flags: they start with the values the object's
  memory happens to hold. The thread it creates is there: cmd\_pid stands for cmd\_pid != 0. The parent's fields and the environment are what they are.
\<close>

definition QCameraStateMachine ::
    "bool \<Rightarrow> bool \<Rightarrow> (hal_call list \<Rightarrow> hal_call \<Rightarrow> int32) \<Rightarrow> hal" where
  "QCameraStateMachine needs delayed e =
     \<lparr>m_state = STATE_PREVIEW_STOPPED,
      m_bDelayPreviewMsgs = False,
      m_bPreviewNeedsRestart = needs,
      m_bPreviewDelayedRestart = delayed,
      m_DelayedMsgs = 0,
      m_RestoreZSL = True,
      m_bPreviewCallbackNeeded = True,
      api_queue = \<lparr>fifo_items = [], fifo_active = True\<rparr>,
      evt_queue = \<lparr>fifo_items = [], fifo_active = True\<rparr>,
      cmd_sem = 0,
      cmd_pid = True,
      mPreviewWindow = NULL,
      mMsgEnabled = 0,
      m_bNeedRestart = False,
      trace = [],
      env = e\<rparr>"

section \<open>The command thread\<close>

text \<open>One pass of the loop after cam\_sem\_wait has returned; the result is running.\<close>

definition next_cmd :: "sm_cmd option hal_m" where
  "next_cmd = do {
     api \<leftarrow> gets api_queue;
     modify (\<lambda>s. s\<lparr>api_queue := snd (fifo_dequeue api)\<rparr>);
     case fst (fifo_dequeue api) of
       Some c \<Rightarrow> State_Monad.return (Some c)
     | None \<Rightarrow> do {
         q \<leftarrow> gets evt_queue;
         modify (\<lambda>s. s\<lparr>evt_queue := snd (fifo_dequeue q)\<rparr>);
         State_Monad.return (fst (fifo_dequeue q)) } }"

definition process_cmd :: "sm_cmd \<Rightarrow> bool hal_m" where
  "process_cmd c = (case cmd_type c of
      CMD_TYPE_API \<Rightarrow> do {
        _ \<leftarrow> stateMachine (cmd_evt c) (cmd_payload c);
        State_Monad.return True }
    | CMD_TYPE_EVT \<Rightarrow> do {
        _ \<leftarrow> stateMachine (cmd_evt c) (cmd_payload c);
        State_Monad.return True }
    | CMD_TYPE_EXIT \<Rightarrow> State_Monad.return False)"

definition smEvtProcStep :: "bool hal_m" where
  "smEvtProcStep = do {
     modify (\<lambda>s. s\<lparr>cmd_sem := cmd_sem s - 1\<rparr>);
     node \<leftarrow> next_cmd;
     case node of
       None \<Rightarrow> State_Monad.return True
     | Some c \<Rightarrow> process_cmd c }"

text \<open>
  releaseThread, with its pthread\_join left out: the exit command goes to the API queue, and the
  semaphore is posted only if the queue took it.  The thread is forgotten in any case, so that a
  second call does nothing.
\<close>

definition releaseThread :: "unit hal_m" where
  "releaseThread = do {
     pid \<leftarrow> gets cmd_pid;
     if pid then do {
       node \<leftarrow> query_bool Q_malloc;
       _ \<leftarrow> (if node then do {
           q_node \<leftarrow> query_bool Q_malloc;
           q \<leftarrow> gets api_queue;
           let (ok, q') = fifo_enqueue q_node
                 \<lparr>cmd_type = CMD_TYPE_EXIT, cmd_evt = EVT_SET_PREVIEW_WINDOW,
                  cmd_payload = null_payload\<rparr> q;
           modify (\<lambda>s. s\<lparr>api_queue := q'\<rparr>);
           if ok then modify (\<lambda>s. s\<lparr>cmd_sem := cmd_sem s + 1\<rparr>) else skip }
         else skip);
       modify (\<lambda>s. s\<lparr>cmd_pid := False\<rparr>) }
     else skip }"

text \<open>
  The machine with its clients. The framework posts API calls, the camera and JPEG stacks post
  events, the owner releases the thread; the thread takes a command when it runs and the
  semaphore is up, and stays blocked otherwise.
\<close>

datatype sm_input =
    In_procAPI sm_evt payload
  | In_procEvt sm_evt payload
  | In_release
  | In_thread

record sm_system =
  core :: hal
  running :: bool

definition sm_step :: "sm_input \<Rightarrow> sm_system \<Rightarrow> sm_system" where
  "sm_step i m = (case i of
      In_procAPI evt p \<Rightarrow> m\<lparr>core := snd (run_state (procAPI evt p) (core m))\<rparr>
    | In_procEvt evt p \<Rightarrow> m\<lparr>core := snd (run_state (procEvt evt p) (core m))\<rparr>
    | In_release \<Rightarrow> m\<lparr>core := snd (run_state releaseThread (core m))\<rparr>
    | In_thread \<Rightarrow>
        (if running m \<and> 0 < cmd_sem (core m)
         then (let (r, s) = run_state smEvtProcStep (core m) in m\<lparr>core := s, running := r\<rparr>)
         else m))"

definition sm_init ::
    "bool \<Rightarrow> bool \<Rightarrow> (hal_call list \<Rightarrow> hal_call \<Rightarrow> int32) \<Rightarrow> sm_system" where
  "sm_init needs delayed e =
     \<lparr>core = QCameraStateMachine needs delayed e, running = True\<rparr>"

section \<open>The handlers together\<close>

lemma stateMachine_delay:
  assumes "delay_ok s"
  shows "delay_ok (snd (run_state (stateMachine evt p) s))"
  using assms
  by (simp add: run_stateMachine preview_stopped_delay preview_ready_delay previewing_delay
      prepare_snapshot_delay pic_taking_delay recording_delay video_pic_taking_delay
      preview_pic_taking_delay split: sm_state.split)

lemma stateMachine_queues:
  assumes "queues_ok s"
  shows "queues_ok (snd (run_state (stateMachine evt p) s))"
  using assms
  by (simp add: run_stateMachine preview_stopped_queues preview_ready_queues previewing_queues
      prepare_snapshot_queues pic_taking_queues recording_queues video_pic_taking_queues
      preview_pic_taking_queues split: sm_state.split)

lemma stateMachine_next:
  "m_state (snd (run_state (stateMachine evt p) s)) \<in> set (next_states (m_state s) evt)"
  using preview_stopped_next [of s evt p] preview_ready_next [of s evt p]
    previewing_next [of s evt p] prepare_snapshot_next [of s evt p]
    pic_taking_next [of s evt p] recording_next [of s evt p]
    video_pic_taking_next [of s evt p] preview_pic_taking_next [of s evt p]
  by (simp add: run_stateMachine split: sm_state.split)

lemma stateMachine_env: "env (snd (run_state (stateMachine evt p) s)) = env s"
  by (simp add: run_stateMachine preview_stopped_keeps preview_ready_keeps previewing_keeps
      prepare_snapshot_keeps pic_taking_keeps recording_keeps video_pic_taking_keeps
      preview_pic_taking_keeps split: sm_state.split)

lemma stateMachine_api_queue: "api_queue (snd (run_state (stateMachine evt p) s)) = api_queue s"
  by (simp add: run_stateMachine preview_stopped_keeps preview_ready_keeps previewing_keeps
      prepare_snapshot_keeps pic_taking_keeps recording_keeps video_pic_taking_keeps
      preview_pic_taking_keeps split: sm_state.split)

lemma stateMachine_answered:
  assumes "sync_call (m_state s) evt"
  shows "answered evt (stateMachine evt p) s"
  using assms preview_stopped_answered [of evt p s] preview_ready_answered [of evt p s]
    previewing_answered [of evt p s] prepare_snapshot_answered [of evt p s]
    pic_taking_answered [of evt p s] recording_answered [of evt p s]
    video_pic_taking_answered [of evt p s] preview_pic_taking_answered [of evt p s]
  by (cases "m_state s") (simp_all add: run_stateMachine answered_def)

lemma stateMachine_silent:
  assumes "never_answered (m_state s) evt"
  shows "api_signals (trace (snd (run_state (stateMachine evt p) s))) = api_signals (trace s)"
  using assms preview_stopped_silent [of evt p s] preview_ready_silent [of evt p s]
    previewing_silent [of evt p s] prepare_snapshot_silent [of evt p s]
    pic_taking_silent [of evt p s] recording_silent [of evt p s]
    video_pic_taking_silent [of evt p s] preview_pic_taking_silent [of evt p s]
  by (cases "m_state s") (simp_all add: run_stateMachine)

lemma stateMachine_evt_reported: "evt_reported evt (stateMachine evt p) s"
  using preview_stopped_evt_reported [of evt p s]
    preview_ready_evt_reported [of evt p s] previewing_evt_reported [of evt p s]
    prepare_snapshot_evt_reported [of evt p s] pic_taking_evt_reported [of evt p s]
    recording_evt_reported [of evt p s] video_pic_taking_evt_reported [of evt p s]
    preview_pic_taking_evt_reported [of evt p s]
  by (cases "m_state s") (simp_all add: run_stateMachine evt_reported_def)

lemma stateMachine_keeps_events:
  assumes "evt \<noteq> EVT_SEND_COMMAND"
  shows "evt_queue (snd (run_state (stateMachine evt p) s)) = evt_queue s"
    "cmd_sem (snd (run_state (stateMachine evt p) s)) = cmd_sem s"
  using assms
  by (simp_all add: run_stateMachine preview_stopped_keeps_events preview_ready_keeps_events
      previewing_keeps_events prepare_snapshot_keeps_events pic_taking_keeps_events
      recording_keeps_events video_pic_taking_keeps_events preview_pic_taking_keeps_events
      split: sm_state.split)

section \<open>One pass of the thread\<close>

text \<open>With the queues in order, the semaphore up means that a command is there.\<close>

lemma smEvtProcStep_api:
  assumes "queues_ok s" and "fifo_items (api_queue s) = c # cs"
  shows "run_state smEvtProcStep s = run_state (process_cmd c)
     (s\<lparr>cmd_sem := cmd_sem s - 1, api_queue := (api_queue s)\<lparr>fifo_items := cs\<rparr>\<rparr>)"
  using assms by (simp add: smEvtProcStep_def next_cmd_def hal_run fifo_dequeue_def queues_ok_def)

lemma smEvtProcStep_evt:
  assumes "queues_ok s" and "fifo_items (api_queue s) = []"
    and "fifo_items (evt_queue s) = c # cs"
  shows "run_state smEvtProcStep s = run_state (process_cmd c)
     (s\<lparr>cmd_sem := cmd_sem s - 1, evt_queue := (evt_queue s)\<lparr>fifo_items := cs\<rparr>\<rparr>)"
  using assms by (simp add: smEvtProcStep_def next_cmd_def hal_run fifo_dequeue_def queues_ok_def)

definition sm_inv :: "sm_system \<Rightarrow> bool" where
  "sm_inv m \<longleftrightarrow> queues_ok (core m) \<and> delay_ok (core m)"

lemma delay_ok_update [simp]:
  "delay_ok (trace_update f s) = delay_ok s"
  "delay_ok (api_queue_update g s) = delay_ok s"
  "delay_ok (evt_queue_update g s) = delay_ok s"
  "delay_ok (cmd_sem_update h s) = delay_ok s"
  "delay_ok (cmd_pid_update b s) = delay_ok s"
  by (simp_all add: delay_ok_def)

lemma process_cmd_inv:
  assumes "queues_ok s" and "delay_ok s"
  shows "queues_ok (snd (run_state (process_cmd c) s)) \<and>
    delay_ok (snd (run_state (process_cmd c) s))"
  using assms
  by (simp add: process_cmd_def hal_run stateMachine_delay stateMachine_queues
      split: sm_cmd_type.split)

lemma smEvtProcStep_inv:
  assumes "queues_ok s" and "delay_ok s" and "0 < cmd_sem s"
  shows "queues_ok (snd (run_state smEvtProcStep s)) \<and>
    delay_ok (snd (run_state smEvtProcStep s))"
proof (cases "fifo_items (api_queue s)")
  case (Cons c cs)
  with assms have "queues_ok (s\<lparr>cmd_sem := cmd_sem s - 1,
      api_queue := (api_queue s)\<lparr>fifo_items := cs\<rparr>\<rparr>)"
    by (simp add: queues_ok_def)
  with assms(1,2) Cons show ?thesis by (simp add: smEvtProcStep_api process_cmd_inv)
next
  case Nil
  with assms(1,3) obtain c cs where evt: "fifo_items (evt_queue s) = c # cs"
    by (cases "fifo_items (evt_queue s)") (simp_all add: queues_ok_def)
  with assms Nil have "queues_ok (s\<lparr>cmd_sem := cmd_sem s - 1,
      evt_queue := (evt_queue s)\<lparr>fifo_items := cs\<rparr>\<rparr>)"
    by (simp add: queues_ok_def)
  with assms(1,2) Nil evt show ?thesis by (simp add: smEvtProcStep_evt process_cmd_inv)
qed

lemma procAPI_inv:
  assumes "queues_ok s" and "delay_ok s"
  shows "queues_ok (snd (run_state (procAPI e p) s)) \<and> delay_ok (snd (run_state (procAPI e p) s))"
  using assms by (auto simp: procAPI_def queues_ok_def fifo_enqueue_def delay_ok_def hal_run)

lemma procEvt_delay: "delay_ok s \<Longrightarrow> delay_ok (snd (run_state (procEvt e p) s))"
  by (simp add: delay_ok_def frame)

lemma releaseThread_inv:
  assumes "queues_ok s" and "delay_ok s"
  shows "queues_ok (snd (run_state releaseThread s)) \<and> delay_ok (snd (run_state releaseThread s))"
  using assms by (auto simp: releaseThread_def queues_ok_def fifo_enqueue_def delay_ok_def hal_run)

lemma sm_step_inv: "sm_inv m \<Longrightarrow> sm_inv (sm_step i m)"
  by (simp add: sm_inv_def sm_step_def procAPI_inv procEvt_queues_ok procEvt_delay
      releaseThread_inv smEvtProcStep_inv case_prod_beta Let_def split: sm_input.split)

interpretation sm: invariant_system sm_step sm_inv
  by unfold_locales (rule sm_step_inv)

lemma sm_init_inv: "sm_inv (sm_init n d e)"
  by (simp add: sm_inv_def sm_init_def QCameraStateMachine_def queues_ok_def delay_ok_def)

end
