(* ===== verification/Sm_Messages.thy ===== *)
theory Sm_Messages
  imports Sm_Machine
begin

text \<open>
  The message mask that the application sees. Taking a picture with the preview running delays
  the preview frame message; the delay is meant to be invisible: what the application has
  enabled (wanted\_msgs, the mask in force together with the delayed part) changes only when the
  application asks for it.
\<close>

section \<open>Rules for the wanted messages\<close>

lemma wanted_update [simp]:
  "wanted_msgs (m_state_update f1 s) = wanted_msgs s"
  "wanted_msgs (trace_update f2 s) = wanted_msgs s"
  "wanted_msgs (m_RestoreZSL_update f3 s) = wanted_msgs s"
  "wanted_msgs (m_bPreviewNeedsRestart_update f4 s) = wanted_msgs s"
  "wanted_msgs (m_bPreviewDelayedRestart_update f5 s) = wanted_msgs s"
  "wanted_msgs (mPreviewWindow_update f6 s) = wanted_msgs s"
  "wanted_msgs (m_bNeedRestart_update f7 s) = wanted_msgs s"
  by (simp_all add: wanted_msgs_def)

lemma wanted_branch:
  "wanted_msgs (if b then x else y) = (if b then wanted_msgs x else wanted_msgs y)"
  by simp

lemma wanted_enable: "wanted_msgs (snd (run_state (enableMsgType m) s)) = wanted_msgs s OR m"
  by (simp add: wanted_msgs_def frame ac_simps)

lemma wanted_disable:
  "m_DelayedMsgs s = 0 \<Longrightarrow>
     wanted_msgs (snd (run_state (disableMsgType m) s)) = wanted_msgs s AND NOT m"
  by (simp add: wanted_msgs_def frame)

lemma wanted_apply: "wanted_msgs (snd (run_state applyDelayedMsgs s)) = wanted_msgs s"
  by (simp add: wanted_msgs_def frame)

lemma wanted_command: "wanted_msgs (snd (run_state (sendCommand c) s)) = wanted_msgs s"
  by (simp add: wanted_msgs_def frame)

lemma wanted_delay: "delay_ok s \<Longrightarrow> wanted_msgs (s\<lparr>m_bDelayPreviewMsgs := True\<rparr>) = wanted_msgs s"
  by (auto simp: wanted_msgs_def delay_ok_def)

lemmas wanted_run = wanted_branch wanted_enable wanted_apply wanted_command wanted_delay

section \<open>One lemma per handler\<close>

lemma preview_stopped_wanted:
  assumes "delay_ok s" and "evt \<noteq> EVT_ENABLE_MSG_TYPE" and "evt \<noteq> EVT_DISABLE_MSG_TYPE"
  shows "wanted_msgs (snd (run_state (procEvtPreviewStoppedState evt p) s)) = wanted_msgs s"
  using assms
  by (cases evt; simp add: sm_defs handler_run wanted_run split: evt_splits)

lemma preview_ready_wanted:
  assumes "delay_ok s" and "evt \<noteq> EVT_ENABLE_MSG_TYPE" and "evt \<noteq> EVT_DISABLE_MSG_TYPE"
  shows "wanted_msgs (snd (run_state (procEvtPreviewReadyState evt p) s)) = wanted_msgs s"
  using assms
  by (cases evt; simp add: sm_defs handler_run wanted_run split: evt_splits)

lemma previewing_wanted:
  assumes "delay_ok s" and "evt \<noteq> EVT_ENABLE_MSG_TYPE" and "evt \<noteq> EVT_DISABLE_MSG_TYPE"
  shows "wanted_msgs (snd (run_state (procEvtPreviewingState evt p) s)) = wanted_msgs s"
  using assms
  by (cases "m_bDelayPreviewMsgs s";
      cases evt; simp add: sm_defs handler_run wanted_run delay_ok_def split: evt_splits)

lemma prepare_snapshot_wanted:
  assumes "delay_ok s" and "evt \<noteq> EVT_ENABLE_MSG_TYPE" and "evt \<noteq> EVT_DISABLE_MSG_TYPE"
  shows "wanted_msgs (snd (run_state (procEvtPrepareSnapshotState evt p) s)) = wanted_msgs s"
  using assms
  by (cases evt; simp add: sm_defs handler_run wanted_run split: evt_splits)

lemma pic_taking_wanted:
  assumes "delay_ok s" and "evt \<noteq> EVT_ENABLE_MSG_TYPE" and "evt \<noteq> EVT_DISABLE_MSG_TYPE"
  shows "wanted_msgs (snd (run_state (procEvtPicTakingState evt p) s)) = wanted_msgs s"
  using assms
  by (cases evt; simp add: sm_defs handler_run wanted_run split: evt_splits)

lemma recording_wanted:
  assumes "delay_ok s" and "evt \<noteq> EVT_ENABLE_MSG_TYPE" and "evt \<noteq> EVT_DISABLE_MSG_TYPE"
  shows "wanted_msgs (snd (run_state (procEvtRecordingState evt p) s)) = wanted_msgs s"
  using assms
  by (cases evt; simp add: sm_defs handler_run wanted_run split: evt_splits)

lemma video_pic_taking_wanted:
  assumes "delay_ok s" and "evt \<noteq> EVT_ENABLE_MSG_TYPE" and "evt \<noteq> EVT_DISABLE_MSG_TYPE"
  shows "wanted_msgs (snd (run_state (procEvtVideoPicTakingState evt p) s)) = wanted_msgs s"
  using assms
  by (cases evt; simp add: sm_defs handler_run wanted_run split: evt_splits)

lemma preview_pic_taking_wanted:
  assumes "delay_ok s" and "evt \<noteq> EVT_ENABLE_MSG_TYPE" and "evt \<noteq> EVT_DISABLE_MSG_TYPE"
  shows "wanted_msgs (snd (run_state (procEvtPreviewPicTakingState evt p) s)) = wanted_msgs s"
  using assms
  by (cases evt; simp add: sm_defs handler_run wanted_run split: evt_splits)

lemma previewing_enable:
  assumes "delay_ok s"
  shows "wanted_msgs (snd (run_state (procEvtPreviewingState EVT_ENABLE_MSG_TYPE p) s)) =
    wanted_msgs s OR as_int32 p"
proof (cases "m_bDelayPreviewMsgs s \<and> as_int32 p AND CAMERA_MSG_PREVIEW_FRAME \<noteq> 0")
  case False
  then show ?thesis by (auto simp: sm_defs handler_run wanted_run)
next
  case True
  then have bit: "bit (as_int32 p) 4"
    by (simp add: and.commute [of "as_int32 p"] preview_frame_and split: if_splits)
  have "bit (m_DelayedMsgs s) n \<Longrightarrow> n = 4" for n
    using assms by (auto simp: delay_ok_def preview_frame_bits)
  with bit have "(mMsgEnabled s OR m_DelayedMsgs s) OR as_int32 p =
      (mMsgEnabled s OR CAMERA_MSG_PREVIEW_FRAME) OR (as_int32 p AND NOT CAMERA_MSG_PREVIEW_FRAME)"
    by (intro bit_word_eqI) (auto simp: bit_or_iff bit_and_iff bit_not_iff preview_frame_bits)
  with True show ?thesis
    by (simp add: sm_defs handler_run wanted_run) (simp add: wanted_msgs_def frame)
qed

lemma and_or_distrib_word: "(a OR b) AND c = (a AND c) OR (b AND c)" for a :: int32
  by (rule bit_word_eqI) (auto simp: bit_or_iff bit_and_iff)

lemma previewing_disable:
  assumes "delay_ok s"
  shows "wanted_msgs (snd (run_state (procEvtPreviewingState EVT_DISABLE_MSG_TYPE p) s)) =
    wanted_msgs s AND NOT (as_int32 p)"
  by (cases "m_bDelayPreviewMsgs s"; cases "m_DelayedMsgs s = 0")
    (simp_all add: sm_defs handler_run wanted_msgs_def and_or_distrib_word)

end
