(* ===== verification/Sm_Theorems.thy ===== *)
theory Sm_Theorems
  imports Sm_Messages
begin

text \<open>
  The properties of the camera state machine: who is answered and when, what is refused, the
  transition graph, the delayed preview message, start and stop of preview and recording, the
  death of the camera daemon, and the order in which the thread serves its queues.
\<close>

section \<open>States for the witnesses\<close>

text \<open>A machine in a given state whose parent answers every call the same way.\<close>

definition probe :: "sm_state \<Rightarrow> int32 \<Rightarrow> hal" where
  "probe st answer = (QCameraStateMachine False False (\<lambda>_ _. answer))\<lparr>m_state := st\<rparr>"

lemma probe_simps [simp]:
  "m_state (probe st a) = st" "env (probe st a) = (\<lambda>_ _. a)" "trace (probe st a) = []"
  "m_bDelayPreviewMsgs (probe st a) = False" "m_DelayedMsgs (probe st a) = 0"
  "mPreviewWindow (probe st a) = NULL" "mMsgEnabled (probe st a) = 0"
  "m_RestoreZSL (probe st a) = True"
  by (simp_all add: probe_def QCameraStateMachine_def)

section \<open>Answers\<close>

text \<open>
  C1: Every call that a state answers at once is answered exactly once: processing it posts one
  API result and no other, the result names the call as its request, and its status is the value
  the handler returns. This is what the blocked caller in waitAPIResult relies on.
\<close>

theorem sm_answers_once:
  assumes "sync_call (m_state s) evt"
  shows "\<exists>r. api_signals (trace (snd (run_state (stateMachine evt p) s))) =
               api_signals (trace s) @ [r] \<and>
             request_api r = evt \<and> status r = fst (run_state (stateMachine evt p) s)"
  using stateMachine_answered [OF assms] by (simp add: answered_def)

lemma sm_answers_once_witness:
  "\<exists>r. api_signals (trace (snd (run_state (stateMachine EVT_STOP_PREVIEW null_payload)
          (probe STATE_RECORDING 0)))) = api_signals (trace (probe STATE_RECORDING 0)) @ [r] \<and>
      request_api r = EVT_STOP_PREVIEW \<and>
      status r = fst (run_state (stateMachine EVT_STOP_PREVIEW null_payload)
        (probe STATE_RECORDING 0))"
  by (rule sm_answers_once) (simp add: sync_defs)

text \<open>
  C16: The calls whose answer may come later (PREPARE\_SNAPSHOT, and TAKE\_PICTURE in retro-active
  mode) are still answered at once, exactly once, when they fail: the caller of a failed call
  never waits for a metadata event that will not come.
\<close>

theorem sm_failure_answered_now:
  assumes "answered_later (m_state s) evt"
    and "fst (run_state (stateMachine evt p) s) \<noteq> NO_ERROR"
  shows "\<exists>r. api_signals (trace (snd (run_state (stateMachine evt p) s))) =
               api_signals (trace s) @ [r] \<and>
             request_api r = evt \<and> status r = fst (run_state (stateMachine evt p) s)"
  using assms previewing_later_failure [of p s] preview_pic_later_failure [of p s]
  by (cases evt; cases "m_state s") (simp_all add: answered_later_def run_stateMachine answered_def)

lemma sm_failure_answered_now_witness:
  "\<exists>r. api_signals (trace (snd (run_state (stateMachine EVT_PREPARE_SNAPSHOT null_payload)
          (probe STATE_PREVIEWING 1)))) = api_signals (trace (probe STATE_PREVIEWING 1)) @ [r] \<and>
      request_api r = EVT_PREPARE_SNAPSHOT \<and>
      status r = fst (run_state (stateMachine EVT_PREPARE_SNAPSHOT null_payload)
        (probe STATE_PREVIEWING 1))"
  by (rule sm_failure_answered_now)
    (simp_all add: answered_later_def run_stateMachine sm_defs handler_run NO_ERROR_def)

text \<open>
  The calls that a state never answers post no API result, whatever the parent does:
  RELEASE\_RECORDING\_FRAME before a recording, REG\_FACE\_IMAGE while a snapshot is prepared, and
  SEND\_COMMAND\_RESTART outside PREVIEWING. Their wrappers wait for a result all the same.
\<close>

theorem sm_never_answered:
  assumes "never_answered (m_state s) evt"
  shows "api_signals (trace (snd (run_state (stateMachine evt p) s))) = api_signals (trace s)"
  by (rule stateMachine_silent [OF assms])

lemma sm_never_answered_witness:
  "api_signals (trace (snd (run_state (stateMachine EVT_RELEASE_RECORIDNG_FRAME null_payload)
     (probe STATE_PREVIEWING 0)))) = api_signals (trace (probe STATE_PREVIEWING 0))"
  by (rule sm_never_answered) (simp add: never_answered_def)

text \<open>
  C17: A refused event changes nothing: the machine stays as it is, no call is made on the parent,
  and the only trace is the result INVALID\_OPERATION for that event.
\<close>

theorem sm_refusals_pure:
  assumes "evt \<in> set (refused (m_state s))"
  shows "run_state (stateMachine evt p) s = refusal evt s"
  using assms preview_stopped_refused [of evt p s] preview_ready_refused [of evt p s]
    previewing_refused [of evt p s] prepare_snapshot_refused [of evt p s]
    pic_taking_refused [of evt p s] recording_refused [of evt p s]
    video_pic_taking_refused [of evt p s] preview_pic_taking_refused [of evt p s]
  by (cases "m_state s") (simp_all add: run_stateMachine)

lemma sm_refusals_pure_witness:
  "run_state (stateMachine EVT_RELEASE null_payload) (probe STATE_PREVIEWING 0) =
     refusal EVT_RELEASE (probe STATE_PREVIEWING 0)"
  by (rule sm_refusals_pure) (simp add: refused_def)

text \<open>
  processSyncEvt waits for an event result: EVT\_SNAPSHOT\_DONE posts exactly one in every
  state, with the status the handler returns, and no other event posts any.
\<close>

theorem sm_snapshot_done_reported:
  "evt_reported evt (stateMachine evt p) s"
  by (rule stateMachine_evt_reported)

section \<open>The transition graph\<close>

text \<open>
  C2: The machine moves only along the edges of next\_states: whatever the event, the payload and
  the answers of the parent, the state after an event is one the graph allows.
\<close>

theorem sm_transitions_sound:
  "m_state (snd (run_state (stateMachine evt p) s)) \<in> set (next_states (m_state s) evt)"
  by (rule stateMachine_next)

definition edge_payload :: payload where
  "edge_payload = null_payload
     \<lparr>as_ptr := 1,
      as_command := \<lparr>cmd = CAMERA_CMD_LONGSHOT_OFF, arg1 = 0, arg2 = 0\<rparr>,
      as_internal := \<lparr>evt_type = INTERNAL_EVT_PREP_SNAPSHOT_DONE, evt_data = 0\<rparr>\<rparr>"

text \<open>The calls that the parent answers with 1 (failure, or yes); all others get 0.\<close>

definition edge_answers :: "sm_evt \<Rightarrow> sm_state \<Rightarrow> sm_state \<Rightarrow> hal_call list" where
  "edge_answers evt st st' = (case st' of
      STATE_PREVIEW_STOPPED \<Rightarrow> (case evt of
          EVT_SET_PREVIEW_WINDOW \<Rightarrow> [H_startPreview]
        | EVT_START_PREVIEW \<Rightarrow> [H_startPreview]
        | EVT_START_NODISPLAY_PREVIEW \<Rightarrow> [H_startPreview]
        | EVT_SET_PARAMS_RESTART \<Rightarrow>
            [if st = STATE_PREVIEW_READY then H_preparePreview else H_startPreview]
        | EVT_TAKE_PICTURE \<Rightarrow> [H_takePicture, H_startPreview]
        | _ \<Rightarrow> [])
    | STATE_PREVIEWING \<Rightarrow> (case evt of
          EVT_SNAPSHOT_DONE \<Rightarrow> [H_query Q_isPreviewRestartEnabled]
        | _ \<Rightarrow> [])
    | STATE_PIC_TAKING \<Rightarrow> (case evt of
          EVT_SET_PARAMS_RESTART \<Rightarrow> [H_preparePreview]
        | _ \<Rightarrow> [])
    | STATE_PREVIEW_PIC_TAKING \<Rightarrow> [H_query Q_isZSLMode]
    | _ \<Rightarrow> [])"

definition edge_state :: "sm_evt \<Rightarrow> sm_state \<Rightarrow> sm_state \<Rightarrow> hal" where
  "edge_state evt st st' =
     (QCameraStateMachine False False (\<lambda>_ c. if c \<in> set (edge_answers evt st st') then 1 else 0))
       \<lparr>m_state := st,
        mPreviewWindow := (if evt = EVT_START_PREVIEW \<and> st' \<noteq> STATE_PREVIEW_READY then 1
                           else NULL)\<rparr>"

lemma edge_state_simps [simp]:
  "m_state (edge_state evt st st') = st" "trace (edge_state evt st st') = []"
  "env (edge_state evt st st') = (\<lambda>_ c. if c \<in> set (edge_answers evt st st') then 1 else 0)"
  "mPreviewWindow (edge_state evt st st') =
     (if evt = EVT_START_PREVIEW \<and> st' \<noteq> STATE_PREVIEW_READY then 1 else NULL)"
  by (simp_all add: edge_state_def QCameraStateMachine_def)

text \<open>
  Every edge of the graph that leaves its state is taken: for each such edge there is a state
  of the machine, with answers of the parent, from which the event leads along it.
\<close>

theorem sm_transitions_complete:
  assumes "st' \<in> set (next_states st evt)" and "st' \<noteq> st"
  shows "\<exists>s p. m_state s = st \<and> m_state (snd (run_state (stateMachine evt p) s)) = st'"
proof -
  have "m_state (snd (run_state (stateMachine evt edge_payload) (edge_state evt st st'))) = st'"
    using assms
    by (cases st; cases evt; simp add: next_states_def; (elim disjE)?;
        simp add: run_stateMachine sm_defs handler_run edge_answers_def edge_payload_def
          NO_ERROR_def CAM_MANUAL_CAPTURE_TYPE_3_def)
  then show ?thesis by (intro exI [of _ "edge_state evt st st'"] exI [of _ edge_payload]) simp
qed

lemma sm_transitions_complete_witness:
  "\<exists>s p. m_state s = STATE_PREVIEWING \<and>
     m_state (snd (run_state (stateMachine EVT_START_RECORDING p) s)) = STATE_RECORDING"
  by (rule sm_transitions_complete) (simp_all add: next_states_def)

section \<open>Preview\<close>

text \<open>The calls of enableMsgType: questions about the channels, and the start of the callback channel.\<close>

definition enable_call :: "hal_call \<Rightarrow> bool" where
  "enable_call c \<longleftrightarrow> c = H_startChannel CH_TYPE_CALLBACK \<or> (\<exists>q. c = H_query q)"

lemma enableMsgType_run:
  "\<exists>A rc. run_state (enableMsgType msg) s =
     (rc, s\<lparr>trace := trace s @ A, mMsgEnabled := mMsgEnabled s OR msg\<rparr>) \<and> list_all enable_call A"
proof -
  have "run_state (enableMsgType msg) s = (rc, s\<lparr>trace := trace s @ A, mMsgEnabled := mMsgEnabled s OR msg\<rparr>) \<Longrightarrow>
      list_all enable_call A \<Longrightarrow> ?thesis" for A rc by blast
  then show ?thesis
    by (simp add: enableMsgType_def preview_channel_def hal_run enable_call_def msgTypeEnabled_def Let_def
        split: if_splits)
qed

definition with_delayed :: "hal \<Rightarrow> hal" where
  "with_delayed s = (if m_bDelayPreviewMsgs s
     then s\<lparr>mMsgEnabled := mMsgEnabled s OR m_DelayedMsgs s, m_bDelayPreviewMsgs := False, m_DelayedMsgs := 0\<rparr>
     else s)"

lemma applyDelayedMsgs_run:
  "\<exists>A rc. run_state applyDelayedMsgs s = (rc, (with_delayed s)\<lparr>trace := trace s @ A\<rparr>) \<and>
     list_all enable_call A \<and> (\<not> m_bDelayPreviewMsgs s \<longrightarrow> A = [])"
proof (cases "m_bDelayPreviewMsgs s \<and> m_DelayedMsgs s \<noteq> 0")
  case True
  obtain A rc where e: "run_state (enableMsgType (m_DelayedMsgs s)) s =
      (rc, s\<lparr>trace := trace s @ A, mMsgEnabled := mMsgEnabled s OR m_DelayedMsgs s\<rparr>)" "list_all enable_call A"
    using enableMsgType_run by blast
  have "run_state applyDelayedMsgs s = (rc, (with_delayed s)\<lparr>trace := trace s @ A\<rparr>)"
    using True e(1) by (simp add: applyDelayedMsgs_def hal_run with_delayed_def)
  then show ?thesis using e(2) True by blast
next
  case False
  have "\<exists>rc. run_state applyDelayedMsgs s = (rc, (with_delayed s)\<lparr>trace := trace s @ []\<rparr>)"
    using False by (auto simp: applyDelayedMsgs_def hal_run with_delayed_def)
  moreover have "list_all enable_call []" by simp
  ultimately show ?thesis by blast
qed

text \<open>
  C19: START\_PREVIEW in PREVIEW\_STOPPED, on every branch: nothing starts before the deferred
  initialisation succeeded; without a window the machine only prepares and becomes READY; with
  one it prepares, enables the messages that were delayed, and only then starts; a failed start is
  undone by unpreparePreview; a failure at any step is reported and leaves the machine STOPPED.
  The delayed messages are enabled exactly if the start is reached, and none is delayed after it.
\<close>

theorem start_preview_outcomes:
  fixes s :: hal and p :: payload
  assumes "m_state s = STATE_PREVIEW_STOPPED"
  defines "e1 \<equiv> env s (trace s) H_waitDeferredWork"
    and "e2 \<equiv> env s (trace s @ [H_waitDeferredWork]) H_preparePreview"
    and "res \<equiv> \<lambda>rc. H_signalAPIResult \<lparr>status = rc, request_api = EVT_START_PREVIEW,
            result_type = API_RESULT_TYPE_DEF, result_union = U_zero\<rparr>"
  shows "\<exists>rc t A. run_state (stateMachine EVT_START_PREVIEW p) s = (rc, t) \<and>
    (let ready = (e1 = NO_ERROR \<and> e2 = NO_ERROR); starts = (ready \<and> mPreviewWindow s \<noteq> NULL);
         e3 = env s (trace s @ [H_waitDeferredWork, H_preparePreview] @ A) H_startPreview
     in rc = (if e1 \<noteq> NO_ERROR then e1 else if e2 \<noteq> NO_ERROR then e2
              else if mPreviewWindow s = NULL then NO_ERROR else e3) \<and>
        t = (if starts then with_delayed s else s)\<lparr>
              m_state := (if rc \<noteq> NO_ERROR then STATE_PREVIEW_STOPPED
                          else if mPreviewWindow s = NULL then STATE_PREVIEW_READY else STATE_PREVIEWING),
              trace := trace s @ [H_waitDeferredWork] @
                (if e1 \<noteq> NO_ERROR then [] else [H_preparePreview]) @
                (if starts then A @ [H_startPreview] else []) @
                (if starts \<and> e3 \<noteq> NO_ERROR then [H_unpreparePreview] else []) @ [res rc]\<rparr> \<and>
        list_all enable_call A \<and> (\<not> (starts \<and> m_bDelayPreviewMsgs s) \<longrightarrow> A = []))"
proof -
  let ?s2 = "s\<lparr>trace := trace s @ [H_waitDeferredWork, H_preparePreview]\<rparr>"
  obtain A rc where a: "run_state applyDelayedMsgs ?s2 =
     (rc, (with_delayed s)\<lparr>trace := trace s @ [H_waitDeferredWork, H_preparePreview] @ A\<rparr>)"
    "list_all enable_call A" "\<not> m_bDelayPreviewMsgs s \<longrightarrow> A = []"
  proof -
    have "(with_delayed ?s2)\<lparr>trace := xs\<rparr> = (with_delayed s)\<lparr>trace := xs\<rparr>" for xs
      by (simp add: with_delayed_def)
    then show thesis using applyDelayedMsgs_run [of ?s2] that by auto
  qed
  have keeps: "env (with_delayed s) = env s" "m_state (with_delayed s) = m_state s"
    by (simp_all add: with_delayed_def)
  show ?thesis
  proof (cases "e1 = NO_ERROR \<and> e2 = NO_ERROR \<and> mPreviewWindow s \<noteq> NULL")
    case True
    then show ?thesis
      using assms(1) a unfolding e1_def e2_def
      by (intro exI [of _ "fst (run_state (stateMachine EVT_START_PREVIEW p) s)"]
          exI [of _ "snd (run_state (stateMachine EVT_START_PREVIEW p) s)"] exI [of _ A])
        (simp add: run_stateMachine sm_defs hal_run res_def keeps)
  next
    case False
    then show ?thesis
      using assms(1) unfolding e1_def e2_def
      by (intro exI [of _ "fst (run_state (stateMachine EVT_START_PREVIEW p) s)"]
          exI [of _ "snd (run_state (stateMachine EVT_START_PREVIEW p) s)"] exI [of _ "[]"])
        (auto simp: run_stateMachine sm_defs hal_run res_def)
  qed
qed

lemma start_preview_outcomes_witness:
  "let t = snd (run_state (stateMachine EVT_START_PREVIEW null_payload)
     ((probe STATE_PREVIEW_STOPPED 0)\<lparr>mPreviewWindow := 5, m_bDelayPreviewMsgs := True, m_DelayedMsgs := 16\<rparr>))
   in m_state t = STATE_PREVIEWING \<and> mMsgEnabled t = 16 \<and> m_DelayedMsgs t = 0"
  using start_preview_outcomes [of "(probe STATE_PREVIEW_STOPPED 0)
     \<lparr>mPreviewWindow := 5, m_bDelayPreviewMsgs := True, m_DelayedMsgs := 16\<rparr>" null_payload]
  by (auto simp: NO_ERROR_def Let_def with_delayed_def)

text \<open>
  STOP\_PREVIEW brings every state but PREPARE\_SNAPSHOT to PREVIEW\_STOPPED.
\<close>

theorem stop_preview_stops:
  assumes "m_state s \<noteq> STATE_PREPARE_SNAPSHOT"
  shows "m_state (snd (run_state (stateMachine EVT_STOP_PREVIEW p) s)) = STATE_PREVIEW_STOPPED"
  using assms stateMachine_next [of EVT_STOP_PREVIEW p s]
  by (cases "m_state s") (simp_all add: next_states_def)

lemma stop_preview_stops_witness:
  "m_state (snd (run_state (stateMachine EVT_STOP_PREVIEW null_payload)
     (probe STATE_VIDEO_PIC_TAKING 1))) = STATE_PREVIEW_STOPPED"
  by (rule stop_preview_stops) simp

text \<open>
  A preview stopped during a recording, with a live snapshot in flight or not: first the
  snapshot is cancelled, then the recording stops, then the preview, and only then the caller is
  answered, with the status of stopPreview.
\<close>

theorem stop_preview_order:
  assumes "sm_isRecording (m_state s)"
  shows "\<exists>rc. trace (snd (run_state (stateMachine EVT_STOP_PREVIEW p) s)) = trace s @
      (if m_state s = STATE_VIDEO_PIC_TAKING then [H_cancelLiveSnapshot] else []) @
      [H_stopRecording, H_stopPreview,
       H_signalAPIResult \<lparr>status = rc, request_api = EVT_STOP_PREVIEW,
         result_type = API_RESULT_TYPE_DEF, result_union = U_zero\<rparr>]"
  using assms
  by (cases "m_state s") (simp_all add: sm_isRecording_def run_stateMachine sm_defs hal_run)

lemma stop_preview_order_witness:
  "\<exists>rc. trace (snd (run_state (stateMachine EVT_STOP_PREVIEW null_payload)
       (probe STATE_RECORDING 0))) = trace (probe STATE_RECORDING 0) @
      (if m_state (probe STATE_RECORDING 0) = STATE_VIDEO_PIC_TAKING
       then [H_cancelLiveSnapshot] else []) @
      [H_stopRecording, H_stopPreview,
       H_signalAPIResult \<lparr>status = rc, request_api = EVT_STOP_PREVIEW,
         result_type = API_RESULT_TYPE_DEF, result_union = U_zero\<rparr>]"
  by (rule stop_preview_order) (simp add: sm_isRecording_def)

section \<open>Recording\<close>

text \<open>
  The machine enters a recording state only through a startRecording that succeeded: it is the
  one call the event makes on the camera, and the caller is told NO\_ERROR.
\<close>

theorem recording_started:
  assumes "\<not> sm_isRecording (m_state s)"
    and "sm_isRecording (m_state (snd (run_state (stateMachine evt p) s)))"
  shows "major (trace (snd (run_state (stateMachine evt p) s))) = major (trace s) @
      [H_startRecording,
       H_signalAPIResult \<lparr>status = NO_ERROR, request_api = EVT_START_RECORDING,
         result_type = API_RESULT_TYPE_DEF, result_union = U_zero\<rparr>]"
proof -
  have "m_state s = STATE_PREVIEWING \<and> evt = EVT_START_RECORDING \<or>
      m_state s = STATE_PREVIEW_PIC_TAKING \<and> evt = EVT_START_RECORDING"
    using assms stateMachine_next [of evt p s]
    by (cases "m_state s"; cases evt; auto simp: next_states_def sm_isRecording_def)
  then show ?thesis
    using assms(2)
    by (auto simp: run_stateMachine sm_defs handler_run sm_isRecording_def split: if_splits)
qed

lemma recording_started_witness:
  "major (trace (snd (run_state (stateMachine EVT_START_RECORDING null_payload)
       (probe STATE_PREVIEWING 0)))) = major (trace (probe STATE_PREVIEWING 0)) @
      [H_startRecording,
       H_signalAPIResult \<lparr>status = NO_ERROR, request_api = EVT_START_RECORDING,
         result_type = API_RESULT_TYPE_DEF, result_union = U_zero\<rparr>]"
  by (rule recording_started)
    (simp_all add: sm_isRecording_def run_stateMachine sm_defs handler_run NO_ERROR_def)

text \<open>
  C20: The machine leaves the recording states only through stopRecording, after a live snapshot
  still in flight has been cancelled.
\<close>

theorem recording_stopped:
  assumes "sm_isRecording (m_state s)"
    and "\<not> sm_isRecording (m_state (snd (run_state (stateMachine evt p) s)))"
  shows "\<exists>post. trace (snd (run_state (stateMachine evt p) s)) = trace s @
      (if m_state s = STATE_VIDEO_PIC_TAKING then [H_cancelLiveSnapshot] else []) @
      H_stopRecording # post"
proof -
  have "(m_state s = STATE_RECORDING \<or> m_state s = STATE_VIDEO_PIC_TAKING) \<and>
      (evt = EVT_STOP_RECORDING \<or> evt = EVT_STOP_PREVIEW)"
    using assms stateMachine_next [of evt p s]
    by (cases "m_state s"; cases evt; auto simp: next_states_def sm_isRecording_def)
  then show ?thesis
    by (auto simp: run_stateMachine sm_defs hal_run)
qed

lemma recording_stopped_witness:
  "\<exists>post. trace (snd (run_state (stateMachine EVT_STOP_RECORDING null_payload)
       (probe STATE_VIDEO_PIC_TAKING 0))) = trace (probe STATE_VIDEO_PIC_TAKING 0) @
      (if m_state (probe STATE_VIDEO_PIC_TAKING 0) = STATE_VIDEO_PIC_TAKING
       then [H_cancelLiveSnapshot] else []) @
      H_stopRecording # post"
  by (rule recording_stopped) (simp_all add: sm_isRecording_def run_stateMachine sm_defs hal_run)

text \<open>
  RECORDING\_ENABLED answers isRecording in every state that does not refuse it.
\<close>

theorem recording_enabled_flag:
  assumes "m_state s \<noteq> STATE_PREPARE_SNAPSHOT"
  shows "run_state (stateMachine EVT_RECORDING_ENABLED p) s =
    (NO_ERROR, s\<lparr>trace := trace s @ [H_signalAPIResult
      \<lparr>status = NO_ERROR, request_api = EVT_RECORDING_ENABLED,
       result_type = API_RESULT_TYPE_ENABLE_FLAG,
       result_union = U_enabled (if sm_isRecording (m_state s) then 1 else 0)\<rparr>]\<rparr>)"
  using assms
  by (cases "m_state s") (simp_all add: sm_isRecording_def run_stateMachine sm_defs hal_run)

lemma recording_enabled_flag_witness:
  "fst (run_state (stateMachine EVT_RECORDING_ENABLED null_payload) (probe STATE_RECORDING 0)) =
     NO_ERROR"
  using recording_enabled_flag [of "probe STATE_RECORDING 0" null_payload] by simp

text \<open>
  PREVIEW\_ENABLED answers isPreviewRunning in every state that answers it except RECORDING,
  where the preview runs and the answer is 0.
\<close>

theorem preview_enabled_flag:
  assumes "m_state s \<noteq> STATE_PREPARE_SNAPSHOT"
  shows "\<exists>enabled. api_signals (trace (snd (run_state (stateMachine EVT_PREVIEW_ENABLED p) s))) =
      api_signals (trace s) @
      [\<lparr>status = NO_ERROR, request_api = EVT_PREVIEW_ENABLED,
        result_type = API_RESULT_TYPE_ENABLE_FLAG, result_union = U_enabled enabled\<rparr>] \<and>
      (enabled = 1 \<longleftrightarrow> sm_isPreviewRunning (m_state s) \<and> m_state s \<noteq> STATE_RECORDING) \<and>
      (enabled = 0 \<longleftrightarrow> \<not> sm_isPreviewRunning (m_state s) \<or> m_state s = STATE_RECORDING)"
  using assms
  by (cases "m_state s") (simp_all add: sm_isPreviewRunning_def run_stateMachine sm_defs handler_run)

lemma preview_enabled_flag_witness:
  "\<exists>enabled. api_signals (trace (snd (run_state (stateMachine EVT_PREVIEW_ENABLED null_payload)
        (probe STATE_RECORDING 0)))) =
      api_signals (trace (probe STATE_RECORDING 0)) @
      [\<lparr>status = NO_ERROR, request_api = EVT_PREVIEW_ENABLED,
        result_type = API_RESULT_TYPE_ENABLE_FLAG, result_union = U_enabled enabled\<rparr>] \<and>
      (enabled = 1 \<longleftrightarrow> sm_isPreviewRunning (m_state (probe STATE_RECORDING 0)) \<and>
        m_state (probe STATE_RECORDING 0) \<noteq> STATE_RECORDING) \<and>
      (enabled = 0 \<longleftrightarrow> \<not> sm_isPreviewRunning (m_state (probe STATE_RECORDING 0)) \<or>
        m_state (probe STATE_RECORDING 0) = STATE_RECORDING)"
  by (rule preview_enabled_flag) simp

section \<open>Failures of a restart\<close>

text \<open>
  START\_PREVIEW and START\_NODISPLAY\_PREVIEW in PREVIEW\_READY report NO\_ERROR even when
  startPreview fails and the machine falls back to PREVIEW\_STOPPED.
\<close>

theorem ready_start_failure_hidden:
  assumes "m_state s = STATE_PREVIEW_READY" and "mPreviewWindow s \<noteq> NULL"
    and "env s (trace s) H_startPreview \<noteq> NO_ERROR"
    and "evt = EVT_START_PREVIEW \<or> evt = EVT_START_NODISPLAY_PREVIEW"
  shows "run_state (stateMachine evt p) s =
    (NO_ERROR, s\<lparr>m_state := STATE_PREVIEW_STOPPED,
       trace := trace s @ [H_startPreview, H_unpreparePreview, H_signalAPIResult
         \<lparr>status = NO_ERROR, request_api = evt, result_type = API_RESULT_TYPE_DEF,
          result_union = U_zero\<rparr>]\<rparr>)"
  using assms by (elim disjE) (simp_all add: run_stateMachine sm_defs hal_run)

lemma ready_start_failure_hidden_witness:
  "fst (run_state (stateMachine EVT_START_PREVIEW null_payload)
     ((probe STATE_PREVIEW_READY 1)\<lparr>mPreviewWindow := 1\<rparr>)) = NO_ERROR"
  using ready_start_failure_hidden
    [of "(probe STATE_PREVIEW_READY 1)\<lparr>mPreviewWindow := 1\<rparr>" EVT_START_PREVIEW null_payload]
  by (simp add: NO_ERROR_def)

text \<open>
  When the preview of a parameter restart cannot be prepared, PREVIEW\_READY falls to
  PREVIEW\_STOPPED and PREVIEW\_PIC\_TAKING to PIC\_TAKING, but PREVIEWING stays: the machine goes
  on claiming a preview that SET\_PARAMS\_STOP has stopped.
\<close>

theorem failed_params_restart:
  assumes "m_state s \<in> {STATE_PREVIEW_READY, STATE_PREVIEWING, STATE_PREVIEW_PIC_TAKING}"
    and "env s (trace s) H_preparePreview \<noteq> NO_ERROR"
  shows "fst (run_state (stateMachine EVT_SET_PARAMS_RESTART p) s) =
      env s (trace s) H_preparePreview \<and>
    m_state (snd (run_state (stateMachine EVT_SET_PARAMS_RESTART p) s)) =
      (case m_state s of STATE_PREVIEWING \<Rightarrow> STATE_PREVIEWING
       | STATE_PREVIEW_READY \<Rightarrow> STATE_PREVIEW_STOPPED | _ \<Rightarrow> STATE_PIC_TAKING)"
  using assms by (elim insertE) (simp_all add: run_stateMachine sm_defs hal_run)

lemma failed_params_restart_witness:
  "m_state (snd (run_state (stateMachine EVT_SET_PARAMS_RESTART null_payload)
     (probe STATE_PREVIEWING 1))) = STATE_PREVIEWING"
  using failed_params_restart [of "probe STATE_PREVIEWING 1" null_payload]
  by (simp add: NO_ERROR_def)

text \<open>
  LONGSHOT\_OFF while a picture is taken moves the machine to PREVIEWING even when longshot was
  never on: then nothing cancels the picture, and the SNAPSHOT\_DONE that ends it finds a state
  that ignores it.
\<close>

theorem longshot_off_drops_picture:
  assumes "m_state s = STATE_PIC_TAKING" and "cmd (as_command p) = CAMERA_CMD_LONGSHOT_OFF"
    and "env s (trace s @ [H_perfLockRel]) (H_query Q_isLongshotEnabled) = 0"
  shows "m_state (snd (run_state (stateMachine EVT_SEND_COMMAND p) s)) = STATE_PREVIEWING \<and>
    \<not> (\<exists>post. trace (snd (run_state (stateMachine EVT_SEND_COMMAND p) s)) =
         trace s @ post \<and> H_cancelPicture \<in> set post)"
  using assms
  by (simp add: run_stateMachine sm_defs hal_run sendCommand_def longshot_off_def
      case_prod_beta)

lemma longshot_off_drops_picture_witness:
  "m_state (snd (run_state (stateMachine EVT_SEND_COMMAND
       (null_payload\<lparr>as_command := \<lparr>cmd = CAMERA_CMD_LONGSHOT_OFF, arg1 = 0, arg2 = 0\<rparr>\<rparr>))
     (probe STATE_PIC_TAKING 0))) = STATE_PREVIEWING"
  using longshot_off_drops_picture [of "probe STATE_PIC_TAKING 0"
    "null_payload\<lparr>as_command := \<lparr>cmd = CAMERA_CMD_LONGSHOT_OFF, arg1 = 0, arg2 = 0\<rparr>\<rparr>"]
  by simp

section \<open>The camera daemon dies\<close>

text \<open>
  C22: The death of the camera daemon: in every state the application gets CAMERA\_MSG\_ERROR with
  CAMERA\_ERROR\_SERVER\_DIED, once; in the states where a PREPARE\_SNAPSHOT or TAKE\_PICTURE call
  may wait, both are answered first; the state stays and nothing else is called.
\<close>

theorem daemon_died_handled:
  assumes "as_cam_event p = CAM_EVENT_TYPE_DAEMON_DIED"
  shows "run_state (stateMachine EVT_EVT_NOTIFY p) s =
    (NO_ERROR, s\<lparr>trace := trace s @
      (if m_state s \<in> {STATE_PREPARE_SNAPSHOT, STATE_PIC_TAKING, STATE_PREVIEW_PIC_TAKING}
       then map (\<lambda>evt. H_signalAPIResult \<lparr>status = NO_ERROR, request_api = evt,
              result_type = API_RESULT_TYPE_DEF, result_union = U_zero\<rparr>)
            [EVT_PREPARE_SNAPSHOT, EVT_TAKE_PICTURE]
       else []) @
      [H_sendEvtNotify CAMERA_MSG_ERROR CAMERA_ERROR_SERVER_DIED 0]\<rparr>)"
  using assms by (cases "m_state s") (simp_all add: run_stateMachine sm_defs hal_run)

lemma daemon_died_handled_witness:
  "trace (snd (run_state (stateMachine EVT_EVT_NOTIFY
       (null_payload\<lparr>as_cam_event := CAM_EVENT_TYPE_DAEMON_DIED\<rparr>)) (probe STATE_PREVIEWING 0))) =
     [H_sendEvtNotify CAMERA_MSG_ERROR CAMERA_ERROR_SERVER_DIED 0]"
  using daemon_died_handled [of "null_payload\<lparr>as_cam_event := CAM_EVENT_TYPE_DAEMON_DIED\<rparr>"
    "probe STATE_PREVIEWING 0"] by simp

text \<open>
  PREPARE\_SNAPSHOT is left by one event only, the metadata report that the hardware is
  prepared. Without it no sequence of calls and events moves the machine: neither STOP\_PREVIEW
  nor CANCEL\_PICTURE nor RELEASE, not even after the daemon died.
\<close>

theorem prepare_snapshot_trap:
  assumes "m_state s = STATE_PREPARE_SNAPSHOT"
    and "\<And>e p. (e, p) \<in> set steps \<Longrightarrow> e = EVT_EVT_INTERNAL \<Longrightarrow>
           evt_type (as_internal p) \<noteq> INTERNAL_EVT_PREP_SNAPSHOT_DONE"
  shows "m_state (run_steps (\<lambda>(e, p) s. snd (run_state (stateMachine e p) s)) steps s) =
    STATE_PREPARE_SNAPSHOT"
  using assms
proof (induction steps arbitrary: s)
  case Nil
  then show ?case by simp
next
  case (Cons ep steps)
  obtain e p where ep: "ep = (e, p)" by (cases ep)
  have "m_state (snd (run_state (procEvtPrepareSnapshotState e p) s)) = STATE_PREPARE_SNAPSHOT"
    using Cons.prems ep
    by (cases e; simp add: sm_defs handler_run split: evt_splits)
  then have "m_state (snd (run_state (stateMachine e p) s)) = STATE_PREPARE_SNAPSHOT"
    using Cons.prems(1) by (simp add: run_stateMachine)
  with Cons.IH Cons.prems(2) ep show ?case by simp
qed

lemma prepare_snapshot_trap_witness:
  "m_state (run_steps (\<lambda>(e, p) s. snd (run_state (stateMachine e p) s))
     [(EVT_STOP_PREVIEW, null_payload), (EVT_RELEASE, null_payload)]
     (probe STATE_PREPARE_SNAPSHOT 0)) = STATE_PREPARE_SNAPSHOT"
  by (rule prepare_snapshot_trap) auto

text \<open>
  C21: PREPARE\_SNAPSHOT as a round trip: the call that the hardware accepts is not answered, the
  report that the hardware is prepared answers it, with its name and NO\_ERROR, and the machine
  is back in PREVIEWING.
\<close>

theorem prepare_snapshot_roundtrip:
  fixes s :: hal and p q :: payload
  assumes "m_state s = STATE_PREVIEWING"
    and "env s (trace s) (H_prepareHardwareForSnapshot False) = NO_ERROR"
    and "evt_type (as_internal q) = INTERNAL_EVT_PREP_SNAPSHOT_DONE"
  defines "s1 \<equiv> snd (run_state (stateMachine EVT_PREPARE_SNAPSHOT p) s)"
  defines "s2 \<equiv> snd (run_state (stateMachine EVT_EVT_INTERNAL q) s1)"
  shows "m_state s1 = STATE_PREPARE_SNAPSHOT \<and>
    api_signals (trace s1) = api_signals (trace s) \<and>
    m_state s2 = STATE_PREVIEWING \<and>
    api_signals (trace s2) = api_signals (trace s) @
      [\<lparr>status = NO_ERROR, request_api = EVT_PREPARE_SNAPSHOT,
        result_type = API_RESULT_TYPE_DEF, result_union = U_zero\<rparr>]"
  using assms(1-3) unfolding s1_def s2_def
  by (simp add: run_stateMachine sm_defs handler_run)

lemma prepare_snapshot_roundtrip_witness:
  "m_state (snd (run_state (stateMachine EVT_PREPARE_SNAPSHOT null_payload)
     (probe STATE_PREVIEWING 0))) = STATE_PREPARE_SNAPSHOT"
  using prepare_snapshot_roundtrip [of "probe STATE_PREVIEWING 0" "null_payload
    \<lparr>as_internal := \<lparr>evt_type = INTERNAL_EVT_PREP_SNAPSHOT_DONE, evt_data = 0\<rparr>\<rparr>" null_payload]
  by (simp add: NO_ERROR_def)

section \<open>The message mask\<close>

text \<open>
  C18: No event but ENABLE\_MSG\_TYPE and DISABLE\_MSG\_TYPE changes the messages that the application
  has enabled, the delayed preview message included: in particular applying the delayed message
  and starting a delay are invisible.
\<close>

theorem messages_kept:
  assumes "delay_ok s" and "evt \<noteq> EVT_ENABLE_MSG_TYPE" and "evt \<noteq> EVT_DISABLE_MSG_TYPE"
  shows "wanted_msgs (snd (run_state (stateMachine evt p) s)) = wanted_msgs s"
  using assms preview_stopped_wanted [of s evt p] preview_ready_wanted [of s evt p]
    previewing_wanted [of s evt p] prepare_snapshot_wanted [of s evt p]
    pic_taking_wanted [of s evt p] recording_wanted [of s evt p]
    video_pic_taking_wanted [of s evt p] preview_pic_taking_wanted [of s evt p]
  by (cases "m_state s") (simp_all add: run_stateMachine)

lemma messages_kept_witness:
  "wanted_msgs (snd (run_state (stateMachine EVT_START_PREVIEW null_payload)
     (probe STATE_PREVIEWING 0))) = wanted_msgs (probe STATE_PREVIEWING 0)"
  by (rule messages_kept) (simp_all add: delay_ok_def)

text \<open>
  C11: While the preview runs, the mask operations implement set operations on the messages the
  application has enabled, delay or no delay: enabling adds, disabling removes, and the query
  answers the intersection.
\<close>

theorem messages_refine_set:
  assumes "m_state s = STATE_PREVIEWING" and "delay_ok s"
  shows "wanted_msgs (snd (run_state (stateMachine EVT_ENABLE_MSG_TYPE p) s)) =
      wanted_msgs s OR as_int32 p \<and>
    wanted_msgs (snd (run_state (stateMachine EVT_DISABLE_MSG_TYPE p) s)) =
      wanted_msgs s AND NOT (as_int32 p) \<and>
    run_state (stateMachine EVT_MSG_TYPE_ENABLED p) s =
      (NO_ERROR, s\<lparr>trace := trace s @ [H_signalAPIResult
         \<lparr>status = NO_ERROR, request_api = EVT_MSG_TYPE_ENABLED,
          result_type = API_RESULT_TYPE_ENABLE_FLAG,
          result_union = U_enabled (wanted_msgs s AND as_int32 p)\<rparr>]\<rparr>)"
proof (intro conjI)
  show "run_state (stateMachine EVT_MSG_TYPE_ENABLED p) s =
      (NO_ERROR, s\<lparr>trace := trace s @ [H_signalAPIResult
         \<lparr>status = NO_ERROR, request_api = EVT_MSG_TYPE_ENABLED,
          result_type = API_RESULT_TYPE_ENABLE_FLAG,
          result_union = U_enabled (wanted_msgs s AND as_int32 p)\<rparr>]\<rparr>)"
    using assms
    by (simp add: run_stateMachine sm_defs hal_run wanted_msgs_def and_or_distrib_word
        and.commute [of "as_int32 p"])
qed (use assms previewing_enable previewing_disable in \<open>simp_all add: run_stateMachine\<close>)

lemma messages_refine_set_witness:
  "wanted_msgs (snd (run_state (stateMachine EVT_ENABLE_MSG_TYPE (null_payload\<lparr>as_int32 := 16\<rparr>))
     ((probe STATE_PREVIEWING 0)\<lparr>m_bDelayPreviewMsgs := True\<rparr>))) = 16"
  using messages_refine_set [of "(probe STATE_PREVIEWING 0)\<lparr>m_bDelayPreviewMsgs := True\<rparr>"
      "null_payload\<lparr>as_int32 := 16\<rparr>"]
  by (simp add: delay_ok_def wanted_msgs_def)

text \<open>
  A delayed preview message survives being disabled in a capture state: with the message
  delayed, DISABLE\_MSG\_TYPE in PREVIEW\_PIC\_TAKING leaves it delayed, and after the snapshot the
  next query of the preview state switches it on again.
\<close>

theorem disabled_message_returns:
  fixes s :: hal and p :: payload
  assumes "m_state s = STATE_PREVIEW_PIC_TAKING" and "m_bDelayPreviewMsgs s"
    and "m_DelayedMsgs s = CAMERA_MSG_PREVIEW_FRAME"
    and "as_int32 p = CAMERA_MSG_PREVIEW_FRAME"
  defines "t \<equiv> run_steps (\<lambda>e s. snd (run_state (stateMachine e p) s))
      [EVT_DISABLE_MSG_TYPE, EVT_SNAPSHOT_DONE, EVT_PREVIEW_ENABLED] s"
  shows "m_state t = STATE_PREVIEWING \<and> mMsgEnabled t AND CAMERA_MSG_PREVIEW_FRAME \<noteq> 0"
proof -
  have ne: "CAMERA_MSG_PREVIEW_FRAME \<noteq> 0" by (simp add: CAMERA_MSG_PREVIEW_FRAME_def)
  show ?thesis
    using assms(1-4) ne unfolding t_def
    by (simp add: run_stateMachine sm_defs handler_run and_or_distrib_word)
qed

lemma disabled_message_returns_witness:
  "mMsgEnabled (run_steps (\<lambda>e s. snd (run_state (stateMachine e
        (null_payload\<lparr>as_int32 := CAMERA_MSG_PREVIEW_FRAME\<rparr>)) s))
      [EVT_DISABLE_MSG_TYPE, EVT_SNAPSHOT_DONE, EVT_PREVIEW_ENABLED]
      ((probe STATE_PREVIEW_PIC_TAKING 0)\<lparr>m_bDelayPreviewMsgs := True,
         m_DelayedMsgs := CAMERA_MSG_PREVIEW_FRAME\<rparr>)) AND CAMERA_MSG_PREVIEW_FRAME \<noteq> 0"
  using disabled_message_returns [of "(probe STATE_PREVIEW_PIC_TAKING 0)
      \<lparr>m_bDelayPreviewMsgs := True, m_DelayedMsgs := CAMERA_MSG_PREVIEW_FRAME\<rparr>"
      "null_payload\<lparr>as_int32 := CAMERA_MSG_PREVIEW_FRAME\<rparr>"]
  by simp

section \<open>The thread\<close>

text \<open>
  C9: Along every run of the machine, whatever the clients post, whenever the thread runs and
  whenever it is released: no wake-up is lost and none is spurious (the semaphore counts the
  waiting commands), each queue holds its kind, and the delayed message is well formed.
\<close>

theorem sm_runs_keep_invariant:
  "queues_ok (core (run_steps sm_step is (sm_init n d e))) \<and>
   delay_ok (core (run_steps sm_step is (sm_init n d e)))"
  using sm.run_inv [OF sm_init_inv, of "is" n d e] by (simp add: sm_inv_def)

text \<open>
  Commands of the API queue go first, each queue in its order: on every run a pass of the
  thread takes the first of the waiting API commands followed by the waiting events, and
  processes exactly that command, with the rest still waiting.
\<close>

theorem sm_serves_in_order:
  fixes "is" :: "sm_input list" and n d :: bool
    and e :: "hal_call list \<Rightarrow> hal_call \<Rightarrow> int32"
  defines "s \<equiv> core (run_steps sm_step is (sm_init n d e))"
  assumes "fifo_items (api_queue s) @ fifo_items (evt_queue s) = c # cs"
  shows "\<exists>t. run_state smEvtProcStep s = run_state (process_cmd c) t \<and>
    fifo_items (api_queue t) @ fifo_items (evt_queue t) = cs \<and>
    m_state t = m_state s \<and> trace t = trace s \<and> cmd_sem t = length cs"
proof -
  have q: "queues_ok s"
    using sm.run_inv [OF sm_init_inv, of "is" n d e] by (simp add: sm_inv_def s_def)
  show ?thesis
  proof (cases "fifo_items (api_queue s)")
    case (Cons a as)
    with assms(2) q smEvtProcStep_api [OF q Cons] show ?thesis
      by (intro exI [of _ "s\<lparr>cmd_sem := cmd_sem s - 1,
          api_queue := (api_queue s)\<lparr>fifo_items := as\<rparr>\<rparr>"]) (auto simp: queues_ok_def)
  next
    case Nil
    with assms(2) have evt: "fifo_items (evt_queue s) = c # cs" by simp
    with Nil q smEvtProcStep_evt [OF q Nil evt] show ?thesis
      by (intro exI [of _ "s\<lparr>cmd_sem := cmd_sem s - 1,
          evt_queue := (evt_queue s)\<lparr>fifo_items := cs\<rparr>\<rparr>"]) (auto simp: queues_ok_def)
  qed
qed

lemma sm_serves_in_order_witness:
  "\<exists>t. run_state smEvtProcStep (core (run_steps sm_step [In_procEvt EVT_SNAPSHOT_DONE null_payload]
        (sm_init False False (\<lambda>_ _. 1)))) =
      run_state (process_cmd \<lparr>cmd_type = CMD_TYPE_EVT, cmd_evt = EVT_SNAPSHOT_DONE,
        cmd_payload = null_payload\<rparr>) t \<and>
    cmd_sem t = 0"
  using sm_serves_in_order [of "[In_procEvt EVT_SNAPSHOT_DONE null_payload]" False False "\<lambda>_ _. 1"
      "\<lparr>cmd_type = CMD_TYPE_EVT, cmd_evt = EVT_SNAPSHOT_DONE, cmd_payload = null_payload\<rparr>" "[]"]
  by (auto simp: sm_step_def sm_init_def QCameraStateMachine_def procEvt_def fifo_enqueue_def
      hal_run)

lemma api_pass:
  assumes "queues_ok s" and "fifo_items (api_queue s) = c # cs" and "cmd_type c = CMD_TYPE_API"
  shows "fst (run_state smEvtProcStep s)"
    "fifo_items (api_queue (snd (run_state smEvtProcStep s))) = cs"
  using assms
  by (simp_all add: smEvtProcStep_api process_cmd_def hal_run stateMachine_api_queue)

lemma api_drain:
  assumes "sm_inv m" and "running m" and "fifo_items (api_queue (core m)) = cs"
    and "\<forall>c \<in> set cs. cmd_type c = CMD_TYPE_API"
  shows "running (run_steps sm_step (replicate (length cs) In_thread) m) \<and>
    fifo_items (api_queue (core (run_steps sm_step (replicate (length cs) In_thread) m))) = []"
  using assms
proof (induction cs arbitrary: m)
  case Nil
  then show ?case by simp
next
  case (Cons c cs)
  have q: "queues_ok (core m)" using Cons.prems(1) by (simp add: sm_inv_def)
  have up: "0 < cmd_sem (core m)" using q Cons.prems(3) by (simp add: queues_ok_def)
  have pass: "running (sm_step In_thread m)"
    "fifo_items (api_queue (core (sm_step In_thread m))) = cs"
    using Cons.prems(2,4) up api_pass [OF q Cons.prems(3)]
    by (simp_all add: sm_step_def case_prod_beta Let_def)
  show ?case
    using Cons.IH [OF sm_step_inv [OF Cons.prems(1)] pass] Cons.prems(4) by simp
qed

text \<open>
  Every waiting API call is served, in as many passes of the thread as there are calls
  waiting, however many events wait and whatever the handlers do: while the thread runs and no
  exit was posted, the API queue is empty after that many passes.
\<close>

theorem sm_api_calls_served:
  fixes "is" :: "sm_input list" and n d :: bool
    and e :: "hal_call list \<Rightarrow> hal_call \<Rightarrow> int32"
  defines "m \<equiv> run_steps sm_step is (sm_init n d e)"
  defines "waiting \<equiv> fifo_items (api_queue (core m))"
  assumes "running m" and "\<forall>c \<in> set waiting. cmd_type c = CMD_TYPE_API"
  shows "running (run_steps sm_step (replicate (length waiting) In_thread) m) \<and>
    fifo_items (api_queue (core
      (run_steps sm_step (replicate (length waiting) In_thread) m))) = []"
  using assms(3,4) sm.run_inv [OF sm_init_inv, of "is" n d e]
  by (intro api_drain) (simp_all add: m_def waiting_def)

lemma sm_api_calls_served_witness:
  "fifo_items (api_queue (core (run_steps sm_step [In_thread]
     (run_steps sm_step [In_procAPI EVT_STOP_PREVIEW null_payload]
       (sm_init False False (\<lambda>_ _. 1)))))) = []"
  using sm_api_calls_served [of "[In_procAPI EVT_STOP_PREVIEW null_payload]" False False "\<lambda>_ _. 1"]
  by (simp add: sm_step_def sm_init_def QCameraStateMachine_def procAPI_def fifo_enqueue_def
      hal_run)

end
