(* ===== verification/Hal_Api.thy ===== *)
theory Hal_Api
  imports Sm_Machine
begin

text \<open>
  The framework's side of the camera HAL (QCamera2HWI.cpp): the static API functions, each of
  which posts an API event under the API lock and waits for its result; the list of results
  (signalAPIResult, waitAPIResult); and the synchronous event of the capture threads
  (processSyncEvt, signalEvtResult).

  A blocked caller waits while others go on: the world carries the schedule of what the thread
  and the clients do next. A call returns None when the schedule ends and its result has not
  come: it is still blocked.
\<close>

section \<open>The world of a call\<close>

text \<open>allocs counts the results posted so far, alloc says which of their mallocs succeed.\<close>

record world =
  machine :: sm_system
  m_apiResultList :: "api_result list"
  m_smThreadActive :: bool
  alloc :: "nat \<Rightarrow> bool"
  allocs :: nat
  sched :: "sm_input list"

type_synonym 'a api = "world \<Rightarrow> ('a \<times> world) option"

definition lift :: "'a hal_m \<Rightarrow> 'a api" where
  "lift m w = (let (x, s) = run_state m (core (machine w))
               in Some (x, w\<lparr>machine := (machine w)\<lparr>core := s\<rparr>\<rparr>))"

section \<open>Results\<close>

text \<open>signalAPIResult: the result goes to the end of the list; without memory it is lost.\<close>

definition post_result :: "api_result \<Rightarrow> world \<Rightarrow> world" where
  "post_result r w = w\<lparr>
     m_apiResultList := (if alloc w (allocs w) then m_apiResultList w @ [r]
                         else m_apiResultList w),
     allocs := allocs w + 1\<rparr>"

fun post_results :: "api_result list \<Rightarrow> world \<Rightarrow> world" where
  "post_results [] w = w"
| "post_results (r # rs) w = post_results rs (post_result r w)"

text \<open>One step of the others; the flag tells whether m\_cond was signalled.\<close>

definition world_step :: "sm_input \<Rightarrow> world \<Rightarrow> bool \<times> world" where
  "world_step i w =
     (let m' = sm_step i (machine w);
          new = drop (length (api_signals (trace (core (machine w)))))
                     (api_signals (trace (core m')))
      in (new \<noteq> [], post_results new (w\<lparr>machine := m'\<rparr>)))"

text \<open>
  waitAPIResult: woken by a signal, the caller takes the first result for its event out of the
  list; if there is none it waits again.
\<close>

fun wait_loop :: "sm_evt \<Rightarrow> sm_input list \<Rightarrow> world \<Rightarrow> (api_result \<times> world) option" where
  "wait_loop evt [] w = None"
| "wait_loop evt (i # is) w =
     (let (signalled, w') = world_step i w in
      if signalled then
        (case take_first (\<lambda>r. request_api r = evt) (m_apiResultList w') of
           Some (r, rest) \<Rightarrow> Some (r, w'\<lparr>m_apiResultList := rest, sched := is\<rparr>)
         | None \<Rightarrow> wait_loop evt is w')
      else wait_loop evt is w')"

definition waitAPIResult :: "sm_evt \<Rightarrow> api_result api" where
  "waitAPIResult evt w = wait_loop evt (sched w) w"

definition processAPI :: "sm_evt \<Rightarrow> payload \<Rightarrow> int32 api" where
  "processAPI api p w =
     (if m_smThreadActive w then lift (procAPI api p) w else Some (DEAD_OBJECT, w))"

definition processEvt :: "sm_evt \<Rightarrow> payload \<Rightarrow> int32 api" where
  "processEvt evt p w = lift (procEvt evt p) w"

text \<open>The body that the API functions share: post, and wait if the post succeeded.\<close>

definition api_call :: "sm_evt \<Rightarrow> payload \<Rightarrow> (int32 \<times> api_result option) api" where
  "api_call evt p w = do {
     (rc, w) \<leftarrow> processAPI evt p w;
     if rc = NO_ERROR then do {
       (r, w) \<leftarrow> waitAPIResult evt w;
       Some ((status r, Some r), w) }
     else Some ((rc, None), w) }"

definition call_status :: "sm_evt \<Rightarrow> payload \<Rightarrow> int32 api" where
  "call_status evt p w = do {
     ((rc, _), w) \<leftarrow> api_call evt p w;
     Some (rc, w) }"

definition call_void :: "sm_evt \<Rightarrow> payload \<Rightarrow> unit api" where
  "call_void evt p w = do {
     (_, w) \<leftarrow> api_call evt p w;
     Some ((), w) }"

text \<open>The readings of the union of a result.\<close>

definition union_int :: "api_union \<Rightarrow> int32" where
  "union_int u = (case u of U_zero \<Rightarrow> 0 | U_enabled e \<Rightarrow> e | U_handle h \<Rightarrow> h
                  | U_params p \<Rightarrow> word_of_nat p)"

definition union_ptr :: "api_union \<Rightarrow> ptr" where
  "union_ptr u = (case u of U_zero \<Rightarrow> NULL | U_params p \<Rightarrow> p | U_enabled e \<Rightarrow> unat e
                  | U_handle h \<Rightarrow> unat h)"

definition call_union :: "sm_evt \<Rightarrow> payload \<Rightarrow> int32 api" where
  "call_union evt p w = do {
     ((rc, r), w) \<leftarrow> api_call evt p w;
     Some (case r of Some r \<Rightarrow> union_int (result_union r) | None \<Rightarrow> rc, w) }"

section \<open>The API functions\<close>

text \<open>dev tells whether the device has a HAL object; without one the functions do nothing.\<close>

definition set_preview_window :: "bool \<Rightarrow> ptr \<Rightarrow> int32 api" where
  "set_preview_window dev window w =
     (if \<not> dev then Some (BAD_VALUE, w)
      else call_status EVT_SET_PREVIEW_WINDOW (null_payload\<lparr>as_ptr := window\<rparr>) w)"

definition set_CallBacks :: "bool \<Rightarrow> setcb_payload \<Rightarrow> unit api" where
  "set_CallBacks dev cbs w =
     (if \<not> dev then Some ((), w)
      else call_void EVT_SET_CALLBACKS (null_payload\<lparr>as_setcb := cbs\<rparr>) w)"

definition enable_msg_type :: "bool \<Rightarrow> int32 \<Rightarrow> unit api" where
  "enable_msg_type dev msg w =
     (if \<not> dev then Some ((), w)
      else call_void EVT_ENABLE_MSG_TYPE (null_payload\<lparr>as_int32 := msg\<rparr>) w)"

definition disable_msg_type :: "bool \<Rightarrow> int32 \<Rightarrow> unit api" where
  "disable_msg_type dev msg w =
     (if \<not> dev then Some ((), w)
      else call_void EVT_DISABLE_MSG_TYPE (null_payload\<lparr>as_int32 := msg\<rparr>) w)"

definition msg_type_enabled :: "bool \<Rightarrow> int32 \<Rightarrow> int32 api" where
  "msg_type_enabled dev msg w =
     (if \<not> dev then Some (BAD_VALUE, w)
      else call_union EVT_MSG_TYPE_ENABLED (null_payload\<lparr>as_int32 := msg\<rparr>) w)"

definition prepare_preview :: "bool \<Rightarrow> int32 api" where
  "prepare_preview dev w =
     (if \<not> dev then Some (BAD_VALUE, w) else call_status EVT_PREPARE_PREVIEW null_payload w)"

definition start_preview :: "bool \<Rightarrow> int32 api" where
  "start_preview dev w =
     (if \<not> dev then Some (BAD_VALUE, w)
      else do {
        (_, w) \<leftarrow> lift (tell H_perfLockRelTimed) w;
        (_, w) \<leftarrow> lift (tell H_perfLockAcq) w;
        (nodisplay, w) \<leftarrow> lift (query_bool Q_isNoDisplayMode) w;
        (rc, w) \<leftarrow> call_status
          (if nodisplay then EVT_START_NODISPLAY_PREVIEW else EVT_START_PREVIEW) null_payload w;
        (_, w) \<leftarrow> lift (tell (H_set F_m_bPreviewStarted True)) w;
        Some (rc, w) })"

definition stop_preview :: "bool \<Rightarrow> unit api" where
  "stop_preview dev w =
     (if \<not> dev then Some ((), w)
      else do {
        (_, w) \<leftarrow> lift (tell H_powerHintOff) w;
        (_, w) \<leftarrow> lift (tell H_perfLockAcq) w;
        call_void EVT_STOP_PREVIEW null_payload w })"

text \<open>On the failing path the flag is read from a result that was never written.\<close>

definition preview_enabled :: "bool \<Rightarrow> int32 api" where
  "preview_enabled dev w =
     (if \<not> dev then Some (BAD_VALUE, w)
      else do {
        ((rc, r), w) \<leftarrow> api_call EVT_PREVIEW_ENABLED null_payload w;
        (enabled, w) \<leftarrow> (case r of
            Some r \<Rightarrow> Some (union_int (result_union r), w)
          | None \<Rightarrow> lift (query Q_indeterminate) w);
        (_, w) \<leftarrow> lift (if enabled \<noteq> 0
                      then modify (\<lambda>s. s\<lparr>m_bPreviewCallbackNeeded := True\<rparr>) else skip) w;
        Some (case r of Some _ \<Rightarrow> enabled | None \<Rightarrow> rc, w) })"

definition store_meta_data_in_buffers :: "bool \<Rightarrow> int32 \<Rightarrow> int32 api" where
  "store_meta_data_in_buffers dev enable w =
     (if \<not> dev then Some (BAD_VALUE, w)
      else call_status EVT_STORE_METADATA_IN_BUFS (null_payload\<lparr>as_int32 := enable\<rparr>) w)"

text \<open>Calls that only the dual camera muxer makes.\<close>

definition dual_only :: "sm_evt \<Rightarrow> int32 api" where
  "dual_only evt w = do {
     (dual, w) \<leftarrow> lift (query_bool Q_syncControlOn) w;
     if dual then call_status evt null_payload w else Some (INVALID_OPERATION, w) }"

definition restart_start_preview :: "bool \<Rightarrow> int32 api" where
  "restart_start_preview dev w =
     (if \<not> dev then Some (BAD_VALUE, w)
      else do {
        (rc, w) \<leftarrow> dual_only EVT_RESTART_START_PREVIEW w;
        (_, w) \<leftarrow> lift (tell (H_set F_mPreviewRestartNeeded False)) w;
        Some (rc, w) })"

definition restart_stop_preview :: "bool \<Rightarrow> int32 api" where
  "restart_stop_preview dev w =
     (if \<not> dev then Some (BAD_VALUE, w) else dual_only EVT_RESTART_STOP_PREVIEW w)"

definition pre_start_recording :: "bool \<Rightarrow> int32 api" where
  "pre_start_recording dev w =
     (if \<not> dev then Some (BAD_VALUE, w) else call_status EVT_PRE_START_RECORDING null_payload w)"

definition start_recording :: "bool \<Rightarrow> int32 api" where
  "start_recording dev w =
     (if \<not> dev then Some (BAD_VALUE, w)
      else do {
        (dual, w) \<leftarrow> lift (query_bool Q_syncControlOn) w;
        (rc, w) \<leftarrow> (if \<not> dual then pre_start_recording dev w else Some (NO_ERROR, w));
        if rc \<noteq> NO_ERROR then Some (rc, w)
        else do {
          (rc, w) \<leftarrow> call_status EVT_START_RECORDING null_payload w;
          (_, w) \<leftarrow> lift (tell (H_set F_m_bRecordStarted True)) w;
          Some (rc, w) } })"

definition stop_recording :: "bool \<Rightarrow> unit api" where
  "stop_recording dev w =
     (if \<not> dev then Some ((), w) else call_void EVT_STOP_RECORDING null_payload w)"

definition recording_enabled :: "bool \<Rightarrow> int32 api" where
  "recording_enabled dev w =
     (if \<not> dev then Some (BAD_VALUE, w) else call_union EVT_RECORDING_ENABLED null_payload w)"

definition release_recording_frame :: "bool \<Rightarrow> ptr \<Rightarrow> unit api" where
  "release_recording_frame dev opaque w =
     (if \<not> dev then Some ((), w)
      else if opaque = NULL then Some ((), w)
      else call_void EVT_RELEASE_RECORIDNG_FRAME (null_payload\<lparr>as_ptr := opaque\<rparr>) w)"

definition auto_focus :: "bool \<Rightarrow> int32 api" where
  "auto_focus dev w =
     (if \<not> dev then Some (BAD_VALUE, w) else call_status EVT_START_AUTO_FOCUS null_payload w)"

definition cancel_auto_focus :: "bool \<Rightarrow> int32 api" where
  "cancel_auto_focus dev w =
     (if \<not> dev then Some (BAD_VALUE, w) else call_status EVT_STOP_AUTO_FOCUS null_payload w)"

definition pre_take_picture :: "bool \<Rightarrow> int32 api" where
  "pre_take_picture dev w =
     (if \<not> dev then Some (BAD_VALUE, w) else call_status EVT_PRE_TAKE_PICTURE null_payload w)"

definition prepare_snapshot :: "bool \<Rightarrow> int32 api" where
  "prepare_snapshot dev w =
     (if \<not> dev then Some (BAD_VALUE, w)
      else do {
        (longshot, w) \<leftarrow> lift (query_bool Q_isLongshotEnabled) w;
        (run, w) \<leftarrow> lift (if longshot then query_bool Q_mPrepSnapRun
                        else State_Monad.return False) w;
        if longshot \<and> run then Some (NO_ERROR, w)
        else do {
          (flash, w) \<leftarrow> lift (query_bool Q_mFlashNeeded) w;
          (chroma, w) \<leftarrow> lift (if flash then State_Monad.return False
                             else query_bool Q_isChromaFlashEnabled) w;
          if flash \<or> chroma then do {
            (rc, w) \<leftarrow> call_status EVT_PREPARE_SNAPSHOT null_payload w;
            (_, w) \<leftarrow> lift (tell (H_set F_mPrepSnapRun True)) w;
            Some (rc, w) }
          else Some (NO_ERROR, w) } })"

text \<open>
  take\_picture. A retro-active picture is taken before the snapshot is prepared; any other
  prepares first, whatever comes of it. Unless the muxer does it, pre\_take\_picture comes first
  and its failure ends the call.
\<close>

definition retro_conditions :: "bool hal_m" where
  "retro_conditions = do {
     retro \<leftarrow> query_bool Q_getNumOfRetroSnapshots;
     if \<not> retro then State_Monad.return False
     else do {
       live \<leftarrow> query_bool Q_isLiveSnapshot;
       if live then State_Monad.return False
       else do {
         zsl \<leftarrow> query_bool Q_isZSLMode;
         if \<not> zsl then State_Monad.return False
         else do {
           hdr \<leftarrow> query_bool Q_isHDRMode;
           if hdr then State_Monad.return False
           else do {
             longshot \<leftarrow> query_bool Q_isLongshotEnabled;
             State_Monad.return (\<not> longshot) } } } } }"

definition single_pre_take_picture :: "bool \<Rightarrow> int32 api" where
  "single_pre_take_picture dev w = do {
     (dual, w) \<leftarrow> lift (query_bool Q_syncControlOn) w;
     if \<not> dual then pre_take_picture dev w else Some (NO_ERROR, w) }"

definition take_picture_retro :: "bool \<Rightarrow> int32 api" where
  "take_picture_retro dev w = do {
     (_, w) \<leftarrow> lift (tell (H_set F_mRetroPicture True)) w;
     (_, w) \<leftarrow> lift (tell (H_set F_m_bLedAfAecLock False)) w;
     (rc, w) \<leftarrow> single_pre_take_picture dev w;
     if rc \<noteq> NO_ERROR then Some (rc, w)
     else do {
       (_, w) \<leftarrow> call_status EVT_TAKE_PICTURE null_payload w;
       prepare_snapshot dev w } }"

definition take_picture_plain :: "bool \<Rightarrow> int32 api" where
  "take_picture_plain dev w = do {
     (_, w) \<leftarrow> lift (tell (H_set F_mRetroPicture False)) w;
     (run, w) \<leftarrow> lift (query_bool Q_mPrepSnapRun) w;
     (_, w) \<leftarrow> (if \<not> run then prepare_snapshot dev w else Some (NO_ERROR, w));
     (rc, w) \<leftarrow> single_pre_take_picture dev w;
     if rc \<noteq> NO_ERROR then Some (rc, w)
     else do {
       (rc, w) \<leftarrow> call_status EVT_TAKE_PICTURE null_payload w;
       (longshot, w) \<leftarrow> lift (query_bool Q_isLongshotEnabled) w;
       (_, w) \<leftarrow> lift (if \<not> longshot then tell (H_set F_mPrepSnapRun False) else skip) w;
       Some (rc, w) } }"

definition take_picture :: "bool \<Rightarrow> int32 api" where
  "take_picture dev w =
     (if \<not> dev then Some (BAD_VALUE, w)
      else do {
        (longshot, w) \<leftarrow> lift (query_bool Q_mLongshotEnabled) w;
        (_, w) \<leftarrow> lift (if \<not> longshot then tell H_perfLockAcq else skip) w;
        (retro, w) \<leftarrow> lift retro_conditions w;
        if retro then take_picture_retro dev w else take_picture_plain dev w })"

definition cancel_picture :: "bool \<Rightarrow> int32 api" where
  "cancel_picture dev w =
     (if \<not> dev then Some (BAD_VALUE, w) else call_status EVT_CANCEL_PICTURE null_payload w)"

text \<open>
  set\_parameters: the parameters are parsed; unless the muxer drives the restart, the preview is
  stopped if they need it, they are committed, and the preview is restarted. The API lock is
  taken once for all of it, and the first failure ends the sequence.
\<close>

definition restart_if_needed :: "sm_evt \<Rightarrow> int32 \<Rightarrow> int32 api" where
  "restart_if_needed evt rc w = do {
     (needs, w) \<leftarrow> lift (gets m_bNeedRestart) w;
     if rc = NO_ERROR \<and> needs then call_status evt null_payload w else Some (rc, w) }"

definition set_parameters :: "bool \<Rightarrow> ptr \<Rightarrow> int32 api" where
  "set_parameters dev parms w =
     (if \<not> dev then Some (BAD_VALUE, w)
      else do {
        (rc, w) \<leftarrow> call_status EVT_SET_PARAMS (null_payload\<lparr>as_ptr := parms\<rparr>) w;
        (dual, w) \<leftarrow> lift (query_bool Q_syncControlOn) w;
        if dual then Some (rc, w)
        else do {
          (rc, w) \<leftarrow> restart_if_needed EVT_SET_PARAMS_STOP rc w;
          (rc, w) \<leftarrow> (if rc = NO_ERROR then call_status EVT_SET_PARAMS_COMMIT null_payload w
                     else Some (rc, w));
          restart_if_needed EVT_SET_PARAMS_RESTART rc w } })"

definition stop_after_set_params :: "bool \<Rightarrow> int32 api" where
  "stop_after_set_params dev w =
     (if \<not> dev then Some (BAD_VALUE, w) else dual_only EVT_SET_PARAMS_STOP w)"

definition commit_params :: "bool \<Rightarrow> int32 api" where
  "commit_params dev w =
     (if \<not> dev then Some (BAD_VALUE, w) else dual_only EVT_SET_PARAMS_COMMIT w)"

definition restart_after_set_params :: "bool \<Rightarrow> int32 api" where
  "restart_after_set_params dev w =
     (if \<not> dev then Some (BAD_VALUE, w) else dual_only EVT_SET_PARAMS_RESTART w)"

definition get_parameters :: "bool \<Rightarrow> ptr api" where
  "get_parameters dev w =
     (if \<not> dev then Some (NULL, w)
      else do {
        ((rc, r), w) \<leftarrow> api_call EVT_GET_PARAMS null_payload w;
        Some (case r of Some r \<Rightarrow> union_ptr (result_union r) | None \<Rightarrow> NULL, w) })"

definition put_parameters :: "bool \<Rightarrow> ptr \<Rightarrow> unit api" where
  "put_parameters dev parm w =
     (if \<not> dev then Some ((), w)
      else call_void EVT_PUT_PARAMS (null_payload\<lparr>as_ptr := parm\<rparr>) w)"

definition send_command :: "bool \<Rightarrow> command_payload \<Rightarrow> int32 api" where
  "send_command dev c w =
     (if \<not> dev then Some (BAD_VALUE, w)
      else call_status EVT_SEND_COMMAND (null_payload\<lparr>as_command := c\<rparr>) w)"

definition send_command_restart :: "bool \<Rightarrow> command_payload \<Rightarrow> int32 api" where
  "send_command_restart dev c w =
     (if \<not> dev then Some (BAD_VALUE, w)
      else call_status EVT_SEND_COMMAND_RESTART (null_payload\<lparr>as_command := c\<rparr>) w)"

definition release_device :: "bool \<Rightarrow> unit api" where
  "release_device dev w =
     (if \<not> dev then Some ((), w) else call_void EVT_RELEASE null_payload w)"

definition dump_device :: "bool \<Rightarrow> int32 \<Rightarrow> int32 api" where
  "dump_device dev fd w =
     (if \<not> dev then Some (BAD_VALUE, w)
      else call_status EVT_DUMP (null_payload\<lparr>as_int32 := fd\<rparr>) w)"

definition register_face_image :: "bool \<Rightarrow> reg_face_payload \<Rightarrow> int32 api" where
  "register_face_image dev p w =
     (if \<not> dev then Some (BAD_VALUE, w)
      else call_union EVT_REG_FACE_IMAGE (null_payload\<lparr>as_reg_face := p\<rparr>) w)"

section \<open>The synchronous event\<close>

text \<open>
  processSyncEvt waits until the last event result is one for its event. The result slot is
  cleared after the event is posted and under the lock, so the answer cannot be lost; zero is no
  enumerator, so a cleared slot answers no event.
\<close>

fun wait_evt_loop :: "sm_evt \<Rightarrow> sm_input list \<Rightarrow> world \<Rightarrow> (int32 \<times> world) option" where
  "wait_evt_loop evt [] w = None"
| "wait_evt_loop evt (i # is) w =
     (let (_, w') = world_step i w;
          new = drop (length (evt_signals (trace (core (machine w)))))
                     (evt_signals (trace (core (machine w'))))
      in if new \<noteq> [] \<and> request_api (last new) = evt
         then Some (status (last new), w'\<lparr>sched := is\<rparr>)
         else wait_evt_loop evt is w')"

definition processSyncEvt :: "sm_evt \<Rightarrow> payload \<Rightarrow> int32 api" where
  "processSyncEvt evt p w = do {
     (rc, w) \<leftarrow> processEvt evt p w;
     if rc = NO_ERROR then wait_evt_loop evt (sched w) w
     else Some (rc, w) }"

section \<open>Rules\<close>

text \<open>A post that finds memory and an open queue succeeds and wakes the thread.\<close>

definition mem_ok :: "hal \<Rightarrow> bool" where
  "mem_ok s \<longleftrightarrow> env s (trace s) (H_query Q_malloc) \<noteq> 0 \<and>
     env s (trace s @ [H_query Q_malloc]) (H_query Q_malloc) \<noteq> 0"

definition posted :: "(sm_cmd fifo \<Rightarrow> sm_cmd fifo) \<Rightarrow> (sm_cmd fifo \<Rightarrow> sm_cmd fifo) \<Rightarrow> hal \<Rightarrow> hal" where
  "posted f g s = s\<lparr>trace := trace s @ [H_query Q_malloc, H_query Q_malloc],
     api_queue := f (api_queue s), evt_queue := g (evt_queue s), cmd_sem := cmd_sem s + 1\<rparr>"

lemma run_procAPI:
  assumes "mem_ok s" and "fifo_active (api_queue s)"
  shows "run_state (procAPI evt p) s =
    (NO_ERROR, posted (fifo_items_update (\<lambda>cs. cs @ [\<lparr>cmd_type = CMD_TYPE_API, cmd_evt = evt,
       cmd_payload = p\<rparr>])) id s)"
  using assms by (simp add: procAPI_def mem_ok_def posted_def fifo_enqueue_def hal_run)

lemma run_procEvt:
  assumes "mem_ok s" and "fifo_active (evt_queue s)"
  shows "run_state (procEvt evt p) s =
    (NO_ERROR, posted id (fifo_items_update (\<lambda>cs. cs @ [\<lparr>cmd_type = CMD_TYPE_EVT, cmd_evt = evt,
       cmd_payload = p\<rparr>])) s)"
  using assms by (simp add: procEvt_def mem_ok_def posted_def fifo_enqueue_def hal_run)

end
