(* ===== verification/Api_Theorems.thy ===== *)
theory Api_Theorems
  imports Hal_Api
begin

text \<open>
  The properties of the API functions: a call that the state machine answers returns, with the
  status of its handler; a call that it never answers waits on while the thread runs; a lost result blocks its
  caller, a stale one is taken for the answer; the synchronous event returns.
\<close>

section \<open>A call alone in the queue\<close>

text \<open>
  The state in which the handler runs: the two allocations of the post are behind it, and the
  command has been taken out of the queue again.
\<close>

definition entry :: "hal \<Rightarrow> hal" where
  "entry s = s\<lparr>trace := trace s @ [H_query Q_malloc, H_query Q_malloc]\<rparr>"

lemma entry_simps [simp]:
  "m_state (entry s) = m_state s" "env (entry s) = env s"
  "api_queue (entry s) = api_queue s" "evt_queue (entry s) = evt_queue s"
  "cmd_sem (entry s) = cmd_sem s"
  "api_signals (trace (entry s)) = api_signals (trace s)"
  "evt_signals (trace (entry s)) = evt_signals (trace s)"
  by (simp_all add: entry_def call_kinds)

text \<open>The caller finds the thread running, nothing before it in the queue, and memory.\<close>

definition ready :: "world \<Rightarrow> bool" where
  "ready w \<longleftrightarrow> m_smThreadActive w \<and> running (machine w) \<and> queues_ok (core (machine w)) \<and>
     fifo_items (api_queue (core (machine w))) = [] \<and> mem_ok (core (machine w))"

lemma lift_simp:
  "lift m w = Some (fst (run_state m (core (machine w))),
     w\<lparr>machine := (machine w)\<lparr>core := snd (run_state m (core (machine w)))\<rparr>\<rparr>)"
  by (simp add: lift_def case_prod_beta Let_def)

lemma queues_ok_posted:
  assumes "queues_ok s"
  shows "queues_ok (posted (fifo_items_update (\<lambda>cs. cs @ [\<lparr>cmd_type = CMD_TYPE_API,
      cmd_evt = evt, cmd_payload = p\<rparr>])) id s)"
  using assms by (auto simp: posted_def queues_ok_def)

lemma posted_pass:
  assumes "queues_ok s" and "fifo_items (api_queue s) = []"
  shows "run_state smEvtProcStep (posted (fifo_items_update (\<lambda>cs. cs @ [\<lparr>cmd_type = CMD_TYPE_API,
        cmd_evt = evt, cmd_payload = p\<rparr>])) id s) =
     (True, snd (run_state (stateMachine evt p) (entry s)))"
proof -
  let ?c = "\<lparr>cmd_type = CMD_TYPE_API, cmd_evt = evt, cmd_payload = p\<rparr>"
  let ?s = "posted (fifo_items_update (\<lambda>cs. cs @ [?c])) id s"
  have items: "fifo_items (api_queue ?s) = [?c]" using assms(2) by (simp add: posted_def)
  have "?s\<lparr>cmd_sem := cmd_sem ?s - 1, api_queue := (api_queue ?s)\<lparr>fifo_items := []\<rparr>\<rparr> = entry s"
    using assms(2) by (simp add: posted_def entry_def)
  then show ?thesis
    using smEvtProcStep_api [OF queues_ok_posted [OF assms(1)] items]
    by (simp add: process_cmd_def hal_run)
qed

text \<open>What the world is after the post and the pass of the thread that serves it.\<close>

definition served :: "sm_evt \<Rightarrow> payload \<Rightarrow> world \<Rightarrow> sm_system" where
  "served evt p w = (machine w)\<lparr>core :=
     snd (run_state (stateMachine evt p) (entry (core (machine w))))\<rparr>"

lemma processAPI_ready:
  assumes "ready w"
  shows "processAPI evt p w = Some (NO_ERROR, w\<lparr>machine := (machine w)\<lparr>core :=
     posted (fifo_items_update (\<lambda>cs. cs @ [\<lparr>cmd_type = CMD_TYPE_API, cmd_evt = evt,
       cmd_payload = p\<rparr>])) id (core (machine w))\<rparr>\<rparr>)"
  using assms
  by (simp add: processAPI_def lift_simp run_procAPI ready_def queues_ok_def)

lemma step_ready:
  assumes "ready w"
  shows "sm_step In_thread ((machine w)\<lparr>core :=
     posted (fifo_items_update (\<lambda>cs. cs @ [\<lparr>cmd_type = CMD_TYPE_API, cmd_evt = evt,
       cmd_payload = p\<rparr>])) id (core (machine w))\<rparr>) = served evt p w"
proof -
  have q: "queues_ok (core (machine w))" "fifo_items (api_queue (core (machine w))) = []"
    "running (machine w)" using assms by (simp_all add: ready_def)
  have "0 < cmd_sem (posted f g s)" for f g s by (simp add: posted_def)
  with q show ?thesis
    by (simp add: sm_step_def posted_pass served_def)
qed

lemma posted_signals: "api_signals (trace (posted f g s)) = api_signals (trace s)"
  by (simp add: posted_def call_kinds)

text \<open>The one pass, seen by the caller: it is woken exactly when the handler posted a result.\<close>

lemma world_step_ready:
  assumes "ready w"
    and "api_signals (trace (core (served evt p w))) = api_signals (trace (core (machine w))) @ rs"
  shows "world_step In_thread (w\<lparr>machine := (machine w)\<lparr>core :=
     posted (fifo_items_update (\<lambda>cs. cs @ [\<lparr>cmd_type = CMD_TYPE_API, cmd_evt = evt,
       cmd_payload = p\<rparr>])) id (core (machine w))\<rparr>\<rparr>) =
     (rs \<noteq> [], post_results rs (w\<lparr>machine := served evt p w\<rparr>))"
  using assms by (simp add: world_step_def step_ready posted_signals)

lemma api_call_result:
  assumes "ready w" and "alloc w (allocs w)"
    and "sync_call (m_state (core (machine w))) evt" and "sched w = In_thread # is"
  shows "\<exists>r. request_api r = evt \<and>
      status r = fst (run_state (stateMachine evt p) (entry (core (machine w)))) \<and>
      (\<forall>a rest. take_first (\<lambda>r. request_api r = evt) (m_apiResultList w @ [r]) = Some (a, rest) \<longrightarrow>
        (\<exists>w'. api_call evt p w = Some ((status a, Some a), w') \<and> m_apiResultList w' = rest \<and>
          sched w' = is \<and> machine w' = served evt p w))"
proof -
  obtain r where r: "request_api r = evt"
      "status r = fst (run_state (stateMachine evt p) (entry (core (machine w))))"
      "api_signals (trace (core (served evt p w))) = api_signals (trace (core (machine w))) @ [r]"
    using stateMachine_answered [of "entry (core (machine w))" evt p] assms(3)
    by (auto simp: answered_def served_def)
  show ?thesis
    using r(1,2) assms(2,4) world_step_ready [OF assms(1) r(3)]
    by (intro exI [of _ r])
      (auto simp: api_call_def processAPI_ready [OF assms(1)] waitAPIResult_def post_result_def
        simp del: take_first.simps)
qed

section \<open>States for the witnesses\<close>

definition demo_world :: "sm_state \<Rightarrow> sm_input list \<Rightarrow> world" where
  "demo_world st is = \<lparr>machine = \<lparr>core = (QCameraStateMachine False False (\<lambda>_ c.
        if c = H_query Q_malloc then 1 else 0))\<lparr>m_state := st\<rparr>, running = True\<rparr>,
     m_apiResultList = [], m_smThreadActive = True, alloc = (\<lambda>_. True), allocs = 0, sched = is\<rparr>"

lemma demo_world_ready: "ready (demo_world st is)"
  by (simp add: ready_def demo_world_def QCameraStateMachine_def queues_ok_def mem_ok_def)

lemma demo_world_simps [simp]:
  "m_state (core (machine (demo_world st is))) = st" "sched (demo_world st is) = is"
  "m_apiResultList (demo_world st is) = []" "alloc (demo_world st is) n"
  "fifo_items (evt_queue (core (machine (demo_world st is)))) = []"
  by (simp_all add: demo_world_def QCameraStateMachine_def)

section \<open>Calls that return\<close>



text \<open>
  A stale result wins: if the list already holds a result for the event, left by a death of
  the daemon with no caller waiting, the call returns that one and its own answer stays behind
  for the next caller.
\<close>

theorem stale_result_wins:
  assumes "ready w" and "alloc w (allocs w)" and "m_apiResultList w = old # rest"
    and "request_api old = evt"
    and "sync_call (m_state (core (machine w))) evt" and "sched w = In_thread # is"
  shows "\<exists>r w'. api_call evt p w = Some ((status old, Some old), w') \<and>
    m_apiResultList w' = rest @ [r] \<and> request_api r = evt \<and>
    status r = fst (run_state (stateMachine evt p) (entry (core (machine w))))"
  using api_call_result [OF assms(1,2,5,6), of p] assms(3,4) by fastforce

lemma stale_result_wins_witness:
  "\<exists>r w'. api_call EVT_TAKE_PICTURE null_payload ((demo_world STATE_RECORDING [In_thread])
      \<lparr>m_apiResultList := [\<lparr>status = NO_ERROR, request_api = EVT_TAKE_PICTURE,
         result_type = API_RESULT_TYPE_DEF, result_union = U_zero\<rparr>]\<rparr>) =
      Some ((NO_ERROR, Some \<lparr>status = NO_ERROR, request_api = EVT_TAKE_PICTURE,
         result_type = API_RESULT_TYPE_DEF, result_union = U_zero\<rparr>), w') \<and>
    m_apiResultList w' = [r] \<and> request_api r = EVT_TAKE_PICTURE"
proof -
  let ?old = "\<lparr>status = NO_ERROR, request_api = EVT_TAKE_PICTURE,
         result_type = API_RESULT_TYPE_DEF, result_union = U_zero\<rparr>"
  let ?w = "(demo_world STATE_RECORDING [In_thread])\<lparr>m_apiResultList := [?old]\<rparr>"
  have "ready ?w" using demo_world_ready [of STATE_RECORDING "[In_thread]"]
    by (simp add: ready_def)
  then show ?thesis
    using stale_result_wins [of ?w ?old "[]" EVT_TAKE_PICTURE "[]" null_payload]
    by (fastforce simp: sync_defs)
qed

section \<open>Calls that block\<close>

lemma idle_wait:
  assumes "cmd_sem (core (machine w)) = 0"
  shows "wait_loop evt (replicate n In_thread) w = None"
proof (induction n)
  case 0
  then show ?case by simp
next
  case (Suc n)
  have "world_step In_thread w = (False, w)"
    using assms by (simp add: world_step_def sm_step_def)
  with Suc show ?case by simp
qed

lemma served_idle:
  assumes "ready w" and "fifo_items (evt_queue (core (machine w))) = []"
    and "evt \<noteq> EVT_SEND_COMMAND"
  shows "cmd_sem (core (served evt p w)) = 0"
  using assms stateMachine_keeps_events(2) [OF assms(3), of p "entry (core (machine w))"]
  by (simp add: served_def ready_def queues_ok_def)

text \<open>
  C23: A call that the current state never answers is not woken by the machine: if the machine is idle
  when the call is posted and no other client posts anything, the caller still waits after any
  number of runs of the thread.  (While it waits, pthread\_cond\_wait has given up m\_lock.)
\<close>

theorem unanswered_call_blocks:
  assumes "ready w" and "fifo_items (evt_queue (core (machine w))) = []"
    and "never_answered (m_state (core (machine w))) evt" and "sched w = replicate n In_thread"
  shows "api_call evt p w = None"
proof (cases n)
  case 0
  with assms(1,4) show ?thesis
    by (simp add: api_call_def processAPI_ready waitAPIResult_def)
next
  case (Suc k)
  have ev: "evt \<noteq> EVT_SEND_COMMAND" using assms(3) by (auto simp: never_answered_def)
  have "api_signals (trace (core (served evt p w))) = api_signals (trace (core (machine w))) @ []"
    using stateMachine_silent [of "entry (core (machine w))" evt p] assms(3)
    by (simp add: served_def)
  from world_step_ready [OF assms(1) this] Suc assms(4)
    idle_wait [of "w\<lparr>machine := served evt p w\<rparr>" evt k] served_idle [OF assms(1,2) ev]
  show ?thesis
    by (simp add: api_call_def processAPI_ready [OF assms(1)] waitAPIResult_def)
qed

lemma unanswered_call_blocks_witness:
  "release_recording_frame True 5 (demo_world STATE_PREVIEWING (replicate 100 In_thread)) = None"
  using unanswered_call_blocks [of "demo_world STATE_PREVIEWING (replicate 100 In_thread)"
      EVT_RELEASE_RECORIDNG_FRAME 100 "null_payload\<lparr>as_ptr := 5\<rparr>"]
  by (simp add: demo_world_ready never_answered_def release_recording_frame_def call_void_def)

text \<open>
  A result for which signalAPIResult finds no memory is lost: the machine has
  answered and the caller was woken, but it waits on, however often the thread runs.
\<close>

theorem lost_result_blocks:
  assumes "ready w" and "fifo_items (evt_queue (core (machine w))) = []"
    and "\<not> alloc w (allocs w)" and "\<forall>r \<in> set (m_apiResultList w). request_api r \<noteq> evt"
    and "sync_call (m_state (core (machine w))) evt" and "evt \<noteq> EVT_SEND_COMMAND"
    and "sched w = replicate n In_thread"
  shows "api_call evt p w = None"
proof (cases n)
  case 0
  with assms(1,7) show ?thesis
    by (simp add: api_call_def processAPI_ready waitAPIResult_def)
next
  case (Suc k)
  obtain r where r: "api_signals (trace (core (served evt p w))) =
      api_signals (trace (core (machine w))) @ [r]"
    using stateMachine_answered [of "entry (core (machine w))" evt p] assms(5)
    by (auto simp: answered_def served_def)
  let ?w = "post_result r (w\<lparr>machine := served evt p w\<rparr>)"
  have "take_first (\<lambda>r. request_api r = evt) (m_apiResultList w) = None"
    using assms(4) by (simp add: take_first_None_iff)
  moreover have "wait_loop evt (replicate k In_thread) ?w = None"
    by (rule idle_wait) (simp add: post_result_def served_idle [OF assms(1,2,6)])
  ultimately show ?thesis
    using world_step_ready [OF assms(1) r] Suc assms(3,7)
    by (simp add: api_call_def processAPI_ready [OF assms(1)] waitAPIResult_def)
      (simp add: post_result_def)
qed

lemma lost_result_blocks_witness:
  "api_call EVT_STOP_PREVIEW null_payload ((demo_world STATE_PREVIEWING (replicate 9 In_thread))
     \<lparr>alloc := \<lambda>_. False\<rparr>) = None"
proof -
  let ?w = "(demo_world STATE_PREVIEWING (replicate 9 In_thread))\<lparr>alloc := \<lambda>_. False\<rparr>"
  have "ready ?w" using demo_world_ready [of STATE_PREVIEWING "replicate 9 In_thread"]
    by (simp add: ready_def)
  then show ?thesis by (intro lost_result_blocks [of _ _ 9]) (simp_all add: sync_defs)
qed

section \<open>The synchronous event\<close>

lemma posted_event_pass:
  assumes "queues_ok s" and "fifo_items (api_queue s) = []" and "fifo_items (evt_queue s) = []"
  shows "run_state smEvtProcStep (posted id (fifo_items_update (\<lambda>cs. cs @ [\<lparr>cmd_type = CMD_TYPE_EVT,
        cmd_evt = evt, cmd_payload = p\<rparr>])) s) =
     (True, snd (run_state (stateMachine evt p) (entry s)))"
proof -
  let ?c = "\<lparr>cmd_type = CMD_TYPE_EVT, cmd_evt = evt, cmd_payload = p\<rparr>"
  let ?s = "posted id (fifo_items_update (\<lambda>cs. cs @ [?c])) s"
  have q: "queues_ok ?s" using assms(1) by (auto simp: posted_def queues_ok_def)
  have items: "fifo_items (api_queue ?s) = []" "fifo_items (evt_queue ?s) = [?c]"
    using assms(2,3) by (simp_all add: posted_def)
  have "?s\<lparr>cmd_sem := cmd_sem ?s - 1, evt_queue := (evt_queue ?s)\<lparr>fifo_items := []\<rparr>\<rparr> = entry s"
    using assms(3) by (simp add: posted_def entry_def)
  then show ?thesis
    using smEvtProcStep_evt [OF q items]
    by (simp add: process_cmd_def hal_run)
qed

lemma world_step_machine: "machine (snd (world_step i w)) = sm_step i (machine w)"
proof -
  have "machine (post_results rs v) = machine v" for rs v
    by (induction rs arbitrary: v) (simp_all add: post_result_def)
  then show ?thesis by (simp add: world_step_def Let_def)
qed

text \<open>
  processSyncEvt returns: the capture thread that reports SNAPSHOT\_DONE to an idle machine is
  answered in the next pass of the thread, in every state, with the status of the handler.
\<close>

theorem snapshot_done_returns:
  assumes "ready w" and "fifo_items (evt_queue (core (machine w))) = []"
    and "sched w = In_thread # is"
  shows "\<exists>w'. processSyncEvt EVT_SNAPSHOT_DONE p w =
      Some (fst (run_state (stateMachine EVT_SNAPSHOT_DONE p) (entry (core (machine w)))), w') \<and>
    machine w' = served EVT_SNAPSHOT_DONE p w \<and> sched w' = is"
proof -
  let ?s = "core (machine w)"
  let ?c = "\<lparr>cmd_type = CMD_TYPE_EVT, cmd_evt = EVT_SNAPSHOT_DONE, cmd_payload = p\<rparr>"
  let ?w1 = "w\<lparr>machine := (machine w)\<lparr>core := posted id (fifo_items_update (\<lambda>cs. cs @ [?c])) ?s\<rparr>\<rparr>"
  have q: "queues_ok ?s" "fifo_items (api_queue ?s) = []" "running (machine w)" "mem_ok ?s"
    using assms(1) by (simp_all add: ready_def)
  have post: "processEvt EVT_SNAPSHOT_DONE p w = Some (NO_ERROR, ?w1)"
    using q by (simp add: processEvt_def lift_simp run_procEvt queues_ok_def)
  have step: "sm_step In_thread (machine ?w1) = served EVT_SNAPSHOT_DONE p w"
    using posted_event_pass [OF q(1,2) assms(2), of EVT_SNAPSHOT_DONE p] q(3)
    by (simp add: sm_step_def served_def) (simp add: posted_def)
  obtain r where r: "request_api r = EVT_SNAPSHOT_DONE"
      "status r = fst (run_state (stateMachine EVT_SNAPSHOT_DONE p) (entry ?s))"
      "evt_signals (trace (core (served EVT_SNAPSHOT_DONE p w))) = evt_signals (trace ?s) @ [r]"
    using stateMachine_evt_reported [of EVT_SNAPSHOT_DONE p "entry ?s"]
    by (auto simp: evt_reported_def served_def)
  have "evt_signals (trace (core (machine ?w1))) = evt_signals (trace ?s)"
    by (simp add: posted_def call_kinds)
  with r step world_step_machine [of In_thread ?w1] assms(3) post show ?thesis
    by (auto simp: processSyncEvt_def case_prod_beta Let_def)
qed

lemma snapshot_done_returns_witness:
  "\<exists>w'. processSyncEvt EVT_SNAPSHOT_DONE null_payload (demo_world STATE_PREVIEW_PIC_TAKING [In_thread]) =
      Some (fst (run_state (stateMachine EVT_SNAPSHOT_DONE null_payload)
        (entry (core (machine (demo_world STATE_PREVIEW_PIC_TAKING [In_thread]))))), w') \<and>
    machine w' = served EVT_SNAPSHOT_DONE null_payload (demo_world STATE_PREVIEW_PIC_TAKING [In_thread]) \<and>
    sched w' = []"
  by (rule snapshot_done_returns) (simp_all add: demo_world_ready)

section \<open>Parameters\<close>

text \<open>A world whose allocations never fail and in which no result waits.\<close>

definition calm :: "world \<Rightarrow> bool" where
  "calm w \<longleftrightarrow> m_smThreadActive w \<and> running (machine w) \<and> queues_ok (core (machine w)) \<and>
     fifo_items (api_queue (core (machine w))) = [] \<and> (\<forall>n. alloc w n) \<and> m_apiResultList w = [] \<and>
     (\<forall>tr. env (core (machine w)) tr (H_query Q_malloc) \<noteq> 0)"

lemma calm_ready: "calm w \<Longrightarrow> ready w"
  by (simp add: calm_def ready_def mem_ok_def)

lemma post_results_keep:
  "alloc (post_results rs w) = alloc w \<and> m_smThreadActive (post_results rs w) = m_smThreadActive w"
  by (induction rs arbitrary: w) (simp_all add: post_result_def)

lemma wait_loop_keeps:
  "wait_loop evt is w = Some (r, w') \<Longrightarrow> alloc w' = alloc w \<and> m_smThreadActive w' = m_smThreadActive w"
proof (induction evt "is" w rule: wait_loop.induct)
  case (1 evt w)
  then show ?case by simp
next
  case (2 evt i "is" w)
  then show ?case
    using post_results_keep
    by (fastforce simp: world_step_def Let_def split: if_splits option.splits)
qed

lemma calm_call:
  assumes "calm w" and "sync_call (m_state (core (machine w))) evt" and "sched w = In_thread # is"
  shows "\<exists>w'. call_status evt p w =
      Some (fst (run_state (stateMachine evt p) (entry (core (machine w)))), w') \<and>
    calm w' \<and> sched w' = is \<and> machine w' = served evt p w"
proof -
  have a: "alloc w (allocs w)" using assms(1) by (simp add: calm_def)
  obtain r where r: "request_api r = evt"
      "status r = fst (run_state (stateMachine evt p) (entry (core (machine w))))"
      "\<And>a rest. take_first (\<lambda>r. request_api r = evt) (m_apiResultList w @ [r]) = Some (a, rest) \<Longrightarrow>
        \<exists>w'. api_call evt p w = Some ((status a, Some a), w') \<and> m_apiResultList w' = rest \<and>
          sched w' = is \<and> machine w' = served evt p w"
    using api_call_result [OF calm_ready [OF assms(1)] a assms(2,3), of p] by blast
  have "take_first (\<lambda>r. request_api r = evt) (m_apiResultList w @ [r]) = Some (r, [])"
    using assms(1) r(1) by (simp add: calm_def)
  from r(3) [OF this] obtain w' where w': "api_call evt p w = Some ((status r, Some r), w')"
      "m_apiResultList w' = []" "sched w' = is" "machine w' = served evt p w" by blast
  have keep: "alloc w' = alloc w \<and> m_smThreadActive w' = m_smThreadActive w"
    using w'(1)
    by (auto simp: api_call_def processAPI_ready [OF calm_ready [OF assms(1)]] waitAPIResult_def
        split: Option.bind_splits dest!: wait_loop_keeps)
  have "queues_ok (entry (core (machine w)))"
    using assms(1) by (simp add: calm_def entry_def)
  from stateMachine_queues [OF this, of evt p] assms(1) w' keep have "calm w'"
    by (simp add: calm_def served_def stateMachine_env stateMachine_api_queue)
  with w' r(2) show ?thesis by (simp add: call_status_def)
qed

text \<open>The parts of a state that the parameter sequence depends on.\<close>

definition plain_previewing :: "(hal_call \<Rightarrow> int32) \<Rightarrow> world \<Rightarrow> bool" where
  "plain_previewing f w \<longleftrightarrow> calm w \<and> m_state (core (machine w)) = STATE_PREVIEWING \<and>
     \<not> m_bDelayPreviewMsgs (core (machine w)) \<and> env (core (machine w)) = (\<lambda>_. f)"

definition calls :: "world \<Rightarrow> hal_call list" where
  "calls w = major (trace (core (machine w)))"

definition answer :: "sm_evt \<Rightarrow> int32 \<Rightarrow> hal_call" where
  "answer evt rc = H_signalAPIResult \<lparr>status = rc, request_api = evt,
     result_type = API_RESULT_TYPE_DEF, result_union = U_zero\<rparr>"

lemma entry_fields [simp]:
  "m_bDelayPreviewMsgs (entry s) = m_bDelayPreviewMsgs s"
  "m_bNeedRestart (entry s) = m_bNeedRestart s" "major (trace (entry s)) = major (trace s)"
  by (simp_all add: entry_def call_kinds)

lemma previewing_call:
  fixes w :: world and evt :: sm_evt and p :: payload
  assumes "plain_previewing f w" and "sched w = In_thread # is" and "sync_call STATE_PREVIEWING evt"
  defines "s1 \<equiv> snd (run_state (stateMachine evt p) (entry (core (machine w))))"
  assumes "m_state s1 = STATE_PREVIEWING" and "\<not> m_bDelayPreviewMsgs s1"
  shows "\<exists>w'. call_status evt p w =
      Some (fst (run_state (stateMachine evt p) (entry (core (machine w)))), w') \<and>
    plain_previewing f w' \<and> sched w' = is \<and>
    m_bNeedRestart (core (machine w')) = m_bNeedRestart s1 \<and> calls w' = major (trace s1)"
proof -
  have "calm w" "sync_call (m_state (core (machine w))) evt"
    using assms(1,3) by (simp_all add: plain_previewing_def)
  from calm_call [OF this assms(2), of p] assms(1,5,6) show ?thesis
    by (auto simp: plain_previewing_def calls_def served_def s1_def stateMachine_env)
qed

lemma step_set_params:
  assumes "plain_previewing f w" and "sched w = In_thread # is"
  shows "\<exists>w'. call_status EVT_SET_PARAMS p w = Some (f (H_updateParameters (as_ptr p)), w') \<and>
    plain_previewing f w' \<and> sched w' = is \<and>
    m_bNeedRestart (core (machine w')) = (f (H_query Q_needRestart) \<noteq> 0) \<and>
    calls w' = calls w @ [H_updateParameters (as_ptr p),
      answer EVT_SET_PARAMS (f (H_updateParameters (as_ptr p)))]"
  using assms previewing_call [OF assms(1,2), of EVT_SET_PARAMS p]
  by (simp add: plain_previewing_def calls_def run_stateMachine sm_defs handler_run answer_def
      sync_defs)

lemma step_params_stop:
  assumes "plain_previewing f w" and "sched w = In_thread # is"
  shows "\<exists>w'. call_status EVT_SET_PARAMS_STOP p w = Some (f H_stopPreview, w') \<and>
    plain_previewing f w' \<and> sched w' = is \<and>
    m_bNeedRestart (core (machine w')) = m_bNeedRestart (core (machine w)) \<and>
    calls w' = calls w @ [H_stopPreview, H_memoryPool_clear,
      answer EVT_SET_PARAMS_STOP (f H_stopPreview)]"
  using assms previewing_call [OF assms(1,2), of EVT_SET_PARAMS_STOP p]
  by (simp add: plain_previewing_def calls_def run_stateMachine sm_defs handler_run answer_def
      sync_defs)

lemma step_params_commit:
  assumes "plain_previewing f w" and "sched w = In_thread # is"
  shows "\<exists>w'. call_status EVT_SET_PARAMS_COMMIT p w = Some (f H_commitParameterChanges, w') \<and>
    plain_previewing f w' \<and> sched w' = is \<and>
    m_bNeedRestart (core (machine w')) = m_bNeedRestart (core (machine w)) \<and>
    calls w' = calls w @ [H_commitParameterChanges,
      answer EVT_SET_PARAMS_COMMIT (f H_commitParameterChanges)]"
  using assms previewing_call [OF assms(1,2), of EVT_SET_PARAMS_COMMIT p]
  by (simp add: plain_previewing_def calls_def run_stateMachine sm_defs handler_run answer_def
      sync_defs)

lemma step_params_restart:
  assumes "plain_previewing f w" and "sched w = In_thread # is"
    and "f H_preparePreview = NO_ERROR" and "f H_startPreview = NO_ERROR"
  shows "\<exists>w'. call_status EVT_SET_PARAMS_RESTART p w = Some (NO_ERROR, w') \<and>
    plain_previewing f w' \<and> sched w' = is \<and> \<not> m_bNeedRestart (core (machine w')) \<and>
    calls w' = calls w @ [H_preparePreview, H_startPreview, answer EVT_SET_PARAMS_RESTART NO_ERROR]"
  using assms previewing_call [OF assms(1,2), of EVT_SET_PARAMS_RESTART p]
  by (simp add: plain_previewing_def calls_def run_stateMachine sm_defs handler_run answer_def
      sync_defs)

lemma single_camera:
  assumes "plain_previewing f w" and "f (H_query Q_syncControlOn) = 0"
  shows "\<exists>w'. lift (query_bool Q_syncControlOn) w = Some (False, w') \<and> plain_previewing f w' \<and>
    sched w' = sched w \<and> calls w' = calls w \<and>
    m_bNeedRestart (core (machine w')) = m_bNeedRestart (core (machine w))"
  using assms
  by (auto simp: plain_previewing_def lift_simp calls_def hal_run call_kinds calm_def)

lemma needs_restart:
  "restart_if_needed evt rc w =
     (if rc = NO_ERROR \<and> m_bNeedRestart (core (machine w)) then call_status evt null_payload w
      else Some (rc, w))"
  by (simp add: restart_if_needed_def lift_simp hal_run)

text \<open>
  set\_parameters with parameters that need a restart, in single camera mode and a running
  preview: parse, stop, commit, prepare, start, in this order, each answered before the next; at
  the end the restart is no longer needed.
\<close>

theorem set_parameters_restarts:
  assumes "plain_previewing f w" and "f (H_query Q_syncControlOn) = 0"
    and "f (H_updateParameters parms) = NO_ERROR" and "f (H_query Q_needRestart) \<noteq> 0"
    and "f H_stopPreview = NO_ERROR" and "f H_commitParameterChanges = NO_ERROR"
    and "f H_preparePreview = NO_ERROR" and "f H_startPreview = NO_ERROR"
    and "sched w = In_thread # In_thread # In_thread # In_thread # is"
  shows "\<exists>w'. set_parameters True parms w = Some (NO_ERROR, w') \<and> plain_previewing f w' \<and>
    \<not> m_bNeedRestart (core (machine w')) \<and>
    calls w' = calls w @
      [H_updateParameters parms, answer EVT_SET_PARAMS NO_ERROR,
       H_stopPreview, H_memoryPool_clear, answer EVT_SET_PARAMS_STOP NO_ERROR,
       H_commitParameterChanges, answer EVT_SET_PARAMS_COMMIT NO_ERROR,
       H_preparePreview, H_startPreview, answer EVT_SET_PARAMS_RESTART NO_ERROR]"
proof -
  let ?p = "null_payload\<lparr>as_ptr := parms\<rparr>"
  obtain w1 where w1: "call_status EVT_SET_PARAMS ?p w = Some (NO_ERROR, w1)"
      "plain_previewing f w1" "sched w1 = In_thread # In_thread # In_thread # is"
      "m_bNeedRestart (core (machine w1))"
      "calls w1 = calls w @ [H_updateParameters parms, answer EVT_SET_PARAMS NO_ERROR]"
    using step_set_params [OF assms(1,9), of ?p] assms(3,4) by auto
  obtain w2 where w2: "lift (query_bool Q_syncControlOn) w1 = Some (False, w2)"
      "plain_previewing f w2" "sched w2 = sched w1" "calls w2 = calls w1"
      "m_bNeedRestart (core (machine w2))"
    using single_camera [OF w1(2) assms(2)] w1(4) by auto
  obtain w3 where w3: "call_status EVT_SET_PARAMS_STOP null_payload w2 = Some (NO_ERROR, w3)"
      "plain_previewing f w3" "sched w3 = In_thread # In_thread # is"
      "m_bNeedRestart (core (machine w3))"
      "calls w3 = calls w2 @ [H_stopPreview, H_memoryPool_clear, answer EVT_SET_PARAMS_STOP NO_ERROR]"
    using step_params_stop [OF w2(2), of "In_thread # In_thread # is" null_payload]
      w1(3) w2(3,5) assms(5) by auto
  obtain w4 where w4: "call_status EVT_SET_PARAMS_COMMIT null_payload w3 = Some (NO_ERROR, w4)"
      "plain_previewing f w4" "sched w4 = In_thread # is" "m_bNeedRestart (core (machine w4))"
      "calls w4 = calls w3 @ [H_commitParameterChanges, answer EVT_SET_PARAMS_COMMIT NO_ERROR]"
    using step_params_commit [OF w3(2,3), of null_payload] w3(4) assms(6) by auto
  obtain w5 where "call_status EVT_SET_PARAMS_RESTART null_payload w4 = Some (NO_ERROR, w5)"
      "plain_previewing f w5" "\<not> m_bNeedRestart (core (machine w5))"
      "calls w5 = calls w4 @ [H_preparePreview, H_startPreview, answer EVT_SET_PARAMS_RESTART NO_ERROR]"
    using step_params_restart [OF w4(2,3) assms(7,8), of null_payload] by auto
  with w1 w2 w3 w4 show ?thesis by (simp add: set_parameters_def needs_restart)
qed

definition demo_params :: "int32 \<Rightarrow> world" where
  "demo_params c = (let f = (\<lambda>call. if call = H_query Q_malloc \<or> call = H_query Q_needRestart then 1
        else if call = H_commitParameterChanges then c else 0);
      w = demo_world STATE_PREVIEWING [In_thread, In_thread, In_thread, In_thread]
    in w\<lparr>machine := (machine w)\<lparr>core := (core (machine w))\<lparr>env := \<lambda>_. f\<rparr>\<rparr>\<rparr>)"

lemma demo_params_plain:
  "plain_previewing (\<lambda>call. if call = H_query Q_malloc \<or> call = H_query Q_needRestart then 1
        else if call = H_commitParameterChanges then c else 0) (demo_params c)"
  by (simp add: plain_previewing_def demo_params_def demo_world_def calm_def queues_ok_def
      QCameraStateMachine_def)

lemma demo_params_sched: "sched (demo_params c) = [In_thread, In_thread, In_thread, In_thread]"
  by (simp add: demo_params_def Let_def)

lemma set_parameters_restarts_witness:
  "\<exists>w'. set_parameters True 3 (demo_params 0) = Some (NO_ERROR, w') \<and>
     \<not> m_bNeedRestart (core (machine w'))"
  using set_parameters_restarts [OF demo_params_plain, of 0 3 "[]"] demo_params_sched [of 0]
  by (auto simp: NO_ERROR_def)

text \<open>
  When the commit of parameters that need a restart fails, set\_parameters returns its status
  and never restarts: the preview that it stopped stays stopped, while the machine stays in
  PREVIEWING and the restart stays pending.
\<close>

theorem failed_commit_leaves_preview_stopped:
  assumes "plain_previewing f w" and "f (H_query Q_syncControlOn) = 0"
    and "f (H_updateParameters parms) = NO_ERROR" and "f (H_query Q_needRestart) \<noteq> 0"
    and "f H_stopPreview = NO_ERROR" and "f H_commitParameterChanges \<noteq> NO_ERROR"
    and "sched w = In_thread # In_thread # In_thread # is"
  shows "\<exists>w'. set_parameters True parms w = Some (f H_commitParameterChanges, w') \<and>
    m_state (core (machine w')) = STATE_PREVIEWING \<and> m_bNeedRestart (core (machine w')) \<and>
    calls w' = calls w @
      [H_updateParameters parms, answer EVT_SET_PARAMS NO_ERROR,
       H_stopPreview, H_memoryPool_clear, answer EVT_SET_PARAMS_STOP NO_ERROR,
       H_commitParameterChanges, answer EVT_SET_PARAMS_COMMIT (f H_commitParameterChanges)]"
proof -
  let ?p = "null_payload\<lparr>as_ptr := parms\<rparr>"
  obtain w1 where w1: "call_status EVT_SET_PARAMS ?p w = Some (NO_ERROR, w1)"
      "plain_previewing f w1" "sched w1 = In_thread # In_thread # is"
      "m_bNeedRestart (core (machine w1))"
      "calls w1 = calls w @ [H_updateParameters parms, answer EVT_SET_PARAMS NO_ERROR]"
    using step_set_params [OF assms(1,7), of ?p] assms(3,4) by auto
  obtain w2 where w2: "lift (query_bool Q_syncControlOn) w1 = Some (False, w2)"
      "plain_previewing f w2" "sched w2 = sched w1" "calls w2 = calls w1"
      "m_bNeedRestart (core (machine w2))"
    using single_camera [OF w1(2) assms(2)] w1(4) by auto
  obtain w3 where w3: "call_status EVT_SET_PARAMS_STOP null_payload w2 = Some (NO_ERROR, w3)"
      "plain_previewing f w3" "sched w3 = In_thread # is" "m_bNeedRestart (core (machine w3))"
      "calls w3 = calls w2 @ [H_stopPreview, H_memoryPool_clear, answer EVT_SET_PARAMS_STOP NO_ERROR]"
    using step_params_stop [OF w2(2), of "In_thread # is" null_payload] w1(3) w2(3,5) assms(5)
    by auto
  obtain w4 where w4: "call_status EVT_SET_PARAMS_COMMIT null_payload w3 =
        Some (f H_commitParameterChanges, w4)"
      "plain_previewing f w4" "m_bNeedRestart (core (machine w4))"
      "calls w4 = calls w3 @ [H_commitParameterChanges,
         answer EVT_SET_PARAMS_COMMIT (f H_commitParameterChanges)]"
    using step_params_commit [OF w3(2,3), of null_payload] w3(4) by auto
  have "m_state (core (machine w4)) = STATE_PREVIEWING"
    using w4(2) by (simp add: plain_previewing_def)
  with w1 w2 w3 w4 assms(6) show ?thesis by (simp add: set_parameters_def needs_restart)
qed

lemma failed_commit_leaves_preview_stopped_witness:
  "\<exists>w'. set_parameters True 3 (demo_params 5) = Some (5, w') \<and>
     m_state (core (machine w')) = STATE_PREVIEWING"
  using failed_commit_leaves_preview_stopped [OF demo_params_plain, of 5 3 "[In_thread]"]
    demo_params_sched [of 5]
  by (auto simp: NO_ERROR_def)

end
