(* ===== verification/Loc_Heap.thy ===== *)
theory Loc_Heap
  imports Hal_Prelude "HOL-Library.Multiset"
begin

text \<open>
  The heap of the GPS utilities (gps/utils/LocHeap.cpp, LocHeap.h). A node holds its size, its
  two subtrees and a pointer to client data; push, pop and remove exchange the data of nodes and
  never restructure them. The ranking of the data is the client's virtual function ranks, a
  parameter here. The model checks its own invariant with checkNodes, the test of the source.

  The contract is the locale ranked\_queue, a priority queue with removal by identity, which the
  timer container relies on; the heap interprets it for every ranking that is a strict weak
  order on the data that occurs.
\<close>

section \<open>Nodes\<close>

datatype 'd heap_node =
    is_null: NoNode
  | HeapNode (mSize: int) (mLeft: "'d heap_node") (mData: 'd) (mRight: "'d heap_node")

definition outRanks :: "('d \<Rightarrow> 'd \<Rightarrow> int) \<Rightarrow> 'd \<Rightarrow> 'd \<Rightarrow> bool" where
  "outRanks ranks x y = (0 < ranks x y)"

text \<open>The constructor of LocHeapNode, and getSize where there is a node.\<close>

definition new_node :: "'d \<Rightarrow> 'd heap_node" where
  "new_node x = HeapNode 1 NoNode x NoNode"

fun node_size :: "'d heap_node \<Rightarrow> int" where
  "node_size NoNode = 0"
| "node_size (HeapNode n l x r) = n"

fun node_push :: "('d \<Rightarrow> 'd \<Rightarrow> int) \<Rightarrow> 'd \<Rightarrow> 'd heap_node \<Rightarrow> 'd heap_node" where
  "node_push ranks d NoNode = new_node d"
| "node_push ranks d (HeapNode n l x r) =
     (let (here, down) = (if outRanks ranks d x then (d, x) else (x, d)) in
      if is_null l then HeapNode (n + 1) (new_node down) here r
      else if is_null r then HeapNode (n + 1) l here (new_node down)
      else if node_size l \<le> node_size r
      then HeapNode (n + 1) (node_push ranks down l) here r
      else HeapNode (n + 1) l here (node_push ranks down r))"

text \<open>
  pop exchanges the data of the top with the higher ranking child, all the way down; the node
  that leaves the tree is a leaf and carries what was the data of the top.
\<close>

fun node_pop :: "('d \<Rightarrow> 'd \<Rightarrow> int) \<Rightarrow> 'd heap_node \<Rightarrow> 'd option \<times> 'd heap_node" where
  "node_pop ranks NoNode = (None, NoNode)"
| "node_pop ranks (HeapNode n NoNode x NoNode) = (Some x, NoNode)"
| "node_pop ranks (HeapNode n NoNode x (HeapNode m l y r)) =
     (let (d, t) = node_pop ranks (HeapNode m l x r) in (d, HeapNode (n - 1) NoNode y t))"
| "node_pop ranks (HeapNode n (HeapNode m l y r) x NoNode) =
     (let (d, t) = node_pop ranks (HeapNode m l x r) in (d, HeapNode (n - 1) t y NoNode))"
| "node_pop ranks (HeapNode n (HeapNode m l y r) x (HeapNode m' l' z r')) =
     (if outRanks ranks y z
      then let (d, t) = node_pop ranks (HeapNode m l x r)
           in (d, HeapNode (n - 1) t y (HeapNode m' l' z r'))
      else let (d, t) = node_pop ranks (HeapNode m' l' x r')
           in (d, HeapNode (n - 1) (HeapNode m l y r) z t))"

text \<open>remove searches the subtrees whose top the data does not outrank.\<close>

fun node_remove :: "('d \<Rightarrow> 'd \<Rightarrow> int) \<Rightarrow> 'd \<Rightarrow> 'd heap_node \<Rightarrow> 'd option \<times> 'd heap_node" where
  "node_remove ranks d NoNode = (None, NoNode)"
| "node_remove ranks d (HeapNode n l x r) =
     (if d = x then node_pop ranks (HeapNode n l x r)
      else if \<not> outRanks ranks d x
      then (case node_remove ranks d l of
              (Some y, l') \<Rightarrow> (Some y, HeapNode (n - 1) l' x r)
            | (None, _) \<Rightarrow>
                (case node_remove ranks d r of
                   (Some y, r') \<Rightarrow> (Some y, HeapNode (n - 1) l x r')
                 | (None, _) \<Rightarrow> (None, HeapNode n l x r)))
      else (None, HeapNode n l x r))"

fun checkNodes :: "('d \<Rightarrow> 'd \<Rightarrow> int) \<Rightarrow> 'd heap_node \<Rightarrow> bool" where
  "checkNodes ranks NoNode \<longleftrightarrow> True"
| "checkNodes ranks (HeapNode n l x r) \<longleftrightarrow>
     (is_null l \<or> \<not> outRanks ranks (mData l) x \<and> checkNodes ranks l) \<and>
     (is_null r \<or> \<not> outRanks ranks (mData r) x \<and> checkNodes ranks r) \<and>
     n - node_size l - node_size r = 1"

definition fits :: "('d \<Rightarrow> 'd \<Rightarrow> int) \<Rightarrow> 'd heap_node \<Rightarrow> 'd \<Rightarrow> bool" where
  "fits ranks t x \<longleftrightarrow> is_null t \<or> \<not> outRanks ranks (mData t) x \<and> checkNodes ranks t"

lemma fits_NoNode [simp]: "fits ranks NoNode x"
  by (simp add: fits_def)

lemma fits_HeapNode [simp]: "fits ranks (HeapNode n l y r) x \<longleftrightarrow>
    \<not> outRanks ranks y x \<and> checkNodes ranks (HeapNode n l y r)"
  by (simp add: fits_def)

lemma checkNodes_node: "checkNodes ranks (HeapNode n l x r) \<longleftrightarrow>
    fits ranks l x \<and> fits ranks r x \<and> n - node_size l - node_size r = 1"
  by (simp add: fits_def)

lemma fits_check: "fits ranks t x \<Longrightarrow> checkNodes ranks t"
  by (cases t) (simp_all only: checkNodes.simps(1) fits_HeapNode)

section \<open>The heap\<close>

type_synonym 'd loc_heap = "'d heap_node"

definition heap_push :: "('d \<Rightarrow> 'd \<Rightarrow> int) \<Rightarrow> 'd \<Rightarrow> 'd loc_heap \<Rightarrow> 'd loc_heap" where
  "heap_push ranks d mTree = (if is_null mTree then new_node d else node_push ranks d mTree)"

definition heap_peek :: "'d loc_heap \<Rightarrow> 'd option" where
  "heap_peek mTree = (if \<not> is_null mTree then Some (mData mTree) else None)"

definition heap_pop :: "('d \<Rightarrow> 'd \<Rightarrow> int) \<Rightarrow> 'd loc_heap \<Rightarrow> 'd option \<times> 'd loc_heap" where
  "heap_pop ranks mTree = (if \<not> is_null mTree then node_pop ranks mTree else (None, mTree))"

definition heap_remove :: "('d \<Rightarrow> 'd \<Rightarrow> int) \<Rightarrow> 'd \<Rightarrow> 'd loc_heap \<Rightarrow> 'd option \<times> 'd loc_heap" where
  "heap_remove ranks d mTree =
     (if \<not> is_null mTree then node_remove ranks d mTree else (None, mTree))"

definition checkTree :: "('d \<Rightarrow> 'd \<Rightarrow> int) \<Rightarrow> 'd loc_heap \<Rightarrow> bool" where
  "checkTree ranks mTree \<longleftrightarrow> is_null mTree \<or> checkNodes ranks mTree"

definition getTreeSize :: "'d loc_heap \<Rightarrow> int" where
  "getTreeSize mTree = (if is_null mTree then 0 else node_size mTree)"

section \<open>The data of a heap\<close>

fun node_data :: "'d heap_node \<Rightarrow> 'd multiset" where
  "node_data NoNode = {#}"
| "node_data (HeapNode n l x r) = add_mset x (node_data l + node_data r)"

lemma node_data_empty_iff [simp]: "node_data t = {#} \<longleftrightarrow> is_null t"
  by (cases t) auto

lemma node_data_new [simp]: "node_data (new_node x) = {#x#}"
  by (simp add: new_node_def)

lemma not_null_iff: "\<not> is_null t \<longleftrightarrow> (\<exists>n l x r. t = HeapNode n l x r)"
  by (cases t) auto

lemma node_push_data [simp]: "node_data (node_push ranks d t) = add_mset d (node_data t)"
  by (induction ranks d t rule: node_push.induct) (auto simp: Let_def not_null_iff)

lemma node_push_not_null [simp]: "\<not> is_null (node_push ranks d t)"
  by (cases t) (auto simp: new_node_def Let_def)

lemma node_size_new [simp]: "node_size (new_node x) = 1"
  by (simp add: new_node_def)

lemma node_push_size [simp]: "node_size (node_push ranks d t) = node_size t + 1"
  by (cases t) (auto simp: Let_def)

lemma checkNodes_size: "checkNodes ranks t \<Longrightarrow> node_size t = int (size (node_data t))"
  by (induction t) (auto simp: not_null_iff is_null_def)

lemma node_pop_None: "fst (node_pop ranks t) = None \<longleftrightarrow> is_null t"
  by (induction ranks t rule: node_pop.induct) (auto simp: case_prod_beta Let_def)

lemma node_pop_top: "\<not> is_null t \<Longrightarrow> fst (node_pop ranks t) = Some (mData t)"
  by (induction ranks t rule: node_pop.induct) (auto simp: case_prod_beta Let_def)

lemma node_pop_data:
  "\<not> is_null t \<Longrightarrow> node_data t = add_mset (mData t) (node_data (snd (node_pop ranks t)))"
  by (induction ranks t rule: node_pop.induct) (auto simp: case_prod_beta Let_def)

definition all_ok :: "('d \<Rightarrow> bool) \<Rightarrow> 'd heap_node \<Rightarrow> bool" where
  "all_ok ok t \<longleftrightarrow> (\<forall>x \<in># node_data t. ok x)"

lemma all_ok_simps [simp]:
  "all_ok ok NoNode" "all_ok ok (HeapNode n l x r) \<longleftrightarrow> ok x \<and> all_ok ok l \<and> all_ok ok r"
  "all_ok ok (new_node x) \<longleftrightarrow> ok x" "all_ok ok (node_push ranks d t) \<longleftrightarrow> ok d \<and> all_ok ok t"
  by (auto simp: all_ok_def)

lemma all_ok_top: "all_ok ok t \<Longrightarrow> \<not> is_null t \<Longrightarrow> ok (mData t)"
  by (cases t) auto

text \<open>The order below the top, which is all that pop needs.\<close>

fun below_check :: "('d \<Rightarrow> 'd \<Rightarrow> int) \<Rightarrow> 'd heap_node \<Rightarrow> bool" where
  "below_check ranks NoNode \<longleftrightarrow> True"
| "below_check ranks (HeapNode n l x r) \<longleftrightarrow>
     checkNodes ranks l \<and> checkNodes ranks r \<and> n - node_size l - node_size r = 1"

lemma checkNodes_below: "checkNodes ranks t \<Longrightarrow> below_check ranks t"
  by (cases t) (auto simp: is_null_def)

section \<open>Rankings\<close>

text \<open>
  What the heap relies on: on the data in question ranks orders strictly and weakly. The second
  law says that not being outranked is transitive.
\<close>

locale rankable =
  fixes ranks :: "'d \<Rightarrow> 'd \<Rightarrow> int"
    and ok :: "'d \<Rightarrow> bool"
  assumes outranks_asym: "ok x \<Longrightarrow> ok y \<Longrightarrow> outRanks ranks x y \<Longrightarrow> \<not> outRanks ranks y x"
    and below_trans: "ok x \<Longrightarrow> ok y \<Longrightarrow> ok z \<Longrightarrow> \<not> outRanks ranks z y \<Longrightarrow> \<not> outRanks ranks y x \<Longrightarrow>
      \<not> outRanks ranks z x"
begin

lemma outranks_irrefl: "ok x \<Longrightarrow> \<not> outRanks ranks x x"
  using outranks_asym by blast

lemma outranks_below: "ok x \<Longrightarrow> ok y \<Longrightarrow> ok z \<Longrightarrow> outRanks ranks d x \<Longrightarrow> ok d \<Longrightarrow>
    \<not> outRanks ranks y x \<Longrightarrow> \<not> outRanks ranks y d"
  using below_trans outranks_asym by blast

text \<open>The top of a checked heap is outranked by none of its data.\<close>

lemma checkNodes_top:
  "checkNodes ranks t \<Longrightarrow> all_ok ok t \<Longrightarrow> \<not> is_null t \<Longrightarrow> y \<in># node_data t \<Longrightarrow>
     \<not> outRanks ranks y (mData t)"
proof (induction t)
  case NoNode
  then show ?case by simp
next
  case (HeapNode n l x r)
  have ok: "ok x" "all_ok ok l" "all_ok ok r" using HeapNode.prems(2) by auto
  have sub: "\<not> outRanks ranks y x"
    if "y \<in># node_data t" "is_null t \<or> \<not> outRanks ranks (mData t) x \<and> checkNodes ranks t"
      "all_ok ok t" "\<lbrakk>checkNodes ranks t; all_ok ok t; \<not> is_null t; y \<in># node_data t\<rbrakk> \<Longrightarrow>
        \<not> outRanks ranks y (mData t)" for t
  proof -
    have "\<not> is_null t" using that(1) by (cases t) auto
    with that have "\<not> outRanks ranks y (mData t)" "\<not> outRanks ranks (mData t) x" "ok (mData t)"
      "ok y" using all_ok_top by (auto simp: all_ok_def)
    with ok(1) show ?thesis using below_trans by blast
  qed
  show ?case
    using HeapNode.prems HeapNode.IH sub [of l] sub [of r] ok outranks_irrefl by auto
qed

lemma checkNodes_new [simp]: "checkNodes ranks (new_node x)"
  by (simp add: new_node_def)

lemma node_push_top:
  "mData (node_push ranks d t) =
     (if is_null t then d else if outRanks ranks d (mData t) then d else mData t)"
  by (cases t) (auto simp: new_node_def Let_def)

lemma node_push_below:
  assumes "all_ok ok t" "ok d" "ok x" "\<not> outRanks ranks d x"
    and "is_null t \<or> \<not> outRanks ranks (mData t) x"
  shows "\<not> outRanks ranks (mData (node_push ranks d t)) x"
  using assms by (auto simp: node_push_top)

lemma node_push_check:
  "checkNodes ranks t \<Longrightarrow> all_ok ok t \<Longrightarrow> ok d \<Longrightarrow> checkNodes ranks (node_push ranks d t)"
proof (induction t arbitrary: d)
  case NoNode
  then show ?case by simp
next
  case (HeapNode n l x r)
  define here down where "here = (if outRanks ranks d x then d else x)"
    and "down = (if outRanks ranks d x then x else d)"
  have ok: "ok x" "all_ok ok l" "all_ok ok r" "ok d" "ok here" "ok down"
    using HeapNode.prems(2,3) by (auto simp: here_def down_def)
  have low: "\<not> outRanks ranks down here"
    using ok outranks_asym by (auto simp: here_def down_def)
  have kept: "is_null t \<or> \<not> outRanks ranks (mData t) here"
    if "is_null t \<or> \<not> outRanks ranks (mData t) x \<and> checkNodes ranks t" "all_ok ok t" for t
    using that ok outranks_below [of x "mData t" x d] all_ok_top [of ok t] by (auto simp: here_def)
  have push: "node_push ranks d (HeapNode n l x r) =
     (if is_null l then HeapNode (n + 1) (new_node down) here r
      else if is_null r then HeapNode (n + 1) l here (new_node down)
      else if node_size l \<le> node_size r
      then HeapNode (n + 1) (node_push ranks down l) here r
      else HeapNode (n + 1) l here (node_push ranks down r))"
    by (simp add: here_def down_def)
  show ?case
    unfolding push
    using HeapNode.prems(1) HeapNode.IH(1) [of down] HeapNode.IH(2) [of down] ok low
      kept [of l] kept [of r] node_push_below [of l down here] node_push_below [of r down here]
    by (auto simp: new_node_def is_null_def)
qed

text \<open>pop leaves a checked heap, whose top is one of the children.\<close>

lemma node_pop_aux:
  "rk = ranks \<Longrightarrow> below_check rk t \<Longrightarrow> all_ok ok t \<Longrightarrow> \<not> is_null t \<Longrightarrow>
     checkNodes rk (snd (node_pop rk t)) \<and>
     node_size (snd (node_pop rk t)) = node_size t - 1 \<and>
     (\<forall>y. fits rk (mLeft t) y \<and> fits rk (mRight t) y \<longrightarrow> fits rk (snd (node_pop rk t)) y)"
proof (induction rk t rule: node_pop.induct)
  case (3 rk n x m l y r)
  have "checkNodes rk (HeapNode m l y r)" using 3(3) by (simp only: below_check.simps)
  with 3 fits_check [of ranks l y] fits_check [of ranks r y] show ?case
    by (simp add: case_prod_beta Let_def checkNodes_node del: checkNodes.simps(2))
next
  case (4 rk n m l y r x)
  have "checkNodes rk (HeapNode m l y r)" using 4(3) by (simp only: below_check.simps)
  with 4 fits_check [of ranks l y] fits_check [of ranks r y] show ?case
    by (simp add: case_prod_beta Let_def checkNodes_node del: checkNodes.simps(2))
next
  case (5 rk n m l y r x m' l' z r')
  have c: "checkNodes rk (HeapNode m l y r)" "checkNodes rk (HeapNode m' l' z r')"
    using 5(4) by (simp_all only: below_check.simps)
  have "outRanks rk y z \<Longrightarrow> \<not> outRanks rk z y"
    using 5(3,5) outranks_asym [of y z] by simp
  with 5 c fits_check [of ranks l y] fits_check [of ranks r y]
    fits_check [of ranks l' z] fits_check [of ranks r' z] show ?case
    by (simp add: case_prod_beta Let_def checkNodes_node del: checkNodes.simps(2))
qed simp_all

lemma fits_below:
  assumes "fits ranks c x" "all_ok ok c" "\<not> outRanks ranks x y" "ok x" "ok y"
  shows "fits ranks c y"
  using assms below_trans [of y x "mData c"] all_ok_top [of ok c] by (auto simp: fits_def)

lemma node_pop_check:
  assumes "checkNodes ranks t" "all_ok ok t" "\<not> is_null t"
  shows "checkNodes ranks (snd (node_pop ranks t))"
    "node_size (snd (node_pop ranks t)) = node_size t - 1"
    "ok y \<Longrightarrow> fits ranks t y \<Longrightarrow> fits ranks (snd (node_pop ranks t)) y"
proof -
  note aux = node_pop_aux [OF refl checkNodes_below [OF assms(1)] assms(2,3)]
  show "checkNodes ranks (snd (node_pop ranks t))"
    "node_size (snd (node_pop ranks t)) = node_size t - 1"
    using aux by simp_all
  assume y: "ok y" "fits ranks t y"
  obtain n l x r where t: "t = HeapNode n l x r" using assms(3) by (cases t) auto
  have "fits ranks l y" "fits ranks r y"
    using y assms(1,2) t fits_below [of l x y] fits_below [of r x y]
    by (simp_all add: checkNodes_node del: checkNodes.simps(2))
  with aux t show "fits ranks (snd (node_pop ranks t)) y" by simp
qed

lemma node_remove_check:
  assumes "checkNodes ranks t" "all_ok ok t" "ok d"
  shows "if d \<in># node_data t
    then fst (node_remove ranks d t) = Some d \<and>
      checkNodes ranks (snd (node_remove ranks d t)) \<and>
      node_size (snd (node_remove ranks d t)) = node_size t - 1 \<and>
      node_data t = add_mset d (node_data (snd (node_remove ranks d t))) \<and>
      (\<forall>y. ok y \<longrightarrow> fits ranks t y \<longrightarrow> fits ranks (snd (node_remove ranks d t)) y)
    else node_remove ranks d t = (None, t)"
  using assms
proof (induction t)
  case NoNode
  then show ?case by simp
next
  case (HeapNode n l x r)
  let ?t = "HeapNode n l x r"
  have sub: "fits ranks l x" "fits ranks r x" "n - node_size l - node_size r = 1"
    using HeapNode.prems(1) by (simp_all add: checkNodes_node del: checkNodes.simps(2))
  have ok: "ok x" "all_ok ok l" "all_ok ok r" "ok d" using HeapNode.prems by auto
  note IH = HeapNode.IH(1) [OF fits_check [OF sub(1)] ok(2,4)]
    HeapNode.IH(2) [OF fits_check [OF sub(2)] ok(3,4)]
  show ?case
  proof (cases "d = x")
    case True
    have "\<not> is_null ?t" by simp
    from node_pop_check [OF HeapNode.prems(1,2) this] node_pop_top [OF this, of ranks]
      node_pop_data [OF this, of ranks] True show ?thesis
      by (simp del: checkNodes.simps(2) node_pop.simps)
  next
    case False
    have below: "d \<in># node_data l \<or> d \<in># node_data r \<Longrightarrow> \<not> outRanks ranks d x"
      using checkNodes_top [OF HeapNode.prems(1,2)] by auto
    show ?thesis
    proof (cases "d \<in># node_data l \<or> d \<in># node_data r")
      case True
      with below False IH sub ok show ?thesis
        by (cases "d \<in># node_data l"; cases "node_remove ranks d l"; cases "node_remove ranks d r")
          (simp_all add: checkNodes_node del: checkNodes.simps(2))
    next
      case none: False
      with False IH show ?thesis by (simp split: if_splits)
    qed
  qed
qed

end

section \<open>The contract\<close>

text \<open>Up to n pops in a row, ending early when nothing is left.\<close>

fun pops :: "('q \<Rightarrow> 'd option \<times> 'q) \<Rightarrow> nat \<Rightarrow> 'q \<Rightarrow> 'd list \<times> 'q" where
  "pops pop 0 q = ([], q)"
| "pops pop (Suc n) q =
     (case pop q of
        (None, q1) \<Rightarrow> ([], q1)
      | (Some x, q1) \<Rightarrow> let (xs, q2) = pops pop n q1 in (x # xs, q2))"

text \<open>
  A priority queue of client data: peek shows data that nothing in the queue outranks, pop takes
  what peek shows, remove takes the given data if the queue holds it.
\<close>

locale ranked_queue = rankable ranks ok
  for ranks :: "'d \<Rightarrow> 'd \<Rightarrow> int" and ok :: "'d \<Rightarrow> bool" +
  fixes valid :: "'q \<Rightarrow> bool"
    and held :: "'q \<Rightarrow> 'd multiset"
    and push :: "'d \<Rightarrow> 'q \<Rightarrow> 'q"
    and peek :: "'q \<Rightarrow> 'd option"
    and pop :: "'q \<Rightarrow> 'd option \<times> 'q"
    and remove :: "'d \<Rightarrow> 'q \<Rightarrow> 'd option \<times> 'q"
  assumes held_ok: "valid q \<Longrightarrow> x \<in># held q \<Longrightarrow> ok x"
    and push_law: "valid q \<Longrightarrow> ok x \<Longrightarrow> valid (push x q) \<and> held (push x q) = add_mset x (held q)"
    and peek_law: "valid q \<Longrightarrow> (case peek q of
        None \<Rightarrow> held q = {#}
      | Some x \<Rightarrow> x \<in># held q \<and> (\<forall>y \<in># held q. \<not> outRanks ranks y x))"
    and pop_law: "valid q \<Longrightarrow> fst (pop q) = peek q \<and> valid (snd (pop q)) \<and>
        held q = (case peek q of None \<Rightarrow> {#} | Some x \<Rightarrow> add_mset x (held (snd (pop q))))"
    and remove_law: "valid q \<Longrightarrow> ok x \<Longrightarrow>
        (if x \<in># held q
         then fst (remove x q) = Some x \<and> valid (snd (remove x q)) \<and>
           held q = add_mset x (held (snd (remove x q)))
         else remove x q = (None, q))"
begin

lemma pop_SomeD:
  assumes "valid q" "pop q = (Some x, q')"
  shows "valid q'" "held q = add_mset x (held q')" "ok x" "\<forall>y \<in># held q'. \<not> outRanks ranks y x"
proof -
  have p: "peek q = Some x" "valid q'" "held q = add_mset x (held q')"
    using pop_law [OF assms(1)] assms(2) by (auto split: option.splits)
  with peek_law [OF assms(1)] held_ok [OF assms(1)]
  show "valid q'" "held q = add_mset x (held q')" "ok x" "\<forall>y \<in># held q'. \<not> outRanks ranks y x"
    by auto
qed

lemma pop_NoneD:
  assumes "valid q" "pop q = (None, q')"
  shows "valid q'" "held q = {#}"
  using pop_law [OF assms(1)] assms(2) by (auto split: option.splits)

lemma pops_sorted:
  "valid q \<Longrightarrow> size (held q) \<le> n \<Longrightarrow> pops pop n q = (xs, q') \<Longrightarrow>
     mset xs = held q \<and> sorted_wrt (\<lambda>x y. \<not> outRanks ranks y x) xs \<and> valid q' \<and>
     length xs = size (held q)"
proof (induction n arbitrary: q xs q')
  case 0
  then show ?case by simp
next
  case (Suc n)
  obtain d q1 where d: "pop q = (d, q1)" by (cases "pop q")
  show ?case
  proof (cases d)
    case None
    with Suc.prems d pop_NoneD [OF Suc.prems(1)] show ?thesis by auto
  next
    case (Some x)
    obtain ys q2 where ys: "pops pop n q1 = (ys, q2)" by (cases "pops pop n q1")
    note x = pop_SomeD [OF Suc.prems(1) d [unfolded Some]]
    have "mset ys = held q1 \<and> sorted_wrt (\<lambda>x y. \<not> outRanks ranks y x) ys \<and> valid q2 \<and>
        length ys = size (held q1)"
      using Suc.IH [OF x(1) _ ys] Suc.prems(2) x(2) by simp
    with Suc.prems(3) d Some ys x(2,4) show ?thesis
      by (auto simp flip: set_mset_mset)
  qed
qed

lemma push_all:
  "valid q \<Longrightarrow> \<forall>x \<in> set xs. ok x \<Longrightarrow>
     valid (fold push xs q) \<and> held (fold push xs q) = held q + mset xs"
  by (induction xs arbitrary: q) (simp_all add: push_law)

end

section \<open>The heap meets the contract\<close>

definition heap_valid :: "('d \<Rightarrow> 'd \<Rightarrow> int) \<Rightarrow> ('d \<Rightarrow> bool) \<Rightarrow> 'd loc_heap \<Rightarrow> bool" where
  "heap_valid ranks ok t \<longleftrightarrow> checkTree ranks t \<and> all_ok ok t"

lemma checkTree_iff: "checkTree ranks t \<longleftrightarrow> checkNodes ranks t"
  by (cases t) (auto simp: checkTree_def)

lemma heap_valid_empty [simp]: "heap_valid ranks ok NoNode"
  by (simp add: heap_valid_def checkTree_def)

lemma heap_valid_size: "heap_valid ranks ok t \<Longrightarrow> getTreeSize t = int (size (node_data t))"
  using checkNodes_size [of ranks t]
  by (cases t) (auto simp: heap_valid_def checkTree_iff getTreeSize_def)

lemma all_ok_sub:
  "all_ok ok t \<Longrightarrow> node_data t = add_mset x (node_data t') \<Longrightarrow> all_ok ok t'"
  by (simp add: all_ok_def)

context rankable begin

lemma heap_ranked_queue:
  "ranked_queue ranks ok (heap_valid ranks ok) node_data (heap_push ranks) heap_peek
     (heap_pop ranks) (heap_remove ranks)"
proof unfold_locales
  fix q x
  show "heap_valid ranks ok q \<Longrightarrow> x \<in># node_data q \<Longrightarrow> ok x"
    by (simp add: heap_valid_def all_ok_def)
  show "heap_valid ranks ok q \<Longrightarrow> ok x \<Longrightarrow>
      heap_valid ranks ok (heap_push ranks x q) \<and>
      node_data (heap_push ranks x q) = add_mset x (node_data q)"
    using node_push_check [of q x]
    by (auto simp: heap_valid_def checkTree_iff heap_push_def is_null_def)
  show "heap_valid ranks ok q \<Longrightarrow> (case heap_peek q of
        None \<Rightarrow> node_data q = {#}
      | Some x \<Rightarrow> x \<in># node_data q \<and> (\<forall>y \<in># node_data q. \<not> outRanks ranks y x))"
    using checkNodes_top [of q]
    by (cases q) (auto simp: heap_valid_def checkTree_iff heap_peek_def)
  show "heap_valid ranks ok q \<Longrightarrow> fst (heap_pop ranks q) = heap_peek q \<and>
      heap_valid ranks ok (snd (heap_pop ranks q)) \<and>
      node_data q = (case heap_peek q of None \<Rightarrow> {#}
        | Some x \<Rightarrow> add_mset x (node_data (snd (heap_pop ranks q))))"
    using node_pop_check(1) [of q] node_pop_data [of q ranks] node_pop_top [of q ranks]
      all_ok_sub [of ok q "mData q" "snd (node_pop ranks q)"]
    by (cases "is_null q") (auto simp: heap_valid_def checkTree_iff heap_peek_def heap_pop_def)
  show "heap_valid ranks ok q \<Longrightarrow> ok x \<Longrightarrow>
      (if x \<in># node_data q
       then fst (heap_remove ranks x q) = Some x \<and>
         heap_valid ranks ok (snd (heap_remove ranks x q)) \<and>
         node_data q = add_mset x (node_data (snd (heap_remove ranks x q)))
       else heap_remove ranks x q = (None, q))"
    using node_remove_check [of q x] all_ok_sub [of ok q x "snd (node_remove ranks x q)"]
    unfolding heap_valid_def checkTree_iff heap_remove_def
    by (cases "x \<in># node_data q"; cases "is_null q") (simp_all only: if_True if_False simp_thms,
        auto simp: is_null_def)
qed

end

sublocale rankable \<subseteq> heap: ranked_queue ranks ok "heap_valid ranks ok" node_data "heap_push ranks"
    heap_peek "heap_pop ranks" "heap_remove ranks"
  by (rule heap_ranked_queue)

end
