(* ===== verification/Loc_Timer.thy ===== *)
theory Loc_Timer
  imports Loc_Heap "HOL-Library.Word"
begin

text \<open>
  The timer service of the GPS utilities (gps/utils/LocTimer.cpp): clients (LocTimer), their
  ticking delegates (LocTimerDelegate), the two containers (LocTimerContainer, heaps of
  delegates), the poll thread and the message task in whose thread all heap work is done.

  Objects are addresses. The store of delegates makes their lifetime explicit: reading a delegate
  that has been deleted raises the flag fault. A heap element is a pointer to a delegate; it
  carries the time that the ranking reads, which never changes while the delegate lives. The
  kernel's timerfd is the field armed of its container, the epoll registration the field polled.
  The two containers are indexed by wakeOnExpire.

  A step is one client call, one message of the task, one wake-up of the poll thread, or the
  passing of time; locks make each of them atomic. What a client does in its callback is a
  parameter, a list of calls that may depend on the callbacks so far.
\<close>

section \<open>Time and ranking\<close>

record timespec =
  tv_sec :: int
  tv_nsec :: int

record timer_ref =
  tr_addr :: ptr
  tr_time :: timespec

definition c_int :: "int \<Rightarrow> int" where
  "c_int x = sint (word_of_int x :: int32)"

definition timer_ranks :: "timer_ref \<Rightarrow> timer_ref \<Rightarrow> int" where
  "timer_ranks this other =
     (let rank = c_int (tv_sec (tr_time other) - tv_sec (tr_time this)) in
      if rank = 0 then c_int (tv_nsec (tr_time other) - tv_nsec (tr_time this)) else rank)"

text \<open>The end of a timer that starts now, as LocTimer::start computes it.\<close>

definition future_time :: "timespec \<Rightarrow> int32 \<Rightarrow> timespec" where
  "future_time t timeOutInMs =
     (let sec = tv_sec t + uint (timeOutInMs div 1000);
          nsec = tv_nsec t + uint (timeOutInMs mod 1000 * 1000000)
      in if 1000000000 \<le> nsec
         then \<lparr>tv_sec = sec + nsec div 1000000000, tv_nsec = nsec mod 1000000000\<rparr>
         else \<lparr>tv_sec = sec, tv_nsec = nsec\<rparr>)"

section \<open>State\<close>

record delegate =
  mClient :: ptr
  mContainer :: "bool option"
  mFutureTime :: timespec

record timer_container =
  mTree :: "timer_ref loc_heap"
  created :: bool
  armed :: "timespec option"
  polled :: bool

datatype timer_msg =
    MsgTimerPush bool ptr
  | MsgTimerRemove bool ptr
  | MsgTimerExpire bool

datatype timer_event = Started ptr | Stopped ptr | CalledBack ptr

record timer_sys =
  containers :: "bool \<Rightarrow> timer_container"
  delegates :: "ptr \<rightharpoonup> delegate"
  mTimer :: "ptr \<Rightarrow> ptr"
  msgs :: "timer_msg list"
  clock :: timespec
  events :: "timer_event list"
  fault :: bool

definition set_container :: "bool \<Rightarrow> timer_container \<Rightarrow> timer_sys \<Rightarrow> timer_sys" where
  "set_container k c s = s\<lparr>containers := (containers s)(k := c)\<rparr>"

definition set_tree :: "bool \<Rightarrow> timer_ref loc_heap \<Rightarrow> timer_sys \<Rightarrow> timer_sys" where
  "set_tree k t s = set_container k ((containers s k)\<lparr>mTree := t\<rparr>) s"

definition sendMsg :: "timer_msg \<Rightarrow> timer_sys \<Rightarrow> timer_sys" where
  "sendMsg m s = s\<lparr>msgs := msgs s @ [m]\<rparr>"

section \<open>Delegates and clients\<close>

definition destroyLocked :: "ptr \<Rightarrow> timer_sys \<Rightarrow> timer_sys" where
  "destroyLocked a s = (case delegates s a of
      None \<Rightarrow> s\<lparr>fault := True\<rparr>
    | Some d \<Rightarrow>
        (case mContainer d of
           None \<Rightarrow> s\<lparr>delegates := (delegates s)(a \<mapsto> d\<lparr>mClient := NULL\<rparr>)\<rparr>
         | Some k \<Rightarrow>
             sendMsg (MsgTimerRemove k a)
               (s\<lparr>delegates := (delegates s)(a \<mapsto> d\<lparr>mClient := NULL, mContainer := None\<rparr>)\<rparr>)))"

definition timer_stop :: "ptr \<Rightarrow> timer_sys \<Rightarrow> bool \<times> timer_sys" where
  "timer_stop c s =
     (if mTimer s c \<noteq> NULL
      then (True, destroyLocked (mTimer s c) (s\<lparr>mTimer := (mTimer s)(c := NULL)\<rparr>))
      else (False, s))"

text \<open>LocTimerContainer::get creates a container on demand; timerfd\_create may fail.\<close>

definition container_get :: "bool \<Rightarrow> bool \<Rightarrow> timer_sys \<Rightarrow> bool \<times> timer_sys" where
  "container_get wakeOnExpire fd_ok s =
     (if created (containers s wakeOnExpire) then (True, s)
      else if fd_ok
      then (True, set_container wakeOnExpire
              \<lparr>mTree = NoNode, created = True, armed = None, polled = False\<rparr> s)
      else (False, s))"

text \<open>The constructor of a delegate, at the address the allocator gives.\<close>

definition new_delegate :: "ptr \<Rightarrow> ptr \<Rightarrow> timespec \<Rightarrow> bool \<Rightarrow> timer_sys \<Rightarrow> timer_sys" where
  "new_delegate a c t k s =
     sendMsg (MsgTimerPush k a)
       (s\<lparr>delegates := (delegates s)(a \<mapsto>
            \<lparr>mClient = c, mContainer = Some k, mFutureTime = t\<rparr>)\<rparr>)"

definition timer_start :: "ptr \<Rightarrow> int32 \<Rightarrow> bool \<Rightarrow> bool \<Rightarrow> ptr \<Rightarrow> timer_sys \<Rightarrow> bool \<times> timer_sys" where
  "timer_start c timeOutInMs wakeOnExpire fd_ok a s =
     (if mTimer s c = NULL
      then let t = future_time (clock s) timeOutInMs;
               (ok, s1) = container_get wakeOnExpire fd_ok s
           in if ok
              then let s2 = new_delegate a c t wakeOnExpire s1
                   in (True, s2\<lparr>mTimer := (mTimer s2)(c := a)\<rparr>)
              else (False, s1)
      else (False, s))"

text \<open>
  The calls of a client, logged when they succeed. An address that is in use is not one that the
  allocator could have given, and no client lives at address zero.
\<close>

datatype client_op =
    Op_start ptr int32 bool bool ptr
  | Op_stop ptr

fun client_call :: "client_op \<Rightarrow> timer_sys \<Rightarrow> timer_sys" where
  "client_call (Op_start c ms wake fd_ok a) s =
     (if a = NULL \<or> a \<in> dom (delegates s) \<or> c = NULL then s
      else let (ok, s1) = timer_start c ms wake fd_ok a s
           in if ok then s1\<lparr>events := events s1 @ [Started c]\<rparr> else s1)"
| "client_call (Op_stop c) s =
     (let (ok, s1) = timer_stop c s
      in if ok then s1\<lparr>events := events s1 @ [Stopped c]\<rparr> else s1)"

definition timeOutCallback :: "(timer_event list \<Rightarrow> client_op list) \<Rightarrow> ptr \<Rightarrow> timer_sys \<Rightarrow> timer_sys" where
  "timeOutCallback cb c s =
     (let s1 = s\<lparr>events := events s @ [CalledBack c]\<rparr> in fold client_call (cb (events s1)) s1)"

definition delegate_expire :: "(timer_event list \<Rightarrow> client_op list) \<Rightarrow> ptr \<Rightarrow> timer_sys \<Rightarrow> timer_sys" where
  "delegate_expire cb a s = (case delegates s a of
      None \<Rightarrow> s\<lparr>fault := True\<rparr>
    | Some d \<Rightarrow>
        (if mClient d \<noteq> NULL
         then let (ok, s1) = timer_stop (mClient d) s
              in if ok then timeOutCallback cb (mClient d) s1 else s1
         else s))"

section \<open>Containers\<close>

definition updateSoonestTime :: "timer_ref option \<Rightarrow> timer_container \<Rightarrow> timer_container" where
  "updateSoonestTime priorTop c =
     (let curTop = heap_peek (mTree c) in
      if curTop \<noteq> priorTop
      then (case curTop of
              None \<Rightarrow> c\<lparr>polled := False, armed := None\<rparr>
            | Some t \<Rightarrow>
                (if (case priorTop of None \<Rightarrow> True | Some p \<Rightarrow> outRanks timer_ranks t p)
                 then c\<lparr>polled := True, armed := Some (tr_time t)\<rparr>
                 else c))
      else c)"

definition proc_push :: "bool \<Rightarrow> ptr \<Rightarrow> timer_sys \<Rightarrow> timer_sys" where
  "proc_push k a s = (case delegates s a of
      None \<Rightarrow> s\<lparr>fault := True\<rparr>
    | Some d \<Rightarrow>
        (let c = containers s k;
             priorTop = heap_peek (mTree c);
             c1 = c\<lparr>mTree := heap_push timer_ranks \<lparr>tr_addr = a, tr_time = mFutureTime d\<rparr> (mTree c)\<rparr>
         in set_container k (updateSoonestTime priorTop c1) s))"

definition proc_remove :: "bool \<Rightarrow> ptr \<Rightarrow> timer_sys \<Rightarrow> timer_sys" where
  "proc_remove k a s = (case delegates s a of
      None \<Rightarrow> s\<lparr>fault := True\<rparr>
    | Some d \<Rightarrow>
        (let c = containers s k;
             priorTop = heap_peek (mTree c);
             (removed, t) = heap_remove timer_ranks \<lparr>tr_addr = a, tr_time = mFutureTime d\<rparr> (mTree c);
             c1 = c\<lparr>mTree := t\<rparr>;
             c2 = (if priorTop = removed then updateSoonestTime None c1 else c1)
         in (set_container k c2 s)\<lparr>delegates := (delegates s)(a := None)\<rparr>))"

definition popIfOutRanks :: "timer_ref \<Rightarrow> timer_ref loc_heap \<Rightarrow> timer_ref option \<times> timer_ref loc_heap" where
  "popIfOutRanks timer t =
     (if \<not> is_null t \<and> \<not> outRanks timer_ranks timer (mData t) then heap_pop timer_ranks t
      else (None, t))"

text \<open>Client calls never put data into a heap, so the loop over the expired timers ends.\<close>

definition heap_count :: "bool \<Rightarrow> timer_sys \<Rightarrow> nat" where
  "heap_count k s = size (node_data (mTree (containers s k)))"

lemma heap_count_simps [simp]:
  "heap_count k (sendMsg m s) = heap_count k s"
  "heap_count k (s\<lparr>delegates := ds\<rparr>) = heap_count k s"
  "heap_count k (s\<lparr>mTimer := ts\<rparr>) = heap_count k s"
  "heap_count k (s\<lparr>events := es\<rparr>) = heap_count k s"
  "heap_count k (s\<lparr>fault := b\<rparr>) = heap_count k s"
  "heap_count k (set_tree k t s) = size (node_data t)"
  by (simp_all add: heap_count_def sendMsg_def set_tree_def set_container_def)

lemma heap_count_destroy [simp]: "heap_count k (destroyLocked a s) = heap_count k s"
  by (simp add: destroyLocked_def split: option.splits)

lemma heap_count_stop [simp]: "heap_count k (snd (timer_stop c s)) = heap_count k s"
  by (simp add: timer_stop_def)

lemma heap_count_get: "heap_count k (snd (container_get w f s)) \<le> heap_count k s"
  by (simp add: container_get_def heap_count_def set_container_def)

lemma heap_count_start: "heap_count k (snd (timer_start c ms w f a s)) \<le> heap_count k s"
  using heap_count_get [of k w f s]
  by (simp add: timer_start_def new_delegate_def case_prod_beta Let_def)

lemma heap_count_call: "heap_count k (client_call op s) \<le> heap_count k s"
  using heap_count_start by (cases op) (simp_all add: case_prod_beta Let_def)

lemma heap_count_calls: "heap_count k (fold client_call ops s) \<le> heap_count k s"
proof (induction ops arbitrary: s)
  case Nil
  then show ?case by simp
next
  case (Cons op ops)
  from Cons.IH [of "client_call op s"] heap_count_call [of k op s] show ?case by simp
qed

lemma heap_count_expire: "heap_count k (delegate_expire cb a s) \<le> heap_count k s"
proof -
  have "heap_count k (timeOutCallback cb c s) \<le> heap_count k s" for c s
    using heap_count_calls [of k _ "s\<lparr>events := events s @ [CalledBack c]\<rparr>"]
    by (simp add: timeOutCallback_def Let_def)
  from this [of _ "snd (timer_stop _ s)"] show ?thesis
    by (simp add: delegate_expire_def case_prod_beta Let_def split: option.splits)
qed

lemma popIfOutRanks_count:
  "popIfOutRanks timer t = (Some x, t') \<Longrightarrow> size (node_data t) = Suc (size (node_data t'))"
  using node_pop_data [of t timer_ranks]
  by (auto simp: popIfOutRanks_def heap_pop_def split: if_splits)

function expire_loop ::
  "(timer_event list \<Rightarrow> client_op list) \<Rightarrow> bool \<Rightarrow> timer_ref \<Rightarrow> timer_ref option \<Rightarrow>
     timer_sys \<Rightarrow> timer_sys" where
  "expire_loop cb k timerOfNow None s = s"
| "expire_loop cb k timerOfNow (Some t) s =
     (let s1 = delegate_expire cb (tr_addr t) s;
          (next_timer, tree) = popIfOutRanks timerOfNow (mTree (containers s1 k))
      in expire_loop cb k timerOfNow next_timer (set_tree k tree s1))"
  by pat_completeness auto

termination
proof (relation "measure (\<lambda>(cb, k, n, t, s). case t of None \<Rightarrow> 0 | Some _ \<Rightarrow> Suc (heap_count k s))",
    goal_cases)
  case 1
  then show ?case by simp
next
  case (2 cb k n t s s1 p x tree)
  show ?case
  proof (cases x)
    case None
    then show ?thesis by simp
  next
    case (Some y)
    with 2 have "popIfOutRanks n (mTree (containers s1 k)) = (Some y, tree)" by simp
    from popIfOutRanks_count [OF this] heap_count_expire [of k cb "tr_addr t" s] 2(1) Some
    show ?thesis by (simp add: heap_count_def set_tree_def set_container_def)
  qed
qed

definition proc_expire :: "(timer_event list \<Rightarrow> client_op list) \<Rightarrow> bool \<Rightarrow> timer_sys \<Rightarrow> timer_sys" where
  "proc_expire cb k s =
     (let timerOfNow = \<lparr>tr_addr = NULL, tr_time = clock s\<rparr>;
          (timer, tree) = heap_pop timer_ranks (mTree (containers s k));
          s1 = expire_loop cb k timerOfNow timer (set_tree k tree s)
      in set_container k (updateSoonestTime None (containers s1 k)) s1)"

section \<open>The threads\<close>

text \<open>The message task takes the next message; the poll thread handles an expired descriptor.\<close>

definition msg_task :: "(timer_event list \<Rightarrow> client_op list) \<Rightarrow> timer_sys \<Rightarrow> timer_sys" where
  "msg_task cb s = (case msgs s of
      [] \<Rightarrow> s
    | m # ms \<Rightarrow>
        (let s1 = s\<lparr>msgs := ms\<rparr> in
         case m of
           MsgTimerPush k a \<Rightarrow> proc_push k a s1
         | MsgTimerRemove k a \<Rightarrow> proc_remove k a s1
         | MsgTimerExpire k \<Rightarrow> proc_expire cb k s1))"

definition container_expire :: "bool \<Rightarrow> timer_sys \<Rightarrow> timer_sys" where
  "container_expire k s =
     sendMsg (MsgTimerExpire k)
       (set_container k ((containers s k)\<lparr>armed := None, polled := False\<rparr>) s)"

definition nanos :: "timespec \<Rightarrow> int" where
  "nanos t = tv_sec t * 1000000000 + tv_nsec t"

definition poll_run :: "bool \<Rightarrow> timer_sys \<Rightarrow> timer_sys" where
  "poll_run k s =
     (case armed (containers s k) of
        Some t \<Rightarrow> if polled (containers s k) \<and> nanos t \<le> nanos (clock s)
                  then container_expire k s else s
      | None \<Rightarrow> s)"

datatype timer_input =
    In_client client_op
  | In_task
  | In_poll bool
  | In_time timespec

text \<open>The clock since boot only moves forward and stays below 2^30 seconds, some 34 years.\<close>

definition clock_ok :: "timespec \<Rightarrow> bool" where
  "clock_ok t \<longleftrightarrow> 0 \<le> tv_sec t \<and> tv_sec t < 2 ^ 30 \<and> 0 \<le> tv_nsec t \<and> tv_nsec t < 1000000000"

definition timer_step :: "(timer_event list \<Rightarrow> client_op list) \<Rightarrow> timer_input \<Rightarrow> timer_sys \<Rightarrow> timer_sys" where
  "timer_step cb i s = (case i of
      In_client op \<Rightarrow> client_call op s
    | In_task \<Rightarrow> msg_task cb s
    | In_poll k \<Rightarrow> poll_run k s
    | In_time t \<Rightarrow>
        if clock_ok t \<and> nanos (clock s) \<le> nanos t then s\<lparr>clock := t\<rparr> else s)"

definition timer_init :: timer_sys where
  "timer_init = \<lparr>containers = (\<lambda>_. \<lparr>mTree = NoNode, created = False, armed = None, polled = False\<rparr>),
     delegates = Map.empty, mTimer = (\<lambda>_. NULL), msgs = [], clock = \<lparr>tv_sec = 0, tv_nsec = 0\<rparr>,
     events = [], fault = False\<rparr>"

section \<open>The C interface\<close>

text \<open>
  loc\_timer\_start allocates a wrapper, whose timer it starts with the low word of the timeout;
  the wrapper is returned whether or not the timer started.
\<close>

definition loc_timer_start :: "64 word \<Rightarrow> bool \<Rightarrow> bool \<Rightarrow> bool \<Rightarrow> ptr \<Rightarrow> ptr \<Rightarrow> timer_sys \<Rightarrow> ptr \<times> timer_sys" where
  "loc_timer_start msec cb_func wake_on_expire fd_ok wrapper a s =
     (if cb_func
      then (wrapper, client_call (Op_start wrapper (ucast msec) wake_on_expire fd_ok a) s)
      else (NULL, s))"

end
