(* ===== verification/Timer_Inv.thy ===== *)
theory Timer_Inv
  imports Loc_Timer
begin

text \<open>
  The invariant of the timer service: the ranking of timers is an order on the times that occur,
  so the containers are priority queues; and every delegate is in exactly one phase of its life,
  told by the messages about it that wait and by the heap that holds it.
\<close>

section \<open>The ranking orders times\<close>

definition time_ok :: "timespec \<Rightarrow> bool" where
  "time_ok t \<longleftrightarrow> 0 \<le> tv_sec t \<and> tv_sec t < 2 ^ 31 \<and> 0 \<le> tv_nsec t \<and> tv_nsec t < 1000000000"

lemma ref_eq_iff: "r = \<lparr>tr_addr = a, tr_time = t\<rparr> \<longleftrightarrow> tr_addr r = a \<and> tr_time r = t"
  by (cases r) auto

definition ref_ok :: "timer_ref \<Rightarrow> bool" where
  "ref_ok r = time_ok (tr_time r)"

lemma c_int_small: "- (2 ^ 31) \<le> x \<Longrightarrow> x < 2 ^ 31 \<Longrightarrow> c_int x = x"
  by (simp add: c_int_def signed_of_int signed_take_bit_int_eq_self)

lemma timer_ranks_nanos:
  assumes "ref_ok a" "ref_ok b"
  shows "outRanks timer_ranks a b \<longleftrightarrow> nanos (tr_time a) < nanos (tr_time b)"
proof -
  let ?s = "tv_sec (tr_time b) - tv_sec (tr_time a)"
  let ?n = "tv_nsec (tr_time b) - tv_nsec (tr_time a)"
  have r: "0 \<le> tv_sec (tr_time a)" "tv_sec (tr_time a) < 2147483648"
    "0 \<le> tv_nsec (tr_time a)" "tv_nsec (tr_time a) < 1000000000"
    "0 \<le> tv_sec (tr_time b)" "tv_sec (tr_time b) < 2147483648"
    "0 \<le> tv_nsec (tr_time b)" "tv_nsec (tr_time b) < 1000000000"
    using assms by (simp_all add: ref_ok_def time_ok_def)
  have "c_int ?s = ?s" "c_int ?n = ?n" using r by (simp_all add: c_int_small)
  then show ?thesis
    using r by (auto simp: outRanks_def timer_ranks_def nanos_def Let_def)
qed

interpretation timer: rankable timer_ranks ref_ok
  by unfold_locales (auto simp: timer_ranks_nanos)

abbreviation timer_heap :: "timer_ref loc_heap \<Rightarrow> bool" where
  "timer_heap \<equiv> heap_valid timer_ranks ref_ok"

lemma ms_nanos: "uint (ms mod 1000 * 1000000 :: int32) = uint ms mod 1000 * 1000000"
proof -
  have "uint (ms mod 1000) = uint ms mod 1000" by (simp add: uint_mod_distrib)
  then show ?thesis by (simp add: uint_word_ariths(3))
qed

lemma ms_seconds: "uint (ms div 1000 :: int32) = uint ms div 1000"
  by (simp add: uint_div_distrib)

lemma nanos_future: "nanos (future_time t ms) = nanos t + uint ms * 1000000"
proof -
  have "uint ms * 1000000 = uint ms div 1000 * 1000000000 + uint ms mod 1000 * 1000000"
    by presburger
  moreover have "n div 1000000000 * 1000000000 + n mod 1000000000 = n" for n :: int by simp
  ultimately show ?thesis
    by (simp add: future_time_def nanos_def ms_nanos ms_seconds Let_def algebra_simps)
qed

lemma future_time_ok:
  assumes "clock_ok t"
  shows "time_ok (future_time t ms)"
proof -
  have u: "uint ms < 4294967296" "0 \<le> uint ms" using uint_lt2p [of ms] by simp_all
  have "0 \<le> n div 1000 \<and> n div 1000 \<le> 4294967 \<and> 0 \<le> n mod 1000 \<and> n mod 1000 < 1000"
    if "n < 4294967296" "0 \<le> n" for n :: int
    using that zdiv_mono1 [of n 4294967295 1000] by (simp add: pos_imp_zdiv_nonneg_iff)
  from this [OF u] have ms: "0 \<le> uint ms div 1000" "uint ms div 1000 \<le> 4294967"
    "0 \<le> uint ms mod 1000" "uint ms mod 1000 < 1000" by blast+
  have t: "0 \<le> tv_sec t" "tv_sec t < 1073741824" "0 \<le> tv_nsec t" "tv_nsec t < 1000000000"
    using assms by (simp_all add: clock_ok_def)
  have d: "(tv_nsec t + uint ms mod 1000 * 1000000) div 1000000000 \<le> 1"
    "0 \<le> (tv_nsec t + uint ms mod 1000 * 1000000) div 1000000000"
    using t ms by linarith+
  then show ?thesis
    using t ms by (simp add: time_ok_def future_time_def ms_nanos ms_seconds Let_def)
qed

section \<open>The phases of a delegate\<close>

fun about :: "ptr \<Rightarrow> timer_msg \<Rightarrow> bool" where
  "about a (MsgTimerPush k b) \<longleftrightarrow> b = a"
| "about a (MsgTimerRemove k b) \<longleftrightarrow> b = a"
| "about a (MsgTimerExpire k) \<longleftrightarrow> False"

definition pending :: "ptr \<Rightarrow> timer_sys \<Rightarrow> timer_msg list" where
  "pending a s = filter (about a) (msgs s)"

abbreviation heap_refs :: "bool \<Rightarrow> timer_sys \<Rightarrow> timer_ref multiset" where
  "heap_refs k s \<equiv> node_data (mTree (containers s k))"

definition place :: "ptr \<Rightarrow> timer_sys \<Rightarrow> bool \<Rightarrow> timer_ref multiset" where
  "place a s = (\<lambda>k. filter_mset (\<lambda>r. tr_addr r = a) (heap_refs k s))"

definition nowhere :: "bool \<Rightarrow> timer_ref multiset" where
  "nowhere = (\<lambda>_. {#})"

definition only :: "bool \<Rightarrow> timer_ref \<Rightarrow> bool \<Rightarrow> timer_ref multiset" where
  "only k r = nowhere(k := {#r#})"

text \<open>
  A running delegate waits to be pushed or is in its heap, once, and its client points to it; a
  stopped one waits to be removed, and may still have to be pushed, be in its heap, or be popped
  already. The delegate named by lim has just been popped and is about to expire.
\<close>

definition phase_ok :: "ptr option \<Rightarrow> ptr \<Rightarrow> delegate \<Rightarrow> (ptr \<Rightarrow> ptr) \<Rightarrow> timer_msg list \<Rightarrow>
    (bool \<Rightarrow> timer_ref multiset) \<Rightarrow> bool" where
  "phase_ok lim a d clients ms pl \<longleftrightarrow> a \<noteq> NULL \<and> time_ok (mFutureTime d) \<and>
     (let r = \<lparr>tr_addr = a, tr_time = mFutureTime d\<rparr> in
      case mContainer d of
        Some k \<Rightarrow> mClient d \<noteq> NULL \<and> clients (mClient d) = a \<and>
          (ms = [MsgTimerPush k a] \<and> pl = nowhere \<or> ms = [] \<and> pl = only k r \<or>
           ms = [] \<and> pl = nowhere \<and> lim = Some a)
      | None \<Rightarrow> mClient d = NULL \<and>
          (\<exists>k. ms = [MsgTimerPush k a, MsgTimerRemove k a] \<and> pl = nowhere \<or>
               ms = [MsgTimerRemove k a] \<and> (pl = nowhere \<or> pl = only k r)))"

definition entry_ok :: "ptr option \<Rightarrow> timer_sys \<Rightarrow> ptr \<Rightarrow> bool" where
  "entry_ok lim s a = (case delegates s a of
      None \<Rightarrow> pending a s = [] \<and> place a s = nowhere
    | Some d \<Rightarrow> phase_ok lim a d (mTimer s) (pending a s) (place a s))"

definition timers_safe :: "ptr option \<Rightarrow> timer_sys \<Rightarrow> bool" where
  "timers_safe lim s \<longleftrightarrow> \<not> fault s \<and> clock_ok (clock s) \<and>
     (\<forall>k. timer_heap (mTree (containers s k))) \<and>
     (\<forall>k. \<not> created (containers s k) \<longrightarrow> is_null (mTree (containers s k)) \<and>
        (\<forall>a. MsgTimerPush k a \<notin> set (msgs s))) \<and>
     (\<forall>a. entry_ok lim s a) \<and>
     (\<forall>c. mTimer s c \<noteq> NULL \<longrightarrow> c \<noteq> NULL \<and>
        (\<exists>d. delegates s (mTimer s c) = Some d \<and> mClient d = c))"

section \<open>Frames\<close>

lemma pending_simps [simp]:
  "pending a (sendMsg m s) = pending a s @ (if about a m then [m] else [])"
  "pending a (s\<lparr>delegates := ds\<rparr>) = pending a s"
  "pending a (s\<lparr>mTimer := ts\<rparr>) = pending a s"
  "pending a (s\<lparr>events := es\<rparr>) = pending a s"
  "pending a (s\<lparr>clock := tm\<rparr>) = pending a s"
  "pending a (set_container k c s) = pending a s"
  "pending a (set_tree k t s) = pending a s"
  by (simp_all add: pending_def sendMsg_def set_container_def set_tree_def)

lemma place_simps [simp]:
  "place a (sendMsg m s) = place a s"
  "place a (s\<lparr>delegates := ds\<rparr>) = place a s"
  "place a (s\<lparr>mTimer := ts\<rparr>) = place a s"
  "place a (s\<lparr>events := es\<rparr>) = place a s"
  "place a (s\<lparr>clock := tm\<rparr>) = place a s"
  "place a (set_container k c s) =
     (place a s)(k := filter_mset (\<lambda>r. tr_addr r = a) (node_data (mTree c)))"
  "place a (set_tree k t s) = (place a s)(k := filter_mset (\<lambda>r. tr_addr r = a) (node_data t))"
  by (auto simp: place_def sendMsg_def set_container_def set_tree_def)

lemma sys_simps [simp]:
  "delegates (sendMsg m s) = delegates s" "delegates (set_container k c s) = delegates s"
  "delegates (set_tree k t s) = delegates s"
  "mTimer (sendMsg m s) = mTimer s" "mTimer (set_container k c s) = mTimer s"
  "mTimer (set_tree k t s) = mTimer s"
  "fault (sendMsg m s) = fault s" "fault (set_container k c s) = fault s"
  "fault (set_tree k t s) = fault s"
  "clock (sendMsg m s) = clock s" "clock (set_container k c s) = clock s"
  "clock (set_tree k t s) = clock s"
  "events (sendMsg m s) = events s" "events (set_container k c s) = events s"
  "events (set_tree k t s) = events s"
  "msgs (sendMsg m s) = msgs s @ [m]" "msgs (set_container k c s) = msgs s"
  "msgs (set_tree k t s) = msgs s"
  "containers (sendMsg m s) = containers s"
  "containers (set_container k c s) = (containers s)(k := c)"
  "containers (set_tree k t s) = (containers s)(k := (containers s k)\<lparr>mTree := t\<rparr>)"
  by (simp_all add: sendMsg_def set_container_def set_tree_def)

lemma entry_frame:
  assumes "entry_ok lim s b" and "delegates s' b = delegates s b"
    and "pending b s' = pending b s" and "place b s' = place b s"
    and "\<And>d. delegates s b = Some d \<Longrightarrow> mClient d \<noteq> NULL \<Longrightarrow>
           mTimer s' (mClient d) = mTimer s (mClient d)"
    and "lim = Some b \<Longrightarrow> lim' = Some b"
  shows "entry_ok lim' s' b"
  using assms by (auto simp: entry_ok_def phase_ok_def Let_def split: option.splits)

lemma timers_safeD:
  assumes "timers_safe lim s"
  shows "\<not> fault s" "clock_ok (clock s)" "timer_heap (mTree (containers s k))"
    "\<not> created (containers s k) \<Longrightarrow> is_null (mTree (containers s k))"
    "MsgTimerPush k a \<in> set (msgs s) \<Longrightarrow> created (containers s k)"
    "entry_ok lim s a"
    "mTimer s c \<noteq> NULL \<Longrightarrow> c \<noteq> NULL"
    "mTimer s c \<noteq> NULL \<Longrightarrow> \<exists>d. delegates s (mTimer s c) = Some d \<and> mClient d = c"
  using assms by (auto simp: timers_safe_def)

lemma timers_safeI:
  assumes "\<not> fault s" "clock_ok (clock s)" "\<And>k. timer_heap (mTree (containers s k))"
    and "\<And>k. \<not> created (containers s k) \<Longrightarrow> is_null (mTree (containers s k))"
    and "\<And>k a. MsgTimerPush k a \<in> set (msgs s) \<Longrightarrow> created (containers s k)"
    and "\<And>a. entry_ok lim s a"
    and "\<And>c. mTimer s c \<noteq> NULL \<Longrightarrow> c \<noteq> NULL"
    and "\<And>c. mTimer s c \<noteq> NULL \<Longrightarrow> \<exists>d. delegates s (mTimer s c) = Some d \<and> mClient d = c"
  shows "timers_safe lim s"
  using assms unfolding timers_safe_def by blast

lemma nowhere_iff: "place a s = nowhere \<longleftrightarrow> (\<forall>k. \<forall>r \<in># heap_refs k s. tr_addr r \<noteq> a)"
  by (auto simp: place_def nowhere_def fun_eq_iff)

lemma not_only [simp]: "nowhere \<noteq> only k r" "only k r \<noteq> nowhere"
  by (auto simp: nowhere_def only_def fun_eq_iff)

lemma only_iff [simp]: "only k r = only k' r' \<longleftrightarrow> k = k' \<and> r = r'"
  by (auto simp: nowhere_def only_def fun_eq_iff split: if_splits)

section \<open>Client calls\<close>

lemma stop_safe:
  assumes "timers_safe lim s" and "mTimer s c \<noteq> NULL"
    and "lim = None \<or> lim = Some (mTimer s c)"
  shows "timers_safe None (snd (timer_stop c s))"
proof -
  let ?a = "mTimer s c"
  note safe = timers_safeD [OF assms(1)]
  obtain d where d: "delegates s ?a = Some d" "mClient d = c" using safe(8) assms(2) by blast
  have c: "c \<noteq> NULL" using safe(7) assms(2) by blast
  have e: "phase_ok lim ?a d (mTimer s) (pending ?a s) (place ?a s)"
    using safe(6) [of ?a] d by (simp add: entry_ok_def)
  with c d obtain k where k: "mContainer d = Some k"
    by (auto simp: phase_ok_def Let_def split: option.splits)
  let ?d = "d\<lparr>mClient := NULL, mContainer := None\<rparr>"
  let ?s = "sendMsg (MsgTimerRemove k ?a) (s\<lparr>mTimer := (mTimer s)(c := NULL),
      delegates := (delegates s)(?a \<mapsto> ?d)\<rparr>)"
  have run: "snd (timer_stop c s) = ?s"
    using assms(2) d k by (simp add: timer_stop_def destroyLocked_def)
  have entries: "entry_ok None ?s b" for b
  proof (cases "b = ?a")
    case True
    with e k d c show ?thesis by (auto simp: entry_ok_def phase_ok_def Let_def)
  next
    case False
    have other: "mClient d' \<noteq> c" if "delegates s b = Some d'" "mClient d' \<noteq> NULL" for d'
      using safe(6) [of b] that False
      by (auto simp: entry_ok_def phase_ok_def Let_def split: option.splits)
    show ?thesis
      by (rule entry_frame [OF safe(6) [of b]]) (use False assms(3) other in auto)
  qed
  have owners: "\<exists>d'. delegates ?s (mTimer ?s x) = Some d' \<and> mClient d' = x"
    if "mTimer ?s x \<noteq> NULL" for x
  proof -
    have x: "x \<noteq> c" "mTimer s x \<noteq> NULL" using that by (auto split: if_splits)
    then obtain d' where "delegates s (mTimer s x) = Some d'" "mClient d' = x"
      using safe(8) by blast
    with x d show ?thesis by (cases "mTimer s x = ?a") auto
  qed
  show ?thesis
    unfolding run
    by (rule timers_safeI [OF _ _ _ _ _ entries _ owners])
      (use safe(1-5,7) in \<open>auto split: if_splits\<close>)
qed

lemma get_safe:
  assumes "timers_safe lim s"
  shows "timers_safe lim (snd (container_get w f s))"
    "fst (container_get w f s) \<Longrightarrow> created (containers (snd (container_get w f s)) w)"
    "delegates (snd (container_get w f s)) = delegates s"
    "mTimer (snd (container_get w f s)) = mTimer s"
    "clock (snd (container_get w f s)) = clock s"
proof -
  note safe = timers_safeD [OF assms]
  let ?c = "\<lparr>mTree = NoNode, created = True, armed = None, polled = False\<rparr>"
  have "place a (set_container w ?c s) = place a s" if "\<not> created (containers s w)" for a
    using safe(4) [OF that] by (auto simp: place_def set_container_def is_null_def)
  then have "entry_ok lim (set_container w ?c s) a" if "\<not> created (containers s w)" for a
    using that by (intro entry_frame [OF safe(6) [of a]]) auto
  then have "timers_safe lim (set_container w ?c s)" if "\<not> created (containers s w)"
    using that assms by (auto simp: timers_safe_def)
  then show "timers_safe lim (snd (container_get w f s))"
    using assms by (auto simp: container_get_def)
qed (auto simp: container_get_def set_container_def split: if_splits)

lemma start_safe:
  assumes "timers_safe lim s" and "a \<noteq> NULL" "a \<notin> dom (delegates s)" "c \<noteq> NULL"
  shows "timers_safe lim (snd (timer_start c ms w f a s))"
proof (cases "mTimer s c = NULL \<and> fst (container_get w f s)")
  case False
  with get_safe(1) [OF assms(1), of w f] assms(1) show ?thesis
    by (auto simp: timer_start_def case_prod_beta Let_def)
next
  case True
  let ?g = "snd (container_get w f s)"
  let ?d = "\<lparr>mClient = c, mContainer = Some w, mFutureTime = future_time (clock s) ms\<rparr>"
  let ?s = "(sendMsg (MsgTimerPush w a) (?g\<lparr>delegates := (delegates ?g)(a \<mapsto> ?d)\<rparr>))
      \<lparr>mTimer := (mTimer ?g)(c := a)\<rparr>"
  note g = get_safe [OF assms(1), of w f]
  note safe = timers_safeD [OF g(1)]
  have run: "snd (timer_start c ms w f a s) = ?s"
    using True by (simp add: timer_start_def new_delegate_def case_prod_beta Let_def)
  have fresh: "delegates ?g a = None" using assms(3) g(3) by (auto simp: domIff)
  have entries: "entry_ok lim ?s b" for b
  proof (cases "b = a")
    case True
    with fresh safe(6) [of a] assms(2,4) g(5) future_time_ok [OF safe(2), of ms] show ?thesis
      by (simp add: entry_ok_def phase_ok_def)
  next
    case False
    have other: "mClient d' \<noteq> c" if "delegates ?g b = Some d'" "mClient d' \<noteq> NULL" for d'
      using safe(6) [of b] that True g(4)
      by (auto simp: entry_ok_def phase_ok_def Let_def split: option.splits)
    show ?thesis
      by (rule entry_frame [OF safe(6) [of b]]) (use False other in auto)
  qed
  have owners: "\<exists>d'. delegates ?s (mTimer ?s x) = Some d' \<and> mClient d' = x"
    if "mTimer ?s x \<noteq> NULL" for x
  proof (cases "x = c")
    case True
    then show ?thesis by simp
  next
    case False
    with that have x: "mTimer ?g x \<noteq> NULL" by simp
    then obtain d' where "delegates ?g (mTimer ?g x) = Some d'" "mClient d' = x"
      using safe(8) by blast
    with fresh False show ?thesis by (cases "mTimer ?g x = a") auto
  qed
  have made: "created (containers ?g w)" using g(2) True by blast
  show ?thesis
    unfolding run
    by (rule timers_safeI [OF _ _ _ _ _ entries _ owners])
      (use safe(1-5,7) made assms(4) in \<open>auto split: if_splits\<close>)
qed

lemma entry_ok_log [simp]:
  "entry_ok lim (s\<lparr>events := es\<rparr>) a = entry_ok lim s a"
  "entry_ok lim (s\<lparr>clock := tm\<rparr>) a = entry_ok lim s a"
  by (simp_all add: entry_ok_def split: option.splits)

lemma call_safe:
  assumes "timers_safe None s"
  shows "timers_safe None (client_call op s)"
proof -
  have ev: "timers_safe None (s\<lparr>events := es\<rparr>)" if "timers_safe None s" for s es
    using that by (simp add: timers_safe_def)
  show ?thesis
  proof (cases op)
    case (Op_start c ms w f a)
    with start_safe [OF assms, of a c ms w f] assms ev show ?thesis
      by (auto simp: case_prod_beta Let_def)
  next
    case (Op_stop c)
    with stop_safe [OF assms, of c] assms ev show ?thesis
      by (cases "mTimer s c = NULL") (auto simp: case_prod_beta Let_def timer_stop_def)
  qed
qed

lemma calls_safe: "timers_safe None s \<Longrightarrow> timers_safe None (fold client_call ops s)"
  by (induction ops arbitrary: s) (simp_all add: call_safe)

section \<open>The message task\<close>

lemma updateSoonestTime_simps [simp]:
  "mTree (updateSoonestTime p c) = mTree c" "created (updateSoonestTime p c) = created c"
  by (auto simp: updateSoonestTime_def Let_def split: option.splits)

lemma pending_tl:
  assumes "msgs s = m # ms"
  shows "pending a s = (if about a m then m # pending a (s\<lparr>msgs := ms\<rparr>)
    else pending a (s\<lparr>msgs := ms\<rparr>))"
  using assms by (simp add: pending_def)

lemma place_msgs [simp]: "place a (s\<lparr>msgs := ms\<rparr>) = place a s"
  by (simp add: place_def)

lemma entry_phase:
  assumes "entry_ok lim s a" and "pending a s \<noteq> [] \<or> place a s \<noteq> nowhere"
  obtains d where "delegates s a = Some d" "phase_ok lim a d (mTimer s) (pending a s) (place a s)"
  using assms by (auto simp: entry_ok_def split: option.splits)

text \<open>What is left of the invariant when the first message is taken off and handled.\<close>

lemma handled_safe:
  assumes "timers_safe None s" and "msgs s = m # ms"
    and "fault s' = fault s" "clock s' = clock s" "msgs s' = ms" "mTimer s' = mTimer s"
    and "\<And>b. b \<noteq> a \<Longrightarrow> delegates s' b = delegates s b \<and> place b s' = place b s"
    and "\<And>b. b \<noteq> a \<Longrightarrow> \<not> about b m"
    and "\<And>c. mTimer s c = a \<Longrightarrow> a \<noteq> NULL \<Longrightarrow> delegates s' a = delegates s a"
    and "entry_ok None s' a"
    and "\<And>k. timer_heap (mTree (containers s' k))"
    and "\<And>k. \<not> created (containers s' k) \<Longrightarrow>
           \<not> created (containers s k) \<and> is_null (mTree (containers s' k))"
  shows "timers_safe None s'"
proof (rule timers_safeI)
  note safe = timers_safeD [OF assms(1)]
  show "\<not> fault s'" "clock_ok (clock s')" using safe(1,2) assms(3,4) by simp_all
  show "timer_heap (mTree (containers s' k))" for k by (rule assms(11))
  show "\<not> created (containers s' k) \<Longrightarrow> is_null (mTree (containers s' k))" for k
    using assms(12) by blast
  show "MsgTimerPush k b \<in> set (msgs s') \<Longrightarrow> created (containers s' k)" for k b
    using safe(5) [of k b] assms(2,5,12) by auto
  show "mTimer s' c \<noteq> NULL \<Longrightarrow> c \<noteq> NULL" for c using safe(7) assms(6) by simp
  show "entry_ok None s' b" for b
  proof (cases "b = a")
    case False
    with assms(7,8) have "delegates s' b = delegates s b" "place b s' = place b s"
      "\<not> about b m" by blast+
    with assms(2,5,6) show ?thesis
      by (intro entry_frame [OF safe(6) [of b]]) (simp_all add: pending_def)
  qed (simp add: assms(10))
  show "\<exists>d. delegates s' (mTimer s' c) = Some d \<and> mClient d = c" if "mTimer s' c \<noteq> NULL" for c
    using safe(8) [of c] that assms(6) assms(7) [of "mTimer s c"] assms(9) [of c]
    by (cases "mTimer s c = a") auto
qed

lemma push_safe:
  assumes "timers_safe None s" and "msgs s = MsgTimerPush k a # ms"
  shows "timers_safe None (proc_push k a (s\<lparr>msgs := ms\<rparr>))"
proof -
  note safe = timers_safeD [OF assms(1)]
  have p: "pending a s = MsgTimerPush k a # pending a (s\<lparr>msgs := ms\<rparr>)"
    using assms(2) by (simp add: pending_def)
  obtain d where d: "delegates s a = Some d"
    and ph: "phase_ok None a d (mTimer s) (pending a s) (place a s)"
    using entry_phase [OF safe(6) [of a]] p by auto
  let ?r = "\<lparr>tr_addr = a, tr_time = mFutureTime d\<rparr>"
  let ?t = "heap_push timer_ranks ?r (mTree (containers s k))"
  have ok: "ref_ok ?r" using ph by (simp add: phase_ok_def ref_ok_def)
  note law = timer.heap.push_law [OF safe(3) [of k] ok]
  have pl: "place a s = nowhere" using ph p
    by (auto simp: phase_ok_def Let_def split: option.splits)
  obtain c where run: "proc_push k a (s\<lparr>msgs := ms\<rparr>) = set_container k c (s\<lparr>msgs := ms\<rparr>)"
    and c: "mTree c = ?t" "created c = created (containers s k)"
    using d by (force simp: proc_push_def Let_def)
  have here: "place a (set_container k c (s\<lparr>msgs := ms\<rparr>)) = only k ?r"
    using pl law c(1) by (auto simp: place_def nowhere_def only_def fun_eq_iff)
  have "created (containers s k)" using safe(5) [of k a] assms(2) by simp
  moreover have "entry_ok None (set_container k c (s\<lparr>msgs := ms\<rparr>)) a"
    unfolding entry_ok_def here
    using d ph pl p by (auto simp: phase_ok_def Let_def split: option.splits)
  ultimately show ?thesis
    unfolding run using safe(3,4) law c d
    by (intro handled_safe [OF assms, where a = a])
      (auto simp: place_def set_container_def fun_eq_iff split: if_splits)
qed

lemma remove_safe:
  assumes "timers_safe None s" and "msgs s = MsgTimerRemove k a # ms"
  shows "timers_safe None (proc_remove k a (s\<lparr>msgs := ms\<rparr>))"
proof -
  note safe = timers_safeD [OF assms(1)]
  have p: "pending a s = MsgTimerRemove k a # pending a (s\<lparr>msgs := ms\<rparr>)"
    using assms(2) by (simp add: pending_def)
  obtain d where d: "delegates s a = Some d"
    and ph: "phase_ok None a d (mTimer s) (pending a s) (place a s)"
    using entry_phase [OF safe(6) [of a]] p by auto
  let ?r = "\<lparr>tr_addr = a, tr_time = mFutureTime d\<rparr>"
  let ?t = "snd (heap_remove timer_ranks ?r (mTree (containers s k)))"
  have ok: "ref_ok ?r" using ph by (simp add: phase_ok_def ref_ok_def)
  note law = timer.heap.remove_law [OF safe(3) [of k] ok]
  have gone: "mClient d = NULL" "pending a (s\<lparr>msgs := ms\<rparr>) = []"
    "place a s = nowhere \<or> place a s = only k ?r"
    using ph p by (auto simp: phase_ok_def Let_def split: option.splits)
  obtain c where run: "proc_remove k a (s\<lparr>msgs := ms\<rparr>) =
      (set_container k c (s\<lparr>msgs := ms\<rparr>))\<lparr>delegates := (delegates s)(a := None)\<rparr>"
    and c: "mTree c = ?t" "created c = created (containers s k)"
    using d by (force simp: proc_remove_def Let_def case_prod_beta)
  have t: "timer_heap ?t" using law safe(3) [of k] by (auto split: if_splits)
  have others: "filter_mset (\<lambda>r. tr_addr r = b) (node_data ?t) = place b s k" if "b \<noteq> a" for b
    using law that by (auto simp: place_def split: if_splits)
  have "filter_mset (\<lambda>r. tr_addr r = a) (node_data ?t) = {#} \<and> (\<forall>j. j \<noteq> k \<longrightarrow> place a s j = {#})"
    using gone(3)
  proof
    assume w: "place a s = nowhere"
    then have "?r \<notin># heap_refs k s" unfolding nowhere_iff by force
    with law have "?t = mTree (containers s k)" by simp
    then have "filter_mset (\<lambda>r. tr_addr r = a) (node_data ?t) = place a s k"
      by (simp add: place_def)
    with w show ?thesis by (simp add: nowhere_def)
  next
    assume o: "place a s = only k ?r"
    then have f: "filter_mset (\<lambda>r. tr_addr r = a) (heap_refs k s) = {#?r#}"
      by (auto simp: place_def only_def fun_eq_iff)
    have "?r \<in># filter_mset (\<lambda>r. tr_addr r = a) (heap_refs k s)" unfolding f by simp
    then have "?r \<in># heap_refs k s" by simp
    with law have "heap_refs k s = add_mset ?r (node_data ?t)" by simp
    with f o show ?thesis by (simp add: only_def nowhere_def)
  qed
  then have here: "place a (set_container k c (s\<lparr>msgs := ms\<rparr>)) = nowhere"
    using c(1) by (auto simp: nowhere_def fun_eq_iff)
  let ?s = "(set_container k c (s\<lparr>msgs := ms\<rparr>))\<lparr>delegates := (delegates s)(a := None)\<rparr>"
  have free: "mTimer s x = a \<Longrightarrow> a \<noteq> NULL \<Longrightarrow> delegates ?s a = delegates s a" for x
    using safe(7,8) [of x] gone(1) d by auto
  have empty: "is_null ?t" if "is_null (mTree (containers s k))"
    using that by (simp add: heap_remove_def)
  have entry: "entry_ok None ?s a"
    using gone(2) here by (simp add: entry_ok_def pending_def set_container_def)
  have frame: "delegates ?s b = delegates s b \<and> place b ?s = place b s" if "b \<noteq> a" for b
    using that others [OF that] c(1) by (auto simp: fun_eq_iff)
  show ?thesis
    unfolding run
    by (rule handled_safe [OF assms _ _ _ _ frame _ free entry])
      (use safe(3,4) t c empty in auto)
qed

lemma pop_safe:
  assumes "timers_safe None s" and "heap_pop timer_ranks (mTree (containers s k)) = (Some r, t)"
  shows "timers_safe (Some (tr_addr r)) (set_tree k t s)"
    "place (tr_addr r) (set_tree k t s) = nowhere"
    "\<exists>d. delegates s (tr_addr r) = Some d \<and> tr_time r = mFutureTime d"
proof -
  let ?a = "tr_addr r"
  note safe = timers_safeD [OF assms(1)]
  note pop = timer.heap.pop_SomeD [OF safe(3) [of k] assms(2)]
  have at: "place ?a s k = add_mset r (filter_mset (\<lambda>x. tr_addr x = ?a) (node_data t))"
    using pop(2) by (simp add: place_def)
  then have "place ?a s \<noteq> nowhere" by (auto simp: nowhere_def dest: fun_cong [of _ _ k])
  then obtain d where d: "delegates s ?a = Some d"
    and ph: "phase_ok None ?a d (mTimer s) (pending ?a s) (place ?a s)"
    using entry_phase [OF safe(6) [of ?a]] by metis
  then obtain j where "place ?a s = only j \<lparr>tr_addr = ?a, tr_time = mFutureTime d\<rparr>"
    using \<open>place ?a s \<noteq> nowhere\<close> by (auto simp: phase_ok_def Let_def split: option.splits)
  with at have o: "place ?a s = only k \<lparr>tr_addr = ?a, tr_time = mFutureTime d\<rparr>"
    "r = \<lparr>tr_addr = ?a, tr_time = mFutureTime d\<rparr>"
    "filter_mset (\<lambda>x. tr_addr x = ?a) (node_data t) = {#}"
    by (auto simp: only_def nowhere_def split: if_splits)
  show here: "place ?a (set_tree k t s) = nowhere"
    using o(1,3) by (simp add: only_def nowhere_def fun_eq_iff)
  show "\<exists>d. delegates s ?a = Some d \<and> tr_time r = mFutureTime d"
    using d o(2) by (metis timer_ref.select_convs(2))
  have "entry_ok (Some ?a) (set_tree k t s) b" for b
  proof (cases "b = ?a")
    case True
    with here d ph o(1) show ?thesis
      by (auto simp: entry_ok_def phase_ok_def Let_def split: option.splits)
  next
    case False
    have "place b (set_tree k t s) = place b s"
      using False pop(2) by (auto simp: place_def fun_eq_iff)
    then show ?thesis by (intro entry_frame [OF safe(6) [of b]]) auto
  qed
  then show "timers_safe (Some ?a) (set_tree k t s)"
    by (intro timers_safeI) (use safe(1-5,7,8) pop(1) assms(2) in
      \<open>auto simp: heap_pop_def split: if_splits\<close>)
qed

lemma expire_safe:
  assumes "timers_safe (Some a) s" and "place a s = nowhere" and "delegates s a = Some d"
  shows "timers_safe None (delegate_expire cb a s)"
proof -
  note safe = timers_safeD [OF assms(1)]
  have ph: "phase_ok (Some a) a d (mTimer s) (pending a s) (place a s)"
    using safe(6) [of a] assms(3) by (simp add: entry_ok_def)
  show ?thesis
  proof (cases "mClient d = NULL")
    case True
    with ph have c: "mContainer d = None" by (auto simp: phase_ok_def Let_def split: option.splits)
    have "entry_ok None s b" for b
      using safe(6) [of b] assms(3) c
      by (cases "b = a") (auto simp: entry_ok_def phase_ok_def Let_def split: option.splits)
    then have "timers_safe None s"
      by (intro timers_safeI) (use safe(1-5,7,8) in auto)
    with True assms(3) show ?thesis by (simp add: delegate_expire_def)
  next
    case False
    with ph have t: "mTimer s (mClient d) = a" "a \<noteq> NULL"
      by (auto simp: phase_ok_def Let_def split: option.splits)
    then have stop: "timers_safe None (snd (timer_stop (mClient d) s))" "fst (timer_stop (mClient d) s)"
      using stop_safe [OF assms(1), of "mClient d"] by (simp_all add: timer_stop_def)
    then have "timers_safe None (s'\<lparr>events := es\<rparr>)" if "s' = snd (timer_stop (mClient d) s)" for s' es
      using that by (simp add: timers_safe_def)
    then show ?thesis
      using stop(2) False assms(3)
      by (simp add: delegate_expire_def timeOutCallback_def case_prod_beta Let_def calls_safe)
  qed
qed

lemma set_tree_same: "set_tree k (mTree (containers s k)) s = s"
  by (simp add: set_tree_def set_container_def)

lemma popIfOutRanks_cases:
  "popIfOutRanks n t = (None, t) \<or> popIfOutRanks n t = heap_pop timer_ranks t \<and> \<not> is_null t"
  by (simp add: popIfOutRanks_def)

lemma heap_pop_null: "heap_pop timer_ranks t = (None, t') \<Longrightarrow> t' = t"
  using node_pop_None [of timer_ranks t]
  by (auto simp: heap_pop_def split: if_splits dest: arg_cong [of _ _ fst])

text \<open>A container between two rounds of the loop over expired timers.\<close>

definition popped_ok :: "timer_ref option \<Rightarrow> timer_sys \<Rightarrow> bool" where
  "popped_ok t s = (case t of
      None \<Rightarrow> timers_safe None s
    | Some r \<Rightarrow> timers_safe (Some (tr_addr r)) s \<and> place (tr_addr r) s = nowhere \<and>
        (\<exists>d. delegates s (tr_addr r) = Some d \<and> tr_time r = mFutureTime d))"

lemma popped_pop:
  assumes "timers_safe None s" and "heap_pop timer_ranks (mTree (containers s k)) = (t, tree)"
  shows "popped_ok t (set_tree k tree s)"
proof (cases t)
  case None
  with assms heap_pop_null [of "mTree (containers s k)" tree] show ?thesis
    by (simp add: popped_ok_def set_tree_same)
next
  case (Some r)
  with pop_safe [OF assms(1), of k r tree] assms(2) show ?thesis by (simp add: popped_ok_def)
qed

lemma popped_popIf:
  assumes "timers_safe None s" and "popIfOutRanks n (mTree (containers s k)) = (t, tree)"
  shows "popped_ok t (set_tree k tree s)"
  using popIfOutRanks_cases [of n "mTree (containers s k)"] popped_pop [OF assms(1)] assms
  by (auto simp: popped_ok_def set_tree_same)

lemma loop_safe: "popped_ok t s \<Longrightarrow> timers_safe None (expire_loop cb k n t s)"
proof (induction cb k n t s rule: expire_loop.induct)
  case (1 cb k n s)
  then show ?case by (simp add: popped_ok_def)
next
  case (2 cb k n t s)
  let ?s = "delegate_expire cb (tr_addr t) s"
  obtain u tree where u: "popIfOutRanks n (mTree (containers ?s k)) = (u, tree)"
    by (cases "popIfOutRanks n (mTree (containers ?s k))")
  have "timers_safe None ?s" using 2(2) expire_safe by (auto simp: popped_ok_def)
  from popped_popIf [OF this u] 2(1) [OF refl u [symmetric] refl] u show ?case by simp
qed

lemma soonest_safe:
  assumes "timers_safe None s"
  shows "timers_safe None (set_container k (updateSoonestTime p (containers s k)) s)"
proof -
  note safe = timers_safeD [OF assms]
  let ?s = "set_container k (updateSoonestTime p (containers s k)) s"
  have "place b ?s = place b s" for b by (simp add: place_def fun_eq_iff)
  then have "entry_ok None ?s b" for b by (intro entry_frame [OF safe(6) [of b]]) auto
  then show ?thesis
    by (intro timers_safeI) (use safe(1-5,7,8) in \<open>auto split: if_splits\<close>)
qed

lemma expire_msg_safe:
  assumes "timers_safe None s"
  shows "timers_safe None (proc_expire cb k s)"
  using soonest_safe [OF loop_safe [OF popped_pop [OF assms, of k]]]
  by (simp add: proc_expire_def case_prod_beta Let_def)

section \<open>Every run\<close>

text \<open>
  The other two invariants. As long as a container holds a timer, its descriptor is armed for the
  soonest one, or an expiry is on its way. And the log of a client balances: each start is
  followed by one stop or one callback, unless the timer still runs.
\<close>

definition watched :: "timer_msg list \<Rightarrow> bool \<Rightarrow> timer_container \<Rightarrow> bool" where
  "watched ms k c \<longleftrightarrow> is_null (mTree c) \<or> MsgTimerExpire k \<in> set ms \<or>
     polled c \<and> armed c = Some (tr_time (mData (mTree c)))"

definition balanced :: "timer_sys \<Rightarrow> bool" where
  "balanced s \<longleftrightarrow> (\<forall>c. count_list (events s) (Started c) =
     count_list (events s) (Stopped c) + count_list (events s) (CalledBack c) +
     (if mTimer s c \<noteq> NULL then 1 else 0))"

definition timer_inv :: "timer_sys \<Rightarrow> bool" where
  "timer_inv s \<longleftrightarrow> timers_safe None s \<and> (\<forall>k. watched (msgs s) k (containers s k)) \<and> balanced s"

lemma step_safe:
  assumes "timers_safe None s"
  shows "timers_safe None (timer_step cb i s)"
proof -
  note safe = timers_safeD [OF assms]
  show ?thesis
  proof (cases i)
    case (In_client op)
    with call_safe [OF assms] show ?thesis by (simp add: timer_step_def)
  next
    case In_task
    have "timers_safe None (proc_expire cb k (s\<lparr>msgs := ms\<rparr>))"
      if m: "msgs s = MsgTimerExpire k # ms" for k ms
    proof -
      have "entry_ok None (s\<lparr>msgs := ms\<rparr>) b" for b
        by (rule entry_frame [OF safe(6) [of b]]) (use m in \<open>auto simp: pending_def\<close>)
      then have "timers_safe None (s\<lparr>msgs := ms\<rparr>)"
        by (intro timers_safeI) (use safe(1-5,7,8) m in auto)
      then show ?thesis by (rule expire_msg_safe)
    qed
    with push_safe [OF assms] remove_safe [OF assms] assms In_task show ?thesis
      by (auto simp: timer_step_def msg_task_def Let_def split: list.splits timer_msg.splits)
  next
    case (In_poll k)
    let ?s = "container_expire k s"
    have "place b ?s = place b s" for b
      by (auto simp: place_def container_expire_def fun_eq_iff)
    then have "entry_ok None ?s b" for b
      by (intro entry_frame [OF safe(6) [of b]]) (auto simp: container_expire_def)
    then have "timers_safe None ?s"
      by (intro timers_safeI)
        (use safe(1-5,7,8) in \<open>auto simp: container_expire_def split: if_splits\<close>)
    with assms In_poll show ?thesis
      by (simp add: timer_step_def poll_run_def split: option.splits)
  next
    case (In_time t)
    with assms show ?thesis by (simp add: timer_step_def timers_safe_def)
  qed
qed

text \<open>Client calls only add messages, and change a container only by creating it.\<close>

definition grows :: "timer_sys \<Rightarrow> timer_sys \<Rightarrow> bool" where
  "grows s s' \<longleftrightarrow> set (msgs s) \<subseteq> set (msgs s') \<and>
     (\<forall>k. containers s' k = containers s k \<or> is_null (mTree (containers s' k)))"

lemma grows_refl [simp]: "grows s s"
  by (simp add: grows_def)

lemma grows_trans [trans]: "grows s t \<Longrightarrow> grows t u \<Longrightarrow> grows s u"
  unfolding grows_def by (metis subset_trans)

lemma grows_watched:
  "grows s s' \<Longrightarrow> watched (msgs s) k (containers s k) \<Longrightarrow> watched (msgs s') k (containers s' k)"
  by (auto simp: grows_def watched_def dest: spec [of _ k])

lemma grows_fields [simp]:
  "grows s (t\<lparr>events := es\<rparr>) = grows s t" "grows s (t\<lparr>mTimer := ts\<rparr>) = grows s t"
  "grows s (t\<lparr>delegates := ds\<rparr>) = grows s t" "grows s (t\<lparr>fault := f\<rparr>) = grows s t"
  by (simp_all add: grows_def)

lemma grows_msg: "grows s (sendMsg m s)"
  by (auto simp: grows_def)

lemma grows_destroy: "grows s (destroyLocked a s)"
  by (auto simp: destroyLocked_def grows_def split: option.splits)

lemma grows_stop: "grows s (snd (timer_stop c s))"
  using grows_trans [OF _ grows_destroy] by (auto simp: timer_stop_def)

lemma grows_start: "grows s (snd (timer_start c ms w f a s))"
  by (auto simp: timer_start_def container_get_def new_delegate_def grows_def case_prod_beta Let_def)

lemma grows_call: "grows s (client_call op s)"
  using grows_start grows_stop by (cases op) (auto simp: case_prod_beta Let_def)

lemma grows_calls: "grows s (fold client_call ops s)"
proof (induction ops arbitrary: s)
  case Nil
  then show ?case by simp
next
  case (Cons op ops)
  from grows_trans [OF grows_call Cons.IH] show ?case by simp
qed

lemma grows_expire: "grows s (delegate_expire cb a s)"
proof -
  have "grows s (timeOutCallback cb c s)" for c s
    using grows_calls [of "s\<lparr>events := events s @ [CalledBack c]\<rparr>"]
    by (auto simp: timeOutCallback_def Let_def grows_def)
  from grows_trans [OF grows_stop this] grows_stop show ?thesis
    by (auto simp: delegate_expire_def case_prod_beta Let_def split: option.splits)
qed

lemma grows_loop:
  "j \<noteq> k \<Longrightarrow> watched (msgs s) j (containers s j) \<Longrightarrow>
     watched (msgs (expire_loop cb k n t s)) j (containers (expire_loop cb k n t s) j)"
proof (induction cb k n t s rule: expire_loop.induct)
  case (1 cb k n s)
  then show ?case by simp
next
  case (2 cb k n t s)
  let ?s = "delegate_expire cb (tr_addr t) s"
  obtain u tree where u: "popIfOutRanks n (mTree (containers ?s k)) = (u, tree)"
    by (cases "popIfOutRanks n (mTree (containers ?s k))")
  have "watched (msgs ?s) j (containers ?s j)" by (rule grows_watched [OF grows_expire 2(3)])
  with 2(1) [OF refl u [symmetric] refl] 2(2) u show ?case by simp
qed

lemma soonest_watched: "watched ms k (updateSoonestTime None c)"
  by (auto simp: watched_def updateSoonestTime_def heap_peek_def Let_def)

lemma push_watched:
  assumes "timer_heap t" "ref_ok r" and "mTree c = t" and "watched ms k c"
  shows "watched ms k (updateSoonestTime (heap_peek t)
    (c\<lparr>mTree := heap_push timer_ranks r t\<rparr>))"
proof (cases "is_null t \<or> outRanks timer_ranks r (mData t)")
  case True
  moreover have "r \<noteq> mData t" if "\<not> is_null t" "outRanks timer_ranks r (mData t)"
    using that timer.outranks_irrefl [OF assms(2)] by auto
  ultimately show ?thesis
    by (auto simp: watched_def updateSoonestTime_def heap_peek_def heap_push_def new_node_def
        timer.node_push_top Let_def)
next
  case False
  with assms(3,4) show ?thesis
    by (auto simp: watched_def updateSoonestTime_def heap_peek_def heap_push_def
        timer.node_push_top Let_def)
qed

lemma node_remove_top:
  assumes "\<not> is_null t" "fst (node_remove ranks d t) \<noteq> Some (mData t)" "d \<noteq> mData t"
  shows "\<not> is_null (snd (node_remove ranks d t)) \<and> mData (snd (node_remove ranks d t)) = mData t"
  using assms by (cases t) (auto split: option.splits prod.splits)

lemma remove_watched:
  assumes "timer_heap t" "ref_ok r" and "mTree c = t" and "watched ms k c"
    and "heap_remove timer_ranks r t = (removed, t')"
  shows "watched ms k (if heap_peek t = removed then updateSoonestTime None (c\<lparr>mTree := t'\<rparr>)
    else c\<lparr>mTree := t'\<rparr>)"
proof (cases "heap_peek t = removed")
  case True
  then show ?thesis by (simp add: soonest_watched)
next
  case False
  note law = timer.heap.remove_law [OF assms(1,2)]
  show ?thesis
  proof (cases "is_null t")
    case True
    with False assms(5) show ?thesis by (simp add: heap_peek_def heap_remove_def)
  next
    case nonempty: False
    have "t' = t \<or> \<not> is_null t' \<and> mData t' = mData t"
      using law assms(5) nonempty False node_remove_top [of t timer_ranks r]
      by (auto simp: heap_remove_def heap_peek_def split: if_splits)
    with False nonempty assms(3,4) show ?thesis by (auto simp: watched_def)
  qed
qed

lemma step_watched:
  assumes "timers_safe None s" and "\<And>k. watched (msgs s) k (containers s k)"
  shows "watched (msgs (timer_step cb i s)) k (containers (timer_step cb i s) k)"
proof (cases i)
  case (In_client op)
  with grows_watched [OF grows_call assms(2)] show ?thesis by (simp add: timer_step_def)
next
  case (In_poll j)
  with assms(2) show ?thesis
    by (auto simp: timer_step_def poll_run_def container_expire_def watched_def
        split: option.splits)
next
  case (In_time t)
  with assms(2) show ?thesis by (simp add: timer_step_def)
next
  case In_task
  note safe = timers_safeD [OF assms(1)]
  show ?thesis
  proof (cases "msgs s")
    case Nil
    with In_task assms(2) show ?thesis by (simp add: timer_step_def msg_task_def)
  next
    case (Cons m ms)
    have kept: "watched ms j (containers s j)" if "m \<noteq> MsgTimerExpire j" for j
      using assms(2) [of j] that Cons by (auto simp: watched_def)
    have ref: "ref_ok \<lparr>tr_addr = a, tr_time = mFutureTime d\<rparr>" if "delegates s a = Some d" for a d
      using safe(6) [of a] that by (simp add: entry_ok_def phase_ok_def ref_ok_def)
    show ?thesis
    proof (cases m)
      case (MsgTimerPush j a)
      have "watched ms j (updateSoonestTime (heap_peek (mTree (containers s j)))
          ((containers s j)\<lparr>mTree := heap_push timer_ranks
             \<lparr>tr_addr = a, tr_time = mFutureTime d\<rparr> (mTree (containers s j))\<rparr>))"
        if "delegates s a = Some d" for d
        by (rule push_watched [OF safe(3) ref [OF that] refl kept]) (simp add: MsgTimerPush)
      with MsgTimerPush kept [of k] Cons In_task show ?thesis
        by (auto simp: timer_step_def msg_task_def proc_push_def set_container_def Let_def
            split: option.splits)
    next
      case (MsgTimerRemove j a)
      have "watched ms j (if heap_peek (mTree (containers s j)) = removed
          then updateSoonestTime None ((containers s j)\<lparr>mTree := t'\<rparr>)
          else (containers s j)\<lparr>mTree := t'\<rparr>)"
        if "delegates s a = Some d" "heap_remove timer_ranks
             \<lparr>tr_addr = a, tr_time = mFutureTime d\<rparr> (mTree (containers s j)) = (removed, t')"
        for d removed t'
        by (rule remove_watched [OF safe(3) ref [OF that(1)] refl kept that(2)])
          (simp add: MsgTimerRemove)
      with MsgTimerRemove kept [of k] Cons In_task show ?thesis
        by (auto simp: timer_step_def msg_task_def proc_remove_def set_container_def Let_def
            split: option.splits prod.splits)
    next
      case (MsgTimerExpire j)
      let ?t = "s\<lparr>msgs := ms\<rparr>"
      have "watched (msgs (proc_expire cb j ?t)) k (containers (proc_expire cb j ?t) k)"
      proof (cases "k = j")
        case True
        then show ?thesis using soonest_watched by (simp add: proc_expire_def case_prod_beta Let_def)
      next
        case False
        with kept [of k] MsgTimerExpire have "watched (msgs ?t) k (containers ?t k)" by simp
        with False grows_loop [OF False, of "set_tree j _ ?t"] show ?thesis
          by (simp add: proc_expire_def case_prod_beta Let_def)
      qed
      with MsgTimerExpire Cons In_task show ?thesis
        by (simp add: timer_step_def msg_task_def)
    qed
  qed
qed

text \<open>The balance of the log.\<close>

lemma balanced_upd:
  assumes "balanced s" and "mTimer s' = (mTimer s)(c := a)" and "events s' = events s @ [e]"
    and "e = Started c \<and> mTimer s c = NULL \<and> a \<noteq> NULL \<or>
         (e = Stopped c \<or> e = CalledBack c) \<and> mTimer s c \<noteq> NULL \<and> a = NULL"
  shows "balanced s'"
  using assms by (auto simp: balanced_def)

lemma balanced_same:
  "balanced s \<Longrightarrow> mTimer s' = mTimer s \<Longrightarrow> events s' = events s \<Longrightarrow> balanced s'"
  by (simp add: balanced_def)

lemma balanced_container [simp]: "balanced (set_container k c s) = balanced s"
  by (simp add: balanced_def)

lemma destroy_simps [simp]:
  "mTimer (destroyLocked a s) = mTimer s" "events (destroyLocked a s) = events s"
  by (simp_all add: destroyLocked_def split: option.splits)

lemma get_simps [simp]:
  "mTimer (snd (container_get w f s)) = mTimer s"
  "events (snd (container_get w f s)) = events s"
  by (simp_all add: container_get_def)

lemma call_balanced: "balanced s \<Longrightarrow> balanced (client_call op s)"
proof (cases op)
  case (Op_start c ms w f a)
  assume b: "balanced s"
  show ?thesis
  proof (cases "a = NULL \<or> a \<in> dom (delegates s) \<or> c = NULL \<or> mTimer s c \<noteq> NULL \<or>
      \<not> fst (container_get w f s)")
    case True
    with b Op_start show ?thesis
      by (auto simp: timer_start_def case_prod_beta Let_def intro: balanced_same)
  next
    case False
    with Op_start show ?thesis
      by (intro balanced_upd [OF b, where c = c and a = a and e = "Started c"])
        (auto simp: timer_start_def new_delegate_def case_prod_beta Let_def)
  qed
next
  case (Op_stop c)
  assume b: "balanced s"
  show ?thesis
  proof (cases "mTimer s c = NULL")
    case True
    with b Op_stop show ?thesis by (simp add: timer_stop_def)
  next
    case False
    with Op_stop show ?thesis
      by (intro balanced_upd [OF b, where c = c and a = NULL and e = "Stopped c"])
        (auto simp: timer_stop_def)
  qed
qed

lemma calls_balanced: "balanced s \<Longrightarrow> balanced (fold client_call ops s)"
  by (induction ops arbitrary: s) (simp_all add: call_balanced)

lemma expire_balanced: "balanced s \<Longrightarrow> balanced (delegate_expire cb a s)"
proof -
  assume b: "balanced s"
  have "balanced (timeOutCallback cb c (snd (timer_stop c s)))" if "mTimer s c \<noteq> NULL" for c
    unfolding timeOutCallback_def Let_def
    by (rule calls_balanced, rule balanced_upd [OF b, where c = c and a = NULL and e = "CalledBack c"])
      (use that in \<open>auto simp: timer_stop_def\<close>)
  with b show ?thesis
    by (auto simp: delegate_expire_def timer_stop_def case_prod_beta Let_def balanced_def
        split: option.splits)
qed

lemma loop_balanced: "balanced s \<Longrightarrow> balanced (expire_loop cb k n t s)"
proof (induction cb k n t s rule: expire_loop.induct)
  case (1 cb k n s)
  then show ?case by simp
next
  case (2 cb k n t s)
  let ?s = "delegate_expire cb (tr_addr t) s"
  obtain u tree where u: "popIfOutRanks n (mTree (containers ?s k)) = (u, tree)"
    by (cases "popIfOutRanks n (mTree (containers ?s k))")
  have "balanced (set_tree k tree ?s)"
    by (rule balanced_same [OF expire_balanced [OF 2(2)]]) simp_all
  with 2(1) [OF refl u [symmetric] refl] u show ?case by simp
qed

lemma step_balanced:
  assumes "balanced s"
  shows "balanced (timer_step cb i s)"
proof -
  have push: "balanced (proc_push k a t)" "balanced (proc_remove k a t)" if "balanced t" for k a t
    using that by (auto simp: proc_push_def proc_remove_def Let_def case_prod_beta balanced_def
        split: option.splits)
  have "balanced (set_tree k tr t)" if "balanced t" for k tr t
    using that by (rule balanced_same) simp_all
  from loop_balanced [OF this] have "balanced (proc_expire cb k t)" if "balanced t" for k t
    using that by (auto simp: proc_expire_def case_prod_beta Let_def intro: balanced_same)
  moreover have "balanced (s\<lparr>msgs := ms\<rparr>)" "balanced (s\<lparr>clock := tm\<rparr>)" for ms tm
    using assms by (simp_all add: balanced_def)
  ultimately show ?thesis
    using assms push call_balanced [OF assms]
    by (cases i) (auto simp: timer_step_def msg_task_def poll_run_def container_expire_def Let_def
        split: list.splits timer_msg.splits option.splits intro: balanced_same)
qed

interpretation timers: invariant_system "timer_step cb" timer_inv for cb
  by unfold_locales (auto simp: timer_inv_def step_safe step_watched step_balanced)

lemma timer_init_inv: "timer_inv timer_init"
  by (auto simp: timer_inv_def timers_safe_def timer_init_def entry_ok_def pending_def place_def
      nowhere_def clock_ok_def watched_def balanced_def)

end
