(* ===== verification/Heap_Theorems.thy ===== *)
theory Heap_Theorems
  imports Timer_Inv
begin

text \<open>
  The properties of LocHeap, for every ranking that is a strict weak order on the data, with the
  ranking of the timers as the witness: data comes out in rank order, the invariant that the code
  itself tests is kept and the sizes are right, removal takes exactly the given data.
\<close>

section \<open>Data for the witnesses\<close>

definition ref_at :: "ptr \<Rightarrow> int \<Rightarrow> timer_ref" where
  "ref_at a sec = \<lparr>tr_addr = a, tr_time = \<lparr>tv_sec = sec, tv_nsec = 0\<rparr>\<rparr>"

lemma ref_at_ok: "0 \<le> sec \<Longrightarrow> sec < 2 ^ 31 \<Longrightarrow> ref_ok (ref_at a sec)"
  by (simp add: ref_ok_def time_ok_def ref_at_def)

definition demo_heap :: "timer_ref loc_heap" where
  "demo_heap = fold (heap_push timer_ranks) [ref_at 1 30, ref_at 2 10] NoNode"

lemma demo_heap_valid: "heap_valid timer_ranks ref_ok demo_heap"
  "node_data demo_heap = {#ref_at 1 30, ref_at 2 10#}"
  using timer.heap.push_all [of NoNode "[ref_at 1 30, ref_at 2 10]"]
  by (simp_all add: demo_heap_def ref_at_ok)

section \<open>Properties\<close>

text \<open>
  C15: Data pushed in any order comes out of pop in rank order, all of it, and none that was not
  pushed: popping as often as was pushed sorts the data.
\<close>

theorem heap_pops_in_rank_order:
  assumes "rankable ranks ok" and "\<forall>x \<in> set xs. ok x"
    and "pops (heap_pop ranks) (length xs) (fold (heap_push ranks) xs NoNode) = (ys, t)"
  shows "mset ys = mset xs \<and> sorted_wrt (\<lambda>x y. \<not> outRanks ranks y x) ys"
proof -
  note q = ranked_queue.push_all [OF rankable.heap_ranked_queue [OF assms(1)]
    heap_valid_empty assms(2)]
  show ?thesis
    using ranked_queue.pops_sorted [OF rankable.heap_ranked_queue [OF assms(1)] _ _ assms(3)] q
    by simp
qed

lemma heap_pops_in_rank_order_witness:
  "\<exists>ys t. pops (heap_pop timer_ranks) 2
      (fold (heap_push timer_ranks) [ref_at 1 30, ref_at 2 10] NoNode) = (ys, t) \<and>
    mset ys = mset [ref_at 1 30, ref_at 2 10] \<and>
    sorted_wrt (\<lambda>x y. \<not> outRanks timer_ranks y x) ys"
  using heap_pops_in_rank_order [OF timer.rankable_axioms, of "[ref_at 1 30, ref_at 2 10]"]
  by (cases "pops (heap_pop timer_ranks) 2
      (fold (heap_push timer_ranks) [ref_at 1 30, ref_at 2 10] NoNode)")
    (auto simp: ref_at_ok numeral_2_eq_2)

text \<open>
  Every operation keeps what checkTree tests, that sizes are right and every node ranks
  highest in its subtree, and getTreeSize counts: one more after a push, one less after a pop
  or a remove that found its data.
\<close>

theorem heap_keeps_check:
  assumes "rankable ranks ok" and "heap_valid ranks ok t" and "ok d"
  shows "checkTree ranks (heap_push ranks d t) \<and>
    getTreeSize (heap_push ranks d t) = getTreeSize t + 1 \<and>
    checkTree ranks (snd (heap_pop ranks t)) \<and>
    getTreeSize (snd (heap_pop ranks t)) = max 0 (getTreeSize t - 1) \<and>
    checkTree ranks (snd (heap_remove ranks d t)) \<and>
    getTreeSize (snd (heap_remove ranks d t)) =
      getTreeSize t - (if d \<in># node_data t then 1 else 0)"
proof -
  note queue = rankable.heap_ranked_queue [OF assms(1)]
  note push = ranked_queue.push_law [OF queue assms(2,3)]
  note pop = ranked_queue.pop_law [OF queue assms(2)] ranked_queue.peek_law [OF queue assms(2)]
  note remove = ranked_queue.remove_law [OF queue assms(2,3)]
  note size = heap_valid_size [of ranks ok]
  have v: "heap_valid ranks ok (snd (heap_pop ranks t))" using pop(1) by blast
  have "getTreeSize (snd (heap_pop ranks t)) = max 0 (getTreeSize t - 1)"
  proof (cases "is_null t")
    case True
    then show ?thesis by (simp add: heap_pop_def getTreeSize_def)
  next
    case False
    then obtain x where "heap_peek t = Some x" by (simp add: heap_peek_def)
    with pop(1) have "size (node_data t) = Suc (size (node_data (snd (heap_pop ranks t))))"
      by (metis option.simps(5) size_add_mset)
    with size [OF assms(2)] size [OF v] show ?thesis by simp
  qed
  moreover note v
  moreover have "heap_valid ranks ok (snd (heap_remove ranks d t)) \<and>
    getTreeSize (snd (heap_remove ranks d t)) =
      getTreeSize t - (if d \<in># node_data t then 1 else 0)"
  proof (cases "d \<in># node_data t")
    case True
    then have v: "heap_valid ranks ok (snd (heap_remove ranks d t))"
      and n: "size (node_data t) = Suc (size (node_data (snd (heap_remove ranks d t))))"
      using remove by (metis, metis size_add_mset)
    from True v n size [OF assms(2)] size [OF v] show ?thesis by simp
  next
    case False
    with remove assms(2) show ?thesis by simp
  qed
  moreover have "getTreeSize (heap_push ranks d t) = getTreeSize t + 1"
    using push size [OF assms(2)] size [of "heap_push ranks d t"] by simp
  ultimately show ?thesis
    using push unfolding heap_valid_def by blast
qed

lemma heap_keeps_check_witness:
  "checkTree timer_ranks (heap_push timer_ranks (ref_at 3 5) demo_heap)"
  using heap_keeps_check [OF timer.rankable_axioms demo_heap_valid(1) ref_at_ok [of 5 3]] by simp

text \<open>
  remove takes exactly the data it is given, wherever it is in the heap and whatever ranks the
  same; data that the heap does not hold leaves it as it is and returns NULL.
\<close>

theorem heap_remove_exact:
  assumes "rankable ranks ok" and "heap_valid ranks ok t" and "ok d"
  shows "if d \<in># node_data t
    then fst (heap_remove ranks d t) = Some d \<and>
      node_data (snd (heap_remove ranks d t)) = node_data t - {#d#}
    else heap_remove ranks d t = (None, t)"
  using ranked_queue.remove_law [OF rankable.heap_ranked_queue [OF assms(1)] assms(2,3)]
  by auto

lemma heap_remove_exact_witness:
  "node_data (snd (heap_remove timer_ranks (ref_at 1 30) demo_heap)) =
     {#ref_at 1 30, ref_at 2 10#} - {#ref_at 1 30#}"
  using heap_remove_exact [OF timer.rankable_axioms demo_heap_valid(1) ref_at_ok [of 30 1]]
    demo_heap_valid(2) by simp

end
