(* ===== verification/Timer_Theorems.thy ===== *)
theory Timer_Theorems
  imports Heap_Theorems
begin

text \<open>
  The properties of the timer service: the arithmetic of timeouts, the lifetime of delegates, the
  balance of starts, stops and callbacks, the descriptor that is always armed for the soonest
  timer, what an expiry calls back, and the race in which it calls back too early.
\<close>

section \<open>Times\<close>

text \<open>
  A timer ends exactly the requested number of milliseconds after now, the sum is a normalised
  time, and nothing overflows, for every 32 bit timeout.
\<close>

theorem future_time_exact:
  assumes "clock_ok t"
  shows "nanos (future_time t ms) = nanos t + uint ms * 1000000 \<and> time_ok (future_time t ms)"
  using nanos_future future_time_ok [OF assms] by simp

lemma future_time_exact_witness:
  "nanos (future_time \<lparr>tv_sec = 5, tv_nsec = 999999999\<rparr> 1999) = 5999999999 + 1999000000"
  using future_time_exact [of "\<lparr>tv_sec = 5, tv_nsec = 999999999\<rparr>" 1999]
  by (simp add: clock_ok_def nanos_def)

text \<open>
  On the times that occur the ranking, which narrows differences of seconds and nanoseconds to
  int, is exact: a timer outranks another if and only if it ends earlier.
\<close>

theorem timer_ranks_exact:
  assumes "ref_ok a" and "ref_ok b"
  shows "outRanks timer_ranks a b \<longleftrightarrow> nanos (tr_time a) < nanos (tr_time b)"
  by (rule timer_ranks_nanos [OF assms])

lemma timer_ranks_exact_witness: "outRanks timer_ranks (ref_at 2 10) (ref_at 1 30)"
  using timer_ranks_exact [OF ref_at_ok [of 10 2] ref_at_ok [of 30 1]]
  by (simp add: ref_at_def nanos_def)

section \<open>Runs\<close>

text \<open>
  C3: On every run no deleted delegate is ever read: whatever clients start and stop, in calls or
  in callbacks, and however the threads interleave, every pointer in a heap is to a live delegate
  with the time it was pushed with, and the heaps are checked heaps.
\<close>

theorem timers_never_dangle:
  fixes cb :: "timer_event list \<Rightarrow> client_op list" and "is" :: "timer_input list"
  defines "s \<equiv> run_steps (timer_step cb) is timer_init"
  shows "\<not> fault s \<and> checkTree timer_ranks (mTree (containers s k)) \<and>
    (r \<in># node_data (mTree (containers s k)) \<longrightarrow>
       (\<exists>d. delegates s (tr_addr r) = Some d \<and> mFutureTime d = tr_time r))"
proof -
  have safe: "timers_safe None s"
    using timers.run_inv [OF timer_init_inv, of cb "is"] by (simp add: s_def timer_inv_def)
  have "\<exists>d. delegates s (tr_addr r) = Some d \<and> mFutureTime d = tr_time r"
    if "r \<in># node_data (mTree (containers s k))"
  proof -
    have "r \<in># place (tr_addr r) s k" using that by (simp add: place_def)
    moreover from this have "place (tr_addr r) s \<noteq> nowhere" by (auto simp: nowhere_def)
    ultimately show ?thesis
      using timers_safeD(6) [OF safe, of "tr_addr r"]
      by (auto simp: entry_ok_def phase_ok_def only_def nowhere_def Let_def ref_eq_iff
          split: option.splits if_splits)
  qed
  with timers_safeD(1) [OF safe] timers_safeD(3) [OF safe, of k] show ?thesis by (auto simp: heap_valid_def)
qed

text \<open>The state after two timers were started and pushed, to see them in the witnesses.\<close>

definition two_timers :: "timer_input list" where
  "two_timers =
     [In_client (Op_start 1 100 True True 10), In_client (Op_start 2 100000 True True 20),
      In_task, In_task]"

lemma timers_never_dangle_witness:
  "\<not> fault (run_steps (timer_step (\<lambda>_. [])) two_timers timer_init)"
  using timers_never_dangle [of "\<lambda>_. []" two_timers] by blast

text \<open>
  C10: On every run, for every client, each successful start is matched by exactly one callback or
  one successful stop, or the timer still runs: no timer is called back twice, none is called
  back after it was stopped, and none gets lost.
\<close>

theorem timer_starts_balance:
  fixes cb :: "timer_event list \<Rightarrow> client_op list" and "is" :: "timer_input list"
  defines "s \<equiv> run_steps (timer_step cb) is timer_init"
  shows "count_list (events s) (Started c) =
    count_list (events s) (Stopped c) + count_list (events s) (CalledBack c) +
    (if mTimer s c \<noteq> NULL then 1 else 0)"
  using timers.run_inv [OF timer_init_inv, of cb "is"]
  by (simp add: s_def timer_inv_def balanced_def)

text \<open>
  C24: On every run, as long as a container holds a timer, either its descriptor is polled and
  armed for the soonest timer it holds, or the message of an expiry is on its way: no timer is
  forgotten.
\<close>

theorem timers_watched:
  fixes cb :: "timer_event list \<Rightarrow> client_op list" and "is" :: "timer_input list"
  defines "s \<equiv> run_steps (timer_step cb) is timer_init"
  assumes "heap_peek (mTree (containers s k)) = Some t" and "MsgTimerExpire k \<notin> set (msgs s)"
  shows "polled (containers s k) \<and> armed (containers s k) = Some (tr_time t) \<and>
    (\<forall>r \<in># node_data (mTree (containers s k)). nanos (tr_time t) \<le> nanos (tr_time r))"
proof -
  have inv: "timer_inv s" using timers.run_inv [OF timer_init_inv, of cb "is"] by (simp add: s_def)
  then have heap: "timer_heap (mTree (containers s k))"
    by (auto simp: timer_inv_def timers_safe_def)
  have "nanos (tr_time t) \<le> nanos (tr_time r)" if "r \<in># node_data (mTree (containers s k))" for r
    using timer.heap.peek_law [OF heap] assms(2) that timer.heap.held_ok [OF heap]
      timer_ranks_nanos [of r t] by (auto simp: not_less)
  then show ?thesis
    using inv assms(2,3) by (auto simp: timer_inv_def watched_def heap_peek_def split: if_splits)
qed

lemma timers_watched_witness:
  "armed (containers (run_steps (timer_step (\<lambda>_. [])) two_timers timer_init) True) =
     Some \<lparr>tv_sec = 0, tv_nsec = 100000000\<rparr>"
proof -
  have "heap_peek (mTree (containers (run_steps (timer_step (\<lambda>_. [])) two_timers timer_init) True)) =
      Some \<lparr>tr_addr = 10, tr_time = \<lparr>tv_sec = 0, tv_nsec = 100000000\<rparr>\<rparr>"
    "msgs (run_steps (timer_step (\<lambda>_. [])) two_timers timer_init) = []"
    by code_simp+
  with timers_watched [of "\<lambda>_. []" two_timers True] show ?thesis by simp
qed

section \<open>Expiry\<close>

definition none_due :: "bool \<Rightarrow> timer_ref \<Rightarrow> timer_sys \<Rightarrow> bool" where
  "none_due k now s \<longleftrightarrow>
     (\<forall>r \<in># node_data (mTree (containers s k)). nanos (tr_time now) < nanos (tr_time r))"

lemma popIf_none_due:
  assumes "timers_safe None s" "ref_ok n" "popIfOutRanks n (mTree (containers s k)) = (None, tree)"
  shows "none_due k n (set_tree k tree s)"
proof -
  let ?t = "mTree (containers s k)"
  note heap = timers_safeD(3) [OF assms(1), of k]
  have t: "tree = ?t" "is_null ?t \<or> outRanks timer_ranks n (mData ?t)"
    using assms(3) node_pop_None [of timer_ranks ?t]
    by (auto simp: popIfOutRanks_def heap_pop_def split: if_splits dest: arg_cong [of _ _ fst])
  have "nanos (tr_time n) < nanos (tr_time r)" if "r \<in># node_data ?t" for r
  proof -
    have "\<not> is_null ?t" using that by (cases ?t) auto
    with t(2) timer.heap.peek_law [OF heap] timer.heap.held_ok [OF heap] that
    have "outRanks timer_ranks n (mData ?t)" "\<not> outRanks timer_ranks r (mData ?t)"
      "ref_ok r" "ref_ok (mData ?t)" by (auto simp: heap_peek_def)
    with assms(2) show ?thesis by (simp add: timer_ranks_nanos)
  qed
  with t(1) show ?thesis by (simp add: none_due_def)
qed

lemma loop_none_due:
  "popped_ok t s \<Longrightarrow> ref_ok n \<Longrightarrow> (t = None \<Longrightarrow> none_due k n s) \<Longrightarrow>
     none_due k n (expire_loop cb k n t s)"
proof (induction cb k n t s rule: expire_loop.induct)
  case (1 cb k n s)
  then show ?case by simp
next
  case (2 cb k n t s)
  let ?s = "delegate_expire cb (tr_addr t) s"
  obtain u tree where u: "popIfOutRanks n (mTree (containers ?s k)) = (u, tree)"
    by (cases "popIfOutRanks n (mTree (containers ?s k))")
  have safe: "timers_safe None ?s" using 2(2) expire_safe by (auto simp: popped_ok_def)
  have "none_due k n (set_tree k tree ?s)" if "u = None"
    using popIf_none_due [OF safe 2(3)] u that by simp
  with popped_popIf [OF safe u] 2(1) [OF refl u [symmetric] refl] 2(3) u show ?case by simp
qed

text \<open>
  Handling an expiry leaves no timer behind that is due: when the message of an expiry has been
  processed, every timer left in its container ends later than the time at which the message
  task looked at the clock.
\<close>

theorem expire_leaves_none_due:
  fixes cb :: "timer_event list \<Rightarrow> client_op list" and "is" :: "timer_input list"
  defines "s \<equiv> run_steps (timer_step cb) is timer_init"
  assumes "msgs s = MsgTimerExpire k # ms"
    and "r \<in># node_data (mTree (containers (timer_step cb In_task s) k))"
  shows "nanos (clock s) < nanos (tr_time r)"
proof -
  let ?now = "\<lparr>tr_addr = NULL, tr_time = clock s\<rparr>" and ?s = "s\<lparr>msgs := ms\<rparr>"
  have inv: "timers_safe None s"
    using timers.run_inv [OF timer_init_inv, of cb "is"] by (simp add: s_def timer_inv_def)
  note safe = timers_safeD [OF inv]
  have "entry_ok None ?s b" for b
    by (rule entry_frame [OF safe(6) [of b]]) (use assms(2) in \<open>auto simp: pending_def\<close>)
  then have "timers_safe None ?s"
    by (intro timers_safeI) (use safe(1-5,7,8) assms(2) in auto)
  obtain t tree where t: "heap_pop timer_ranks (mTree (containers s k)) = (t, tree)"
    by (cases "heap_pop timer_ranks (mTree (containers s k))")
  have "none_due k ?now (set_tree k tree ?s)" if "t = None"
    using that t node_pop_None [of timer_ranks "mTree (containers s k)"]
    by (auto simp: none_due_def heap_pop_def is_null_def split: if_splits
        dest: arg_cong [of _ _ fst])
  moreover have "ref_ok ?now" using safe(2) by (auto simp: ref_ok_def time_ok_def clock_ok_def)
  ultimately have "none_due k ?now (expire_loop cb k ?now t (set_tree k tree ?s))"
    using popped_pop [OF \<open>timers_safe None ?s\<close>, of k t tree] t by (intro loop_none_due) simp_all
  with assms(2,3) t show ?thesis
    by (simp add: timer_step_def msg_task_def proc_expire_def none_due_def Let_def)
qed

text \<open>Two timers of which the second ends later; the first has just expired.\<close>

definition first_expired :: "timer_input list" where
  "first_expired = two_timers @ [In_time \<lparr>tv_sec = 0, tv_nsec = 200000000\<rparr>, In_poll True]"

lemma expire_leaves_none_due_witness:
  "nanos \<lparr>tv_sec = 0, tv_nsec = 200000000\<rparr> < nanos \<lparr>tv_sec = 100, tv_nsec = 0\<rparr>"
proof -
  let ?s = "run_steps (timer_step (\<lambda>_. [])) first_expired timer_init"
  have "msgs ?s = [MsgTimerExpire True]" "clock ?s = \<lparr>tv_sec = 0, tv_nsec = 200000000\<rparr>"
    "mTree (containers (timer_step (\<lambda>_. []) In_task ?s) True) =
       new_node \<lparr>tr_addr = 20, tr_time = \<lparr>tv_sec = 100, tv_nsec = 0\<rparr>\<rparr>"
    by code_simp+
  with expire_leaves_none_due [of "\<lambda>_. []" first_expired True "[]"
    "\<lparr>tr_addr = 20, tr_time = \<lparr>tv_sec = 100, tv_nsec = 0\<rparr>\<rparr>"] show ?thesis by simp
qed

lemma log_prefix_calls: "\<exists>es. events (fold client_call ops s) = events s @ es"
proof (induction ops arbitrary: s)
  case Nil
  then show ?case by simp
next
  case (Cons op ops)
  have "\<exists>es. events (client_call op s) = events s @ es"
    by (cases op) (auto simp: timer_start_def timer_stop_def new_delegate_def case_prod_beta Let_def)
  with Cons.IH [of "client_call op s"] show ?case by auto
qed

lemma log_prefix_expire: "\<exists>es. events (delegate_expire cb a s) = events s @ es"
proof -
  have cb: "\<exists>es. events (timeOutCallback cb c s) = events s @ es" for c s
    using log_prefix_calls [of _ "s\<lparr>events := events s @ [CalledBack c]\<rparr>"]
    by (auto simp: timeOutCallback_def Let_def)
  have stop: "events (snd (timer_stop c s)) = events s" for c
    by (simp add: timer_stop_def)
  have "\<exists>es. events (timeOutCallback cb c (snd (timer_stop c s))) = events s @ es" for c
    using cb [of c "snd (timer_stop c s)"] stop by simp
  with stop show ?thesis
    by (simp add: delegate_expire_def case_prod_beta Let_def split: option.split)
qed

lemma log_prefix_loop: "\<exists>es. events (expire_loop cb k n t s) = events s @ es"
proof (induction cb k n t s rule: expire_loop.induct)
  case (1 cb k n s)
  then show ?case by simp
next
  case (2 cb k n t s)
  let ?s = "delegate_expire cb (tr_addr t) s"
  obtain u tree where u: "popIfOutRanks n (mTree (containers ?s k)) = (u, tree)"
    by (cases "popIfOutRanks n (mTree (containers ?s k))")
  from 2 [OF refl u [symmetric] refl] log_prefix_expire [of cb "tr_addr t" s] u show ?case by auto
qed

text \<open>
  The first timer of a container is called back by the message of an expiry whether or not its
  time has come: the expiry may be that of a timer which was removed while its message waited,
  and then the next one is called back early, by any amount.
\<close>

theorem expire_ignores_clock:
  fixes cb :: "timer_event list \<Rightarrow> client_op list" and "is" :: "timer_input list"
  defines "s \<equiv> run_steps (timer_step cb) is timer_init"
  assumes "msgs s = MsgTimerExpire k # ms" and "heap_peek (mTree (containers s k)) = Some r"
    and "mTimer s c = tr_addr r"
  shows "\<exists>es. events (timer_step cb In_task s) = events s @ CalledBack c # es"
proof -
  let ?a = "tr_addr r" and ?now = "\<lparr>tr_addr = NULL, tr_time = clock s\<rparr>" and ?s = "s\<lparr>msgs := ms\<rparr>"
  have inv: "timers_safe None s"
    using timers.run_inv [OF timer_init_inv, of cb "is"] by (simp add: s_def timer_inv_def)
  note heap = timers_safeD(3) [OF inv, of k]
  obtain tree where pop: "heap_pop timer_ranks (mTree (containers s k)) = (Some r, tree)"
    using timer.heap.pop_law [OF heap] assms(3) by (metis prod.collapse)
  obtain d where d: "delegates s ?a = Some d" using pop_safe(3) [OF inv pop] by blast
  have "?a \<noteq> NULL"
    using timers_safeD(6) [OF inv, of ?a] d by (simp add: entry_ok_def phase_ok_def)
  then have c: "c \<noteq> NULL" "mClient d = c"
    using timers_safeD(7,8) [OF inv, of c] assms(4) d by auto
  let ?t = "snd (timer_stop c (set_tree k tree ?s))"
  have "delegate_expire cb ?a (set_tree k tree ?s) =
      fold client_call (cb (events s @ [CalledBack c])) (?t\<lparr>events := events s @ [CalledBack c]\<rparr>)"
    using d c \<open>?a \<noteq> NULL\<close> assms(4)
    by (simp add: delegate_expire_def timeOutCallback_def timer_stop_def Let_def)
  then obtain es where
    es: "events (delegate_expire cb ?a (set_tree k tree ?s)) = events s @ CalledBack c # es"
    using log_prefix_calls [of "cb (events s @ [CalledBack c])"
        "?t\<lparr>events := events s @ [CalledBack c]\<rparr>"] by auto
  obtain u tree' where
    "popIfOutRanks ?now (mTree (containers (delegate_expire cb ?a (set_tree k tree ?s)) k)) = (u, tree')"
    by (metis surj_pair)
  with es pop assms(2)
    log_prefix_loop [of cb k ?now u "set_tree k tree' (delegate_expire cb ?a (set_tree k tree ?s))"]
  show ?thesis by (auto simp: timer_step_def msg_task_def proc_expire_def Let_def)
qed

text \<open>
  The first timer expires while its removal waits: the message task removes it, and the expiry
  finds the second timer, which has 99.8 seconds to run.
\<close>

definition removed_and_expired :: "timer_input list" where
  "removed_and_expired = two_timers @
     [In_client (Op_stop 1), In_time \<lparr>tv_sec = 0, tv_nsec = 200000000\<rparr>, In_poll True, In_task]"

lemma expire_ignores_clock_witness:
  "(let s = run_steps (timer_step (\<lambda>_. [])) removed_and_expired timer_init in
    \<exists>r. heap_peek (mTree (containers s True)) = Some r \<and>
      nanos (tr_time r) - nanos (clock s) = 99800000000 \<and>
      (\<exists>es. events (timer_step (\<lambda>_. []) In_task s) = events s @ CalledBack 2 # es))"
proof -
  let ?s = "run_steps (timer_step (\<lambda>_. [])) removed_and_expired timer_init"
  let ?r = "\<lparr>tr_addr = 20, tr_time = \<lparr>tv_sec = 100, tv_nsec = 0\<rparr>\<rparr>"
  have s: "msgs ?s = [MsgTimerExpire True]" "heap_peek (mTree (containers ?s True)) = Some ?r"
    "mTimer ?s 2 = 20" "clock ?s = \<lparr>tv_sec = 0, tv_nsec = 200000000\<rparr>"
    by code_simp+
  have "\<exists>es. events (timer_step (\<lambda>_. []) In_task ?s) = events ?s @ CalledBack 2 # es"
    by (rule expire_ignores_clock [where k = True and ms = "[]" and r = ?r]) (use s in simp_all)
  with s show ?thesis by (simp add: Let_def nanos_def)
qed

section \<open>The C interface\<close>

text \<open>
  loc\_timer\_start takes a 64 bit number of milliseconds and keeps the low 32 bits: a timeout
  of 2^32 milliseconds or more, about 49.7 days, is shortened to its remainder.
\<close>

theorem loc_timer_start_truncates:
  assumes "created (containers s w)" and "mTimer s p = NULL" and "p \<noteq> NULL" and "a \<noteq> NULL"
    and "delegates s a = None"
  shows "fst (loc_timer_start msec True w fd_ok p a s) = p \<and>
    (\<exists>d. delegates (snd (loc_timer_start msec True w fd_ok p a s)) a = Some d \<and>
       nanos (mFutureTime d) = nanos (clock s) + uint msec mod 2 ^ 32 * 1000000)"
  using assms
  by (auto simp: loc_timer_start_def timer_start_def container_get_def new_delegate_def
      nanos_future domIff take_bit_eq_mod unsigned_ucast_eq)

lemma loc_timer_start_truncates_witness:
  "\<exists>d. delegates (snd (loc_timer_start 4294967297 True True True 5 50
      (timer_init\<lparr>containers := (\<lambda>_. \<lparr>mTree = NoNode, created = True, armed = None,
         polled = False\<rparr>)\<rparr>))) 50 = Some d \<and> nanos (mFutureTime d) = 1000000"
  using loc_timer_start_truncates [of "timer_init\<lparr>containers := (\<lambda>_. \<lparr>mTree = NoNode,
      created = True, armed = None, polled = False\<rparr>)\<rparr>" True 5 50 4294967297 True]
  by (simp add: timer_init_def nanos_def)

end
