(* ===== verification/Agps.thy ===== *)
theory Agps
  imports Hal_Prelude "HOL-Library.Word"
begin

text \<open>
  The AGPS connection manager of the GPS HAL (gps/gnss/Agps.cpp, Agps.h): three state machines,
  one per network interface, that share data connections among subscribers. The data service
  machine overrides three virtual methods of the other two.

  Subscribers are objects at addresses, in a store that makes their lifetime explicit: the lists
  hold addresses, the subscriber of a request lives on the stack while it is processed. Reading an
  object that is dead sets the flag agps\_fault and yields an arbitrary value, given by junk; a
  call through a null pointer sets the flag and has no other effect. What the manager calls, the
  framework, the adapter, the data service client and the timer, is recorded in a trace and
  answered by an arbitrary function of the history.
\<close>

section \<open>Types\<close>

datatype agps_state =
    AGPS_STATE_INVALID
  | AGPS_STATE_RELEASED
  | AGPS_STATE_PENDING
  | AGPS_STATE_ACQUIRED
  | AGPS_STATE_RELEASING

datatype agps_event =
    AGPS_EVENT_INVALID
  | AGPS_EVENT_SUBSCRIBE
  | AGPS_EVENT_UNSUBSCRIBE
  | AGPS_EVENT_GRANTED
  | AGPS_EVENT_RELEASED
  | AGPS_EVENT_DENIED

datatype agps_notification =
    AGPS_NOTIFICATION_INVALID
  | FOR_ALL_SUBSCRIBERS
  | FOR_INACTIVE_SUBSCRIBERS
  | FOR_ACTIVE_SUBSCRIBERS

record agps_subscriber =
  mConnHandle :: int32
  mWaitForCloseComplete :: bool
  mIsInactive :: bool

abbreviation LOC_AGPS_TYPE_INVALID :: int where "LOC_AGPS_TYPE_INVALID \<equiv> - 1"
abbreviation LOC_AGPS_TYPE_SUPL :: int where "LOC_AGPS_TYPE_SUPL \<equiv> 1"
abbreviation LOC_AGPS_TYPE_WWAN_ANY :: int where "LOC_AGPS_TYPE_WWAN_ANY \<equiv> 3"
abbreviation LOC_AGPS_TYPE_SUPL_ES :: int where "LOC_AGPS_TYPE_SUPL_ES \<equiv> 5"
abbreviation AGPS_APN_BEARER_INVALID :: int where "AGPS_APN_BEARER_INVALID \<equiv> 0"

definition LOC_API_ADAPTER_ERR_SUCCESS :: int32 where "LOC_API_ADAPTER_ERR_SUCCESS = 0"
definition LOC_API_ADAPTER_ERR_UNSUPPORTED :: int32 where "LOC_API_ADAPTER_ERR_UNSUPPORTED = 2"
definition LOC_API_ADAPTER_ERR_ENGINE_BUSY :: int32 where "LOC_API_ADAPTER_ERR_ENGINE_BUSY = 6"
definition MAX_START_DATA_CALL_RETRIES :: int where "MAX_START_DATA_CALL_RETRIES = 4"

text \<open>The calls of the manager: handle, success, APN, bearer and type as in the callbacks.\<close>

datatype agps_call =
    AtlOpenStatus int32 bool "string option" int int
  | AtlCloseStatus int32 bool
  | FrameworkStatus int bool
  | DSClientInit bool
  | DSClientOpenAndStartDataCall
  | DSClientStopDataCall
  | DSClientCloseDataCall
  | DSClientRelease
  | SendRequestATL int32 int
  | RetryTimer

datatype nif = AgnssNif | InternetNif | DsNif

record agps_sm =
  mSubscriberList :: "ptr list"
  mCurrentSubscriber :: ptr
  mAgpsState :: agps_state
  mAgpsType :: int
  mAPN :: "string option"
  mAPNLen :: nat
  mBearer :: int
  mRetries :: int

record agps =
  nifs :: "nif \<Rightarrow> agps_sm"
  present :: "nif \<Rightarrow> bool"
  subs :: "ptr \<rightharpoonup> agps_subscriber"
  next_addr :: ptr
  agps_calls :: "agps_call list"
  agps_env :: "agps_call list \<Rightarrow> agps_call \<Rightarrow> int32"
  junk :: "ptr \<Rightarrow> agps_subscriber"
  agps_fault :: bool
  agpsCapable :: bool
  useEmergencyPdn :: bool
  hasInitFn :: bool
  hasStartFn :: bool
  hasStopFn :: bool

definition AgpsStateMachine :: "int \<Rightarrow> agps_sm" where
  "AgpsStateMachine t = \<lparr>mSubscriberList = [], mCurrentSubscriber = NULL,
     mAgpsState = AGPS_STATE_RELEASED, mAgpsType = t, mAPN = None, mAPNLen = 0,
     mBearer = AGPS_APN_BEARER_INVALID, mRetries = 0\<rparr>"

section \<open>Access\<close>

definition upd_sm :: "nif \<Rightarrow> (agps_sm \<Rightarrow> agps_sm) \<Rightarrow> agps \<Rightarrow> agps" where
  "upd_sm n f s = s\<lparr>nifs := (nifs s)(n := f (nifs s n))\<rparr>"

definition agps_tell :: "agps_call \<Rightarrow> agps \<Rightarrow> agps" where
  "agps_tell c s = s\<lparr>agps_calls := agps_calls s @ [c]\<rparr>"

definition agps_ask :: "agps_call \<Rightarrow> agps \<Rightarrow> int32 \<times> agps" where
  "agps_ask c s = (agps_env s (agps_calls s) c, agps_tell c s)"

definition sub_at :: "agps \<Rightarrow> ptr \<Rightarrow> agps_subscriber" where
  "sub_at s p = (case subs s p of Some x \<Rightarrow> x | None \<Rightarrow> junk s p)"

text \<open>The effect of reading an object: nothing if it lives.\<close>

definition touch :: "ptr \<Rightarrow> agps \<Rightarrow> agps" where
  "touch p s = (if subs s p = None then s\<lparr>agps_fault := True\<rparr> else s)"

definition delete_sub :: "ptr \<Rightarrow> agps \<Rightarrow> agps" where
  "delete_sub p s = (touch p s)\<lparr>subs := (subs s)(p := None)\<rparr>"

definition set_inactive :: "ptr \<Rightarrow> agps \<Rightarrow> agps" where
  "set_inactive p s = (case subs s p of
      Some x \<Rightarrow> s\<lparr>subs := (subs s)(p \<mapsto> x\<lparr>mIsInactive := True\<rparr>)\<rparr>
    | None \<Rightarrow> s\<lparr>agps_fault := True\<rparr>)"

definition new_sub :: "agps_subscriber \<Rightarrow> agps \<Rightarrow> ptr \<times> agps" where
  "new_sub x s = (next_addr s,
     s\<lparr>subs := (subs s)(next_addr s \<mapsto> x), next_addr := next_addr s + 1\<rparr>)"

definition transitionState :: "nif \<Rightarrow> agps_state \<Rightarrow> agps \<Rightarrow> agps" where
  "transitionState n newState = upd_sm n (\<lambda>m. m\<lparr>mAgpsState := newState\<rparr>)"

definition setCurrentSubscriber :: "nif \<Rightarrow> ptr \<Rightarrow> agps \<Rightarrow> agps" where
  "setCurrentSubscriber n p = upd_sm n (\<lambda>m. m\<lparr>mCurrentSubscriber := p\<rparr>)"

definition setBearer :: "nif \<Rightarrow> int \<Rightarrow> agps \<Rightarrow> agps" where
  "setBearer n b = upd_sm n (\<lambda>m. m\<lparr>mBearer := b\<rparr>)"

definition setAPN :: "nif \<Rightarrow> string option \<Rightarrow> nat \<Rightarrow> agps \<Rightarrow> agps" where
  "setAPN n apn len = upd_sm n (\<lambda>m.
     let m1 = (if apn = None \<or> len = 0 then m\<lparr>mAPN := None, mAPNLen := 0\<rparr> else m)
     in (case apn of
           None \<Rightarrow> m1
         | Some a \<Rightarrow> m1\<lparr>mAPN := Some (take len a), mAPNLen := len\<rparr>))"

section \<open>The subscriber list\<close>

definition getSubscriber :: "nif \<Rightarrow> int32 \<Rightarrow> agps \<Rightarrow> ptr option" where
  "getSubscriber n connHandle s =
     find (\<lambda>p. mConnHandle (sub_at s p) = connHandle) (mSubscriberList (nifs s n))"

definition getFirstSubscriber :: "nif \<Rightarrow> bool \<Rightarrow> agps \<Rightarrow> ptr option" where
  "getFirstSubscriber n inactive s =
     find (\<lambda>p. mIsInactive (sub_at s p) = inactive) (mSubscriberList (nifs s n))"

definition anyActiveSubscribers :: "nif \<Rightarrow> agps \<Rightarrow> bool" where
  "anyActiveSubscribers n s = list_ex (\<lambda>p. \<not> mIsInactive (sub_at s p)) (mSubscriberList (nifs s n))"

definition addSubscriber :: "nif \<Rightarrow> ptr \<Rightarrow> agps \<Rightarrow> agps" where
  "addSubscriber n p s =
     (if list_ex (\<lambda>q. mConnHandle (sub_at s q) = mConnHandle (sub_at s p))
           (mSubscriberList (nifs s n))
      then touch p s
      else let (cloned, s1) = new_sub (sub_at s p) (touch p s)
           in upd_sm n (\<lambda>m. m\<lparr>mSubscriberList := mSubscriberList m @ [cloned]\<rparr>) s1)"

text \<open>
  deleteSubscriber compares every element of the list with the subscriber to delete, which may be
  an element of the list itself and is then read again after it has been deleted.
\<close>

fun delete_loop :: "ptr \<Rightarrow> ptr list \<Rightarrow> agps \<Rightarrow> ptr list \<times> agps" where
  "delete_loop p [] s = ([], s)"
| "delete_loop p (q # qs) s =
     (let s1 = touch p (touch q s) in
      if mConnHandle (sub_at s1 q) = mConnHandle (sub_at s1 p)
      then delete_loop p qs (delete_sub q s1)
      else let (rest, s2) = delete_loop p qs s1 in (q # rest, s2))"

definition deleteSubscriber :: "nif \<Rightarrow> ptr \<Rightarrow> agps \<Rightarrow> agps" where
  "deleteSubscriber n p s =
     (let (rest, s1) = delete_loop p (mSubscriberList (nifs s n)) s
      in upd_sm n (\<lambda>m. m\<lparr>mSubscriberList := rest\<rparr>) s1)"

definition dropAllSubscribers :: "nif \<Rightarrow> agps \<Rightarrow> agps" where
  "dropAllSubscribers n s =
     upd_sm n (\<lambda>m. m\<lparr>mSubscriberList := []\<rparr>) (fold delete_sub (mSubscriberList (nifs s n)) s)"

section \<open>Notifications\<close>

text \<open>The two implementations of the virtual method, by the machine they are called on.\<close>

definition notify_status :: "nif \<Rightarrow> agps_event \<Rightarrow> int32 \<Rightarrow> agps \<Rightarrow> agps" where
  "notify_status n event h s = (let m = nifs s n in case event of
      AGPS_EVENT_GRANTED \<Rightarrow>
        agps_tell (AtlOpenStatus h True (mAPN m) (mBearer m) (mAgpsType m)) s
    | AGPS_EVENT_DENIED \<Rightarrow>
        agps_tell (AtlOpenStatus h False (mAPN m) (mBearer m) (mAgpsType m)) s
    | AGPS_EVENT_UNSUBSCRIBE \<Rightarrow> agps_tell (AtlCloseStatus h True) s
    | AGPS_EVENT_RELEASED \<Rightarrow> agps_tell (AtlCloseStatus h True) s
    | _ \<Rightarrow> s)"

definition notify_status_ds :: "nif \<Rightarrow> agps_event \<Rightarrow> int32 \<Rightarrow> agps \<Rightarrow> agps" where
  "notify_status_ds n event h s = (case event of
      AGPS_EVENT_GRANTED \<Rightarrow>
        agps_tell (AtlOpenStatus h True None AGPS_APN_BEARER_INVALID LOC_AGPS_TYPE_SUPL_ES) s
    | AGPS_EVENT_DENIED \<Rightarrow>
        agps_tell (SendRequestATL h LOC_AGPS_TYPE_SUPL) (upd_sm n (\<lambda>m. m\<lparr>mRetries := 0\<rparr>) s)
    | AGPS_EVENT_UNSUBSCRIBE \<Rightarrow> agps_tell (AtlCloseStatus h True) s
    | AGPS_EVENT_RELEASED \<Rightarrow>
        agps_tell (AtlCloseStatus h True) (agps_tell DSClientCloseDataCall s)
    | _ \<Rightarrow> s)"

definition notifyEventToSubscriber :: "nif \<Rightarrow> agps_event \<Rightarrow> ptr \<Rightarrow> bool \<Rightarrow> agps \<Rightarrow> agps" where
  "notifyEventToSubscriber n event p deletePostNotify s =
     (let s1 = touch p s; h = mConnHandle (sub_at s p);
          s2 = (if n = DsNif then notify_status_ds n event h s1 else notify_status n event h s1)
      in if deletePostNotify then deleteSubscriber n p s2 else s2)"

definition wants :: "agps_notification \<Rightarrow> agps_subscriber \<Rightarrow> bool" where
  "wants nt x \<longleftrightarrow> nt = FOR_ALL_SUBSCRIBERS \<or> nt = FOR_INACTIVE_SUBSCRIBERS \<and> mIsInactive x \<or>
     nt = FOR_ACTIVE_SUBSCRIBERS \<and> \<not> mIsInactive x"

fun notify_loop :: "nif \<Rightarrow> agps_event \<Rightarrow> bool \<Rightarrow> agps_notification \<Rightarrow> ptr list \<Rightarrow> agps \<Rightarrow> ptr list \<times> agps" where
  "notify_loop n event del nt [] s = ([], s)"
| "notify_loop n event del nt (p # ps) s =
     (if wants nt (sub_at s p)
      then let s1 = notifyEventToSubscriber n event p False s in
           if del then notify_loop n event del nt ps (delete_sub p s1)
           else let (rest, s2) = notify_loop n event del nt ps s1 in (p # rest, s2)
      else let (rest, s2) = notify_loop n event del nt ps (touch p s) in (p # rest, s2))"

definition notifyAllSubscribers :: "nif \<Rightarrow> agps_event \<Rightarrow> bool \<Rightarrow> agps_notification \<Rightarrow> agps \<Rightarrow> agps" where
  "notifyAllSubscribers n event del nt s =
     (let (rest, s1) = notify_loop n event del nt (mSubscriberList (nifs s n)) s
      in upd_sm n (\<lambda>m. m\<lparr>mSubscriberList := rest\<rparr>) s1)"

section \<open>The data connection\<close>

definition request_framework :: "nif \<Rightarrow> bool \<Rightarrow> agps \<Rightarrow> int32 \<times> agps" where
  "request_framework n request s =
     (0, agps_tell (FrameworkStatus (mAgpsType (nifs s n)) request) s)"

text \<open>
  The data service client starts a call, which may be refused: busy is retried after a delay, a
  number of times, anything else falls back to a normal connection. A result of loc\_timer\_start
  that is not zero, which is the handle of a running timer, is taken for a failure.
\<close>

definition start_data_call :: "ptr \<Rightarrow> agps \<Rightarrow> int32 \<times> agps" where
  "start_data_call p s =
     (let (ret, s1) = agps_ask DSClientOpenAndStartDataCall s in
      if ret = LOC_API_ADAPTER_ERR_ENGINE_BUSY
      then let s2 = upd_sm DsNif (\<lambda>m. m\<lparr>mRetries := mRetries m + 1\<rparr>) s1 in
        if MAX_START_DATA_CALL_RETRIES < mRetries (nifs s2 DsNif)
        then (ret, notifyEventToSubscriber DsNif AGPS_EVENT_DENIED p False s2)
        else let (timer, s3) = agps_ask RetryTimer s2
             in if timer \<noteq> 0 then (- 1, s3) else (ret, s3)
      else if ret = LOC_API_ADAPTER_ERR_UNSUPPORTED
      then (ret, notifyEventToSubscriber DsNif AGPS_EVENT_DENIED p False s1)
      else (ret, s1))"

definition request_ds :: "bool \<Rightarrow> agps \<Rightarrow> int32 \<times> agps" where
  "request_ds request s =
     (if \<not> request \<and> hasStopFn s then (0, agps_tell DSClientStopDataCall s)
      else case getFirstSubscriber DsNif False s of
        None \<Rightarrow> (- 1, s)
      | Some p \<Rightarrow>
          (if \<not> hasStartFn s
           then (- 1, notifyEventToSubscriber DsNif AGPS_EVENT_DENIED p False s)
           else start_data_call p s))"

definition requestOrReleaseDataConn :: "nif \<Rightarrow> bool \<Rightarrow> agps \<Rightarrow> int32 \<times> agps" where
  "requestOrReleaseDataConn n request s =
     (if n = DsNif then request_ds request s else request_framework n request s)"

section \<open>Events\<close>

definition processAgpsEventSubscribe :: "nif \<Rightarrow> agps \<Rightarrow> agps" where
  "processAgpsEventSubscribe n s = (let cur = mCurrentSubscriber (nifs s n) in
     case mAgpsState (nifs s n) of
       AGPS_STATE_RELEASED \<Rightarrow>
         (let (ret, s1) = requestOrReleaseDataConn n True (addSubscriber n cur s)
          in if ret = 0 then transitionState n AGPS_STATE_PENDING s1 else s1)
     | AGPS_STATE_PENDING \<Rightarrow> addSubscriber n cur s
     | AGPS_STATE_ACQUIRED \<Rightarrow>
         addSubscriber n cur (notifyEventToSubscriber n AGPS_EVENT_GRANTED cur False s)
     | AGPS_STATE_RELEASING \<Rightarrow> addSubscriber n cur s
     | AGPS_STATE_INVALID \<Rightarrow> s)"

text \<open>What both branches of UNSUBSCRIBE do with the subscriber.\<close>

definition leave_or_wait :: "nif \<Rightarrow> ptr \<Rightarrow> agps \<Rightarrow> agps" where
  "leave_or_wait n cur s =
     (let s1 = touch cur s in
      if mWaitForCloseComplete (sub_at s cur) then set_inactive cur s1
      else notifyEventToSubscriber n AGPS_EVENT_UNSUBSCRIBE cur True s1)"

definition processAgpsEventUnsubscribe :: "nif \<Rightarrow> agps \<Rightarrow> agps" where
  "processAgpsEventUnsubscribe n s = (let cur = mCurrentSubscriber (nifs s n) in
     case mAgpsState (nifs s n) of
       AGPS_STATE_RELEASED \<Rightarrow> notifyEventToSubscriber n AGPS_EVENT_UNSUBSCRIBE cur False s
     | AGPS_STATE_RELEASING \<Rightarrow>
         (let s1 = leave_or_wait n cur s
          in if mSubscriberList (nifs s1 n) = [] then transitionState n AGPS_STATE_RELEASED s1
             else s1)
     | AGPS_STATE_INVALID \<Rightarrow> s
     | _ \<Rightarrow>
         (let s1 = leave_or_wait n cur s
          in if mSubscriberList (nifs s1 n) = []
             then snd (requestOrReleaseDataConn n False (transitionState n AGPS_STATE_RELEASED s1))
             else if \<not> anyActiveSubscribers n s1
             then snd (requestOrReleaseDataConn n False (transitionState n AGPS_STATE_RELEASING s1))
             else s1))"

definition processAgpsEventGranted :: "nif \<Rightarrow> agps \<Rightarrow> agps" where
  "processAgpsEventGranted n s = (case mAgpsState (nifs s n) of
      AGPS_STATE_PENDING \<Rightarrow>
        notifyAllSubscribers n AGPS_EVENT_GRANTED False FOR_ACTIVE_SUBSCRIBERS
          (transitionState n AGPS_STATE_ACQUIRED s)
    | _ \<Rightarrow> s)"

text \<open>The end of a release: the inactive leave, the active get a new connection.\<close>

definition finish_releasing :: "nif \<Rightarrow> agps \<Rightarrow> agps" where
  "finish_releasing n s =
     (let s1 = notifyAllSubscribers n AGPS_EVENT_RELEASED True FOR_INACTIVE_SUBSCRIBERS s
      in if anyActiveSubscribers n s1
         then snd (requestOrReleaseDataConn n True (transitionState n AGPS_STATE_PENDING s1))
         else transitionState n AGPS_STATE_RELEASED s1)"

definition processAgpsEventReleased :: "nif \<Rightarrow> agps \<Rightarrow> agps" where
  "processAgpsEventReleased n s = (case mAgpsState (nifs s n) of
      AGPS_STATE_ACQUIRED \<Rightarrow>
        notifyAllSubscribers n AGPS_EVENT_RELEASED True FOR_ALL_SUBSCRIBERS
          (transitionState n AGPS_STATE_RELEASED s)
    | AGPS_STATE_RELEASING \<Rightarrow> finish_releasing n s
    | _ \<Rightarrow> s)"

definition processAgpsEventDenied :: "nif \<Rightarrow> agps \<Rightarrow> agps" where
  "processAgpsEventDenied n s = (case mAgpsState (nifs s n) of
      AGPS_STATE_RELEASING \<Rightarrow> finish_releasing n s
    | AGPS_STATE_PENDING \<Rightarrow>
        notifyAllSubscribers n AGPS_EVENT_DENIED True FOR_ALL_SUBSCRIBERS
          (transitionState n AGPS_STATE_RELEASED s)
    | _ \<Rightarrow> s)"

definition processAgpsEvent :: "nif \<Rightarrow> agps_event \<Rightarrow> agps \<Rightarrow> agps" where
  "processAgpsEvent n event s = (case event of
      AGPS_EVENT_SUBSCRIBE \<Rightarrow> processAgpsEventSubscribe n s
    | AGPS_EVENT_UNSUBSCRIBE \<Rightarrow> processAgpsEventUnsubscribe n s
    | AGPS_EVENT_GRANTED \<Rightarrow> processAgpsEventGranted n s
    | AGPS_EVENT_RELEASED \<Rightarrow> processAgpsEventReleased n s
    | AGPS_EVENT_DENIED \<Rightarrow> processAgpsEventDenied n s
    | AGPS_EVENT_INVALID \<Rightarrow> s)"

definition ds_processAgpsEvent :: "agps_event \<Rightarrow> agps \<Rightarrow> agps" where
  "ds_processAgpsEvent event s =
     (if event = AGPS_EVENT_RELEASED \<and> mAgpsState (nifs s DsNif) = AGPS_STATE_PENDING
      then processAgpsEvent DsNif AGPS_EVENT_DENIED s
      else processAgpsEvent DsNif event s)"

definition sm_event :: "nif \<Rightarrow> agps_event \<Rightarrow> agps \<Rightarrow> agps" where
  "sm_event n event s =
     (if n = DsNif then ds_processAgpsEvent event s else processAgpsEvent n event s)"

definition retryCallback :: "agps \<Rightarrow> agps" where
  "retryCallback s = (case getFirstSubscriber DsNif False s of
      None \<Rightarrow> s
    | Some p \<Rightarrow> agps_tell (SendRequestATL (mConnHandle (sub_at s p)) LOC_AGPS_TYPE_SUPL_ES) s)"

section \<open>The manager\<close>

definition create_sm :: "nif \<Rightarrow> int \<Rightarrow> agps \<Rightarrow> agps" where
  "create_sm n t s =
     (if present s n then s
      else upd_sm n (\<lambda>_. AgpsStateMachine t) (s\<lparr>present := (present s)(n := True)\<rparr>))"

definition createAgpsStateMachines :: "agps \<Rightarrow> agps" where
  "createAgpsStateMachines s =
     (let s1 = create_sm InternetNif LOC_AGPS_TYPE_WWAN_ANY s in
      if \<not> agpsCapable s1 then s1
      else let s2 = create_sm AgnssNif LOC_AGPS_TYPE_SUPL s1 in
        if \<not> present s2 DsNif \<and> useEmergencyPdn s2
        then if \<not> hasInitFn s2 then s2
             else let (ret, s3) = agps_ask (DSClientInit False) s2
                  in if ret \<noteq> 0 then s3 else create_sm DsNif LOC_AGPS_TYPE_SUPL_ES s3
        else s2)"

definition null_unless :: "nif \<Rightarrow> agps \<Rightarrow> nif option" where
  "null_unless n s = (if present s n then Some n else None)"

definition getAgpsStateMachine :: "int \<Rightarrow> agps \<Rightarrow> nif option \<times> agps" where
  "getAgpsStateMachine t s =
     (if t = LOC_AGPS_TYPE_INVALID \<or> t = LOC_AGPS_TYPE_SUPL then (null_unless AgnssNif s, s)
      else if t = LOC_AGPS_TYPE_SUPL_ES
      then if useEmergencyPdn s
           then let s1 = (if present s DsNif then s else createAgpsStateMachines s)
                in (null_unless DsNif s1, s1)
           else (null_unless AgnssNif s, s)
      else (null_unless InternetNif s, s))"

definition requestATL :: "int32 \<Rightarrow> int \<Rightarrow> agps \<Rightarrow> agps" where
  "requestATL connHandle t s =
     (let (sm, s1) = getAgpsStateMachine t s in
      case sm of
        None \<Rightarrow> agps_tell (AtlOpenStatus connHandle False None AGPS_APN_BEARER_INVALID t) s1
      | Some n \<Rightarrow>
          (let (p, s2) = new_sub \<lparr>mConnHandle = connHandle,
                 mWaitForCloseComplete = (t = LOC_AGPS_TYPE_SUPL_ES), mIsInactive = False\<rparr> s1
           in delete_sub p (sm_event n AGPS_EVENT_SUBSCRIBE (setCurrentSubscriber n p s2))))"

definition find_in :: "nif \<Rightarrow> int32 \<Rightarrow> agps \<Rightarrow> ptr option" where
  "find_in n connHandle s = (if present s n then getSubscriber n connHandle s else None)"

definition releaseATL :: "int32 \<Rightarrow> agps \<Rightarrow> agps" where
  "releaseATL connHandle s =
     (let release = (\<lambda>n p. sm_event n AGPS_EVENT_UNSUBSCRIBE (setCurrentSubscriber n p s)) in
      case find_in AgnssNif connHandle s of
        Some p \<Rightarrow> release AgnssNif p
      | None \<Rightarrow> (case find_in InternetNif connHandle s of
          Some p \<Rightarrow> release InternetNif p
        | None \<Rightarrow> (case find_in DsNif connHandle s of
            Some p \<Rightarrow> release DsNif p
          | None \<Rightarrow> agps_tell (AtlCloseStatus connHandle False) s)))"

definition reportDataCallOpened :: "agps \<Rightarrow> agps" where
  "reportDataCallOpened s =
     (if present s DsNif then sm_event DsNif AGPS_EVENT_GRANTED s else s)"

definition reportDataCallClosed :: "agps \<Rightarrow> agps" where
  "reportDataCallClosed s =
     (if present s DsNif then sm_event DsNif AGPS_EVENT_RELEASED s else s)"

text \<open>The reports of the framework use the machine they get without a look.\<close>

definition with_sm :: "int \<Rightarrow> (nif \<Rightarrow> agps \<Rightarrow> agps) \<Rightarrow> agps \<Rightarrow> agps" where
  "with_sm t f s =
     (let (sm, s1) = getAgpsStateMachine t s
      in case sm of None \<Rightarrow> s1\<lparr>agps_fault := True\<rparr> | Some n \<Rightarrow> f n s1)"

definition reportAtlOpenSuccess :: "int \<Rightarrow> string option \<Rightarrow> nat \<Rightarrow> int \<Rightarrow> agps \<Rightarrow> agps" where
  "reportAtlOpenSuccess t apnName apnLen bearerType =
     with_sm t (\<lambda>n s. sm_event n AGPS_EVENT_GRANTED (setAPN n apnName apnLen (setBearer n bearerType s)))"

definition reportAtlOpenFailed :: "int \<Rightarrow> agps \<Rightarrow> agps" where
  "reportAtlOpenFailed t = with_sm t (\<lambda>n. sm_event n AGPS_EVENT_DENIED)"

definition reportAtlClosed :: "int \<Rightarrow> agps \<Rightarrow> agps" where
  "reportAtlClosed t = with_sm t (\<lambda>n. sm_event n AGPS_EVENT_RELEASED)"

definition handleModemSSR :: "agps \<Rightarrow> agps" where
  "handleModemSSR s =
     (let drop_in = (\<lambda>n s. if present s n then dropAllSubscribers n s else s);
          s1 = drop_in DsNif (drop_in InternetNif (drop_in AgnssNif s))
      in if useEmergencyPdn s1
         then snd (agps_ask (DSClientInit True)
                (agps_tell DSClientRelease (agps_tell DSClientCloseDataCall
                  (agps_tell DSClientStopDataCall s1))))
         else s1)"

section \<open>Runs\<close>

text \<open>Everything the adapter thread does with the manager, one message at a time.\<close>

datatype agps_input =
    In_create
  | In_requestATL int32 int
  | In_releaseATL int32
  | In_dataCallOpened
  | In_dataCallClosed
  | In_openSuccess int "string option" nat int
  | In_openFailed int
  | In_closed int
  | In_modemSSR
  | In_retry

definition agps_step :: "agps_input \<Rightarrow> agps \<Rightarrow> agps" where
  "agps_step i s = (case i of
      In_create \<Rightarrow> createAgpsStateMachines s
    | In_requestATL h t \<Rightarrow> requestATL h t s
    | In_releaseATL h \<Rightarrow> releaseATL h s
    | In_dataCallOpened \<Rightarrow> reportDataCallOpened s
    | In_dataCallClosed \<Rightarrow> reportDataCallClosed s
    | In_openSuccess t apn len b \<Rightarrow> reportAtlOpenSuccess t apn len b s
    | In_openFailed t \<Rightarrow> reportAtlOpenFailed t s
    | In_closed t \<Rightarrow> reportAtlClosed t s
    | In_modemSSR \<Rightarrow> handleModemSSR s
    | In_retry \<Rightarrow> if present s DsNif then retryCallback s else s)"

definition agps_init :: "bool \<Rightarrow> bool \<Rightarrow> bool \<Rightarrow> bool \<Rightarrow> bool \<Rightarrow> (ptr \<Rightarrow> agps_subscriber) \<Rightarrow>
    (agps_call list \<Rightarrow> agps_call \<Rightarrow> int32) \<Rightarrow> agps" where
  "agps_init capable emergency init_fn start_fn stop_fn junk_fn e =
     \<lparr>nifs = (\<lambda>_. AgpsStateMachine LOC_AGPS_TYPE_INVALID), present = (\<lambda>_. False),
      subs = Map.empty, next_addr = 1, agps_calls = [], agps_env = e, junk = junk_fn,
      agps_fault = False, agpsCapable = capable, useEmergencyPdn = emergency,
      hasInitFn = init_fn, hasStartFn = start_fn, hasStopFn = stop_fn\<rparr>"

end
