(* ===== verification/Agps_Inv.thy ===== *)
theory Agps_Inv
  imports Agps
begin

text \<open>
  The invariant of the AGPS manager: every live subscriber is in exactly one list, no list holds
  a handle twice or a dead subscriber, and a machine of the framework that is RELEASED has no
  subscribers. It is kept by every message, also when a dead object is read on the way.
\<close>

section \<open>Frames\<close>

definition sub_lists :: "agps \<Rightarrow> nif \<Rightarrow> ptr list" where
  "sub_lists s = (\<lambda>n. mSubscriberList (nifs s n))"

definition sm_states :: "agps \<Rightarrow> nif \<Rightarrow> agps_state" where
  "sm_states s = (\<lambda>n. mAgpsState (nifs s n))"

text \<open>What the invariant reads of a state.\<close>

definition same_core :: "agps \<Rightarrow> agps \<Rightarrow> bool" where
  "same_core s t \<longleftrightarrow> sub_lists t = sub_lists s \<and> subs t = subs s \<and> next_addr t = next_addr s \<and>
     sm_states t = sm_states s \<and> present t = present s \<and> junk t = junk s"

lemma same_core_refl [simp]: "same_core s s"
  by (simp add: same_core_def)

lemma same_core_trans: "same_core s t \<Longrightarrow> same_core t u \<Longrightarrow> same_core s u"
  by (simp add: same_core_def)

lemma same_core_sym: "same_core s t \<Longrightarrow> same_core t s"
  by (simp add: same_core_def)

lemma sub_at_core: "same_core s t \<Longrightarrow> sub_at t p = sub_at s p"
  by (simp add: same_core_def sub_at_def split: option.split)

lemma core_simps [simp]:
  "same_core s (agps_tell c t) = same_core s t" "same_core s (snd (agps_ask c t)) = same_core s t"
  "same_core s (t\<lparr>agps_fault := f\<rparr>) = same_core s t"
  "same_core s (touch p t) = same_core s t"
  by (auto simp: same_core_def agps_tell_def agps_ask_def touch_def sub_lists_def sm_states_def)

lemma core_upd:
  assumes "\<And>m. mSubscriberList (f m) = mSubscriberList m" "\<And>m. mAgpsState (f m) = mAgpsState m"
  shows "same_core s (upd_sm n f t) = same_core s t"
proof -
  have "sub_lists (upd_sm n f t) = sub_lists t" "sm_states (upd_sm n f t) = sm_states t"
    using assms by (auto simp: sub_lists_def sm_states_def upd_sm_def)
  then show ?thesis by (simp add: same_core_def upd_sm_def)
qed

lemma core_notify: "same_core s (notifyEventToSubscriber n ev p False s)"
  by (auto simp: notifyEventToSubscriber_def notify_status_ds_def notify_status_def Let_def core_upd
      split: agps_event.split)

lemma core_request: "same_core s (snd (requestOrReleaseDataConn n request s))"
proof -
  have start: "same_core s (snd (start_data_call p s))" for p
  proof -
    let ?t = "upd_sm DsNif (\<lambda>m. m\<lparr>mRetries := mRetries m + 1\<rparr>)
      (snd (agps_ask DSClientOpenAndStartDataCall s))"
    have "same_core s ?t" by (simp add: core_upd)
    from same_core_trans [OF this core_notify] this
      same_core_trans [OF _ core_notify, of s "snd (agps_ask DSClientOpenAndStartDataCall s)"]
    show ?thesis
      by (simp add: start_data_call_def case_prod_beta Let_def)
  qed
  then show ?thesis
    by (auto simp: requestOrReleaseDataConn_def request_ds_def request_framework_def core_notify
        split: option.split)
qed

section \<open>Lists and their subscribers\<close>

text \<open>All live subscribers are in one list each, but for those of T, which are in none.\<close>

definition lists_ok :: "ptr set \<Rightarrow> agps \<Rightarrow> bool" where
  "lists_ok T s \<longleftrightarrow>
     (\<forall>n. distinct (map (\<lambda>p. mConnHandle (sub_at s p)) (sub_lists s n))) \<and>
     (\<forall>n m. n \<noteq> m \<longrightarrow> set (sub_lists s n) \<inter> set (sub_lists s m) = {}) \<and>
     dom (subs s) = (\<Union>n. set (sub_lists s n)) \<union> T \<and>
     T \<inter> (\<Union>n. set (sub_lists s n)) = {} \<and>
     (\<forall>p \<in> dom (subs s). p \<noteq> NULL \<and> p < next_addr s) \<and> next_addr s \<noteq> NULL"

lemma lists_ok_core: "same_core s t \<Longrightarrow> lists_ok T s \<Longrightarrow> lists_ok T t"
  using sub_at_core [of s t] by (simp add: lists_ok_def same_core_def)

lemma lists_ok_live: "lists_ok T s \<Longrightarrow> p \<in> set (sub_lists s n) \<Longrightarrow> p \<in> dom (subs s)"
  by (auto simp: lists_ok_def)

lemma lists_ok_disjoint: "lists_ok T s \<Longrightarrow> n \<noteq> m \<Longrightarrow> set (sub_lists s n) \<inter> set (sub_lists s m) = {}"
  by (simp add: lists_ok_def)

lemma lists_ok_apart: "lists_ok T s \<Longrightarrow> T \<inter> (\<Union>m. set (sub_lists s m)) = {}"
  by (simp add: lists_ok_def)

lemma lists_ok_dom: "lists_ok T s \<Longrightarrow> dom (subs s) = (\<Union>m. set (sub_lists s m)) \<union> T"
  by (simp add: lists_ok_def)

lemma lists_ok_fresh: "lists_ok T s \<Longrightarrow> next_addr s \<notin> dom (subs s)"
  unfolding lists_ok_def by (metis less_irrefl)

text \<open>A list is cut down and the subscribers cut out are dead.\<close>

definition cut :: "nif \<Rightarrow> ptr list \<Rightarrow> agps \<Rightarrow> agps \<Rightarrow> bool" where
  "cut n rest s t \<longleftrightarrow> sub_lists t = (sub_lists s)(n := rest) \<and>
     (\<exists>P. rest = filter P (sub_lists s n) \<and>
       subs t = subs s |` (- {p \<in> set (sub_lists s n). \<not> P p})) \<and>
     next_addr t = next_addr s \<and> sm_states t = sm_states s \<and> present t = present s \<and>
     junk t = junk s"

lemma lists_ok_cut:
  assumes "lists_ok T s" and "cut n rest s t"
  shows "lists_ok T t"
proof -
  obtain P where P: "rest = filter P (sub_lists s n)"
    "subs t = subs s |` (- {p \<in> set (sub_lists s n). \<not> P p})"
    and l: "sub_lists t = (sub_lists s)(n := rest)"
    and o: "next_addr t = next_addr s" "junk t = junk s"
    using assms(2) by (auto simp: cut_def)
  let ?gone = "{p \<in> set (sub_lists s n). \<not> P p}"
  have keep: "sub_at t p = sub_at s p" if "p \<notin> ?gone" for p
    using that P(2) o(2) by (simp add: sub_at_def split: option.split)
  have other: "p \<notin> ?gone" if "p \<in> set (sub_lists t m)" for p m
    using that l P(1) lists_ok_disjoint [OF assms(1), of m n] by (cases "m = n") auto
  have same: "map (\<lambda>p. mConnHandle (sub_at t p)) (sub_lists t m) =
      map (\<lambda>p. mConnHandle (sub_at s p)) (sub_lists t m)" for m
    using other keep by (intro map_cong) auto
  have handles: "distinct (map (\<lambda>p. mConnHandle (sub_at t p)) (sub_lists t m))" for m
    unfolding same using assms(1) l P(1) by (auto simp: lists_ok_def intro: distinct_map_filter)
  have sub: "set (sub_lists t m) \<subseteq> set (sub_lists s m)" for m
    using l P(1) by (cases "m = n") auto
  have "dom (subs t) = (\<Union>m. set (sub_lists t m)) \<union> T"
  proof -
    have "dom (subs t) = dom (subs s) - ?gone" using P(2) by auto
    also have "\<dots> = ((\<Union>m. set (sub_lists s m)) - ?gone) \<union> T"
      using lists_ok_dom [OF assms(1)] lists_ok_apart [OF assms(1)] by blast
    also have "(\<Union>m. set (sub_lists s m)) - ?gone = (\<Union>m. set (sub_lists t m))"
    proof
      show "(\<Union>m. set (sub_lists s m)) - ?gone \<subseteq> (\<Union>m. set (sub_lists t m))"
        using l P(1) by fastforce
      show "(\<Union>m. set (sub_lists t m)) \<subseteq> (\<Union>m. set (sub_lists s m)) - ?gone"
        using sub other by blast
    qed
    finally show ?thesis .
  qed
  moreover have "set (sub_lists t m) \<inter> set (sub_lists t k) = {}" if "m \<noteq> k" for m k
    using lists_ok_disjoint [OF assms(1) that] sub [of m] sub [of k] by blast
  moreover have "T \<inter> (\<Union>m. set (sub_lists t m)) = {}"
    using lists_ok_apart [OF assms(1)] sub by blast
  moreover have "\<forall>p \<in> dom (subs t). p \<noteq> NULL \<and> p < next_addr t" "next_addr t \<noteq> NULL"
    using assms(1) o(1) P(2) by (auto simp: lists_ok_def)
  ultimately show ?thesis
    using handles unfolding lists_ok_def by blast
qed

lemma touch_simps [simp]:
  "subs (touch p s) = subs s" "nifs (touch p s) = nifs s" "present (touch p s) = present s"
  "next_addr (touch p s) = next_addr s" "junk (touch p s) = junk s"
  "sub_at (touch p s) q = sub_at s q"
  by (simp_all add: touch_def sub_at_def split: option.split)

lemma delete_sub_simps [simp]:
  "subs (delete_sub p s) = (subs s)(p := None)" "nifs (delete_sub p s) = nifs s"
  "present (delete_sub p s) = present s" "next_addr (delete_sub p s) = next_addr s"
  "junk (delete_sub p s) = junk s"
  by (simp_all add: delete_sub_def)

text \<open>What both loops leave: a filtered list, and the rest dead.\<close>

definition pruned :: "ptr list \<Rightarrow> agps \<Rightarrow> ptr list \<times> agps \<Rightarrow> bool" where
  "pruned qs s r \<longleftrightarrow> (\<exists>P. fst r = filter P qs \<and>
     subs (snd r) = subs s |` (- {q \<in> set qs. \<not> P q})) \<and>
     sub_lists (snd r) = sub_lists s \<and> sm_states (snd r) = sm_states s \<and>
     present (snd r) = present s \<and> next_addr (snd r) = next_addr s \<and> junk (snd r) = junk s"

lemma pruned_keep:
  assumes "pruned qs t r" and "same_core s t" and "q \<notin> set qs"
  shows "pruned (q # qs) s (q # fst r, snd r)"
proof -
  obtain P where P: "fst r = filter P qs" "subs (snd r) = subs t |` (- {x \<in> set qs. \<not> P x})"
    using assms(1) by (auto simp: pruned_def)
  let ?P = "\<lambda>x. x = q \<or> P x"
  have "q # fst r = filter ?P (q # qs)"
    using P(1) assms(3) by (auto intro: filter_cong)
  moreover have "{x \<in> set qs. \<not> P x} = {x \<in> set (q # qs). \<not> ?P x}" using assms(3) by auto
  ultimately show ?thesis
    using P(2) assms(1,2) unfolding pruned_def same_core_def fst_conv snd_conv by metis
qed

lemma pruned_drop:
  assumes "pruned qs t r" and "same_core s (t\<lparr>subs := subs s\<rparr>)" and "subs t = (subs s)(q := None)"
    and "q \<notin> set qs"
  shows "pruned (q # qs) s r"
proof -
  obtain P where P: "fst r = filter P qs" "subs (snd r) = subs t |` (- {x \<in> set qs. \<not> P x})"
    using assms(1) by (auto simp: pruned_def)
  let ?P = "\<lambda>x. x \<noteq> q \<and> P x"
  have "fst r = filter ?P (q # qs)"
    using P(1) assms(4) by (auto intro: filter_cong)
  moreover have "subs (snd r) = subs s |` (- {x \<in> set (q # qs). \<not> ?P x})"
    using P(2) assms(3,4) by (auto simp: restrict_map_def fun_eq_iff)
  moreover have "sub_lists t = sub_lists s" "sm_states t = sm_states s" "present t = present s"
    "next_addr t = next_addr s" "junk t = junk s"
    using assms(2) by (simp_all add: same_core_def sub_lists_def sm_states_def)
  ultimately show ?thesis
    using assms(1) unfolding pruned_def by metis
qed

lemma pruned_nil: "same_core s t \<Longrightarrow> pruned [] s ([], t)"
  by (simp add: pruned_def same_core_def restrict_map_def)

lemma delete_loop_pruned: "distinct qs \<Longrightarrow> pruned qs s (delete_loop p qs s)"
proof (induction qs arbitrary: s)
  case Nil
  then show ?case by (simp add: pruned_nil)
next
  case (Cons q qs)
  let ?s = "touch p (touch q s)"
  have q: "q \<notin> set qs" "distinct qs" using Cons.prems by auto
  show ?case
  proof (cases "mConnHandle (sub_at ?s q) = mConnHandle (sub_at ?s p)")
    case True
    have "same_core s ((delete_sub q ?s)\<lparr>subs := subs s\<rparr>)"
      by (simp add: same_core_def sub_lists_def sm_states_def)
    from pruned_drop [OF Cons.IH [OF q(2)] this _ q(1)] True show ?thesis by simp
  next
    case False
    from pruned_keep [OF Cons.IH [OF q(2), of ?s] _ q(1), of s] False show ?thesis
      by (simp add: case_prod_beta Let_def)
  qed
qed

lemma notify_loop_pruned: "distinct qs \<Longrightarrow> pruned qs s (notify_loop n ev del nt qs s)"
proof (induction qs arbitrary: s)
  case Nil
  then show ?case by (simp add: pruned_nil)
next
  case (Cons q qs)
  have q: "q \<notin> set qs" "distinct qs" using Cons.prems by auto
  let ?s = "notifyEventToSubscriber n ev q False s"
  note core = core_notify [of s n ev q]
  consider "wants nt (sub_at s q)" "del" | "wants nt (sub_at s q)" "\<not> del" | "\<not> wants nt (sub_at s q)"
    by blast
  then show ?case
  proof cases
    case 1
    have "same_core s ((delete_sub q ?s)\<lparr>subs := subs s\<rparr>)" "subs (delete_sub q ?s) = (subs s)(q := None)"
      using core by (simp_all add: same_core_def sub_lists_def sm_states_def)
    from pruned_drop [OF Cons.IH [OF q(2)] this q(1)] 1 show ?thesis by (simp add: Let_def)
  next
    case 2
    from pruned_keep [OF Cons.IH [OF q(2), of ?s] core q(1)] 2 show ?thesis
      by (simp add: case_prod_beta Let_def)
  next
    case 3
    from pruned_keep [OF Cons.IH [OF q(2), of "touch q s"] _ q(1), of s] 3 show ?thesis
      by (simp add: case_prod_beta)
  qed
qed

lemma pruned_cut:
  assumes "pruned (sub_lists s n) s r"
  shows "cut n (fst r) s (upd_sm n (\<lambda>m. m\<lparr>mSubscriberList := fst r\<rparr>) (snd r))"
proof -
  have "sub_lists (upd_sm n (\<lambda>m. m\<lparr>mSubscriberList := fst r\<rparr>) t) = (sub_lists t)(n := fst r)"
    "sm_states (upd_sm n (\<lambda>m. m\<lparr>mSubscriberList := fst r\<rparr>) t) = sm_states t" for t
    by (auto simp: sub_lists_def sm_states_def upd_sm_def)
  with assms show ?thesis by (auto simp: cut_def pruned_def upd_sm_def)
qed

lemma lists_ok_distinct: "lists_ok T s \<Longrightarrow> distinct (sub_lists s n)"
  by (auto simp: lists_ok_def distinct_map)

lemma deleteSubscriber_cut:
  "lists_ok T s \<Longrightarrow> \<exists>rest. cut n rest s (deleteSubscriber n p s)"
  using pruned_cut [OF delete_loop_pruned [OF lists_ok_distinct], of T s n p]
  by (auto simp: deleteSubscriber_def case_prod_beta Let_def sub_lists_def)

lemma notifyAll_cut:
  "lists_ok T s \<Longrightarrow> cut n (fst (notify_loop n ev del nt (sub_lists s n) s)) s
     (notifyAllSubscribers n ev del nt s)"
  using pruned_cut [OF notify_loop_pruned [OF lists_ok_distinct], of T s n n ev del nt]
  by (simp add: notifyAllSubscribers_def case_prod_beta Let_def sub_lists_def)

section \<open>States\<close>

text \<open>
  A machine of the framework has no subscribers when it is RELEASED, unless its state is about
  to change; a machine that was not created is as good as new.
\<close>

definition states_ok :: "nif option \<Rightarrow> agps \<Rightarrow> bool" where
  "states_ok moving s \<longleftrightarrow> (\<forall>n. sm_states s n \<noteq> AGPS_STATE_INVALID \<and>
     (n \<noteq> DsNif \<longrightarrow> moving \<noteq> Some n \<longrightarrow> sm_states s n = AGPS_STATE_RELEASED \<longrightarrow>
        sub_lists s n = []) \<and>
     (\<not> present s n \<longrightarrow> sub_lists s n = [] \<and> sm_states s n = AGPS_STATE_RELEASED))"

definition agps_ok :: "ptr set \<Rightarrow> nif option \<Rightarrow> agps \<Rightarrow> bool" where
  "agps_ok T moving s \<longleftrightarrow> lists_ok T s \<and> states_ok moving s"

lemma agps_ok_lists: "agps_ok T mv s \<Longrightarrow> lists_ok T s"
  by (simp add: agps_ok_def)

lemma agps_ok_core: "same_core s t \<Longrightarrow> agps_ok T mv s \<Longrightarrow> agps_ok T mv t"
  using lists_ok_core by (auto simp: agps_ok_def states_ok_def same_core_def)

lemma agps_ok_cut: "agps_ok T mv s \<Longrightarrow> cut n rest s t \<Longrightarrow> agps_ok T mv t"
  using lists_ok_cut [of T s n rest t] by (auto simp: agps_ok_def states_ok_def cut_def [of n rest s t])

lemma agps_ok_weaken: "agps_ok T None s \<Longrightarrow> agps_ok T mv s"
  by (simp add: agps_ok_def states_ok_def)

lemma ok_delete:
  assumes "agps_ok T mv s"
  shows "agps_ok T mv (deleteSubscriber n p s)"
proof -
  obtain rest where "cut n rest s (deleteSubscriber n p s)"
    using deleteSubscriber_cut [OF agps_ok_lists [OF assms]] by blast
  with assms show ?thesis by (rule agps_ok_cut)
qed

lemma ok_notify: "agps_ok T mv s \<Longrightarrow> agps_ok T mv (notifyEventToSubscriber n ev p del s)"
  using agps_ok_core [OF core_notify, of T mv s n ev p] ok_delete
  by (cases del) (auto simp: notifyEventToSubscriber_def Let_def)

lemma ok_notifyAll:
  assumes "agps_ok T mv s"
  shows "agps_ok T mv (notifyAllSubscribers n ev del nt s)"
  using assms notifyAll_cut [of T s n ev del nt] by (blast intro: agps_ok_cut dest: agps_ok_lists)

lemma ok_request: "agps_ok T mv s \<Longrightarrow> agps_ok T mv (snd (requestOrReleaseDataConn n b s))"
  by (rule agps_ok_core [OF core_request])

lemma set_inactive_simps [simp]:
  "sub_lists (set_inactive p s) = sub_lists s" "sm_states (set_inactive p s) = sm_states s"
  "present (set_inactive p s) = present s" "next_addr (set_inactive p s) = next_addr s"
  "mConnHandle (sub_at (set_inactive p s) q) = mConnHandle (sub_at s q)"
  "dom (subs (set_inactive p s)) = dom (subs s)"
  by (auto simp: set_inactive_def sub_lists_def sm_states_def sub_at_def split: option.split)

lemma ok_set_inactive: "agps_ok T mv s \<Longrightarrow> agps_ok T mv (set_inactive p s)"
  by (simp add: agps_ok_def lists_ok_def states_ok_def)

lemma transition_simps [simp]:
  "sub_lists (transitionState n st s) = sub_lists s"
  "sm_states (transitionState n st s) = (sm_states s)(n := st)"
  "present (transitionState n st s) = present s"
  "subs (transitionState n st s) = subs s" "next_addr (transitionState n st s) = next_addr s"
  "sub_at (transitionState n st s) p = sub_at s p"
  by (auto simp: transitionState_def upd_sm_def sub_lists_def sm_states_def sub_at_def
      split: option.split)

lemma ok_transition:
  assumes "agps_ok T mv s" and "mv = None \<or> mv = Some n" and "st \<noteq> AGPS_STATE_INVALID"
    and "present s n" and "st = AGPS_STATE_RELEASED \<Longrightarrow> n \<noteq> DsNif \<Longrightarrow> sub_lists s n = []"
  shows "agps_ok T None (transitionState n st s)"
  using assms by (auto simp: agps_ok_def lists_ok_def states_ok_def)

lemma ok_transition_moving:
  assumes "agps_ok T mv s" and "mv = None \<or> mv = Some n" and "st \<noteq> AGPS_STATE_INVALID"
    and "present s n"
  shows "agps_ok T (Some n) (transitionState n st s)"
  using assms by (auto simp: agps_ok_def lists_ok_def states_ok_def)

lemma ok_add:
  assumes "agps_ok T mv s" and "n = DsNif \<or> sm_states s n \<noteq> AGPS_STATE_RELEASED \<or> mv = Some n"
    and "present s n"
  shows "agps_ok T mv (addSubscriber n p s)"
proof (cases "\<exists>q \<in> set (sub_lists s n). mConnHandle (sub_at s q) = mConnHandle (sub_at s p)")
  case True
  then have "addSubscriber n p s = touch p s"
    by (auto simp: addSubscriber_def list_ex_iff sub_lists_def)
  with assms(1) agps_ok_core [of s "touch p s" T mv] show ?thesis by simp
next
  case False
  let ?c = "next_addr s" and ?t = "addSubscriber n p s"
  have ok: "lists_ok T s" using assms(1) by (simp add: agps_ok_def)
  have t: "sub_lists ?t = (sub_lists s)(n := sub_lists s n @ [?c])"
    "sm_states ?t = sm_states s" "present ?t = present s" "next_addr ?t = ?c + 1"
    "subs ?t = (subs s)(?c \<mapsto> sub_at s p)" "junk ?t = junk s"
    using False
    by (auto simp: addSubscriber_def list_ex_iff new_sub_def upd_sm_def sub_lists_def sm_states_def)
  have fresh: "?c \<notin> dom (subs s)" by (rule lists_ok_fresh [OF ok])
  then have new: "?c \<notin> set (sub_lists s m)" for m using lists_ok_live [OF ok] by blast
  have at: "sub_at ?t q = (if q = ?c then sub_at s p else sub_at s q)" for q
    using t(5,6) by (simp add: sub_at_def split: option.split)
  have old: "map (\<lambda>q. mConnHandle (sub_at ?t q)) (sub_lists s m) =
      map (\<lambda>q. mConnHandle (sub_at s q)) (sub_lists s m)" for m
    using new at by (intro map_cong) auto
  have "map (\<lambda>q. mConnHandle (sub_at ?t q)) (sub_lists ?t m) =
      map (\<lambda>q. mConnHandle (sub_at s q)) (sub_lists s m) @
      (if m = n then [mConnHandle (sub_at s p)] else [])" for m
    by (cases "m = n") (simp_all only: t(1) fun_upd_same fun_upd_other map_append old, simp_all add: at new)
  then have "distinct (map (\<lambda>q. mConnHandle (sub_at ?t q)) (sub_lists ?t m))" for m
    using ok False by (auto simp: lists_ok_def)
  moreover have "\<forall>m k. m \<noteq> k \<longrightarrow> set (sub_lists ?t m) \<inter> set (sub_lists ?t k) = {}"
    using ok t(1) new unfolding lists_ok_def by auto
  moreover have all: "(\<Union>m. set (sub_lists ?t m)) = insert ?c (\<Union>m. set (sub_lists s m))"
    using t(1) by (auto split: if_splits)
  moreover have "dom (subs ?t) = (\<Union>m. set (sub_lists ?t m)) \<union> T"
    unfolding all using t(5) lists_ok_dom [OF ok] by auto
  moreover have "T \<inter> (\<Union>m. set (sub_lists ?t m)) = {}"
    unfolding all using lists_ok_apart [OF ok] lists_ok_dom [OF ok] fresh by blast
  moreover have "\<forall>q \<in> dom (subs ?t). q \<noteq> NULL \<and> q < next_addr ?t"
    using ok t(4,5) unfolding lists_ok_def by (auto simp: less_Suc_eq)
  moreover have "states_ok mv ?t"
    using assms(1-3) t by (auto simp: agps_ok_def states_ok_def)
  ultimately show ?thesis using t(4) by (simp add: agps_ok_def lists_ok_def)
qed

lemma ok_new_sub:
  assumes "agps_ok {} mv s"
  shows "agps_ok {fst (new_sub x s)} mv (snd (new_sub x s))"
proof -
  let ?p = "next_addr s"
  let ?t = "snd (new_sub x s)"
  have ok: "lists_ok {} s" using assms by (simp add: agps_ok_def)
  have t: "sub_lists ?t = sub_lists s" "sm_states ?t = sm_states s" "present ?t = present s"
    "next_addr ?t = ?p + 1" "subs ?t = (subs s)(?p \<mapsto> x)" "junk ?t = junk s"
    by (simp_all add: new_sub_def sub_lists_def sm_states_def)
  have new: "?p \<notin> set (sub_lists s m)" for m
    using lists_ok_live [OF ok, of ?p m] lists_ok_fresh [OF ok] by blast
  have same: "map (\<lambda>q. mConnHandle (sub_at ?t q)) (sub_lists s m) =
      map (\<lambda>q. mConnHandle (sub_at s q)) (sub_lists s m)" for m
    using new t(5,6) by (intro map_cong) (auto simp: sub_at_def split: option.split)
  have "lists_ok {?p} ?t"
    using ok new unfolding lists_ok_def t(1,4,5) same by (auto simp: less_Suc_eq)
  with assms t show ?thesis by (simp add: agps_ok_def states_ok_def new_sub_def)
qed

lemma ok_end_of_stack:
  assumes "agps_ok {p} mv s"
  shows "agps_ok {} mv (delete_sub p s)"
proof -
  let ?t = "delete_sub p s"
  have ok: "lists_ok {p} s" using assms by (simp add: agps_ok_def)
  have t: "sub_lists ?t = sub_lists s" "sm_states ?t = sm_states s"
    by (simp_all add: sub_lists_def sm_states_def)
  have new: "p \<notin> set (sub_lists s m)" for m using ok by (auto simp: lists_ok_def)
  have same: "map (\<lambda>q. mConnHandle (sub_at ?t q)) (sub_lists s m) =
      map (\<lambda>q. mConnHandle (sub_at s q)) (sub_lists s m)" for m
    using new by (intro map_cong) (auto simp: sub_at_def split: option.split)
  have "lists_ok {} ?t"
    using ok unfolding lists_ok_def t same by auto
  with assms t show ?thesis by (simp add: agps_ok_def states_ok_def)
qed

section \<open>What a round of notifications does\<close>

text \<open>The calls that tell one subscriber of an event.\<close>

definition told :: "nif \<Rightarrow> agps_sm \<Rightarrow> agps_event \<Rightarrow> int32 \<Rightarrow> agps_call list" where
  "told n m ev h = (case ev of
      AGPS_EVENT_GRANTED \<Rightarrow>
        [if n = DsNif then AtlOpenStatus h True None AGPS_APN_BEARER_INVALID LOC_AGPS_TYPE_SUPL_ES
         else AtlOpenStatus h True (mAPN m) (mBearer m) (mAgpsType m)]
    | AGPS_EVENT_DENIED \<Rightarrow>
        [if n = DsNif then SendRequestATL h LOC_AGPS_TYPE_SUPL
         else AtlOpenStatus h False (mAPN m) (mBearer m) (mAgpsType m)]
    | AGPS_EVENT_UNSUBSCRIBE \<Rightarrow> [AtlCloseStatus h True]
    | AGPS_EVENT_RELEASED \<Rightarrow>
        (if n = DsNif then [DSClientCloseDataCall] else []) @ [AtlCloseStatus h True]
    | _ \<Rightarrow> [])"

lemma calls_simps [simp]:
  "agps_calls (agps_tell c s) = agps_calls s @ [c]" "agps_calls (upd_sm n f s) = agps_calls s"
  "agps_calls (touch p s) = agps_calls s" "agps_calls (delete_sub p s) = agps_calls s"
  "agps_calls (transitionState n st s) = agps_calls s"
  "agps_calls (snd (agps_ask c s)) = agps_calls s @ [c]"
  by (simp_all add: agps_tell_def agps_ask_def upd_sm_def touch_def delete_sub_def transitionState_def)

lemma notify_told:
  "agps_calls (notifyEventToSubscriber n ev p False s) =
     agps_calls s @ told n (nifs s n) ev (mConnHandle (sub_at s p))"
  by (auto simp: notifyEventToSubscriber_def notify_status_ds_def notify_status_def told_def Let_def
      split: agps_event.split)

lemma fault_transition: "agps_fault (transitionState n st s) = agps_fault s"
  by (simp add: transitionState_def upd_sm_def)

lemma type_transition: "mAgpsType (nifs (transitionState n st s) m) = mAgpsType (nifs s m)"
  by (simp add: transitionState_def upd_sm_def)

lemma told_transition: "told n (nifs (transitionState m st s) n) = told n (nifs s n)"
  by (auto simp: transitionState_def upd_sm_def told_def fun_eq_iff split: agps_event.split)

text \<open>A notification leaves everything of a machine but the number of its retries.\<close>

lemma notify_frame:
  "agps_fault (notifyEventToSubscriber n ev p False s) = (agps_fault s \<or> subs s p = None)"
  "\<exists>r. nifs (notifyEventToSubscriber n ev p False s) n = nifs s n\<lparr>mRetries := r\<rparr>"
  "m \<noteq> n \<Longrightarrow> nifs (notifyEventToSubscriber n ev p False s) m = nifs s m"
proof -
  have self: "m\<lparr>mRetries := mRetries m\<rparr> = m" for m :: agps_sm by simp
  show "agps_fault (notifyEventToSubscriber n ev p False s) = (agps_fault s \<or> subs s p = None)"
    by (auto simp: notifyEventToSubscriber_def notify_status_ds_def notify_status_def Let_def
        agps_tell_def upd_sm_def touch_def split: agps_event.split)
  show "\<exists>r. nifs (notifyEventToSubscriber n ev p False s) n = nifs s n\<lparr>mRetries := r\<rparr>"
    by (cases ev) (auto simp: notifyEventToSubscriber_def notify_status_ds_def notify_status_def Let_def
        agps_tell_def upd_sm_def touch_def intro: exI [of _ "mRetries (nifs s n)"])
  show "m \<noteq> n \<Longrightarrow> nifs (notifyEventToSubscriber n ev p False s) m = nifs s m"
    by (cases ev) (auto simp: notifyEventToSubscriber_def notify_status_ds_def notify_status_def Let_def
        agps_tell_def upd_sm_def touch_def)
qed

lemma told_retries [simp]: "told n (m\<lparr>mRetries := r\<rparr>) ev h = told n m ev h"
  by (simp add: told_def split: agps_event.split)

lemma notify_loop_exact:
  assumes "distinct qs" and "set qs \<subseteq> dom (subs s)"
  shows "fst (notify_loop n ev del nt qs s) =
      (if del then filter (\<lambda>q. \<not> wants nt (sub_at s q)) qs else qs) \<and>
    agps_calls (snd (notify_loop n ev del nt qs s)) = agps_calls s @
      concat (map (\<lambda>q. told n (nifs s n) ev (mConnHandle (sub_at s q)))
        (filter (\<lambda>q. wants nt (sub_at s q)) qs)) \<and>
    agps_fault (snd (notify_loop n ev del nt qs s)) = agps_fault s"
  using assms
proof (induction qs arbitrary: s)
  case Nil
  then show ?case by simp
next
  case (Cons q qs)
  define t where "t = (if wants nt (sub_at s q)
    then let u = notifyEventToSubscriber n ev q False s in if del then delete_sub q u else u
    else touch q s)"
  have q: "q \<notin> set qs" "distinct qs" "subs s q \<noteq> None" "set qs \<subseteq> dom (subs s)"
    using Cons.prems by auto
  have subs: "subs t = (if wants nt (sub_at s q) \<and> del then (subs s)(q := None) else subs s)"
    using core_notify [of s n ev q] by (simp add: t_def Let_def same_core_def)
  have junk: "junk t = junk s"
    using core_notify [of s n ev q] by (simp add: t_def Let_def same_core_def)
  have at: "sub_at t x = sub_at s x" if "x \<in> set qs" for x
    using that q(1) by (auto simp: sub_at_def subs junk split: option.split)
  have live: "set qs \<subseteq> dom (subs t)" using q(1,4) by (auto simp: subs)
  have fault: "agps_fault t = agps_fault s"
    using q(3) core_notify [of s n ev q]
    by (auto simp: t_def Let_def notify_frame delete_sub_def touch_def same_core_def)
  have calls: "agps_calls t = agps_calls s @
      (if wants nt (sub_at s q) then told n (nifs s n) ev (mConnHandle (sub_at s q)) else [])"
    by (simp add: t_def Let_def notify_told)
  have "\<exists>r. nifs t n = nifs s n\<lparr>mRetries := r\<rparr>"
    using notify_frame(2) [of n ev q s] exI [of "\<lambda>r. nifs s n = nifs s n\<lparr>mRetries := r\<rparr>" "mRetries (nifs s n)"]
    by (auto simp: t_def Let_def)
  then have nn: "told n (nifs t n) = told n (nifs s n)" by (auto simp: fun_eq_iff)
  have filt: "filter (\<lambda>x. wants nt (sub_at t x)) qs = filter (\<lambda>x. wants nt (sub_at s x)) qs"
    "filter (\<lambda>x. \<not> wants nt (sub_at t x)) qs = filter (\<lambda>x. \<not> wants nt (sub_at s x)) qs"
    by (auto simp: at intro: filter_cong)
  have step: "notify_loop n ev del nt (q # qs) s =
      (if wants nt (sub_at s q) \<and> del then notify_loop n ev del nt qs t
       else (q # fst (notify_loop n ev del nt qs t), snd (notify_loop n ev del nt qs t)))"
    by (simp add: t_def Let_def case_prod_beta)
  have "map (\<lambda>x. told n (nifs s n) ev (mConnHandle (sub_at t x))) (filter (\<lambda>x. wants nt (sub_at s x)) qs) =
      map (\<lambda>x. told n (nifs s n) ev (mConnHandle (sub_at s x))) (filter (\<lambda>x. wants nt (sub_at s x)) qs)"
    by (auto simp: at)
  with Cons.IH [OF q(2) live] show ?case
    unfolding step nn filt by (cases del; cases "wants nt (sub_at s q)") (simp_all add: fault calls)
qed

lemma notifyAll_at:
  assumes "lists_ok T s" and "q \<in> set (sub_lists (notifyAllSubscribers n ev del nt s) n)"
  shows "sub_at (notifyAllSubscribers n ev del nt s) q = sub_at s q"
  using notifyAll_cut [OF assms(1), of n ev del nt] assms(2)
  by (auto simp: cut_def sub_at_def split: option.split)

text \<open>A whole round, over any list whose subscribers live.\<close>

definition leavers :: "bool \<Rightarrow> agps_notification \<Rightarrow> agps \<Rightarrow> nif \<Rightarrow> ptr set" where
  "leavers del nt s n = {q \<in> set (sub_lists s n). del \<and> wants nt (sub_at s q)}"

lemma notifyAll_exact:
  fixes n :: nif and ev :: agps_event and del :: bool and nt :: agps_notification
  assumes "lists_ok T s"
  defines "t \<equiv> notifyAllSubscribers n ev del nt s"
  shows "sub_lists t = (sub_lists s)(n := filter (\<lambda>q. q \<notin> leavers del nt s n) (sub_lists s n))"
    and "subs t = subs s |` (- leavers del nt s n)"
    and "agps_calls t = agps_calls s @
      concat (map (\<lambda>q. told n (nifs s n) ev (mConnHandle (sub_at s q)))
        (filter (\<lambda>q. wants nt (sub_at s q)) (sub_lists s n)))"
    and "agps_fault t = agps_fault s" and "sm_states t = sm_states s"
proof -
  let ?l = "sub_lists s n" and ?r = "notify_loop n ev del nt (sub_lists s n) s"
  have live: "set ?l \<subseteq> dom (subs s)" using lists_ok_live [OF assms(1)] by blast
  have loop: "fst ?r = (if del then filter (\<lambda>q. \<not> wants nt (sub_at s q)) ?l else ?l)"
    "agps_calls (snd ?r) = agps_calls s @ concat (map (\<lambda>q. told n (nifs s n) ev (mConnHandle (sub_at s q)))
        (filter (\<lambda>q. wants nt (sub_at s q)) ?l))"
    "agps_fault (snd ?r) = agps_fault s"
    using notify_loop_exact [OF lists_ok_distinct [OF assms(1)] live, of n ev del nt] by blast+
  have rest: "fst ?r = filter (\<lambda>q. q \<notin> leavers del nt s n) ?l"
    unfolding loop(1) leavers_def by (auto intro: filter_cong)
  have t: "t = upd_sm n (\<lambda>m. m\<lparr>mSubscriberList := fst ?r\<rparr>) (snd ?r)"
    by (simp add: t_def notifyAllSubscribers_def case_prod_beta Let_def sub_lists_def)
  have cut: "cut n (fst ?r) s t"
    unfolding t_def by (rule notifyAll_cut [OF assms(1)])
  show "sub_lists t = (sub_lists s)(n := filter (\<lambda>q. q \<notin> leavers del nt s n) ?l)"
    "sm_states t = sm_states s" using cut rest by (simp_all add: cut_def)
  obtain P where P: "fst ?r = filter P ?l" "subs t = subs s |` (- {p \<in> set ?l. \<not> P p})"
    using cut by (auto simp: cut_def)
  have "{p \<in> set ?l. P p} = {p \<in> set ?l. p \<notin> leavers del nt s n}"
    using P(1) rest by (metis set_filter)
  then have "{p \<in> set ?l. \<not> P p} = leavers del nt s n"
    by (auto simp: leavers_def)
  with P(2) show "subs t = subs s |` (- leavers del nt s n)" by simp
  show "agps_calls t = agps_calls s @ concat (map (\<lambda>q. told n (nifs s n) ev (mConnHandle (sub_at s q)))
        (filter (\<lambda>q. wants nt (sub_at s q)) ?l))" "agps_fault t = agps_fault s"
    unfolding t using loop(2,3) by (simp_all add: upd_sm_def)
qed

lemma notify_nifs: "n \<noteq> DsNif \<Longrightarrow> nifs (notifyEventToSubscriber n ev p False s) = nifs s"
  by (auto simp: notifyEventToSubscriber_def notify_status_def Let_def agps_tell_def touch_def
      split: agps_event.split)

lemma notifyAll_nifs:
  assumes "n \<noteq> DsNif"
  shows "nifs (notifyAllSubscribers n ev del nt s) =
    (nifs s)(n := (nifs s n)\<lparr>mSubscriberList := sub_lists (notifyAllSubscribers n ev del nt s) n\<rparr>)"
proof -
  have "nifs (snd (notify_loop n ev del nt qs u)) = nifs u" for qs u
    by (cases del; induction qs arbitrary: u) (simp_all add: notify_nifs [OF assms] Let_def case_prod_beta)
  then show ?thesis
    by (simp add: notifyAllSubscribers_def case_prod_beta Let_def upd_sm_def sub_lists_def)
qed

section \<open>Every message\<close>

lemma moving_done: "agps_ok T (Some n) s \<Longrightarrow> sub_lists s n = [] \<Longrightarrow> agps_ok T None s"
  by (auto simp: agps_ok_def states_ok_def)

lemma moving_ds: "agps_ok T (Some DsNif) s \<Longrightarrow> agps_ok T None s"
  by (auto simp: agps_ok_def states_ok_def)

lemma present_stable:
  "agps_ok T mv s \<Longrightarrow> present (notifyAllSubscribers n ev del nt s) = present s"
  using notifyAll_cut [OF agps_ok_lists, of T mv s n ev del nt] by (simp add: cut_def)

lemma present_request: "present (snd (requestOrReleaseDataConn n b s)) = present s"
  using core_request [of s n b] by (simp add: same_core_def)

lemma present_add: "present (addSubscriber n p s) = present s"
  by (simp add: addSubscriber_def Let_def new_sub_def upd_sm_def)

lemma ok_core_touch: "agps_ok T mv (touch p s) = agps_ok T mv s"
  using agps_ok_core [of s "touch p s"] agps_ok_core [OF same_core_sym, of s "touch p s"] by auto

lemma present_delete: "agps_ok T mv s \<Longrightarrow> present (deleteSubscriber n p s) = present s"
  using deleteSubscriber_cut [OF agps_ok_lists, of T mv s n p] by (auto simp: cut_def)

lemma present_notify: "agps_ok T mv s \<Longrightarrow> present (notifyEventToSubscriber n ev p del s) = present s"
  using core_notify [of s n ev p] present_delete [OF agps_ok_core [OF core_notify], of T mv s n p n ev p]
  by (cases del) (auto simp: same_core_def notifyEventToSubscriber_def Let_def)

lemma sm_states_eq: "mAgpsState (nifs s n) = sm_states s n"
  by (simp add: sm_states_def)

lemma sub_lists_eq: "mSubscriberList (nifs s n) = sub_lists s n"
  by (simp add: sub_lists_def)

lemma ok_subscribe:
  assumes "agps_ok T None s" and "present s n"
  shows "agps_ok T None (processAgpsEventSubscribe n s)"
proof -
  let ?p = "mCurrentSubscriber (nifs s n)"
  note any = agps_ok_weaken [OF assms(1), of "Some n"]
  let ?r = "requestOrReleaseDataConn n True (addSubscriber n ?p s)"
  have add: "agps_ok T (Some n) (snd ?r)"
    by (rule ok_request, rule ok_add [OF any]) (simp_all add: assms(2))
  have here: "present (snd ?r) n" using assms(2) by (simp only: present_request present_add)
  have "n = DsNif" if "fst ?r \<noteq> 0"
    using that by (simp add: requestOrReleaseDataConn_def request_framework_def split: if_splits)
  then have "agps_ok T None (if fst ?r = 0 then transitionState n AGPS_STATE_PENDING (snd ?r) else snd ?r)"
    using ok_transition [OF add _ _ here, of AGPS_STATE_PENDING] moving_ds [of T "snd ?r"] add by auto
  moreover have "agps_ok T None (addSubscriber n ?p t)"
    if "agps_ok T None t" "sm_states t n \<noteq> AGPS_STATE_RELEASED" "present t n" for t
    by (rule ok_add [OF that(1) _ that(3)]) (simp add: that(2))
  moreover have "sm_states (notifyEventToSubscriber n ev q False s) = sm_states s" for ev q
    using core_notify [of s n ev q] by (simp add: same_core_def)
  ultimately show ?thesis
    using assms ok_notify [OF assms(1), of n _ ?p False] present_notify [OF assms(1), of n _ ?p False]
    by (auto simp: processAgpsEventSubscribe_def Let_def sm_states_eq case_prod_beta split: agps_state.split)
qed

lemma ok_leave:
  assumes "agps_ok T mv s"
  shows "agps_ok T mv (leave_or_wait n p s)" and "present (leave_or_wait n p s) = present s"
proof -
  have "agps_ok T mv (touch p s)" using assms by (simp add: ok_core_touch)
  then show "agps_ok T mv (leave_or_wait n p s)" "present (leave_or_wait n p s) = present s"
    by (simp_all add: leave_or_wait_def Let_def ok_set_inactive ok_notify present_notify)
qed

lemma ok_unsubscribe:
  assumes "agps_ok T None s" and "present s n"
  shows "agps_ok T None (processAgpsEventUnsubscribe n s)"
proof -
  let ?t = "leave_or_wait n (mCurrentSubscriber (nifs s n)) s"
  have t: "agps_ok T None ?t" "present ?t n" using ok_leave [OF assms(1)] assms(2) by auto
  then have
    "sub_lists ?t n = [] \<Longrightarrow> agps_ok T None (transitionState n AGPS_STATE_RELEASED ?t)"
    "agps_ok T None (transitionState n AGPS_STATE_RELEASING ?t)"
    by (auto intro: ok_transition)
  then show ?thesis
    using t assms ok_notify [OF assms(1)]
    by (auto simp: processAgpsEventUnsubscribe_def Let_def sub_lists_eq ok_request split: agps_state.split)
qed

lemma ok_granted:
  assumes "agps_ok T None s" and "present s n"
  shows "agps_ok T None (processAgpsEventGranted n s)"
  using assms by (auto simp: processAgpsEventGranted_def split: agps_state.split
      intro!: ok_notifyAll ok_transition)

lemma ok_notify_all_released:
  assumes "agps_ok T None s" and "present s n"
  shows "agps_ok T None (notifyAllSubscribers n ev True FOR_ALL_SUBSCRIBERS
           (transitionState n AGPS_STATE_RELEASED s))"
proof -
  have t: "agps_ok T (Some n) (transitionState n AGPS_STATE_RELEASED s)"
    using assms by (intro ok_transition_moving) auto
  show ?thesis
    by (rule moving_done [OF ok_notifyAll [OF t]])
      (simp add: notifyAll_exact(1) [OF agps_ok_lists [OF t]] leavers_def wants_def)
qed

lemma ok_finish_releasing:
  assumes "agps_ok T None s" and "present s n"
  shows "agps_ok T None (finish_releasing n s)"
proof -
  let ?t = "notifyAllSubscribers n AGPS_EVENT_RELEASED True FOR_INACTIVE_SUBSCRIBERS s"
  note ok = agps_ok_lists [OF assms(1)]
  have t: "agps_ok T None ?t" "present ?t n"
    using ok_notifyAll [OF assms(1)] present_stable [OF assms(1)] assms(2) by auto
  have "sub_lists ?t n = []" if "\<not> anyActiveSubscribers n ?t"
    using that notifyAll_exact(1) [OF ok, of n AGPS_EVENT_RELEASED True FOR_INACTIVE_SUBSCRIBERS]
      notifyAll_at [OF ok, of _ n AGPS_EVENT_RELEASED True FOR_INACTIVE_SUBSCRIBERS]
    by (force simp: anyActiveSubscribers_def list_ex_iff sub_lists_eq leavers_def wants_def filter_empty_conv)
  then have "\<not> anyActiveSubscribers n ?t \<Longrightarrow> agps_ok T None (transitionState n AGPS_STATE_RELEASED ?t)"
    using t by (auto intro: ok_transition)
  moreover have "agps_ok T None (transitionState n AGPS_STATE_PENDING ?t)"
    using t by (auto intro: ok_transition)
  ultimately show ?thesis
    by (simp add: finish_releasing_def Let_def ok_request)
qed

lemma ok_event:
  assumes "agps_ok T None s" and "present s n"
  shows "agps_ok T None (sm_event n ev s)"
proof -
  have "agps_ok T None (processAgpsEvent n e s)" for e
    using assms ok_notify_all_released [OF assms] ok_finish_releasing [OF assms]
    by (cases e) (auto simp: processAgpsEvent_def ok_subscribe ok_unsubscribe ok_granted
        processAgpsEventReleased_def processAgpsEventDenied_def split: agps_state.split)
  then show ?thesis by (auto simp: sm_event_def ds_processAgpsEvent_def)
qed

lemma ok_set_current: "agps_ok T mv (setCurrentSubscriber n p s) = agps_ok T mv s"
proof -
  have "same_core s (setCurrentSubscriber n p s)" "same_core (setCurrentSubscriber n p s) s"
    by (auto simp: setCurrentSubscriber_def upd_sm_def same_core_def sub_lists_def sm_states_def)
  then show ?thesis using agps_ok_core by blast
qed

lemma present_set_current [simp]: "present (setCurrentSubscriber n p s) = present s"
  by (simp add: setCurrentSubscriber_def upd_sm_def)

lemma ok_create:
  assumes "agps_ok {} None s"
  shows "agps_ok {} None (create_sm n t s)"
proof (cases "present s n")
  case True
  then show ?thesis using assms by (simp add: create_sm_def)
next
  case False
  then have "sub_lists s n = []" "sm_states s n = AGPS_STATE_RELEASED"
    using assms by (auto simp: agps_ok_def states_ok_def)
  then have "sub_lists (create_sm n t s) = sub_lists s" "sm_states (create_sm n t s) = sm_states s"
    by (auto simp: create_sm_def upd_sm_def AgpsStateMachine_def sub_lists_def sm_states_def False)
  moreover have "subs (create_sm n t s) = subs s" "next_addr (create_sm n t s) = next_addr s"
    "sub_at (create_sm n t s) p = sub_at s p" "present (create_sm n t s) = (present s)(n := True)" for p
    by (simp_all add: create_sm_def upd_sm_def sub_at_def False split: option.split)
  ultimately show ?thesis using assms by (auto simp: agps_ok_def lists_ok_def states_ok_def)
qed

lemma ok_tell: "agps_ok T mv (agps_tell c s) = agps_ok T mv s"
  using agps_ok_core [of s "agps_tell c s"] agps_ok_core [OF same_core_sym, of s "agps_tell c s"] by auto

lemma ok_ask: "agps_ok T mv (snd (agps_ask c s)) = agps_ok T mv s"
  by (simp add: agps_ask_def ok_tell)

lemma ok_create_all: "agps_ok {} None s \<Longrightarrow> agps_ok {} None (createAgpsStateMachines s)"
  by (simp add: createAgpsStateMachines_def Let_def case_prod_beta ok_create ok_ask)

lemma ok_get:
  assumes "agps_ok {} None s"
  shows "agps_ok {} None (snd (getAgpsStateMachine t s))"
    and "fst (getAgpsStateMachine t s) = Some n \<Longrightarrow> present (snd (getAgpsStateMachine t s)) n"
  using assms by (auto simp: getAgpsStateMachine_def Let_def ok_create_all null_unless_def split: if_splits)

lemma ok_requestATL:
  assumes "agps_ok {} None s"
  shows "agps_ok {} None (requestATL h t s)"
proof -
  let ?g = "getAgpsStateMachine t s"
  show ?thesis
  proof (cases "fst ?g")
    case None
    then show ?thesis using ok_get [OF assms] by (simp add: requestATL_def case_prod_beta Let_def ok_tell)
  next
    case (Some n)
    let ?x = "\<lparr>mConnHandle = h, mWaitForCloseComplete = (t = LOC_AGPS_TYPE_SUPL_ES), mIsInactive = False\<rparr>"
    let ?n = "new_sub ?x (snd ?g)"
    have "agps_ok {fst ?n} None (snd ?n)" by (rule ok_new_sub [OF ok_get(1) [OF assms]])
    moreover have "present (snd ?n) n" using ok_get(2) [OF assms Some] by (simp add: new_sub_def)
    ultimately show ?thesis
      using Some by (simp add: requestATL_def case_prod_beta Let_def ok_end_of_stack ok_event ok_set_current)
  qed
qed

lemma find_in_present: "find_in n h s = Some p \<Longrightarrow> present s n"
  by (simp add: find_in_def split: if_splits)

lemma ok_releaseATL:
  assumes "agps_ok {} None s"
  shows "agps_ok {} None (releaseATL h s)"
proof -
  have "agps_ok {} None (sm_event n AGPS_EVENT_UNSUBSCRIBE (setCurrentSubscriber n p s))"
    if "find_in n h s = Some p" for n p
    using find_in_present [OF that] assms by (simp add: ok_event ok_set_current)
  then show ?thesis using assms by (simp add: releaseATL_def Let_def ok_tell split: option.split)
qed

lemma ok_with_sm:
  assumes "agps_ok {} None s"
    and "\<And>n s. agps_ok {} None s \<Longrightarrow> present s n \<Longrightarrow> agps_ok {} None (f n s)"
  shows "agps_ok {} None (with_sm t f s)"
proof -
  have "agps_ok {} None ((snd (getAgpsStateMachine t s))\<lparr>agps_fault := True\<rparr>)"
    by (rule agps_ok_core [OF _ ok_get(1) [OF assms(1), of t]]) simp
  then show ?thesis
    using assms(2) [OF ok_get [OF assms(1)]] by (simp add: with_sm_def case_prod_beta Let_def split: option.split)
qed

lemma ok_open_success: "agps_ok {} None s \<Longrightarrow> agps_ok {} None (reportAtlOpenSuccess t apn len b s)"
proof (unfold reportAtlOpenSuccess_def, rule ok_with_sm)
  fix n and u :: agps
  assume u: "agps_ok {} None u" "present u n"
  let ?v = "setAPN n apn len (setBearer n b u)"
  have "same_core u ?v" "present ?v = present u"
    by (auto simp: setAPN_def setBearer_def upd_sm_def same_core_def sub_lists_def sm_states_def Let_def
        split: option.split)
  then show "agps_ok {} None (sm_event n AGPS_EVENT_GRANTED ?v)"
    using u agps_ok_core ok_event by metis
qed

lemma fold_delete: "subs (fold delete_sub qs s) = subs s |` (- set qs) \<and>
    same_core s ((fold delete_sub qs s)\<lparr>subs := subs s\<rparr>)"
proof (induction qs arbitrary: s)
  case Nil
  then show ?case by (simp add: same_core_def sub_lists_def sm_states_def restrict_map_def)
next
  case (Cons q qs)
  have "subs (delete_sub q s) |` (- set qs) = subs s |` (- set (q # qs))"
    by (auto simp: restrict_map_def fun_eq_iff)
  moreover have "subs (fold delete_sub (q # qs) s) = subs (delete_sub q s) |` (- set qs)"
    using Cons [of "delete_sub q s"] unfolding fold_simps by (rule conjunct1)
  ultimately show ?case
    using Cons [of "delete_sub q s"] by (simp add: same_core_def sub_lists_def sm_states_def)
qed

lemma ok_drop:
  assumes "agps_ok T mv s"
  shows "agps_ok T mv (dropAllSubscribers n s)"
proof (rule agps_ok_cut [OF assms])
  let ?d = "fold delete_sub (mSubscriberList (nifs s n)) s"
  have "subs ?d = subs s |` (- set (sub_lists s n))"
    using fold_delete [of "mSubscriberList (nifs s n)" s]
    by (simp add: sub_lists_eq)
  moreover have "sub_lists ?d = sub_lists s" "sm_states ?d = sm_states s" "present ?d = present s"
    "next_addr ?d = next_addr s" "junk ?d = junk s"
    using fold_delete [of "mSubscriberList (nifs s n)" s]
    by (simp_all add: same_core_def sub_lists_def sm_states_def)
  ultimately show "cut n [] s (dropAllSubscribers n s)"
    unfolding cut_def by (intro conjI exI [of _ "\<lambda>_. False"])
      (auto simp: dropAllSubscribers_def upd_sm_def sub_lists_def sm_states_def fun_eq_iff)
qed

lemma ok_ssr: "agps_ok {} None s \<Longrightarrow> agps_ok {} None (handleModemSSR s)"
  by (simp add: handleModemSSR_def Let_def ok_ask ok_tell ok_drop)

lemma ok_retry: "agps_ok T mv s \<Longrightarrow> agps_ok T mv (retryCallback s)"
  by (simp add: retryCallback_def ok_tell split: option.split)

interpretation agps: invariant_system agps_step "agps_ok {} None"
proof
  fix i s
  assume s: "agps_ok {} None s"
  then show "agps_ok {} None (agps_step i s)"
    by (cases i) (simp_all add: agps_step_def ok_create_all ok_requestATL ok_releaseATL ok_event
        reportDataCallOpened_def reportDataCallClosed_def ok_open_success reportAtlOpenFailed_def
        reportAtlClosed_def ok_with_sm ok_ssr ok_retry)
qed

lemma agps_init_ok: "agps_ok {} None (agps_init c e i st sp j en)"
  by (simp add: agps_ok_def lists_ok_def states_ok_def agps_init_def sub_lists_def sm_states_def
      AgpsStateMachine_def)

end
