(* ===== verification/Agps_Conn.thy ===== *)
theory Agps_Conn
  imports Agps_Inv
begin

text \<open>
  The connection of a framework machine follows its state: what the framework was last asked for
  that type of connection is to have it in PENDING and ACQUIRED, and to give it up in RELEASING.
\<close>

section \<open>The last request\<close>

definition asked :: "int \<Rightarrow> agps_call \<Rightarrow> bool option \<Rightarrow> bool option" where
  "asked t c r = (case c of FrameworkStatus t' b \<Rightarrow> (if t' = t then Some b else r) | _ \<Rightarrow> r)"

definition last_request :: "int \<Rightarrow> agps_call list \<Rightarrow> bool option" where
  "last_request t cs = fold (asked t) cs None"

lemma last_request_snoc: "last_request t (cs @ [c]) = asked t c (last_request t cs)"
  by (simp add: last_request_def)

definition other_call :: "agps_call \<Rightarrow> bool" where
  "other_call c \<longleftrightarrow> (case c of FrameworkStatus _ _ \<Rightarrow> False | _ \<Rightarrow> True)"

lemma other_calls [simp]:
  "other_call (AtlOpenStatus h b apn br t)" "other_call (AtlCloseStatus h b)"
  "other_call (DSClientInit b)" "other_call DSClientOpenAndStartDataCall"
  "other_call DSClientStopDataCall" "other_call DSClientCloseDataCall" "other_call DSClientRelease"
  "other_call (SendRequestATL h t)" "other_call RetryTimer"
  by (simp_all add: other_call_def)

lemma asked_other: "other_call c \<Longrightarrow> asked t c r = r"
  by (simp add: other_call_def asked_def split: agps_call.splits)

definition type_of :: "nif \<Rightarrow> int" where
  "type_of n = (if n = AgnssNif then LOC_AGPS_TYPE_SUPL else LOC_AGPS_TYPE_WWAN_ANY)"

definition conn_ok :: "agps \<Rightarrow> bool" where
  "conn_ok s \<longleftrightarrow> (\<forall>n. n \<noteq> DsNif \<longrightarrow> present s n \<longrightarrow> mAgpsType (nifs s n) = type_of n \<and>
     (sm_states s n = AGPS_STATE_PENDING \<or> sm_states s n = AGPS_STATE_ACQUIRED \<longrightarrow>
        last_request (type_of n) (agps_calls s) = Some True) \<and>
     (sm_states s n = AGPS_STATE_RELEASING \<longrightarrow>
        last_request (type_of n) (agps_calls s) = Some False))"

section \<open>What leaves it alone\<close>

definition quiet :: "agps \<Rightarrow> agps \<Rightarrow> bool" where
  "quiet s t \<longleftrightarrow> sm_states t = sm_states s \<and> present t = present s \<and>
     (\<forall>n. mAgpsType (nifs t n) = mAgpsType (nifs s n)) \<and>
     (\<forall>a. last_request a (agps_calls t) = last_request a (agps_calls s))"

lemma quiet_refl [simp]: "quiet s s"
  by (simp add: quiet_def)

lemma quiet_trans: "quiet s t \<Longrightarrow> quiet t u \<Longrightarrow> quiet s u"
  by (simp add: quiet_def)

lemma conn_quiet: "quiet s t \<Longrightarrow> conn_ok s \<Longrightarrow> conn_ok t"
  by (simp add: quiet_def conn_ok_def)

lemma quiet_upd:
  assumes "\<And>m. mAgpsState (f m) = mAgpsState m" "\<And>m. mAgpsType (f m) = mAgpsType m"
  shows "quiet s (upd_sm n f t) = quiet s t"
proof -
  have "sm_states (upd_sm n f t) = sm_states t" "mAgpsType (nifs (upd_sm n f t) m) = mAgpsType (nifs t m)" for m
    using assms by (auto simp: sm_states_def upd_sm_def)
  then show ?thesis by (simp add: quiet_def upd_sm_def)
qed

lemma quiet_tell: "other_call c \<Longrightarrow> quiet s (agps_tell c t) = quiet s t"
  by (simp add: quiet_def agps_tell_def sm_states_def last_request_snoc asked_other)

lemma quiet_ask: "other_call c \<Longrightarrow> quiet s (snd (agps_ask c t)) = quiet s t"
  by (simp add: agps_ask_def quiet_tell)

lemma quiet_objects [simp]:
  "quiet s (touch p t) = quiet s t" "quiet s (delete_sub p t) = quiet s t"
  "quiet s (set_inactive p t) = quiet s t" "quiet s (snd (new_sub x t)) = quiet s t"
  "quiet s (t\<lparr>agps_fault := f\<rparr>) = quiet s t"
  by (auto simp: quiet_def touch_def delete_sub_def set_inactive_def new_sub_def sm_states_def
      split: option.split)

lemmas quiet_simps = quiet_upd quiet_tell quiet_ask setCurrentSubscriber_def setBearer_def

lemma quiet_delete: "quiet s (deleteSubscriber n p s)"
proof -
  have "quiet u (snd (delete_loop p qs u))" for qs u
  proof (induction qs arbitrary: u)
    case Nil
    then show ?case by simp
  next
    case (Cons q qs)
    from quiet_trans [OF _ Cons [of "delete_sub q (touch p (touch q u))"], of u]
      quiet_trans [OF _ Cons [of "touch p (touch q u)"], of u]
    show ?case by (simp add: Let_def case_prod_beta)
  qed
  then show ?thesis by (simp add: deleteSubscriber_def case_prod_beta Let_def quiet_simps)
qed

lemma quiet_notify: "quiet s (notifyEventToSubscriber n ev p del s)"
proof -
  have "quiet s (notifyEventToSubscriber n ev p False s)"
    by (cases ev) (simp_all add: notifyEventToSubscriber_def notify_status_ds_def notify_status_def
        Let_def quiet_simps)
  from this quiet_trans [OF this quiet_delete [of _ n p]] show ?thesis
    by (cases del) (simp_all add: notifyEventToSubscriber_def Let_def)
qed

lemma quiet_notifyAll: "quiet s (notifyAllSubscribers n ev del nt s)"
proof -
  have "quiet u (snd (notify_loop n ev del nt qs u))" for qs u
  proof (induction qs arbitrary: u)
    case Nil
    then show ?case by simp
  next
    case (Cons q qs)
    let ?n = "notifyEventToSubscriber n ev q False u"
    have "quiet u (delete_sub q ?n)" "quiet u ?n" "quiet u (touch q u)" by (simp_all add: quiet_notify)
    from this [THEN quiet_trans [OF _ Cons]] show ?case by (cases del) (auto simp: Let_def case_prod_beta)
  qed
  then show ?thesis by (simp add: notifyAllSubscribers_def case_prod_beta Let_def quiet_simps)
qed

lemma quiet_add: "quiet s (addSubscriber n p s)"
  using quiet_objects(4) [of s "sub_at s p" "touch p s"]
  by (simp add: addSubscriber_def Let_def case_prod_beta quiet_simps)

lemma quiet_leave: "quiet s (leave_or_wait n p s)"
  using quiet_trans [OF _ quiet_notify, of s "touch p s"] by (simp add: leave_or_wait_def Let_def)

lemma quiet_request_ds: "quiet s (snd (request_ds b s))"
proof -
  have start: "quiet s (snd (start_data_call p s))" for p
  proof -
    let ?a = "snd (agps_ask DSClientOpenAndStartDataCall s)"
    let ?b = "upd_sm DsNif (\<lambda>m. m\<lparr>mRetries := mRetries m + 1\<rparr>) ?a"
    have "quiet s ?a" "quiet s ?b" by (simp_all add: quiet_simps)
    from this this [THEN quiet_trans [OF _ quiet_notify]] show ?thesis
      by (simp add: start_data_call_def case_prod_beta Let_def quiet_simps)
  qed
  show ?thesis
    by (simp add: request_ds_def start quiet_notify quiet_simps split: option.split)
qed

section \<open>What moves a machine\<close>

lemma conn_move:
  assumes "conn_ok s" and "st = AGPS_STATE_RELEASED \<or> b \<and> st = AGPS_STATE_PENDING \<or> \<not> b \<and> st = AGPS_STATE_RELEASING"
    and "present s n"
  shows "conn_ok (snd (requestOrReleaseDataConn n b (transitionState n st s)))"
proof (cases "n = DsNif")
  case True
  have "conn_ok (transitionState n st s)"
    using assms(1) True by (auto simp: conn_ok_def type_transition)
  then show ?thesis
    using True conn_quiet [OF quiet_request_ds] by (simp add: requestOrReleaseDataConn_def)
next
  case False
  have type: "mAgpsType (nifs s n) = type_of n" using assms(1,3) False by (simp add: conn_ok_def)
  have other: "type_of m \<noteq> type_of n" if "m \<noteq> n" "m \<noteq> DsNif" for m
    using that False by (cases m; cases n) (auto simp: type_of_def)
  let ?t = "snd (requestOrReleaseDataConn n b (transitionState n st s))"
  have t: "sm_states ?t = (sm_states s)(n := st)" "present ?t = present s"
    "mAgpsType (nifs ?t m) = mAgpsType (nifs s m)"
    "agps_calls ?t = agps_calls s @ [FrameworkStatus (type_of n) b]" for m
    using False type
    by (auto simp: requestOrReleaseDataConn_def request_framework_def agps_tell_def sm_states_def
        transitionState_def upd_sm_def)
  have here: "last_request (type_of n) (agps_calls ?t) = Some b"
    by (simp add: t(4) last_request_snoc asked_def)
  have there: "last_request (type_of m) (agps_calls ?t) = last_request (type_of m) (agps_calls s)"
    if "m \<noteq> n" "m \<noteq> DsNif" for m
    using other [OF that] by (simp add: t(4) last_request_snoc asked_def)
  show ?thesis
    unfolding conn_ok_def
  proof (intro allI impI)
    fix m
    assume m: "m \<noteq> DsNif" "present ?t m"
    then have "present s m" by (simp add: t(2))
    with m(1) assms(1,2) here there [OF _ m(1)]
    show "mAgpsType (nifs ?t m) = type_of m \<and>
        (sm_states ?t m = AGPS_STATE_PENDING \<or> sm_states ?t m = AGPS_STATE_ACQUIRED \<longrightarrow>
          last_request (type_of m) (agps_calls ?t) = Some True) \<and>
        (sm_states ?t m = AGPS_STATE_RELEASING \<longrightarrow>
          last_request (type_of m) (agps_calls ?t) = Some False)"
      unfolding t(1,3) conn_ok_def by (cases "m = n") auto
  qed
qed

lemma conn_step_to:
  assumes "conn_ok s" and "st = AGPS_STATE_RELEASED \<or> st = AGPS_STATE_ACQUIRED \<and> sm_states s n = AGPS_STATE_PENDING"
  shows "conn_ok (transitionState n st s)"
  using assms by (auto simp: conn_ok_def type_transition)

lemma conn_subscribe:
  assumes "conn_ok s" and "present s n"
  shows "conn_ok (processAgpsEventSubscribe n s)"
proof -
  let ?p = "mCurrentSubscriber (nifs s n)"
  let ?a = "addSubscriber n ?p s"
  have add: "conn_ok ?a" "present ?a n"
    using conn_quiet [OF quiet_add assms(1)] assms(2) by (simp_all add: present_add)
  have "conn_ok (if fst (requestOrReleaseDataConn n True ?a) = 0
      then transitionState n AGPS_STATE_PENDING (snd (requestOrReleaseDataConn n True ?a))
      else snd (requestOrReleaseDataConn n True ?a))"
  proof (cases "n = DsNif")
    case True
    have "conn_ok (snd (requestOrReleaseDataConn DsNif True ?a))"
      using True conn_quiet [OF quiet_request_ds add(1)] by (simp add: requestOrReleaseDataConn_def)
    then show ?thesis using True by (auto simp: conn_ok_def type_transition)
  next
    case False
    have "transitionState n AGPS_STATE_PENDING (snd (requestOrReleaseDataConn n True ?a)) =
        snd (requestOrReleaseDataConn n True (transitionState n AGPS_STATE_PENDING ?a))"
      using False by (simp add: requestOrReleaseDataConn_def request_framework_def type_transition)
        (simp add: agps_tell_def transitionState_def upd_sm_def)
    with conn_move [OF add(1) _ add(2), of AGPS_STATE_PENDING True] False show ?thesis
      by (simp add: requestOrReleaseDataConn_def request_framework_def)
  qed
  then show ?thesis
    using assms conn_quiet [OF quiet_add conn_quiet [OF quiet_notify assms(1)]] add
    by (auto simp: processAgpsEventSubscribe_def Let_def case_prod_beta split: agps_state.split)
qed

lemma conn_unsubscribe:
  assumes "conn_ok s" and "present s n"
  shows "conn_ok (processAgpsEventUnsubscribe n s)"
proof -
  let ?t = "leave_or_wait n (mCurrentSubscriber (nifs s n)) s"
  have t: "conn_ok ?t" "present ?t n"
    using conn_quiet [OF quiet_leave assms(1)] quiet_leave [of s n] assms(2) by (simp_all add: quiet_def)
  then show ?thesis
    using assms conn_quiet [OF quiet_notify assms(1)]
    by (auto simp: processAgpsEventUnsubscribe_def Let_def conn_move conn_step_to split: agps_state.split)
qed

lemma conn_finish:
  assumes "conn_ok s" and "present s n"
  shows "conn_ok (finish_releasing n s)"
proof -
  let ?t = "notifyAllSubscribers n AGPS_EVENT_RELEASED True FOR_INACTIVE_SUBSCRIBERS s"
  have "conn_ok ?t" "present ?t n"
    using conn_quiet [OF quiet_notifyAll assms(1)] quiet_notifyAll [of s] assms(2) by (simp_all add: quiet_def)
  then show ?thesis by (auto simp: finish_releasing_def Let_def conn_move conn_step_to)
qed

lemma conn_event:
  assumes "conn_ok s" and "present s n"
  shows "conn_ok (sm_event n ev s)"
proof -
  have "conn_ok (processAgpsEvent n e s)" for e
    using assms conn_finish [OF assms] conn_quiet [OF quiet_notifyAll conn_step_to [OF assms(1)]]
    by (cases e) (auto simp: processAgpsEvent_def conn_subscribe conn_unsubscribe processAgpsEventGranted_def
        processAgpsEventReleased_def processAgpsEventDenied_def sm_states_eq split: agps_state.split)
  then show ?thesis by (auto simp: sm_event_def ds_processAgpsEvent_def)
qed

section \<open>Every message\<close>

lemma conn_create: "conn_ok s \<Longrightarrow> t = type_of n \<or> n = DsNif \<Longrightarrow> conn_ok (create_sm n t s)"
  by (auto simp: create_sm_def conn_ok_def upd_sm_def sm_states_def AgpsStateMachine_def)

lemma conn_ask: "other_call c \<Longrightarrow> conn_ok s \<Longrightarrow> conn_ok (snd (agps_ask c s))"
  by (rule conn_quiet [of s]) (simp_all add: quiet_ask)

lemma conn_tell: "other_call c \<Longrightarrow> conn_ok s \<Longrightarrow> conn_ok (agps_tell c s)"
  by (rule conn_quiet [of s]) (simp_all add: quiet_tell)

lemma conn_create_all: "conn_ok s \<Longrightarrow> conn_ok (createAgpsStateMachines s)"
  by (simp add: createAgpsStateMachines_def Let_def case_prod_beta conn_create conn_ask type_of_def)

lemma conn_get:
  assumes "conn_ok s"
  shows "conn_ok (snd (getAgpsStateMachine t s))"
    and "fst (getAgpsStateMachine t s) = Some n \<Longrightarrow> present (snd (getAgpsStateMachine t s)) n"
  using assms by (auto simp: getAgpsStateMachine_def Let_def conn_create_all null_unless_def split: if_splits)

lemma conn_with_sm:
  assumes "conn_ok s" and "\<And>n s. conn_ok s \<Longrightarrow> present s n \<Longrightarrow> conn_ok (f n s)"
  shows "conn_ok (with_sm t f s)"
proof -
  have "conn_ok ((snd (getAgpsStateMachine t s))\<lparr>agps_fault := True\<rparr>)"
    by (rule conn_quiet [OF _ conn_get(1) [OF assms(1), of t]]) simp
  then show ?thesis
    using assms(2) [OF conn_get [OF assms(1)]] by (simp add: with_sm_def case_prod_beta Let_def split: option.split)
qed

lemma conn_current: "conn_ok s \<Longrightarrow> conn_ok (setCurrentSubscriber n p s)"
  by (rule conn_quiet [of s]) (simp_all add: quiet_simps)

lemma conn_requestATL:
  assumes "conn_ok s"
  shows "conn_ok (requestATL h t s)"
proof (cases "fst (getAgpsStateMachine t s)")
  case None
  then show ?thesis using conn_get [OF assms] by (simp add: requestATL_def case_prod_beta Let_def conn_tell)
next
  case (Some n)
  let ?x = "\<lparr>mConnHandle = h, mWaitForCloseComplete = (t = LOC_AGPS_TYPE_SUPL_ES), mIsInactive = False\<rparr>"
  let ?n = "new_sub ?x (snd (getAgpsStateMachine t s))"
  have "conn_ok (snd ?n)" by (rule conn_quiet [OF _ conn_get(1) [OF assms, of t]]) simp
  moreover have "present (snd ?n) n" using conn_get(2) [OF assms Some] by (simp add: new_sub_def)
  ultimately have "conn_ok (sm_event n AGPS_EVENT_SUBSCRIBE (setCurrentSubscriber n (fst ?n) (snd ?n)))"
    by (simp add: conn_event conn_current)
  from conn_quiet [OF _ this] Some show ?thesis
    by (simp add: requestATL_def case_prod_beta Let_def)
qed

lemma conn_releaseATL:
  assumes "conn_ok s"
  shows "conn_ok (releaseATL h s)"
proof -
  have "conn_ok (sm_event n AGPS_EVENT_UNSUBSCRIBE (setCurrentSubscriber n p s))"
    if "find_in n h s = Some p" for n p
    using find_in_present [OF that] assms by (simp add: conn_event conn_current)
  then show ?thesis using assms by (simp add: releaseATL_def Let_def conn_tell split: option.split)
qed

lemma conn_open_success: "conn_ok s \<Longrightarrow> conn_ok (reportAtlOpenSuccess t apn len b s)"
proof (unfold reportAtlOpenSuccess_def, rule conn_with_sm)
  fix n and u :: agps
  assume u: "conn_ok u" "present u n"
  have "quiet u (setAPN n apn len (setBearer n b u))"
    by (auto simp: setAPN_def setBearer_def upd_sm_def quiet_def sm_states_def Let_def split: option.split)
  moreover from this have "present (setAPN n apn len (setBearer n b u)) n" using u(2) by (simp add: quiet_def)
  ultimately show "conn_ok (sm_event n AGPS_EVENT_GRANTED (setAPN n apn len (setBearer n b u)))"
    using conn_quiet [OF _ u(1)] conn_event by blast
qed

lemma conn_drop:
  assumes "conn_ok s"
  shows "conn_ok (dropAllSubscribers n s)"
proof -
  have "quiet s (fold delete_sub qs t) = quiet s t" for qs t
    by (induction qs arbitrary: t) simp_all
  then have "quiet s (dropAllSubscribers n s)" by (simp add: dropAllSubscribers_def quiet_upd)
  with assms show ?thesis using conn_quiet by blast
qed

lemma conn_ssr: "conn_ok s \<Longrightarrow> conn_ok (handleModemSSR s)"
  by (simp add: handleModemSSR_def Let_def conn_ask conn_tell conn_drop)

lemma conn_retry: "conn_ok s \<Longrightarrow> conn_ok (retryCallback s)"
  by (simp add: retryCallback_def conn_tell split: option.split)

interpretation agps_conn: invariant_system agps_step conn_ok
proof
  fix i s
  assume "conn_ok s"
  then show "conn_ok (agps_step i s)"
    by (cases i) (simp_all add: agps_step_def conn_create_all conn_requestATL conn_releaseATL conn_event
        reportDataCallOpened_def reportDataCallClosed_def conn_open_success reportAtlOpenFailed_def
        reportAtlClosed_def conn_with_sm conn_ssr conn_retry)
qed

lemma conn_init: "conn_ok (agps_init c e i st sp j en)"
  by (simp add: conn_ok_def agps_init_def)

end
