(* ===== verification/Agps_Theorems.thy ===== *)
theory Agps_Theorems
  imports Agps_Conn
begin

text \<open>
  The properties of the AGPS manager: the invariant of its lists on every run, what each event
  does in each state, the connection that is requested and released, which deletes read freed
  memory, and the two ways the data service machine and the reports go wrong.
\<close>

section \<open>Subscribers\<close>

text \<open>
  C4: On every run of the manager, whatever the framework, the modem and the data service answer, no
  list holds a handle twice, every live subscriber is in exactly one list and every list holds only
  live subscribers (so nothing leaks and nothing is freed while it is listed), and a machine of the
  framework that is RELEASED has no subscribers.
\<close>

theorem agps_runs_keep_lists:
  fixes inputs capable emergency init_fn start_fn stop_fn junk_fn e
  defines "s \<equiv> run_steps agps_step inputs
    (agps_init capable emergency init_fn start_fn stop_fn junk_fn e)"
  shows "(\<forall>n. distinct (map (\<lambda>p. mConnHandle (sub_at s p)) (mSubscriberList (nifs s n)))) \<and>
    (\<forall>n m. n \<noteq> m \<longrightarrow> set (mSubscriberList (nifs s n)) \<inter> set (mSubscriberList (nifs s m)) = {}) \<and>
    dom (subs s) = (\<Union>n. set (mSubscriberList (nifs s n))) \<and>
    (\<forall>n. n \<noteq> DsNif \<longrightarrow> mAgpsState (nifs s n) = AGPS_STATE_RELEASED \<longrightarrow> mSubscriberList (nifs s n) = [])"
  using agps.run_inv [OF agps_init_ok, of inputs capable emergency init_fn start_fn stop_fn junk_fn e]
  unfolding s_def agps_ok_def lists_ok_def states_ok_def sub_lists_def sm_states_def by simp

definition demo_agps :: "agps_input list \<Rightarrow> agps" where
  "demo_agps inputs = run_steps agps_step (In_create # inputs)
     (agps_init True True True True False
       (\<lambda>_. \<lparr>mConnHandle = 0, mWaitForCloseComplete = False, mIsInactive = False\<rparr>)
       (\<lambda>_ c. if c = DSClientInit False then 0 else LOC_API_ADAPTER_ERR_UNSUPPORTED))"

lemmas agps_eval = demo_agps_def agps_step_def agps_init_def createAgpsStateMachines_def create_sm_def
  upd_sm_def AgpsStateMachine_def agps_ask_def agps_tell_def requestATL_def getAgpsStateMachine_def
  null_unless_def new_sub_def setCurrentSubscriber_def sm_event_def ds_processAgpsEvent_def
  processAgpsEvent_def processAgpsEventSubscribe_def addSubscriber_def requestOrReleaseDataConn_def
  request_framework_def request_ds_def getFirstSubscriber_def start_data_call_def
  LOC_API_ADAPTER_ERR_UNSUPPORTED_def LOC_API_ADAPTER_ERR_ENGINE_BUSY_def transitionState_def
  delete_sub_def touch_def sub_at_def notifyEventToSubscriber_def notify_status_ds_def
  notify_status_def

lemma agps_runs_keep_lists_witness:
  "mSubscriberList (nifs (demo_agps [In_requestATL 7 LOC_AGPS_TYPE_SUPL]) InternetNif) = []"
proof -
  have "mAgpsState (nifs (demo_agps [In_requestATL 7 LOC_AGPS_TYPE_SUPL]) InternetNif) = AGPS_STATE_RELEASED"
    by (simp add: agps_eval Let_def)
  then show ?thesis
    using agps_runs_keep_lists unfolding demo_agps_def by blast
qed

lemma delete_loop_append:
  assumes "distinct (map (\<lambda>q. mConnHandle (sub_at s q)) (qs @ rs))" and "p \<in> set rs"
    and "set (qs @ rs) \<subseteq> dom (subs s)"
  shows "delete_loop p (qs @ rs) s = (qs @ fst (delete_loop p rs s), snd (delete_loop p rs s))"
  using assms
proof (induction qs)
  case Nil
  then show ?case by simp
next
  case (Cons q qs)
  then have "touch p (touch q s) = s" "mConnHandle (sub_at s q) \<noteq> mConnHandle (sub_at s p)"
    by (auto simp: touch_def)
  with Cons show ?case by simp
qed

lemma delete_loop_fault: "agps_fault s \<Longrightarrow> agps_fault (snd (delete_loop p qs s))"
  by (induction qs arbitrary: s) (auto simp: Let_def case_prod_beta touch_def delete_sub_def)

lemma delete_loop_dead:
  "subs s p = None \<Longrightarrow> qs \<noteq> [] \<Longrightarrow> agps_fault (snd (delete_loop p qs s))"
  by (cases qs) (auto simp: Let_def case_prod_beta touch_def delete_sub_def intro!: delete_loop_fault)

lemma delete_listed:
  assumes "distinct (map (\<lambda>q. mConnHandle (sub_at s q)) (qs @ p # rs))"
    and "set (qs @ p # rs) \<subseteq> dom (subs s)"
  shows "delete_loop p (qs @ p # rs) s =
    (qs @ fst (delete_loop p rs (delete_sub p s)), snd (delete_loop p rs (delete_sub p s)))"
proof -
  have "touch p s = s" using assms(2) by (auto simp: touch_def)
  then show ?thesis using delete_loop_append [OF assms(1) _ assms(2)] by simp
qed

text \<open>
  Deleting a listed subscriber takes exactly it from its list, in place, if it is the last of
  the list; if any other follows, the loop goes on to compare with the subscriber it has just
  freed. releaseATL passes such a subscriber, so a release out of order reads freed memory.
\<close>

theorem delete_subscriber_safe_iff_last:
  assumes "agps_ok {} None s" and "mSubscriberList (nifs s n) = before @ p # behind"
    and "\<not> agps_fault s"
  shows "(agps_fault (deleteSubscriber n p s) \<longleftrightarrow> behind \<noteq> []) \<and>
    (behind = [] \<longrightarrow> mSubscriberList (nifs (deleteSubscriber n p s) n) = before \<and>
       subs (deleteSubscriber n p s) = (subs s)(p := None))"
proof -
  have ok: "distinct (map (\<lambda>q. mConnHandle (sub_at s q)) (before @ p # behind))"
    "set (before @ p # behind) \<subseteq> dom (subs s)"
    using agps_ok_lists [OF assms(1)] lists_ok_live [OF agps_ok_lists [OF assms(1)], of _ n]
    unfolding assms(2) [symmetric] sub_lists_eq by (simp add: lists_ok_def, blast)
  have loop: "deleteSubscriber n p s =
    upd_sm n (\<lambda>m. m\<lparr>mSubscriberList := before @ fst (delete_loop p behind (delete_sub p s))\<rparr>)
      (snd (delete_loop p behind (delete_sub p s)))"
    using delete_listed [OF ok] assms(2) by (simp add: deleteSubscriber_def)
  have "\<not> agps_fault (delete_sub p s)" using assms(3) ok(2) by (auto simp: delete_sub_def touch_def)
  then show ?thesis
    using delete_loop_dead [of "delete_sub p s" p behind]
    unfolding loop by (cases "behind = []") (auto simp: upd_sm_def)
qed

lemma delete_subscriber_safe_iff_last_witness:
  "agps_fault (deleteSubscriber AgnssNif 2
     (demo_agps [In_requestATL 7 LOC_AGPS_TYPE_SUPL, In_requestATL 8 LOC_AGPS_TYPE_SUPL]))"
proof -
  let ?s = "demo_agps [In_requestATL 7 LOC_AGPS_TYPE_SUPL, In_requestATL 8 LOC_AGPS_TYPE_SUPL]"
  have "agps_ok {} None ?s" unfolding demo_agps_def by (rule agps.run_inv [OF agps_init_ok])
  moreover have "mSubscriberList (nifs ?s AgnssNif) = [] @ 2 # [4]" "\<not> agps_fault ?s"
    by (simp_all add: agps_eval Let_def)
  ultimately show ?thesis using delete_subscriber_safe_iff_last by blast
qed

section \<open>Events\<close>

text \<open>
  C26: A granted connection is told to each active subscriber of the machine once, in the order in
  which they came, with the APN, bearer and type of the machine; the inactive ones hear nothing, no
  one leaves, and the machine is ACQUIRED. A grant in any other state than PENDING is ignored.
\<close>

theorem granted_tells_active_once:
  fixes n :: nif
  assumes "agps_ok {} None s" and "\<not> agps_fault s"
  defines "t \<equiv> processAgpsEvent n AGPS_EVENT_GRANTED s"
  shows "(mAgpsState (nifs s n) = AGPS_STATE_PENDING \<longrightarrow>
      mAgpsState (nifs t n) = AGPS_STATE_ACQUIRED \<and> \<not> agps_fault t \<and>
      mSubscriberList (nifs t n) = mSubscriberList (nifs s n) \<and> subs t = subs s \<and>
      agps_calls t = agps_calls s @ concat (map (\<lambda>p. told n (nifs s n) AGPS_EVENT_GRANTED (mConnHandle (sub_at s p)))
        (filter (\<lambda>p. \<not> mIsInactive (sub_at s p)) (mSubscriberList (nifs s n))))) \<and>
    (mAgpsState (nifs s n) \<noteq> AGPS_STATE_PENDING \<longrightarrow> t = s)"
proof -
  let ?u = "transitionState n AGPS_STATE_ACQUIRED s"
  have u: "lists_ok {} ?u" using assms(1) by (simp add: agps_ok_def lists_ok_def)
  have same: "leavers False nt ?u n = {}" "told n (nifs ?u n) = told n (nifs s n)"
    "agps_fault ?u = agps_fault s" "subs s |` UNIV = subs s" for nt
    by (auto simp: leavers_def told_transition fault_transition restrict_map_def)
  show ?thesis
    using notifyAll_exact [OF u, of n AGPS_EVENT_GRANTED False FOR_ACTIVE_SUBSCRIBERS] assms(2)
    by (auto simp: t_def processAgpsEvent_def processAgpsEventGranted_def sub_lists_eq sm_states_eq
        same wants_def split: agps_state.split)
qed

lemma granted_tells_active_once_witness:
  "agps_calls (processAgpsEvent AgnssNif AGPS_EVENT_GRANTED
     (demo_agps [In_requestATL 7 LOC_AGPS_TYPE_SUPL, In_requestATL 8 LOC_AGPS_TYPE_SUPL])) =
   [DSClientInit False, FrameworkStatus LOC_AGPS_TYPE_SUPL True,
    AtlOpenStatus 7 True None AGPS_APN_BEARER_INVALID LOC_AGPS_TYPE_SUPL,
    AtlOpenStatus 8 True None AGPS_APN_BEARER_INVALID LOC_AGPS_TYPE_SUPL]"
proof -
  let ?s = "demo_agps [In_requestATL 7 LOC_AGPS_TYPE_SUPL, In_requestATL 8 LOC_AGPS_TYPE_SUPL]"
  have "agps_ok {} None ?s" unfolding demo_agps_def by (rule agps.run_inv [OF agps_init_ok])
  moreover have "\<not> agps_fault ?s" "mAgpsState (nifs ?s AgnssNif) = AGPS_STATE_PENDING"
    "mSubscriberList (nifs ?s AgnssNif) = [2, 4]" "subs ?s 2 = Some \<lparr>mConnHandle = 7, mWaitForCloseComplete = False, mIsInactive = False\<rparr>"
    "subs ?s 4 = Some \<lparr>mConnHandle = 8, mWaitForCloseComplete = False, mIsInactive = False\<rparr>"
    "agps_calls ?s = [DSClientInit False, FrameworkStatus LOC_AGPS_TYPE_SUPL True]"
    "mAPN (nifs ?s AgnssNif) = None" "mBearer (nifs ?s AgnssNif) = AGPS_APN_BEARER_INVALID"
    "mAgpsType (nifs ?s AgnssNif) = LOC_AGPS_TYPE_SUPL"
    by (simp_all add: agps_eval Let_def)
  ultimately show ?thesis
    using granted_tells_active_once [of ?s AgnssNif] by (simp add: sub_at_def told_def)
qed

text \<open>
  C27: When a connection that was acquired is gone, or one that was asked for is denied, every
  subscriber of the machine is told once, in order, and freed; the machine is RELEASED with an
  empty list.
\<close>

theorem end_of_connection_tells_all:
  fixes n :: nif
  assumes "agps_ok {} None s" and "\<not> agps_fault s"
    and "ev = AGPS_EVENT_RELEASED \<and> mAgpsState (nifs s n) = AGPS_STATE_ACQUIRED \<or>
      ev = AGPS_EVENT_DENIED \<and> mAgpsState (nifs s n) = AGPS_STATE_PENDING"
  defines "t \<equiv> processAgpsEvent n ev s"
  shows "mAgpsState (nifs t n) = AGPS_STATE_RELEASED \<and> mSubscriberList (nifs t n) = [] \<and>
    subs t = subs s |` (- set (mSubscriberList (nifs s n))) \<and> \<not> agps_fault t \<and>
    agps_calls t = agps_calls s @ concat (map (\<lambda>p. told n (nifs s n) ev (mConnHandle (sub_at s p)))
      (mSubscriberList (nifs s n)))"
proof -
  let ?u = "transitionState n AGPS_STATE_RELEASED s"
  have u: "lists_ok {} ?u" using assms(1) by (simp add: agps_ok_def lists_ok_def)
  have same: "leavers True FOR_ALL_SUBSCRIBERS ?u n = set (sub_lists s n)"
    "told n (nifs ?u n) = told n (nifs s n)" "agps_fault ?u = agps_fault s"
    by (auto simp: leavers_def wants_def told_transition fault_transition)
  have "t = notifyAllSubscribers n ev True FOR_ALL_SUBSCRIBERS ?u"
    using assms(3) by (auto simp: t_def processAgpsEvent_def processAgpsEventReleased_def processAgpsEventDenied_def)
  then show ?thesis
    using notifyAll_exact [OF u, of n ev True FOR_ALL_SUBSCRIBERS] assms(2)
    by (simp add: same sub_lists_eq sm_states_eq) (simp add: wants_def)
qed

lemma end_of_connection_tells_all_witness:
  "mSubscriberList (nifs (processAgpsEvent AgnssNif AGPS_EVENT_DENIED
     (demo_agps [In_requestATL 7 LOC_AGPS_TYPE_SUPL])) AgnssNif) = []"
proof -
  let ?s = "demo_agps [In_requestATL 7 LOC_AGPS_TYPE_SUPL]"
  have "agps_ok {} None ?s" unfolding demo_agps_def by (rule agps.run_inv [OF agps_init_ok])
  moreover have "\<not> agps_fault ?s" "mAgpsState (nifs ?s AgnssNif) = AGPS_STATE_PENDING"
    by (simp_all add: agps_eval Let_def)
  ultimately show ?thesis using end_of_connection_tells_all by blast
qed

text \<open>An emergency session that ends while another begins, without a connection of its own.\<close>

definition demo_releasing :: agps where
  "demo_releasing = run_steps agps_step
     [In_create, In_requestATL 7 LOC_AGPS_TYPE_SUPL_ES, In_openSuccess LOC_AGPS_TYPE_SUPL_ES None 0 0,
      In_releaseATL 7, In_requestATL 8 LOC_AGPS_TYPE_SUPL_ES]
     (agps_init True False False False False
       (\<lambda>_. \<lparr>mConnHandle = 0, mWaitForCloseComplete = False, mIsInactive = False\<rparr>) (\<lambda>_ _. 0))"

lemmas agps_eval_more = reportAtlOpenSuccess_def with_sm_def setAPN_def setBearer_def
  processAgpsEventGranted_def notifyAllSubscribers_def wants_def releaseATL_def find_in_def
  getSubscriber_def processAgpsEventUnsubscribe_def leave_or_wait_def set_inactive_def
  anyActiveSubscribers_def

text \<open>
  When a connection that is being released is gone, the inactive subscribers of a machine of the
  framework are told RELEASED once, in order, and leave; if an active one came meanwhile the
  connection is requested again, once, and the machine is PENDING with exactly the active
  subscribers, else it is RELEASED and empty.
\<close>

theorem released_then_requested_again:
  fixes n :: nif
  assumes "agps_ok {} None s" and "\<not> agps_fault s" and "n \<noteq> DsNif"
    and "mAgpsState (nifs s n) = AGPS_STATE_RELEASING"
    and "ev = AGPS_EVENT_RELEASED \<or> ev = AGPS_EVENT_DENIED"
  defines "t \<equiv> processAgpsEvent n ev s"
    and "active \<equiv> filter (\<lambda>p. \<not> mIsInactive (sub_at s p)) (mSubscriberList (nifs s n))"
  shows "mSubscriberList (nifs t n) = active \<and> \<not> agps_fault t \<and>
    mAgpsState (nifs t n) = (if active = [] then AGPS_STATE_RELEASED else AGPS_STATE_PENDING) \<and>
    agps_calls t = agps_calls s @ map (\<lambda>p. AtlCloseStatus (mConnHandle (sub_at s p)) True)
        (filter (\<lambda>p. mIsInactive (sub_at s p)) (mSubscriberList (nifs s n))) @
      (if active = [] then [] else [FrameworkStatus (mAgpsType (nifs s n)) True])"
proof -
  let ?u = "notifyAllSubscribers n AGPS_EVENT_RELEASED True FOR_INACTIVE_SUBSCRIBERS s"
  note ok = agps_ok_lists [OF assms(1)]
  note round = notifyAll_exact [OF ok, of n AGPS_EVENT_RELEASED True FOR_INACTIVE_SUBSCRIBERS]
  have list: "sub_lists ?u n = active"
    unfolding round(1) active_def leavers_def wants_def sub_lists_eq by (auto intro: filter_cong)
  have at: "sub_at ?u p = sub_at s p" if "p \<in> set active" for p
    by (rule notifyAll_at [OF ok]) (simp add: list that)
  have any: "anyActiveSubscribers n ?u \<longleftrightarrow> active \<noteq> []"
  proof -
    have "anyActiveSubscribers n ?u \<longleftrightarrow> (\<exists>p \<in> set active. \<not> mIsInactive (sub_at s p))"
      by (auto simp: anyActiveSubscribers_def sub_lists_eq list list_ex_iff at)
    then show ?thesis by (auto simp: active_def filter_empty_conv)
  qed
  have t: "t = finish_releasing n s"
    using assms(4,5) by (auto simp: t_def processAgpsEvent_def processAgpsEventReleased_def
        processAgpsEventDenied_def)
  have type: "mAgpsType (nifs ?u n) = mAgpsType (nifs s n)" by (simp add: notifyAll_nifs [OF assms(3)])
  have calls: "agps_calls ?u = agps_calls s @ map (\<lambda>p. AtlCloseStatus (mConnHandle (sub_at s p)) True)
      (filter (\<lambda>p. mIsInactive (sub_at s p)) (mSubscriberList (nifs s n)))"
    unfolding round(3) using assms(3) by (simp add: told_def wants_def sub_lists_eq concat_map_singleton)
  show ?thesis
    unfolding t finish_releasing_def Let_def any
    using assms(2,3) round(4) list calls type
    by (simp add: requestOrReleaseDataConn_def request_framework_def sub_lists_eq fault_transition
        type_transition sm_states_eq)
      (simp add: agps_tell_def sm_states_def transitionState_def upd_sm_def sub_lists_def)
qed

lemma released_then_requested_again_witness:
  "agps_calls (processAgpsEvent AgnssNif AGPS_EVENT_RELEASED demo_releasing) =
   agps_calls demo_releasing @ [AtlCloseStatus 7 True, FrameworkStatus LOC_AGPS_TYPE_SUPL True]"
proof -
  let ?s = demo_releasing
  have "agps_ok {} None ?s" unfolding demo_releasing_def by (rule agps.run_inv [OF agps_init_ok])
  moreover have "\<not> agps_fault ?s" "mAgpsState (nifs ?s AgnssNif) = AGPS_STATE_RELEASING"
    "mSubscriberList (nifs ?s AgnssNif) = [2, 4]" "mAgpsType (nifs ?s AgnssNif) = LOC_AGPS_TYPE_SUPL"
    "subs ?s 2 = Some \<lparr>mConnHandle = 7, mWaitForCloseComplete = True, mIsInactive = True\<rparr>"
    "subs ?s 4 = Some \<lparr>mConnHandle = 8, mWaitForCloseComplete = True, mIsInactive = False\<rparr>"
    by (simp_all add: demo_releasing_def agps_eval agps_eval_more Let_def)
  ultimately show ?thesis
    using released_then_requested_again [of ?s AgnssNif AGPS_EVENT_RELEASED] by (simp add: sub_at_def)
qed

text \<open>
  C25: A request for a machine of the framework, with a handle it does not hold, adds one active
  subscriber at the end of its list, in every state; in RELEASED it asks the framework for the
  connection and moves to PENDING, in ACQUIRED it is told at once that it is granted, and in
  PENDING and RELEASING nothing else happens. The request itself leaves no object behind.
\<close>

theorem request_joins_machine:
  fixes n :: nif
  assumes "agps_ok {} None s" and "\<not> agps_fault s" and "n \<noteq> DsNif"
    and "getAgpsStateMachine ty s = (Some n, s)" and "getSubscriber n h s = None"
  defines "t \<equiv> requestATL h ty s" and "p \<equiv> next_addr s + 1"
  shows "mSubscriberList (nifs t n) = mSubscriberList (nifs s n) @ [p] \<and>
    subs t = (subs s)(p \<mapsto> \<lparr>mConnHandle = h, mWaitForCloseComplete = (ty = LOC_AGPS_TYPE_SUPL_ES),
      mIsInactive = False\<rparr>) \<and> \<not> agps_fault t \<and>
    mAgpsState (nifs t n) = (if mAgpsState (nifs s n) = AGPS_STATE_RELEASED
      then AGPS_STATE_PENDING else mAgpsState (nifs s n)) \<and>
    agps_calls t = agps_calls s @ (case mAgpsState (nifs s n) of
        AGPS_STATE_RELEASED \<Rightarrow> [FrameworkStatus (mAgpsType (nifs s n)) True]
      | AGPS_STATE_ACQUIRED \<Rightarrow> told n (nifs s n) AGPS_EVENT_GRANTED h
      | _ \<Rightarrow> [])"
proof -
  let ?x = "\<lparr>mConnHandle = h, mWaitForCloseComplete = (ty = LOC_AGPS_TYPE_SUPL_ES), mIsInactive = False\<rparr>"
  let ?q = "next_addr s"
  define u where "u = setCurrentSubscriber n ?q (snd (new_sub ?x s))"
  note ok = agps_ok_lists [OF assms(1)]
  have fresh: "?q \<notin> set (mSubscriberList (nifs s n))"
    using lists_ok_live [OF ok, of ?q n] lists_ok_fresh [OF ok] by (auto simp: sub_lists_def)
  have u: "subs u = (subs s)(?q \<mapsto> ?x)" "next_addr u = ?q + 1" "agps_calls u = agps_calls s"
    "agps_fault u = agps_fault s" "junk u = junk s"
    "nifs u = (nifs s)(n := (nifs s n)\<lparr>mCurrentSubscriber := ?q\<rparr>)"
    by (simp_all add: u_def new_sub_def setCurrentSubscriber_def upd_sm_def)
  have other: "mConnHandle (sub_at v x) \<noteq> h"
    if "subs v = subs u" "junk v = junk s" "x \<in> set (mSubscriberList (nifs s n))" for v x
    using that fresh assms(5) by (auto simp: getSubscriber_def find_None_iff sub_at_def u(1) split: option.splits)
  have add: "addSubscriber n ?q v = v\<lparr>subs := (subs v)(p \<mapsto> ?x), next_addr := p + 1,
      nifs := (nifs v)(n := (nifs v n)\<lparr>mSubscriberList := mSubscriberList (nifs v n) @ [p]\<rparr>)\<rparr>"
    if "subs v = subs u" "next_addr v = p" "junk v = junk s"
      "mSubscriberList (nifs v n) = mSubscriberList (nifs s n)" for v
  proof -
    have "sub_at v ?q = ?x" "touch ?q v = v" using that(1) by (simp_all add: sub_at_def u(1) touch_def)
    moreover have "\<not> list_ex (\<lambda>x. mConnHandle (sub_at v x) = h) (mSubscriberList (nifs s n))"
      using other [OF that(1,3)] by (auto simp: list_ex_iff)
    ultimately show ?thesis using that(2,4) by (simp add: addSubscriber_def new_sub_def upd_sm_def)
  qed
  have t: "t = delete_sub ?q (processAgpsEvent n AGPS_EVENT_SUBSCRIBE u)"
    using assms(3,4) by (simp add: t_def requestATL_def u_def new_sub_def sm_event_def)
  let ?g = "notifyEventToSubscriber n AGPS_EVENT_GRANTED ?q False u"
  have g: "subs ?g = subs u" "next_addr ?g = p" "junk ?g = junk s" "nifs ?g = nifs u"
    "agps_calls ?g = agps_calls s @ told n (nifs s n) AGPS_EVENT_GRANTED h" "agps_fault ?g = agps_fault s"
    using core_notify [of u n AGPS_EVENT_GRANTED ?q] assms(3)
    by (auto simp: same_core_def u p_def notify_nifs notify_told notify_frame sub_at_def told_def)
  have state: "mAgpsState (nifs s n) \<noteq> AGPS_STATE_INVALID"
    using assms(1) by (auto simp: agps_ok_def states_ok_def sm_states_def)
  have q: "?q \<noteq> p" "subs s ?q = None" using lists_ok_fresh [OF ok] by (auto simp: p_def)
  show ?thesis
    unfolding t using assms(2,3) state q
    by (cases "mAgpsState (nifs s n)")
      (simp_all add: processAgpsEvent_def processAgpsEventSubscribe_def u g add p_def Let_def
        requestOrReleaseDataConn_def request_framework_def agps_tell_def transitionState_def upd_sm_def
        delete_sub_def touch_def fun_upd_twist fun_upd_idem)
qed

lemma request_joins_machine_witness:
  "mSubscriberList (nifs (requestATL 7 LOC_AGPS_TYPE_SUPL (demo_agps [])) AgnssNif) = [2]"
proof -
  have "agps_ok {} None (demo_agps [])" unfolding demo_agps_def by (rule agps.run_inv [OF agps_init_ok])
  moreover have "\<not> agps_fault (demo_agps [])" "next_addr (demo_agps []) = 1"
    "getAgpsStateMachine LOC_AGPS_TYPE_SUPL (demo_agps []) = (Some AgnssNif, demo_agps [])"
    "mSubscriberList (nifs (demo_agps []) AgnssNif) = []"
    by (simp_all add: agps_eval Let_def)
  ultimately show ?thesis
    using request_joins_machine [of "demo_agps []" AgnssNif LOC_AGPS_TYPE_SUPL 7]
    by (simp add: getSubscriber_def)
qed

section \<open>The connection\<close>

text \<open>
  C14: On every run and for both framework machines, the last thing the framework was asked about the
  connection of that type is to have it while the machine is PENDING or ACQUIRED, and to give it up
  while it is RELEASING: no request is forgotten, doubled by its release, or sent for the other
  type.
\<close>

theorem connection_follows_state:
  fixes n :: nif and inputs capable emergency init_fn start_fn stop_fn junk_fn e
  assumes "n \<noteq> DsNif"
  defines "s \<equiv> run_steps agps_step inputs
    (agps_init capable emergency init_fn start_fn stop_fn junk_fn e)"
  assumes "present s n"
  shows "(mAgpsState (nifs s n) = AGPS_STATE_PENDING \<or> mAgpsState (nifs s n) = AGPS_STATE_ACQUIRED \<longrightarrow>
      last_request (mAgpsType (nifs s n)) (agps_calls s) = Some True) \<and>
    (mAgpsState (nifs s n) = AGPS_STATE_RELEASING \<longrightarrow>
      last_request (mAgpsType (nifs s n)) (agps_calls s) = Some False)"
  using agps_conn.run_inv [OF conn_init, of inputs capable emergency init_fn start_fn stop_fn junk_fn e]
    assms(1,3)
  unfolding s_def conn_ok_def sm_states_def by simp

lemma connection_follows_state_witness:
  "last_request LOC_AGPS_TYPE_SUPL (agps_calls demo_releasing) = Some False"
proof -
  have "present demo_releasing AgnssNif" "mAgpsType (nifs demo_releasing AgnssNif) = LOC_AGPS_TYPE_SUPL"
    "mAgpsState (nifs demo_releasing AgnssNif) = AGPS_STATE_RELEASING"
    by (simp_all add: demo_releasing_def agps_eval agps_eval_more Let_def)
  then show ?thesis
    using connection_follows_state [where n = AgnssNif and capable = True and emergency = False
        and init_fn = False and start_fn = False and stop_fn = False and e = "\<lambda>_ _. 0"
        and junk_fn = "\<lambda>_. \<lparr>mConnHandle = 0, mWaitForCloseComplete = False, mIsInactive = False\<rparr>"
        and inputs = "[In_create, In_requestATL 7 LOC_AGPS_TYPE_SUPL_ES,
          In_openSuccess LOC_AGPS_TYPE_SUPL_ES None 0 0, In_releaseATL 7,
          In_requestATL 8 LOC_AGPS_TYPE_SUPL_ES]", folded demo_releasing_def] by simp
qed

section \<open>Where the code goes wrong\<close>

text \<open>
  releaseATL reads a freed subscriber: with two sessions on the AGNSS machine, releasing the
  first compares the second with the one just deleted, while releasing the second does not.
\<close>

theorem release_out_of_order_reads_freed:
  "agps_fault (demo_agps [In_requestATL 7 LOC_AGPS_TYPE_SUPL, In_requestATL 8 LOC_AGPS_TYPE_SUPL, In_releaseATL 7]) \<and>
   \<not> agps_fault (demo_agps [In_requestATL 7 LOC_AGPS_TYPE_SUPL, In_requestATL 8 LOC_AGPS_TYPE_SUPL, In_releaseATL 8])"
  by (simp add: agps_eval agps_eval_more deleteSubscriber_def Let_def)

text \<open>
  A report of the framework for a type that has no machine calls through a null pointer:
  reportAtlOpenSuccess, reportAtlOpenFailed and reportAtlClosed all do so whenever
  getAgpsStateMachine gives NULL, which requestATL alone looks for.
\<close>

theorem reports_need_machine:
  assumes "fst (getAgpsStateMachine t s) = None"
  shows "agps_fault (reportAtlOpenSuccess t apn len b s) \<and> agps_fault (reportAtlOpenFailed t s) \<and>
    agps_fault (reportAtlClosed t s)"
  using assms by (simp add: reportAtlOpenSuccess_def reportAtlOpenFailed_def reportAtlClosed_def
      with_sm_def case_prod_beta Let_def)

lemma reports_need_machine_witness:
  "agps_fault (reportAtlClosed LOC_AGPS_TYPE_SUPL
     (agps_init False True True True False (\<lambda>_. \<lparr>mConnHandle = 0, mWaitForCloseComplete = False, mIsInactive = False\<rparr>) (\<lambda>_ _. 0)))"
  using reports_need_machine [of LOC_AGPS_TYPE_SUPL "agps_init False True True True False
    (\<lambda>_. \<lparr>mConnHandle = 0, mWaitForCloseComplete = False, mIsInactive = False\<rparr>) (\<lambda>_ _. 0)"]
  by (simp add: getAgpsStateMachine_def null_unless_def agps_init_def)

text \<open>
  The data service machine keeps a subscriber in RELEASED when its call is refused and the
  session falls back to the AGNSS machine: the comment that RELEASED has no subscribers does not
  hold of it. The handle is then in both lists, and releaseATL finds only the AGNSS one.
\<close>

theorem refused_call_keeps_subscriber:
  defines "s \<equiv> demo_agps [In_requestATL 7 LOC_AGPS_TYPE_SUPL_ES, In_requestATL 7 LOC_AGPS_TYPE_SUPL]"
  shows "mAgpsState (nifs s DsNif) = AGPS_STATE_RELEASED \<and> getSubscriber DsNif 7 s \<noteq> None \<and>
    getSubscriber AgnssNif 7 s \<noteq> None \<and>
    getSubscriber DsNif 7 (releaseATL 7 s) \<noteq> None \<and> getSubscriber AgnssNif 7 (releaseATL 7 s) = None"
  by (simp add: s_def agps_eval agps_eval_more deleteSubscriber_def Let_def)

lemma drop_lists:
  "sub_lists (dropAllSubscribers n s) = (sub_lists s)(n := [])"
  "sm_states (dropAllSubscribers n s) = sm_states s" "present (dropAllSubscribers n s) = present s"
  using fold_delete [of "mSubscriberList (nifs s n)" s]
  by (auto simp: dropAllSubscribers_def upd_sm_def same_core_def sub_lists_def sm_states_def fun_eq_iff)

text \<open>
  After a restart of the modem no subscriber is left in any list or in memory, but every machine
  keeps its state: one that was ACQUIRED grants the connection of before the restart to the next
  session that asks.
\<close>

theorem restart_drops_all_keeps_states:
  assumes "agps_ok {} None s"
  shows "subs (handleModemSSR s) = Map.empty \<and> mSubscriberList (nifs (handleModemSSR s) n) = [] \<and>
    mAgpsState (nifs (handleModemSSR s) n) = mAgpsState (nifs s n)"
proof -
  let ?d = "\<lambda>n s. if present s n then dropAllSubscribers n s else s"
  let ?s = "?d DsNif (?d InternetNif (?d AgnssNif s))"
  have absent: "sub_lists s m = []" if "\<not> present s m" for m
    using assms that by (simp add: agps_ok_def states_ok_def)
  have d: "sub_lists ?s m = []" "sm_states ?s = sm_states s" for m
    by (cases m; simp add: drop_lists absent)+
  have t: "sub_lists (handleModemSSR s) = sub_lists ?s" "sm_states (handleModemSSR s) = sm_states ?s"
    by (simp_all add: handleModemSSR_def Let_def agps_ask_def agps_tell_def sub_lists_def sm_states_def)
  have "dom (subs (handleModemSSR s)) = {}"
    using lists_ok_dom [OF agps_ok_lists [OF ok_ssr [OF assms]]] by (simp add: t d)
  then show ?thesis using t d by (simp add: sub_lists_eq sm_states_eq)
qed

lemma restart_drops_all_keeps_states_witness:
  "mSubscriberList (nifs (handleModemSSR demo_releasing) AgnssNif) = []"
proof -
  have "agps_ok {} None demo_releasing" unfolding demo_releasing_def by (rule agps.run_inv [OF agps_init_ok])
  then show ?thesis using restart_drops_all_keeps_states by blast
qed

end
