(* ===== verification/Mm_Channel.thy ===== *)
theory Mm_Channel
  imports Hal_Prelude "HOL-Library.Word"
begin

text \<open>
  The super buffer queue of a camera channel and what its command thread does with it
  (stack/mm-camera-interface/src/mm_camera_channel.c, inc/mm_camera.h): frames of the bundled
  streams are matched by frame number, kept in a queue, handed to the HAL on request, and given
  back to the kernel when they are not needed. Two channels can be synchronised by a table that
  all channels share.

  The queue is a list of nodes, the refinement of the intrusive list by such a list is the
  subject of Camera\_Queue. Arrays of fixed size are lists of the used length. A call that leaves the component is recorded in a
  trace. The flag read\_freed is set where the code follows a link of a node that it has freed,
  bad\_link where what it does next depends on the target of such a link, and undef where it
  reads beyond an array or calls through a null pointer.
\<close>

section \<open>Data\<close>

type_synonym u8 = "8 word"

datatype stream_type =
    CAM_STREAM_TYPE_DEFAULT
  | CAM_STREAM_TYPE_PREVIEW
  | CAM_STREAM_TYPE_POSTVIEW
  | CAM_STREAM_TYPE_SNAPSHOT
  | CAM_STREAM_TYPE_VIDEO
  | CAM_STREAM_TYPE_CALLBACK
  | CAM_STREAM_TYPE_IMPL_DEFINED
  | CAM_STREAM_TYPE_METADATA
  | CAM_STREAM_TYPE_RAW
  | CAM_STREAM_TYPE_OFFLINE_PROC
  | CAM_STREAM_TYPE_PARM
  | CAM_STREAM_TYPE_ANALYSIS

record buf_def =
  buf_addr :: ptr
  buf_stream_id :: int32
  buf_frame_idx :: int32
  buf_stream_type :: stream_type

record buf_info =
  bi_stream_id :: int32
  bi_frame_idx :: int32
  bi_buf :: "buf_def option"

record queue_node =
  super_buf :: "buf_info list"
  matched :: bool
  expected_frame :: bool
  frame_idx :: int32
  unmatched_meta_idx :: int32

datatype notify_mode = NOTIFY_BURST | NOTIFY_CONTINUOUS

datatype sb_priority = PRIORITY_NORMAL | PRIORITY_FOCUS | PRIORITY_EXPOSURE_BRACKETING | PRIORITY_LOW

record channel_attr =
  attr_notify_mode :: notify_mode
  water_mark :: u8
  look_back :: u8
  post_frame_skip :: u8
  max_unmatched_frames :: u8
  enable_frame_sync :: bool
  sb_prio :: sb_priority
  user_expected_frame_id :: u8

record channel_queue =
  que :: "queue_node list"
  que_size :: int32
  bundled_streams :: "int32 list"
  attr :: channel_attr
  expected_frame_id :: int32
  match_cnt :: int32
  expected_frame_id_without_led :: int32
  led_on_start_frame_id :: int32
  led_off_start_frame_id :: int32
  led_on_num_frames :: int32
  led_once :: bool
  q_frame_skip_count :: int32
  good_frame_id :: int32

datatype bracketing = BRACKETING_OFF | BRACKETING_WAIT_GOOD_FRAME_IDX | BRACKETING_ACTIVE

datatype capture_type =
    CAM_CAPTURE_NORMAL | CAM_CAPTURE_FLASH | CAM_CAPTURE_BRACKETING | CAM_CAPTURE_LOW_LIGHT
  | CAM_CAPTURE_RESET | CAM_CAPTURE_MANUAL_3A

record capture_setting =
  num_frames :: int32
  cap_type :: capture_type

text \<open>A stream of the channel, as far as the channel looks: its use, handle, info and owner.\<close>

record chan_stream =
  stream_used :: bool
  stream_hdl :: int32
  stream_info :: "stream_type option"
  server_stream_id :: int32
  owned :: bool
  linked_here :: bool

datatype req_type = REQ_SUPER_BUF | REQ_FRAME_SYNC_BUF

record channel =
  superbuf_queue :: channel_queue
  has_notify_cb :: bool
  pending_cnt :: int32
  pending_retro_cnt :: int32
  ch_req_type :: req_type
  bWaitForPrepSnapshotDone :: bool
  unLockAEC :: bool
  stopZslSnapshot :: bool
  streams :: "chan_stream list"
  manualZSLSnapshot :: bool
  startZSlSnapshotCalled :: bool
  needLEDFlash :: bool
  bracketingState :: bracketing
  isFlashBracketingEnabled :: bool
  isZoom1xFrameRequested :: bool
  burstSnapNum :: int32
  diverted_frame_id :: u8
  isConfigCapture :: bool
  cur_capture_idx :: u8
  capture_frame_id :: "int32 list"
  frameConfig :: "capture_setting list"
  needLowLightZSL :: bool

text \<open>The calls that leave the channel, with the index of the channel.\<close>

datatype mm_call =
    Qbuf nat buf_def
  | Qbuf_linked nat buf_def
  | Start_zsl nat
  | Stop_zsl nat
  | Super_buf nat "buf_def option list" bool bool
  | Post_sync nat

record sync_node =
  sn_frame_idx :: int32
  frame_valid :: "nat \<Rightarrow> bool"
  sn_matched :: bool

abbreviation MAX_NUM_CAMERA_PER_BUNDLE :: nat where "MAX_NUM_CAMERA_PER_BUNDLE \<equiv> 2"
abbreviation MM_CAMERA_FRAME_SYNC_NODES :: nat where "MM_CAMERA_FRAME_SYNC_NODES \<equiv> 4"
definition MAX_CAPTURE_BATCH_NUM :: nat where "MAX_CAPTURE_BATCH_NUM = 32"
definition MM_CAMERA_MAX_FUTURE_FRAME_WAIT :: int32 where "MM_CAMERA_MAX_FUTURE_FRAME_WAIT = 100"

record frame_sync =
  num_cam :: nat
  fs_pos :: nat
  sync_nodes :: "sync_node list"
  fs_ch :: "nat option list"

record mm_sys =
  chs :: "nat \<Rightarrow> channel"
  fs :: frame_sync
  mm_calls :: "mm_call list"
  mem_ok :: "nat \<Rightarrow> bool"
  allocs :: nat
  junk_frame :: "nat \<Rightarrow> int32"
  read_freed :: bool
  bad_link :: bool
  undef :: bool

section \<open>Access\<close>

abbreviation queue_of :: "nat \<Rightarrow> mm_sys \<Rightarrow> channel_queue" where
  "queue_of c s \<equiv> superbuf_queue (chs s c)"

definition upd_ch :: "nat \<Rightarrow> (channel \<Rightarrow> channel) \<Rightarrow> mm_sys \<Rightarrow> mm_sys" where
  "upd_ch c f s = s\<lparr>chs := (chs s)(c := f (chs s c))\<rparr>"

definition upd_q :: "nat \<Rightarrow> (channel_queue \<Rightarrow> channel_queue) \<Rightarrow> mm_sys \<Rightarrow> mm_sys" where
  "upd_q c f = upd_ch c (\<lambda>ch. ch\<lparr>superbuf_queue := f (superbuf_queue ch)\<rparr>)"

definition mm_tell :: "mm_call \<Rightarrow> mm_sys \<Rightarrow> mm_sys" where
  "mm_tell a s = s\<lparr>mm_calls := mm_calls s @ [a]\<rparr>"

definition mm_malloc :: "mm_sys \<Rightarrow> bool \<times> mm_sys" where
  "mm_malloc s = (mem_ok s (allocs s), s\<lparr>allocs := allocs s + 1\<rparr>)"

text \<open>A slot of a node that was cleared.\<close>

definition no_buf :: buf_info where
  "no_buf = \<lparr>bi_stream_id = 0, bi_frame_idx = 0, bi_buf = None\<rparr>"

definition get_stream_by_handler :: "channel \<Rightarrow> int32 \<Rightarrow> chan_stream option" where
  "get_stream_by_handler ch h = find (\<lambda>st. stream_used st \<and> stream_hdl st = h) (streams ch)"

text \<open>A buffer goes back to its stream, or to the stream that its stream is linked to.\<close>

definition mm_channel_qbuf :: "nat \<Rightarrow> buf_def \<Rightarrow> mm_sys \<Rightarrow> mm_sys" where
  "mm_channel_qbuf c b s = (case get_stream_by_handler (chs s c) (buf_stream_id b) of
      None \<Rightarrow> s
    | Some st \<Rightarrow> mm_tell (if owned st then Qbuf c b else Qbuf_linked c b) s)"

definition qbuf_opt :: "nat \<Rightarrow> buf_def option \<Rightarrow> mm_sys \<Rightarrow> mm_sys" where
  "qbuf_opt c b s = (case b of None \<Rightarrow> s\<lparr>undef := True\<rparr> | Some x \<Rightarrow> mm_channel_qbuf c x s)"

text \<open>All buffers of a node that satisfy a condition, in the order of the slots.\<close>

definition qbuf_slots :: "nat \<Rightarrow> (buf_info \<Rightarrow> bool) \<Rightarrow> queue_node \<Rightarrow> mm_sys \<Rightarrow> mm_sys" where
  "qbuf_slots c P n = fold (\<lambda>b. qbuf_opt c (bi_buf b)) (filter P (super_buf n))"

definition node_qbuf :: "nat \<Rightarrow> queue_node \<Rightarrow> mm_sys \<Rightarrow> mm_sys" where
  "node_qbuf c = qbuf_slots c (\<lambda>_. True)"

section \<open>The synchronisation of channels\<close>

definition clear_node :: sync_node where
  "clear_node = \<lparr>sn_frame_idx = 0, frame_valid = (\<lambda>_. False), sn_matched = False\<rparr>"

definition mm_frame_sync_reset :: frame_sync where
  "mm_frame_sync_reset = \<lparr>num_cam = 0, fs_pos = 0,
     sync_nodes = replicate MM_CAMERA_FRAME_SYNC_NODES clear_node,
     fs_ch = replicate MAX_NUM_CAMERA_PER_BUNDLE None\<rparr>"

text \<open>The first index of a list at which a test holds, as the loops over arrays find it.\<close>

fun index_of :: "('a \<Rightarrow> bool) \<Rightarrow> 'a list \<Rightarrow> nat option" where
  "index_of P [] = None"
| "index_of P (x # xs) = (if P x then Some 0 else map_option Suc (index_of P xs))"

definition mm_frame_sync_register_channel :: "nat \<Rightarrow> frame_sync \<Rightarrow> bool \<times> frame_sync" where
  "mm_frame_sync_register_channel c f =
     (if MAX_NUM_CAMERA_PER_BUNDLE \<le> num_cam f then (False, f)
      else let f1 = (if num_cam f = 0 then mm_frame_sync_reset else f)
           in case index_of (\<lambda>x. x = None) (fs_ch f1) of
                None \<Rightarrow> (False, f1)
              | Some i \<Rightarrow> (True, f1\<lparr>fs_ch := (fs_ch f1)[i := Some c], num_cam := num_cam f1 + 1\<rparr>))"

definition mm_frame_sync_unregister_channel :: "nat \<Rightarrow> frame_sync \<Rightarrow> bool \<times> frame_sync" where
  "mm_frame_sync_unregister_channel c f =
     (if num_cam f = 0 then (False, f)
      else let f1 = (case index_of (\<lambda>x. x = Some c) (fs_ch f) of
               None \<Rightarrow> f
             | Some i \<Rightarrow> f\<lparr>fs_ch := (fs_ch f)[i := None], num_cam := num_cam f - 1\<rparr>)
           in (True, if num_cam f1 = 0 then mm_frame_sync_reset else f1))"

definition mm_frame_sync_find_frame_index :: "int32 \<Rightarrow> frame_sync \<Rightarrow> nat option" where
  "mm_frame_sync_find_frame_index frame f = index_of (\<lambda>n. sn_frame_idx n = frame) (sync_nodes f)"

text \<open>Whether a frame that has come from some of the cameras has now come from all.\<close>

definition sync_match :: "nat \<Rightarrow> frame_sync \<Rightarrow> frame_sync" where
  "sync_match i f = (let n = sync_nodes f ! i in
     if sn_matched n then f
     else if length (filter (frame_valid n) [0..<MAX_NUM_CAMERA_PER_BUNDLE]) = num_cam f
     then f\<lparr>sync_nodes := (sync_nodes f)[i := n\<lparr>sn_matched := True\<rparr>]\<rparr>
     else f)"

definition mm_frame_sync_add :: "int32 \<Rightarrow> nat \<Rightarrow> frame_sync \<Rightarrow> frame_sync" where
  "mm_frame_sync_add frame c f =
     (if frame = 0 then f
      else case index_of (\<lambda>x. x = Some c) (fs_ch f) of
        None \<Rightarrow> f
      | Some ch \<Rightarrow>
          (case mm_frame_sync_find_frame_index frame f of
             Some i \<Rightarrow>
               (let n = sync_nodes f ! i in
                sync_match i (f\<lparr>sync_nodes := (sync_nodes f)
                  [i := n\<lparr>frame_valid := (frame_valid n)(ch := True)\<rparr>]\<rparr>))
           | None \<Rightarrow>
               (let i = (if MM_CAMERA_FRAME_SYNC_NODES \<le> fs_pos f then 0 else fs_pos f);
                    n = clear_node\<lparr>sn_frame_idx := frame, frame_valid := (\<lambda>x. x = ch),
                          sn_matched := (num_cam f = 1)\<rparr>
                in sync_match i (f\<lparr>sync_nodes := (sync_nodes f)[i := n], fs_pos := i + 1\<rparr>))))"

definition mm_frame_sync_remove :: "int32 \<Rightarrow> frame_sync \<Rightarrow> frame_sync" where
  "mm_frame_sync_remove frame f =
     (if frame = 0 then f
      else case mm_frame_sync_find_frame_index frame f of
        None \<Rightarrow> f
      | Some i \<Rightarrow> f\<lparr>sync_nodes := (sync_nodes f)[i := clear_node]\<rparr>)"

fun find_matched_loop :: "bool \<Rightarrow> sync_node list \<Rightarrow> int32 \<Rightarrow> int32" where
  "find_matched_loop oldest [] frame = frame"
| "find_matched_loop oldest (n # ns) frame =
     (if sn_matched n
      then let frame1 = (if frame = 0 then sn_frame_idx n else frame) in
           if \<not> oldest then frame1
           else find_matched_loop oldest ns (if sn_frame_idx n < frame1 then sn_frame_idx n else frame1)
      else find_matched_loop oldest ns frame)"

definition mm_frame_sync_find_matched :: "bool \<Rightarrow> frame_sync \<Rightarrow> int32" where
  "mm_frame_sync_find_matched oldest f = find_matched_loop oldest (sync_nodes f) 0"

definition sync_add :: "int32 \<Rightarrow> nat \<Rightarrow> mm_sys \<Rightarrow> mm_sys" where
  "sync_add frame c s = (if enable_frame_sync (attr (queue_of c s))
     then s\<lparr>fs := mm_frame_sync_add frame c (fs s)\<rparr> else s)"

definition sync_remove :: "int32 \<Rightarrow> nat \<Rightarrow> mm_sys \<Rightarrow> mm_sys" where
  "sync_remove frame c s = (if enable_frame_sync (attr (queue_of c s))
     then s\<lparr>fs := mm_frame_sync_remove frame (fs s)\<rparr> else s)"

section \<open>Taking nodes out\<close>

definition superbuf_dequeue_internal :: "bool \<Rightarrow> nat \<Rightarrow> mm_sys \<Rightarrow> queue_node option \<times> mm_sys" where
  "superbuf_dequeue_internal matched_only c s = (case que (queue_of c s) of
      [] \<Rightarrow> (None, s)
    | n # ns \<Rightarrow>
        (if matched_only \<and> \<not> matched n then (None, s)
         else let s1 = upd_q c (\<lambda>q. q\<lparr>que := ns, que_size := que_size q - 1\<rparr>) s
              in (Some n, if matched n
                    then sync_remove (frame_idx n) c (upd_q c (\<lambda>q. q\<lparr>match_cnt := match_cnt q - 1\<rparr>) s1)
                    else s1)))"

definition superbuf_dequeue_frame_internal :: "int32 \<Rightarrow> nat \<Rightarrow> mm_sys \<Rightarrow> queue_node option \<times> mm_sys" where
  "superbuf_dequeue_frame_internal frame c s =
     (case index_of (\<lambda>n. matched n \<and> frame_idx n = frame) (que (queue_of c s)) of
        None \<Rightarrow> (None, s)
      | Some i \<Rightarrow> (Some (que (queue_of c s) ! i),
          upd_q c (\<lambda>q. q\<lparr>que := take i (que q) @ drop (Suc i) (que q), que_size := que_size q - 1,
                       match_cnt := match_cnt q - 1\<rparr>) s))"

definition superbuf_dequeue :: "nat \<Rightarrow> mm_sys \<Rightarrow> queue_node option \<times> mm_sys" where
  "superbuf_dequeue c s = superbuf_dequeue_internal True c s"

definition has_buf :: "buf_info \<Rightarrow> bool" where
  "has_buf b \<longleftrightarrow> bi_buf b \<noteq> None"

text \<open>
  Nodes are dropped while more are counted as matched than allowed. A dequeue that finds none does
  not change the count: then the loop does not end.
\<close>

partial_function (option) drop_loop :: "nat \<Rightarrow> int32 \<Rightarrow> mm_sys \<Rightarrow> mm_sys option" where
  "drop_loop c limit s =
     (if limit < match_cnt (queue_of c s)
      then case superbuf_dequeue_internal True c s of
             (None, s1) \<Rightarrow> drop_loop c limit s1
           | (Some n, s1) \<Rightarrow> drop_loop c limit (qbuf_slots c has_buf n s1)
      else Some s)"

declare drop_loop.simps [code]

definition superbuf_bufdone_overflow :: "nat \<Rightarrow> mm_sys \<Rightarrow> mm_sys option" where
  "superbuf_bufdone_overflow c s = (let a = attr (queue_of c s) in
     if attr_notify_mode a = NOTIFY_CONTINUOUS then Some s
     else drop_loop c (ucast (water_mark a)) s)"

definition superbuf_skip :: "nat \<Rightarrow> mm_sys \<Rightarrow> mm_sys option" where
  "superbuf_skip c s = (let a = attr (queue_of c s) in
     if attr_notify_mode a = NOTIFY_CONTINUOUS then Some s
     else drop_loop c (ucast (look_back a)) s)"

text \<open>
  Both flushes dequeue until nothing comes: everything or everything that is matched. A flush of
  one type of stream gives back only the buffers of that type.
\<close>

definition flushed :: "stream_type \<Rightarrow> buf_info \<Rightarrow> bool" where
  "flushed t b = (case bi_buf b of
      None \<Rightarrow> False
    | Some d \<Rightarrow> t = CAM_STREAM_TYPE_DEFAULT \<or> t = buf_stream_type d)"

lemma qbuf_slots_keeps [simp]: "chs (qbuf_slots c P n s) = chs s"
proof -
  have "chs (fold (\<lambda>b. qbuf_opt c (bi_buf b)) bs s) = chs s" for bs
    by (induction bs arbitrary: s)
      (auto simp: qbuf_opt_def mm_channel_qbuf_def mm_tell_def split: option.split)
  then show ?thesis by (simp add: qbuf_slots_def)
qed

lemma sync_keeps [simp]: "chs (sync_remove fr c s) = chs s" "chs (sync_add fr c s) = chs s"
  by (simp_all add: sync_remove_def sync_add_def)

lemma upd_q_same [simp]: "queue_of c (upd_q c f s) = f (queue_of c s)"
  by (simp add: upd_q_def upd_ch_def)

lemma dequeue_que:
  "superbuf_dequeue_internal m c s = (Some n, t) \<Longrightarrow> que (queue_of c s) = n # que (queue_of c t)"
  by (auto simp: superbuf_dequeue_internal_def Let_def split: list.splits if_splits)

function superbuf_flush_loop :: "bool \<Rightarrow> (buf_info \<Rightarrow> bool) \<Rightarrow> nat \<Rightarrow> mm_sys \<Rightarrow> mm_sys" where
  "superbuf_flush_loop matched_only P c s = (case superbuf_dequeue_internal matched_only c s of
      (None, s1) \<Rightarrow> s1
    | (Some n, s1) \<Rightarrow> superbuf_flush_loop matched_only P c (qbuf_slots c P n s1))"
  by pat_completeness auto

termination
proof (relation "measure (\<lambda>(m, P, c, s). length (que (queue_of c s)))", goal_cases)
  case 1
  then show ?case by simp
next
  case (2 m P c s x t n)
  then have "superbuf_dequeue_internal m c s = (Some n, t)" by simp
  from dequeue_que [OF this] show ?case by simp
qed

declare superbuf_flush_loop.simps [simp del]

definition superbuf_flush :: "nat \<Rightarrow> stream_type \<Rightarrow> mm_sys \<Rightarrow> mm_sys" where
  "superbuf_flush c t = superbuf_flush_loop False (flushed t) c"

definition superbuf_flush_matched :: "nat \<Rightarrow> mm_sys \<Rightarrow> mm_sys" where
  "superbuf_flush_matched c = superbuf_flush_loop True has_buf c"

end
