(* ===== verification/Mm_Match.thy ===== *)
theory Mm_Match
  imports Mm_Channel
begin

text \<open>
  The matching of an incoming buffer (mm\_channel\_superbuf\_comp\_and\_enqueue) and what the metadata
  of a frame changes before it (mm\_channel\_handle\_metadata). A metadata buffer comes with its
  content, in which every entry may be absent.
\<close>

section \<open>Metadata\<close>

record frame_range =
  min_frame_idx :: int32
  max_frame_idx :: int32
  num_led_on_frames :: int32
  range_skip_count :: int32
  config_batch_idx :: int32

record metadata =
  md_prep_snapshot_done :: "bool option"
  md_good_frame_idx_range :: "frame_range option"
  md_crop_data :: "(int32 \<times> int32 \<times> int32) list option"
  md_divert_frame_id :: "int32 option"
  md_low_light :: "bool option"
  md_aec_settled :: "bool option"

definition md_divert :: "nat \<Rightarrow> buf_info \<Rightarrow> metadata \<Rightarrow> mm_sys \<Rightarrow> mm_sys" where
  "md_divert c b md s = (case md_divert_frame_id md of
      None \<Rightarrow> s
    | Some f \<Rightarrow> upd_ch c (\<lambda>ch. ch\<lparr>diverted_frame_id := (if bi_frame_idx b \<le> f then ucast f else 0)\<rparr>) s)"

text \<open>The first used stream of type snapshot; a used stream without info is a null pointer.\<close>

fun snapshot_stream_id :: "chan_stream list \<Rightarrow> int32 \<times> bool" where
  "snapshot_stream_id [] = (0, False)"
| "snapshot_stream_id (st # sts) =
     (if \<not> stream_used st then snapshot_stream_id sts
      else case stream_info st of
        None \<Rightarrow> (0, True)
      | Some t \<Rightarrow> if t = CAM_STREAM_TYPE_SNAPSHOT then (server_stream_id st, False)
                 else snapshot_stream_id sts)"

definition md_crop_1x :: "nat \<Rightarrow> metadata \<Rightarrow> mm_sys \<Rightarrow> bool \<times> mm_sys" where
  "md_crop_1x c md s = (case md_crop_data md of
      None \<Rightarrow> (False, s)
    | Some infos \<Rightarrow> (let (sid, crash) = snapshot_stream_id (streams (chs s c)) in
        (list_ex (\<lambda>(i, left, top). i = sid \<and> left = 0 \<and> top = 0) infos,
         if crash then s\<lparr>undef := True\<rparr> else s)))"

definition md_zoom :: "nat \<Rightarrow> buf_info \<Rightarrow> bool \<Rightarrow> mm_sys \<Rightarrow> mm_sys" where
  "md_zoom c b crop_1x s =
     (if crop_1x
      then upd_q c (\<lambda>q. q\<lparr>expected_frame_id := bi_frame_idx b + 1\<rparr>)
             (upd_ch c (\<lambda>ch. ch\<lparr>isZoom1xFrameRequested := False\<rparr>) s)
      else superbuf_flush_matched c
             (upd_q c (\<lambda>q. q\<lparr>expected_frame_id := expected_frame_id q + MM_CAMERA_MAX_FUTURE_FRAME_WAIT\<rparr>) s))"

definition md_prep :: "nat \<Rightarrow> metadata \<Rightarrow> mm_sys \<Rightarrow> mm_sys" where
  "md_prep c md s = (case md_prep_snapshot_done md of
      None \<Rightarrow> s
    | Some need_future \<Rightarrow>
        (let s1 = upd_ch c (\<lambda>ch. ch\<lparr>bWaitForPrepSnapshotDone := False\<rparr>) s in
         if need_future
         then upd_ch c (\<lambda>ch. ch\<lparr>needLEDFlash := True\<rparr>)
                (superbuf_flush c CAM_STREAM_TYPE_DEFAULT
                  (upd_q c (\<lambda>q. q\<lparr>expected_frame_id :=
                     expected_frame_id q + MM_CAMERA_MAX_FUTURE_FRAME_WAIT\<rparr>) s1))
         else upd_ch c (\<lambda>ch. ch\<lparr>needLEDFlash := False\<rparr>) s1))"

definition set_good :: "int32 \<Rightarrow> channel_queue \<Rightarrow> channel_queue" where
  "set_good f q = q\<lparr>expected_frame_id := f, good_frame_id := f\<rparr>"

definition md_range :: "nat \<Rightarrow> metadata \<Rightarrow> mm_sys \<Rightarrow> mm_sys" where
  "md_range c md s = (let ch = chs s c in case md_good_frame_idx_range md of
      Some r \<Rightarrow>
        (let s1 = upd_q c (set_good (min_frame_idx r)) s in
         if needLEDFlash ch \<and> 1 < burstSnapNum ch
         then upd_q c (\<lambda>q. q\<lparr>led_on_start_frame_id := min_frame_idx r,
                led_off_start_frame_id := max_frame_idx r, led_once := False,
                led_on_num_frames := num_led_on_frames r, q_frame_skip_count := range_skip_count r\<rparr>) s1
         else s1)
    | None \<Rightarrow>
        (if bracketingState ch = BRACKETING_WAIT_GOOD_FRAME_IDX \<and> md_prep_snapshot_done md = None
         then upd_q c (\<lambda>q. q\<lparr>expected_frame_id := expected_frame_id q + MM_CAMERA_MAX_FUTURE_FRAME_WAIT\<rparr>)
                (superbuf_flush_matched c s)
         else s))"

definition md_bracketing :: "nat \<Rightarrow> metadata \<Rightarrow> mm_sys \<Rightarrow> mm_sys" where
  "md_bracketing c md s = (case md_good_frame_idx_range md of
      None \<Rightarrow> s
    | Some r \<Rightarrow>
        (if isFlashBracketingEnabled (chs s c)
         then upd_q c (\<lambda>q. (set_good (min_frame_idx r) q)\<lparr>expected_frame_id_without_led := max_frame_idx r\<rparr>) s
         else upd_q c (set_good (min_frame_idx r))
                (upd_ch c (\<lambda>ch. ch\<lparr>bracketingState := BRACKETING_ACTIVE\<rparr>) s)))"

text \<open>The frame of a capture batch; beyond the array the code reads what follows it.\<close>

definition capture_at :: "nat \<Rightarrow> nat \<Rightarrow> mm_sys \<Rightarrow> int32 \<times> mm_sys" where
  "capture_at c i s = (if i < MAX_CAPTURE_BATCH_NUM then (capture_frame_id (chs s c) ! i, s)
     else (junk_frame s i, s\<lparr>undef := True\<rparr>))"

definition md_config :: "nat \<Rightarrow> metadata \<Rightarrow> mm_sys \<Rightarrow> mm_sys" where
  "md_config c md s = (let ch = chs s c in case md_good_frame_idx_range md of
      None \<Rightarrow> s
    | Some r \<Rightarrow>
        (if isConfigCapture ch \<and> unat (config_batch_idx r) < length (frameConfig ch)
         then let s1 = upd_ch c (\<lambda>ch. ch\<lparr>capture_frame_id :=
                    (capture_frame_id ch)[unat (config_batch_idx r) := min_frame_idx r]\<rparr>) s;
                  (f, s2) = (if unat (cur_capture_idx ch) = unat (config_batch_idx r)
                    then (min_frame_idx r, s1) else capture_at c (unat (cur_capture_idx ch)) s1)
              in upd_q c (set_good f) s2
         else s))"

definition md_led_off :: "nat \<Rightarrow> buf_info \<Rightarrow> mm_sys \<Rightarrow> mm_sys" where
  "md_led_off c b s = (let ch = chs s c; q = superbuf_queue ch in
     if 1 < burstSnapNum ch \<and> needLEDFlash ch \<and> \<not> isFlashBracketingEnabled ch \<and>
        bracketingState ch = BRACKETING_OFF \<and> \<not> isConfigCapture ch \<and>
        led_off_start_frame_id q \<le> bi_frame_idx b \<and> \<not> led_once q
     then upd_ch c (\<lambda>ch. ch\<lparr>stopZslSnapshot := True, needLEDFlash := False\<rparr>)
            (upd_q c (\<lambda>q. q\<lparr>expected_frame_id := led_off_start_frame_id q + q_frame_skip_count q,
                           led_once := True\<rparr>) s)
     else s)"

definition md_low_light_step :: "nat \<Rightarrow> metadata \<Rightarrow> mm_sys \<Rightarrow> mm_sys" where
  "md_low_light_step c md s = (case md_low_light md of
      None \<Rightarrow> s
    | Some l \<Rightarrow> upd_ch c (\<lambda>ch. ch\<lparr>needLowLightZSL := l\<rparr>) s)"

definition clear_user_expected :: "channel_queue \<Rightarrow> channel_queue" where
  "clear_user_expected q = q\<lparr>attr := (attr q)\<lparr>user_expected_frame_id := 0\<rparr>\<rparr>"

definition md_user_expected :: "nat \<Rightarrow> buf_info \<Rightarrow> metadata \<Rightarrow> mm_sys \<Rightarrow> mm_sys" where
  "md_user_expected c b md s = (let user = user_expected_frame_id (attr (queue_of c s)) in
     if 0 < user
     then if bi_frame_idx b < ucast user
          then if md_aec_settled md = Some True
               then upd_q c (\<lambda>q. clear_user_expected (q\<lparr>expected_frame_id := bi_frame_idx b\<rparr>)) s
               else s
          else upd_q c clear_user_expected s
     else s)"

text \<open>True stands for success. A buffer that is not metadata of this channel changes nothing.\<close>

definition mm_channel_handle_metadata :: "nat \<Rightarrow> buf_info \<Rightarrow> metadata option \<Rightarrow> mm_sys \<Rightarrow> bool \<times> mm_sys" where
  "mm_channel_handle_metadata c b mdo s =
     (case get_stream_by_handler (chs s c) (bi_stream_id b) of
        None \<Rightarrow> (False, s)
      | Some st \<Rightarrow>
          (case stream_info st of
             None \<Rightarrow> (False, s)
           | Some t \<Rightarrow>
               (if t = CAM_STREAM_TYPE_METADATA \<and> (owned st \<or> linked_here st)
                then case mdo of
                  None \<Rightarrow> (False, s)
                | Some md \<Rightarrow>
                    (let (crop_1x, s1) = md_crop_1x c md s;
                         s2 = md_divert c b md s1 in
                     (True,
                      if isZoom1xFrameRequested (chs s2 c) then md_zoom c b crop_1x s2
                      else md_user_expected c b md (md_low_light_step c md (md_led_off c b
                        (md_config c md (md_bracketing c md (md_range c md (md_prep c md s2))))))))
                else (True, s))))"

section \<open>Matching\<close>

definition seq_comp_w_rollover :: "int32 \<Rightarrow> int32 \<Rightarrow> int" where
  "seq_comp_w_rollover v1 v2 = (if v2 < v1 then 1 else if v1 < v2 then - 1 else 0)"

definition validate_super_buf :: "nat \<Rightarrow> buf_info \<Rightarrow> mm_sys \<Rightarrow> int" where
  "validate_super_buf c b s =
     (if list_ex (\<lambda>n. expected_frame n \<and> bi_frame_idx b = frame_idx n) (que (queue_of c s)) then 1 else 0)"

definition type_of_buf :: "buf_info \<Rightarrow> stream_type" where
  "type_of_buf b = (case bi_buf b of Some d \<Rightarrow> buf_stream_type d | None \<Rightarrow> CAM_STREAM_TYPE_DEFAULT)"

definition joins :: "sb_priority \<Rightarrow> nat \<Rightarrow> buf_info \<Rightarrow> queue_node \<Rightarrow> bool" where
  "joins prio i b n \<longleftrightarrow> bi_frame_idx b = frame_idx n \<or>
     prio = PRIORITY_LOW \<and> bi_frame_idx (super_buf n ! i) = 0 \<and>
       type_of_buf b = CAM_STREAM_TYPE_METADATA \<and> frame_idx n < bi_frame_idx b \<or>
     prio = PRIORITY_LOW \<and> type_of_buf b \<noteq> CAM_STREAM_TYPE_METADATA \<and>
       bi_frame_idx (super_buf n ! i) = 0 \<and> bi_frame_idx b < unmatched_meta_idx n"

text \<open>What the search finds: positions, and how many unmatched nodes it passed.\<close>

record scan =
  scan_found :: "nat option"
  scan_unmatched :: u8
  scan_last :: "nat option"
  scan_before :: "nat option"

definition or_else :: "'a option \<Rightarrow> 'a option \<Rightarrow> 'a option" where
  "or_else a b = (case a of None \<Rightarrow> b | Some x \<Rightarrow> Some x)"

fun scan_queue :: "sb_priority \<Rightarrow> nat \<Rightarrow> buf_info \<Rightarrow> nat \<Rightarrow> queue_node list \<Rightarrow> scan \<Rightarrow> scan" where
  "scan_queue prio i b pos [] r = r"
| "scan_queue prio i b pos (n # ns) r =
     (if matched n then scan_queue prio i b (pos + 1) ns r
      else if joins prio i b n then r\<lparr>scan_found := Some pos\<rparr>
      else scan_queue prio i b (pos + 1) ns
        (r\<lparr>scan_unmatched := scan_unmatched r + 1,
           scan_last := or_else (scan_last r) (if frame_idx n < bi_frame_idx b then Some pos else None),
           scan_before := or_else (scan_before r) (if bi_frame_idx b < frame_idx n then Some pos else None)\<rparr>))"

definition is_filled :: "buf_info \<Rightarrow> bool" where
  "is_filled b \<longleftrightarrow> bi_frame_idx b \<noteq> 0"

text \<open>Release of the nodes from one position up to another.\<close>

definition release_nodes :: "nat \<Rightarrow> nat \<Rightarrow> nat \<Rightarrow> mm_sys \<Rightarrow> mm_sys" where
  "release_nodes c from till s = (let q = que (queue_of c s); gone = take (till - from) (drop from q) in
     upd_q c (\<lambda>q. q\<lparr>que := take from (que q) @ drop (max from till) (que q),
                    que_size := que_size q - of_nat (length gone)\<rparr>)
       (fold (qbuf_slots c is_filled) gone s))"

definition set_node :: "nat \<Rightarrow> nat \<Rightarrow> queue_node \<Rightarrow> mm_sys \<Rightarrow> mm_sys" where
  "set_node c pos n = upd_q c (\<lambda>q. q\<lparr>que := (que q)[pos := n]\<rparr>)"

text \<open>The buffer completes the node at the position.\<close>

definition node_matched :: "nat \<Rightarrow> buf_info \<Rightarrow> nat \<Rightarrow> nat option \<Rightarrow> queue_node \<Rightarrow> mm_sys \<Rightarrow> mm_sys" where
  "node_matched c b pos older n s =
     (let ch = chs s c; q = superbuf_queue ch;
          s1 = (if isFlashBracketingEnabled ch
            then upd_ch c (\<lambda>ch. ch\<lparr>isFlashBracketingEnabled :=
                     bi_frame_idx b < expected_frame_id_without_led q\<rparr>)
                   (upd_q c (\<lambda>q. q\<lparr>expected_frame_id := expected_frame_id_without_led q\<rparr>) s)
            else upd_q c (\<lambda>q. q\<lparr>expected_frame_id :=
                     bi_frame_idx b + ucast (post_frame_skip (attr q))\<rparr>) s);
          s2 = set_node c pos (n\<lparr>matched := True, expected_frame := False\<rparr>) s1;
          s3 = sync_add (bi_frame_idx b) c (upd_q c (\<lambda>q. q\<lparr>match_cnt := match_cnt q + 1\<rparr>) s2)
      in case older of None \<Rightarrow> s3 | Some l \<Rightarrow> release_nodes c l pos s3)"

definition fill_found :: "nat \<Rightarrow> buf_info \<Rightarrow> nat \<Rightarrow> nat \<Rightarrow> nat option \<Rightarrow> mm_sys \<Rightarrow> mm_sys" where
  "fill_found c b i pos older s =
     (let n0 = que (queue_of c s) ! pos;
          n1 = (if 0 < unmatched_meta_idx n0
                then n0\<lparr>unmatched_meta_idx := 0, frame_idx := bi_frame_idx b\<rparr> else n0)
      in if is_filled (super_buf n1 ! i)
         then qbuf_opt c (bi_buf b) (set_node c pos n1 s)
         else let n2 = n1\<lparr>super_buf := (super_buf n1)[i := b]\<rparr> in
              if list_all is_filled (super_buf n2) then node_matched c b pos older n2 s
              else if ucast (diverted_frame_id (chs s c)) = bi_frame_idx b
              then upd_ch c (\<lambda>ch. ch\<lparr>diverted_frame_id := 0\<rparr>)
                     (set_node c pos (n2\<lparr>expected_frame := True\<rparr>) s)
              else set_node c pos n2 s)"

text \<open>
  Too many unmatched nodes: from the position on, the first one that is neither expected nor the
  one to insert before is dropped. The loop then follows the link of the freed node, whose target does not
  matter if that was enough.
\<close>

fun find_droppable :: "nat option \<Rightarrow> nat \<Rightarrow> queue_node list \<Rightarrow> nat option" where
  "find_droppable place pos [] = None"
| "find_droppable place pos (n # ns) =
     (if \<not> expected_frame n \<and> place \<noteq> Some pos then Some pos
      else find_droppable place (pos + 1) ns)"

definition drop_unmatched :: "nat \<Rightarrow> scan \<Rightarrow> nat \<Rightarrow> mm_sys \<Rightarrow> nat \<times> mm_sys" where
  "drop_unmatched c r l s =
     (case find_droppable (scan_before r) l (drop l (que (queue_of c s))) of
        Some p \<Rightarrow> (p, release_nodes c p (p + 1) (s\<lparr>read_freed := True,
           bad_link := bad_link s \<or> max_unmatched_frames (attr (queue_of c s)) < scan_unmatched r - 1\<rparr>))
      | None \<Rightarrow> (l, release_nodes c l (l + 1) s))"

definition insert_at :: "nat option \<Rightarrow> 'a \<Rightarrow> 'a list \<Rightarrow> 'a list" where
  "insert_at place n ns = (case place of None \<Rightarrow> ns @ [n] | Some p \<Rightarrow> take p ns @ n # drop p ns)"

definition insert_new :: "nat \<Rightarrow> buf_info \<Rightarrow> nat \<Rightarrow> nat option \<Rightarrow> mm_sys \<Rightarrow> mm_sys" where
  "insert_new c b i place s =
     (let (ok1, s1) = mm_malloc s; (ok2, s2) = mm_malloc s1 in
      if ok1 \<and> ok2
      then let q = queue_of c s2; ch = chs s2 c; one = (length (bundled_streams q) = 1);
               good = (ucast (diverted_frame_id ch) = bi_frame_idx b \<or> bi_frame_idx b = good_frame_id q);
               n = \<lparr>super_buf = (replicate (length (bundled_streams q)) no_buf)[i := b],
                    matched = one, expected_frame = (good \<and> \<not> one), frame_idx = bi_frame_idx b,
                    unmatched_meta_idx =
                      (if sb_prio (attr q) = PRIORITY_LOW \<and> type_of_buf b = CAM_STREAM_TYPE_METADATA
                       then bi_frame_idx b else 0)\<rparr>;
               s3 = (if good then upd_ch c (\<lambda>ch. ch\<lparr>diverted_frame_id := 0\<rparr>) s2 else s2);
               s4 = upd_q c (\<lambda>q. q\<lparr>que := insert_at place n (que q), que_size := que_size q + 1\<rparr>) s3
           in if one
              then sync_add (bi_frame_idx b) c (upd_q c (\<lambda>q. q\<lparr>match_cnt := match_cnt q + 1,
                     expected_frame_id := bi_frame_idx b + ucast (post_frame_skip (attr q))\<rparr>) s4)
              else s4
      else qbuf_opt c (bi_buf b) s2)"

text \<open>The position to insert before, when the node at another position has been dropped.\<close>

definition after_drop :: "nat \<Rightarrow> nat option \<Rightarrow> nat option" where
  "after_drop p place = map_option (\<lambda>x. if p < x then x - 1 else x) place"

definition enqueue_unmatched :: "nat \<Rightarrow> buf_info \<Rightarrow> nat \<Rightarrow> scan \<Rightarrow> mm_sys \<Rightarrow> mm_sys" where
  "enqueue_unmatched c b i r s =
     (if max_unmatched_frames (attr (queue_of c s)) < scan_unmatched r
      then case scan_last r of
             None \<Rightarrow> qbuf_opt c (bi_buf b) s
           | Some l \<Rightarrow>
               (let (p, s1) = drop_unmatched c r l s
                in insert_new c b i (after_drop p (scan_before r)) s1)
      else insert_new c b i (scan_before r) s)"

definition superbuf_comp_and_enqueue :: "nat \<Rightarrow> buf_info \<Rightarrow> metadata option \<Rightarrow> mm_sys \<Rightarrow> bool \<times> mm_sys" where
  "superbuf_comp_and_enqueue c b md s =
     (case index_of (\<lambda>h. bi_stream_id b = h) (bundled_streams (queue_of c s)) of
        None \<Rightarrow> (False, s)
      | Some i \<Rightarrow>
          (if bi_frame_idx b = 0 then (True, qbuf_opt c (bi_buf b) s)
           else let (ok, s1) = mm_channel_handle_metadata c b md s in
             if \<not> ok then (False, qbuf_opt c (bi_buf b) s1)
             else if seq_comp_w_rollover (bi_frame_idx b) (expected_frame_id (queue_of c s1)) < 0 \<and>
                     validate_super_buf c b s1 \<le> 0
             then (True, qbuf_opt c (bi_buf b) s1)
             else let q = queue_of c s1;
                      r = scan_queue (sb_prio (attr q)) i b 0 (que q)
                        \<lparr>scan_found = None, scan_unmatched = 0, scan_last = None, scan_before = None\<rparr>
                  in (True, case scan_found r of
                       Some pos \<Rightarrow> fill_found c b i pos (scan_last r) s1
                     | None \<Rightarrow> enqueue_unmatched c b i r s1)))"

end
