(* ===== verification/Mm_Dispatch.thy ===== *)
theory Mm_Dispatch
  imports Mm_Match
begin

text \<open>
  The command thread of a channel (mm\_channel\_process\_stream\_buf): one command changes the queue or
  the capture state, zero shutter lag snapshots are started and stopped, and super buffers are
  sent while they are wanted and there are any.
\<close>

section \<open>Commands\<close>

datatype generic_cmd =
    GENERIC_BRACKETING bool
  | GENERIC_FLASH_BRACKETING bool
  | GENERIC_ZOOM_1X bool
  | GENERIC_CAPTURE_SETTING bool "capture_setting list"

datatype mm_cmd =
    CMD_DATA_CB buf_info "metadata option"
  | CMD_REQ_DATA_CB req_type int32 int32
  | CMD_START_ZSL
  | CMD_STOP_ZSL
  | CMD_CONFIG_NOTIFY notify_mode
  | CMD_FLUSH_QUEUE int32 stream_type
  | CMD_GENERAL generic_cmd

definition proc_request :: "nat \<Rightarrow> req_type \<Rightarrow> int32 \<Rightarrow> int32 \<Rightarrow> mm_sys \<Rightarrow> mm_sys option" where
  "proc_request c t num num_retro s =
     (let retro = (if num = 0 \<or> num < num_retro then num else num_retro) in
      superbuf_skip c (upd_ch c (\<lambda>ch. ch\<lparr>pending_cnt := num, pending_retro_cnt := retro,
        ch_req_type := t, bWaitForPrepSnapshotDone := False,
        needLEDFlash := (if 0 < retro then False else needLEDFlash ch),
        stopZslSnapshot := False, unLockAEC := False\<rparr>) s))"

text \<open>
  The array of frame numbers is cleared by a length in bytes of as many bytes as it has entries,
  that is, the first quarter of it.
\<close>

definition proc_general :: "nat \<Rightarrow> generic_cmd \<Rightarrow> mm_sys \<Rightarrow> mm_sys" where
  "proc_general c g s = (case g of
      GENERIC_BRACKETING start \<Rightarrow>
        upd_ch c (\<lambda>ch. ch\<lparr>bracketingState :=
            (if start then BRACKETING_WAIT_GOOD_FRAME_IDX else BRACKETING_OFF)\<rparr>)
          (superbuf_flush c CAM_STREAM_TYPE_DEFAULT s)
    | GENERIC_FLASH_BRACKETING start \<Rightarrow>
        upd_ch c (\<lambda>ch. ch\<lparr>isFlashBracketingEnabled := start\<rparr>)
          (superbuf_flush c CAM_STREAM_TYPE_DEFAULT s)
    | GENERIC_ZOOM_1X start \<Rightarrow>
        upd_ch c (\<lambda>ch. ch\<lparr>isZoom1xFrameRequested := start\<rparr>)
          (superbuf_flush c CAM_STREAM_TYPE_DEFAULT s)
    | GENERIC_CAPTURE_SETTING start configs \<Rightarrow>
        upd_ch c (\<lambda>ch. ch\<lparr>
            frameConfig := (if start then filter (\<lambda>x. cap_type x \<noteq> CAM_CAPTURE_RESET) configs else []),
            isConfigCapture := start, cur_capture_idx := 0,
            capture_frame_id := replicate (MAX_CAPTURE_BATCH_NUM div 4) 0 @
              drop (MAX_CAPTURE_BATCH_NUM div 4) (capture_frame_id ch)\<rparr>) s)"

definition proc_cmd :: "nat \<Rightarrow> mm_cmd \<Rightarrow> mm_sys \<Rightarrow> mm_sys option" where
  "proc_cmd c cmd s = (case cmd of
      CMD_DATA_CB b md \<Rightarrow> Some (snd (superbuf_comp_and_enqueue c b md s))
    | CMD_REQ_DATA_CB t num num_retro \<Rightarrow> proc_request c t num num_retro s
    | CMD_START_ZSL \<Rightarrow> Some (mm_tell (Start_zsl c) (upd_ch c (\<lambda>ch. ch\<lparr>manualZSLSnapshot := True\<rparr>) s))
    | CMD_STOP_ZSL \<Rightarrow> Some (mm_tell (Stop_zsl c) (upd_ch c (\<lambda>ch. ch\<lparr>manualZSLSnapshot := False\<rparr>) s))
    | CMD_CONFIG_NOTIFY m \<Rightarrow> Some (upd_q c (\<lambda>q. q\<lparr>attr := (attr q)\<lparr>attr_notify_mode := m\<rparr>\<rparr>) s)
    | CMD_FLUSH_QUEUE f t \<Rightarrow>
        Some (mm_tell (Post_sync c) (superbuf_flush c t (upd_q c (\<lambda>q. q\<lparr>expected_frame_id := f\<rparr>) s)))
    | CMD_GENERAL g \<Rightarrow> Some (proc_general c g s))"

section \<open>Zero shutter lag\<close>

definition need_start_zsl :: "channel \<Rightarrow> bool" where
  "need_start_zsl ch \<longleftrightarrow> 0 < pending_cnt ch \<and> isConfigCapture ch \<and> \<not> manualZSLSnapshot ch \<and>
     \<not> startZSlSnapshotCalled ch \<and>
     \<not> list_ex (\<lambda>x. cap_type x = CAM_CAPTURE_FLASH \<and> \<not> needLEDFlash ch \<or>
                 cap_type x = CAM_CAPTURE_LOW_LIGHT \<and> \<not> needLowLightZSL ch)
        (drop (unat (cur_capture_idx ch)) (frameConfig ch))"

definition start_zsl :: "nat \<Rightarrow> mm_sys \<Rightarrow> mm_sys" where
  "start_zsl c s = upd_ch c (\<lambda>ch. ch\<lparr>startZSlSnapshotCalled := True, burstSnapNum := pending_cnt ch,
     bWaitForPrepSnapshotDone := False\<rparr>) (mm_tell (Start_zsl c) s)"

definition stop_zsl :: "nat \<Rightarrow> mm_sys \<Rightarrow> mm_sys" where
  "stop_zsl c s = upd_ch c (\<lambda>ch. ch\<lparr>startZSlSnapshotCalled := False, needLEDFlash := False,
     burstSnapNum := 0, stopZslSnapshot := False, unLockAEC := True,
     bracketingState := BRACKETING_OFF, isConfigCapture := False\<rparr>) (mm_tell (Stop_zsl c) s)"

text \<open>The frame numbers of the batches that are left, once a snapshot is started for them.\<close>

definition expect_batches :: "channel \<Rightarrow> int32 list" where
  "expect_batches ch = (let f = expected_frame_id (superbuf_queue ch) + MM_CAMERA_MAX_FUTURE_FRAME_WAIT in
     map (\<lambda>(i, x). if unat (cur_capture_idx ch) \<le> i \<and> i < length (frameConfig ch) then f else x)
       (enumerate 0 (capture_frame_id ch)))"

definition zsl_control :: "nat \<Rightarrow> mm_sys \<Rightarrow> mm_sys" where
  "zsl_control c s = (let ch = chs s c in
     if isConfigCapture ch \<and> need_start_zsl ch
     then start_zsl c (superbuf_flush c CAM_STREAM_TYPE_DEFAULT
            (upd_ch c (\<lambda>ch. ch\<lparr>capture_frame_id := expect_batches ch\<rparr>) s))
     else if 0 < pending_cnt ch \<and> (needLEDFlash ch \<or> bracketingState ch \<noteq> BRACKETING_OFF) \<and>
             \<not> manualZSLSnapshot ch \<and> \<not> startZSlSnapshotCalled ch
     then start_zsl c s
     else if (pending_cnt ch = 0 \<or> stopZslSnapshot ch) \<and> \<not> manualZSLSnapshot ch \<and>
             startZSlSnapshotCalled ch
     then upd_ch c (\<lambda>ch. ch\<lparr>bWaitForPrepSnapshotDone := False\<rparr>) (stop_zsl c s)
     else s)"

section \<open>Sending\<close>

definition send_node :: "nat \<times> queue_node \<Rightarrow> mm_sys \<Rightarrow> mm_sys" where
  "send_node cn s = (let (c, n) = cn; ch = chs s c in
     if has_notify_cb ch
     then let (ok, s1) = mm_malloc s in
       if ok
       then upd_ch c (\<lambda>ch. ch\<lparr>unLockAEC := False\<rparr>)
              (mm_tell (Super_buf c (map bi_buf (super_buf n)) (bWaitForPrepSnapshotDone ch) (unLockAEC ch)) s1)
       else node_qbuf c n s1
     else node_qbuf c n s)"

definition send_super_buf :: "(nat \<times> queue_node) list \<Rightarrow> mm_sys \<Rightarrow> mm_sys" where
  "send_super_buf info = fold send_node info"

text \<open>One node of the frame from each synchronised channel that has it.\<close>

fun collect_frame :: "int32 \<Rightarrow> nat option list \<Rightarrow> mm_sys \<Rightarrow> (nat \<times> queue_node) list \<times> mm_sys" where
  "collect_frame f [] s = ([], s)"
| "collect_frame f (None # cs) s = collect_frame f cs s"
| "collect_frame f (Some c # cs) s =
     (let (n, s1) = superbuf_dequeue_frame_internal f c s; (info, s2) = collect_frame f cs s1
      in (case n of None \<Rightarrow> info | Some x \<Rightarrow> (c, x) # info, s2))"

definition take_synced :: "mm_sys \<Rightarrow> (nat \<times> queue_node) list \<times> mm_sys" where
  "take_synced s = (let f = mm_frame_sync_find_matched False (fs s) in
     if f = 0 then ([], s)
     else let (info, s1) = collect_frame f (fs_ch (fs s)) s;
              s2 = s1\<lparr>fs := mm_frame_sync_remove f (fs s1)\<rparr>
          in if length info = num_cam (fs s2) then (info, s2)
             else ([], fold (\<lambda>(c, n). node_qbuf c n) info s2))"

definition take_own :: "nat \<Rightarrow> mm_sys \<Rightarrow> (nat \<times> queue_node) list \<times> mm_sys" where
  "take_own c s = (case superbuf_dequeue c s of
      (None, s1) \<Rightarrow> ([], s1)
    | (Some n, s1) \<Rightarrow>
        (if isConfigCapture (chs s1 c)
         then let (f, s2) = capture_at c (unat (cur_capture_idx (chs s1 c))) s1
              in if frame_idx n < f then ([], node_qbuf c n s2) else ([(c, n)], s2)
         else ([(c, n)], s1)))"

text \<open>A batch of a configured capture has one frame less to wait for.\<close>

definition count_batch :: "nat \<Rightarrow> mm_sys \<Rightarrow> mm_sys" where
  "count_batch c s = (let ch = chs s c; i = unat (cur_capture_idx ch) in
     if isConfigCapture ch \<and> i < MAX_CAPTURE_BATCH_NUM
     then let left = (if i < length (frameConfig ch) then num_frames (frameConfig ch ! i) else 0);
              left1 = (if left \<noteq> 0 then left - 1 else 0);
              s1 = upd_ch c (\<lambda>ch. ch\<lparr>frameConfig := (frameConfig ch)
                     [i := (frameConfig ch ! i)\<lparr>num_frames := left1\<rparr>]\<rparr>) s
          in if left1 = 0
             then let s2 = upd_ch c (\<lambda>ch. ch\<lparr>cur_capture_idx := cur_capture_idx ch + 1\<rparr>) s1;
                      (f, s3) = capture_at c (unat (cur_capture_idx (chs s2 c))) s2
                  in upd_q c (set_good f) s3
             else s1
     else s)"

definition count_sent :: "nat \<Rightarrow> mm_sys \<Rightarrow> mm_sys" where
  "count_sent c s =
     (let s1 = upd_ch c (\<lambda>ch. ch\<lparr>pending_cnt := pending_cnt ch - 1,
            bWaitForPrepSnapshotDone := (bWaitForPrepSnapshotDone ch \<or> pending_retro_cnt ch = 1),
            pending_retro_cnt := (if 0 < pending_retro_cnt ch then pending_retro_cnt ch - 1 else 0)\<rparr>) s;
          ch = chs s1 c;
          s2 = (if (pending_cnt ch = 0 \<or> stopZslSnapshot ch) \<and> \<not> manualZSLSnapshot ch \<and>
                   startZSlSnapshotCalled ch
                then stop_zsl c s1 else s1)
      in count_batch c s2)"

partial_function (option) dispatch_loop :: "nat \<Rightarrow> notify_mode \<Rightarrow> mm_sys \<Rightarrow> mm_sys option" where
  "dispatch_loop c mode s =
     (if (0 < pending_cnt (chs s c) \<or> mode = NOTIFY_CONTINUOUS) \<and> \<not> bWaitForPrepSnapshotDone (chs s c)
      then let (info, s1) = (if ch_req_type (chs s c) = REQ_FRAME_SYNC_BUF then take_synced s else take_own c s)
           in if info = [] then Some s1
              else dispatch_loop c mode
                (send_super_buf info (if mode = NOTIFY_BURST then count_sent c s1 else s1))
      else Some s)"

declare dispatch_loop.simps [code]

definition process_stream_buf :: "nat \<Rightarrow> mm_cmd \<Rightarrow> mm_sys \<Rightarrow> mm_sys option" where
  "process_stream_buf c cmd s = (case proc_cmd c cmd s of
      None \<Rightarrow> None
    | Some s1 \<Rightarrow>
        (case cmd of
           CMD_FLUSH_QUEUE _ _ \<Rightarrow> Some s1
         | _ \<Rightarrow>
             (let mode = attr_notify_mode (attr (queue_of c s1)) in
              case superbuf_bufdone_overflow c (zsl_control c s1) of
                None \<Rightarrow> None
              | Some s2 \<Rightarrow> dispatch_loop c mode s2)))"

text \<open>A run: commands to the channels, in any order; None when one of them does not return.\<close>

fun run_cmds :: "(nat \<times> mm_cmd) list \<Rightarrow> mm_sys \<Rightarrow> mm_sys option" where
  "run_cmds [] s = Some s"
| "run_cmds ((c, cmd) # cs) s = (case process_stream_buf c cmd s of
      None \<Rightarrow> None
    | Some t \<Rightarrow> run_cmds cs t)"

end
