(* ===== verification/Mm_Inv.thy ===== *)
theory Mm_Inv
  imports Mm_Dispatch "HOL-Library.Multiset"
begin

text \<open>
  The invariant of the super buffer queue, and the account of buffers: in a queue whose priority
  is not low the matched nodes come first, the unmatched ones are sorted by frame number, the
  counters count, and every buffer that came in is in the queue or has left through exactly one
  call. Each operation has a contract over these, and contracts compose.
\<close>

section \<open>The invariant\<close>

definition slot_ok :: "int32 \<Rightarrow> int32 \<Rightarrow> buf_info \<Rightarrow> bool" where
  "slot_ok f h b \<longleftrightarrow> b = no_buf \<or> bi_frame_idx b = f \<and> bi_stream_id b = h \<and>
     (\<exists>d. bi_buf b = Some d \<and> buf_stream_id d = h \<and> buf_frame_idx d = f)"

definition node_ok :: "int32 list \<Rightarrow> queue_node \<Rightarrow> bool" where
  "node_ok hs n \<longleftrightarrow> frame_idx n \<noteq> 0 \<and> list_all2 (slot_ok (frame_idx n)) hs (super_buf n) \<and>
     (matched n \<longleftrightarrow> list_all is_filled (super_buf n)) \<and> list_ex is_filled (super_buf n) \<and>
     unmatched_meta_idx n = 0"

definition arranged :: "queue_node list \<Rightarrow> queue_node list \<Rightarrow> channel_queue \<Rightarrow> bool" where
  "arranged ms us q \<longleftrightarrow> que q = ms @ us \<and> list_all matched ms \<and> list_all (\<lambda>n. \<not> matched n) us \<and>
     sorted_wrt (\<lambda>a b. frame_idx a < frame_idx b) us \<and> match_cnt q = of_nat (length ms) \<and>
     que_size q = of_nat (length (que q)) \<and> list_all (node_ok (bundled_streams q)) (que q) \<and>
     length us \<le> Suc (unat (max_unmatched_frames (attr q)))"

definition queue_inv :: "channel_queue \<Rightarrow> bool" where
  "queue_inv q \<longleftrightarrow> (\<exists>ms us. arranged ms us q) \<and> distinct (bundled_streams q) \<and>
     sb_prio (attr q) \<noteq> PRIORITY_LOW \<and> max_unmatched_frames (attr q) < 255"

definition channel_ok :: "channel \<Rightarrow> bool" where
  "channel_ok ch \<longleftrightarrow> queue_inv (superbuf_queue ch) \<and>
     (\<forall>h \<in> set (bundled_streams (superbuf_queue ch)). get_stream_by_handler ch h \<noteq> None)"

text \<open>A super buffer that is complete: one buffer of each stream, all of the same frame.\<close>

definition complete :: "int32 list \<Rightarrow> buf_def option list \<Rightarrow> bool" where
  "complete hs bs \<longleftrightarrow>
     (\<exists>f. f \<noteq> 0 \<and> list_all2 (\<lambda>h b. \<exists>d. b = Some d \<and> buf_stream_id d = h \<and> buf_frame_idx d = f) hs bs)"

definition calls_ok :: "mm_sys \<Rightarrow> bool" where
  "calls_ok s \<longleftrightarrow> (\<forall>c bs x y. Super_buf c bs x y \<in> set (mm_calls s) \<longrightarrow>
     complete (bundled_streams (queue_of c s)) bs)"

definition mm_ok :: "mm_sys \<Rightarrow> bool" where
  "mm_ok s \<longleftrightarrow> (\<forall>c. channel_ok (chs s c)) \<and> calls_ok s \<and> \<not> bad_link s"

section \<open>The account\<close>

definition some_bufs :: "buf_def option list \<Rightarrow> buf_def multiset" where
  "some_bufs bs = mset (map the (filter (\<lambda>b. b \<noteq> None) bs))"

definition node_bufs :: "queue_node \<Rightarrow> buf_def multiset" where
  "node_bufs n = some_bufs (map bi_buf (super_buf n))"

definition held :: "nat \<Rightarrow> mm_sys \<Rightarrow> buf_def multiset" where
  "held c s = sum_list (map node_bufs (que (queue_of c s)))"

definition call_bufs :: "nat \<Rightarrow> mm_call \<Rightarrow> buf_def multiset" where
  "call_bufs c a = (case a of
      Qbuf c' b \<Rightarrow> if c' = c then {#b#} else {#}
    | Qbuf_linked c' b \<Rightarrow> if c' = c then {#b#} else {#}
    | Super_buf c' bs _ _ \<Rightarrow> if c' = c then some_bufs bs else {#}
    | _ \<Rightarrow> {#})"

definition gone :: "nat \<Rightarrow> mm_sys \<Rightarrow> buf_def multiset" where
  "gone c s = sum_list (map (call_bufs c) (mm_calls s))"

text \<open>
  A contract: from good states to good states, with what came in and what is in transit for each
  channel, and with the streams, their bundles and the table of the cameras as they were.
\<close>

definition at :: "nat \<Rightarrow> 'a multiset \<Rightarrow> nat \<Rightarrow> 'a multiset" where
  "at c M x = (if x = c then M else {#})"

abbreviation none :: "nat \<Rightarrow> 'a multiset" where
  "none \<equiv> \<lambda>_. {#}"

definition cam_table :: "frame_sync \<Rightarrow> nat option list \<times> nat" where
  "cam_table f = (fs_ch f, num_cam f)"

definition contract :: "mm_sys \<Rightarrow> (nat \<Rightarrow> buf_def multiset) \<Rightarrow> (nat \<Rightarrow> buf_def multiset) \<Rightarrow> mm_sys \<Rightarrow> bool" where
  "contract s come transit t \<longleftrightarrow> (mm_ok s \<longrightarrow> mm_ok t \<and>
     (\<forall>c. held c t + gone c t + transit c = held c s + gone c s + come c) \<and>
     (\<forall>c. bundled_streams (queue_of c t) = bundled_streams (queue_of c s) \<and>
          streams (chs t c) = streams (chs s c)) \<and>
     cam_table (fs t) = cam_table (fs s))"

lemma contract_refl: "contract s none none s"
  by (simp add: contract_def)

lemma contract_trans:
  assumes "contract s a b t" and "contract t c d u"
  shows "contract s (\<lambda>x. a x + c x) (\<lambda>x. b x + d x) u"
  unfolding contract_def
proof (intro impI)
  assume s: "mm_ok s"
  have t: "mm_ok t" "\<And>c. held c t + gone c t + b c = held c s + gone c s + a c"
    "\<And>c. bundled_streams (queue_of c t) = bundled_streams (queue_of c s) \<and> streams (chs t c) = streams (chs s c)"
    "cam_table (fs t) = cam_table (fs s)"
    using assms(1) s by (auto simp: contract_def)
  have u: "mm_ok u" "\<And>x. held x u + gone x u + d x = held x t + gone x t + c x"
    "\<And>c. bundled_streams (queue_of c u) = bundled_streams (queue_of c t) \<and> streams (chs u c) = streams (chs t c)"
    "cam_table (fs u) = cam_table (fs t)"
    using assms(2) t(1) by (auto simp: contract_def)
  have "held x u + gone x u + (b x + d x) = held x s + gone x s + (a x + c x)" for x
  proof -
    have "held x u + gone x u + (b x + d x) = (held x u + gone x u + d x) + b x" by (simp add: ac_simps)
    also have "\<dots> = (held x t + gone x t + b x) + c x" unfolding u(2) by (simp add: ac_simps)
    also have "\<dots> = held x s + gone x s + (a x + c x)" unfolding t(2) by (simp add: ac_simps)
    finally show ?thesis .
  qed
  with t u show "mm_ok u \<and> (\<forall>x. held x u + gone x u + (b x + d x) = held x s + gone x s + (a x + c x)) \<and>
      (\<forall>c. bundled_streams (queue_of c u) = bundled_streams (queue_of c s) \<and> streams (chs u c) = streams (chs s c)) \<and>
      cam_table (fs u) = cam_table (fs s)"
    by simp
qed

lemma contract_cancel: "contract s (\<lambda>x. a x + m x) (\<lambda>x. b x + m x) t \<Longrightarrow> contract s a b t"
  by (simp add: contract_def add.assoc [symmetric])

lemma contract_seq: "contract s none none t \<Longrightarrow> contract t a b u \<Longrightarrow> contract s a b u"
  using contract_trans [of s none none t a b u] by simp

lemma contract_then: "contract s a b t \<Longrightarrow> contract t none none u \<Longrightarrow> contract s a b u"
  using contract_trans [of s a b t none none u] by simp

lemma contract_close: "contract s a b t \<Longrightarrow> contract t b none u \<Longrightarrow> contract s a none u"
  using contract_trans [of s a b t b none u] contract_cancel [of s a b none u] by simp

section \<open>What the invariant does not read\<close>

definition same_queue :: "channel_queue \<Rightarrow> channel_queue \<Rightarrow> bool" where
  "same_queue q r \<longleftrightarrow> que r = que q \<and> que_size r = que_size q \<and> match_cnt r = match_cnt q \<and>
     bundled_streams r = bundled_streams q \<and> sb_prio (attr r) = sb_prio (attr q) \<and>
     max_unmatched_frames (attr r) = max_unmatched_frames (attr q)"

lemma queue_inv_same: "same_queue q r \<Longrightarrow> queue_inv r = queue_inv q"
  by (simp add: queue_inv_def arranged_def same_queue_def)

definition plain_call :: "mm_call \<Rightarrow> bool" where
  "plain_call a \<longleftrightarrow> (case a of Start_zsl _ \<Rightarrow> True | Stop_zsl _ \<Rightarrow> True | Post_sync _ \<Rightarrow> True | _ \<Rightarrow> False)"

definition aside :: "mm_sys \<Rightarrow> mm_sys \<Rightarrow> bool" where
  "aside s t \<longleftrightarrow> (\<forall>c. same_queue (queue_of c s) (queue_of c t) \<and> streams (chs t c) = streams (chs s c)) \<and>
     (\<exists>as. mm_calls t = mm_calls s @ as \<and> list_all plain_call as) \<and> bad_link t = bad_link s \<and>
     cam_table (fs t) = cam_table (fs s)"

lemma contract_aside:
  assumes "aside s t"
  shows "contract s none none t"
proof -
  obtain as where as: "mm_calls t = mm_calls s @ as" "list_all plain_call as"
    using assms by (auto simp: aside_def)
  have "sum_list (map (call_bufs c) as) = {#}" for c
    using as(2) by (induction as) (auto simp: call_bufs_def plain_call_def split: mm_call.splits)
  then have "gone c t = gone c s" for c by (simp add: gone_def as(1))
  moreover have "held c t = held c s" for c
    using assms by (simp add: aside_def held_def same_queue_def)
  moreover have "channel_ok (chs t c) = channel_ok (chs s c)" for c
    using assms queue_inv_same [of "queue_of c s" "queue_of c t"]
    by (simp add: aside_def channel_ok_def same_queue_def get_stream_by_handler_def)
  moreover have "calls_ok t = calls_ok s"
    using assms as by (fastforce simp: calls_ok_def aside_def same_queue_def list_all_iff plain_call_def)
  ultimately show ?thesis using assms by (simp add: contract_def mm_ok_def aside_def same_queue_def)
qed

lemma aside_refl [simp]: "aside s s"
  by (simp add: aside_def same_queue_def)

lemma aside_trans: "aside s t \<Longrightarrow> aside t u \<Longrightarrow> aside s u"
  by (fastforce simp: aside_def same_queue_def)

lemma aside_upd_ch:
  "same_queue (superbuf_queue (chs t c)) (superbuf_queue (f (chs t c))) \<Longrightarrow>
   streams (f (chs t c)) = streams (chs t c) \<Longrightarrow> aside s t \<Longrightarrow> aside s (upd_ch c f t)"
  by (fastforce simp: aside_def upd_ch_def same_queue_def)

lemma aside_upd_q:
  "same_queue (queue_of c t) (f (queue_of c t)) \<Longrightarrow> aside s t \<Longrightarrow> aside s (upd_q c f t)"
  unfolding upd_q_def by (rule aside_upd_ch) auto

lemma aside_tell: "plain_call a \<Longrightarrow> aside s t \<Longrightarrow> aside s (mm_tell a t)"
  by (fastforce simp: aside_def mm_tell_def)

lemma aside_flags [simp]:
  "aside s (t\<lparr>undef := x\<rparr>) = aside s t" "aside s (t\<lparr>read_freed := x\<rparr>) = aside s t"
  "aside s (snd (mm_malloc t)) = aside s t" "aside s (snd (capture_at c i t)) = aside s t"
  by (simp_all add: aside_def mm_malloc_def capture_at_def)

lemma cam_table_ops:
  "cam_table (mm_frame_sync_add f c x) = cam_table x" "cam_table (mm_frame_sync_remove f x) = cam_table x"
  by (auto simp: cam_table_def mm_frame_sync_add_def mm_frame_sync_remove_def sync_match_def Let_def split: option.split)

lemma aside_sync [simp]:
  "aside s (sync_add f c t) = aside s t" "aside s (sync_remove f c t) = aside s t"
  by (auto simp: aside_def sync_add_def sync_remove_def cam_table_ops)

section \<open>Buffers that go back\<close>

lemma no_buf_simps [simp]: "bi_buf no_buf = None" "\<not> is_filled no_buf" "\<not> has_buf no_buf"
  by (simp_all add: no_buf_def is_filled_def has_buf_def)

lemma qbuf_opt_Some [simp]: "qbuf_opt c (Some d) s = mm_channel_qbuf c d s"
  by (simp add: qbuf_opt_def)

lemma at_simps [simp]: "at c {#} = none" "at c M c = M" "x \<noteq> c \<Longrightarrow> at c M x = {#}"
  by (auto simp: at_def)

lemma at_add: "(\<lambda>x. at c M x + at c N x) = at c (M + N)"
  by (auto simp: at_def)

lemma contract_qbuf:
  assumes "buf_stream_id d \<in> set (bundled_streams (queue_of c s))"
  shows "contract s (at c {#d#}) none (mm_channel_qbuf c d s)"
  unfolding contract_def
proof (intro impI)
  assume s: "mm_ok s"
  then obtain st where st: "get_stream_by_handler (chs s c) (buf_stream_id d) = Some st"
    using assms by (force simp: mm_ok_def channel_ok_def)
  let ?a = "if owned st then Qbuf c d else Qbuf_linked c d"
  have t: "mm_channel_qbuf c d s = s\<lparr>mm_calls := mm_calls s @ [?a]\<rparr>"
    by (simp add: mm_channel_qbuf_def st mm_tell_def)
  show "mm_ok (mm_channel_qbuf c d s) \<and>
    (\<forall>x. held x (mm_channel_qbuf c d s) + gone x (mm_channel_qbuf c d s) + {#} = held x s + gone x s + at c {#d#} x) \<and>
    (\<forall>x. bundled_streams (queue_of x (mm_channel_qbuf c d s)) = bundled_streams (queue_of x s) \<and>
       streams (chs (mm_channel_qbuf c d s) x) = streams (chs s x)) \<and>
    cam_table (fs (mm_channel_qbuf c d s)) = cam_table (fs s)"
    using s unfolding t by (auto simp: mm_ok_def calls_ok_def held_def gone_def call_bufs_def at_def)
qed

lemma contract_qbufs:
  assumes "\<forall>b \<in> set bs. \<exists>d. bi_buf b = Some d \<and> buf_stream_id d \<in> set (bundled_streams (queue_of c s))"
  shows "contract s (at c (some_bufs (map bi_buf bs))) none (fold (\<lambda>b. qbuf_opt c (bi_buf b)) bs s)"
  using assms
proof (induction bs arbitrary: s)
  case Nil
  then show ?case by (simp add: some_bufs_def contract_refl)
next
  case (Cons b bs)
  then obtain d where d: "bi_buf b = Some d" "buf_stream_id d \<in> set (bundled_streams (queue_of c s))" by auto
  let ?t = "mm_channel_qbuf c d s"
  have chs: "chs ?t = chs s" by (simp add: mm_channel_qbuf_def mm_tell_def split: option.split)
  have "contract ?t (at c (some_bufs (map bi_buf bs))) none (fold (\<lambda>b. qbuf_opt c (bi_buf b)) bs ?t)"
    by (rule Cons.IH) (use Cons.prems chs in auto)
  from contract_trans [OF contract_qbuf [OF d(2)] this] show ?case
    by (simp add: d(1) at_add some_bufs_def)
qed

lemma node_bufs_in:
  assumes "node_ok hs n" and "b \<in> set (super_buf n)"
  shows "b = no_buf \<or> is_filled b \<and> (\<exists>d. bi_buf b = Some d \<and> buf_stream_id d \<in> set hs)"
  using assms unfolding node_ok_def list_all2_conv_all_nth in_set_conv_nth slot_ok_def is_filled_def
  by (metis nth_mem)

lemma contract_slots:
  assumes "node_ok (bundled_streams (queue_of c s)) n"
    and "\<And>b. b \<in> set (super_buf n) \<Longrightarrow> P b \<longleftrightarrow> has_buf b"
  shows "contract s (at c (node_bufs n)) none (qbuf_slots c P n s)"
proof -
  have "filter P (super_buf n) = filter has_buf (super_buf n)"
    using assms(2) by (auto intro: filter_cong)
  moreover have "some_bufs (map bi_buf (filter has_buf (super_buf n))) = node_bufs n"
    by (simp add: some_bufs_def node_bufs_def filter_map comp_def has_buf_def)
  moreover have "\<forall>b \<in> set (filter has_buf (super_buf n)). \<exists>d. bi_buf b = Some d \<and>
      buf_stream_id d \<in> set (bundled_streams (queue_of c s))"
    by (auto simp: has_buf_def dest: node_bufs_in [OF assms(1)])
  ultimately show ?thesis
    using contract_qbufs [where bs = "filter has_buf (super_buf n)" and c = c and s = s] by (simp add: qbuf_slots_def)
qed

lemma filled_has_buf:
  assumes "node_ok hs n" and "b \<in> set (super_buf n)"
  shows "is_filled b \<longleftrightarrow> has_buf b" and "flushed CAM_STREAM_TYPE_DEFAULT b \<longleftrightarrow> has_buf b"
  using node_bufs_in [OF assms] by (auto simp: has_buf_def flushed_def)

section \<open>Nodes that are taken out\<close>

definition q_bufs :: "channel_queue \<Rightarrow> buf_def multiset" where
  "q_bufs q = sum_list (map node_bufs (que q))"

lemma held_q: "held c s = q_bufs (queue_of c s)"
  by (simp add: held_def q_bufs_def)

lemma upd_q_other [simp]: "x \<noteq> c \<Longrightarrow> chs (upd_q c f s) x = chs s x"
  by (simp add: upd_q_def upd_ch_def)

lemma upd_q_rest [simp]:
  "streams (chs (upd_q c f s) x) = streams (chs s x)" "mm_calls (upd_q c f s) = mm_calls s"
  "bad_link (upd_q c f s) = bad_link s" "fs (upd_q c f s) = fs s"
  by (auto simp: upd_q_def upd_ch_def)

lemma contract_upd_q:
  assumes "mm_ok s \<Longrightarrow> queue_inv (f (queue_of c s))"
    and "bundled_streams (f (queue_of c s)) = bundled_streams (queue_of c s)"
    and "mm_ok s \<Longrightarrow> q_bufs (f (queue_of c s)) + T = q_bufs (queue_of c s) + C"
  shows "contract s (at c C) (at c T) (upd_q c f s)"
  unfolding contract_def
proof (intro impI)
  assume s: "mm_ok s"
  let ?t = "upd_q c f s"
  have q: "queue_of x ?t = (if x = c then f (queue_of c s) else queue_of x s)" for x by simp
  have bnd: "bundled_streams (queue_of x ?t) = bundled_streams (queue_of x s)" for x
    using assms(2) by (simp add: q)
  have "channel_ok (chs ?t x)" for x
    using s assms(1) [OF s] bnd by (auto simp: mm_ok_def channel_ok_def q get_stream_by_handler_def)
  moreover have "calls_ok ?t" using s bnd by (simp add: mm_ok_def calls_ok_def)
  moreover have "held x ?t + gone x ?t + at c T x = held x s + gone x s + at c C x" for x
    using assms(3) [OF s] by (auto simp: held_q q gone_def at_def ac_simps)
  ultimately show "mm_ok ?t \<and> (\<forall>x. held x ?t + gone x ?t + at c T x = held x s + gone x s + at c C x) \<and>
      (\<forall>x. bundled_streams (queue_of x ?t) = bundled_streams (queue_of x s) \<and>
        streams (chs ?t x) = streams (chs s x)) \<and> cam_table (fs ?t) = cam_table (fs s)"
    using s bnd by (simp add: mm_ok_def)
qed

lemma mm_ok_queue: "mm_ok s \<Longrightarrow> queue_inv (queue_of c s)"
  by (simp add: mm_ok_def channel_ok_def)

lemma mm_ok_node:
  assumes "mm_ok s" and "n \<in> set (que (queue_of c s))"
  shows "node_ok (bundled_streams (queue_of c s)) n"
  using mm_ok_queue [OF assms(1), of c] assms(2) by (auto simp: queue_inv_def arranged_def list_all_iff)

lemma arranged_split:
  assumes "arranged ms us q"
  shows "ms = takeWhile matched (que q)" "us = dropWhile matched (que q)"
  using assms by (auto simp: arranged_def list_all_iff takeWhile_append dropWhile_append
      takeWhile_eq_Nil_iff dropWhile_eq_self_iff)

lemma sum_list_without:
  fixes g :: "'a \<Rightarrow> 'b multiset"
  assumes "i < length xs"
  shows "sum_list (map g (take i xs @ drop (Suc i) xs)) + g (xs ! i) = sum_list (map g xs)"
  using arg_cong [OF id_take_nth_drop [OF assms], of "\<lambda>l. sum_list (map g l)"]
  by (simp add: ac_simps)

lemma sorted_wrt_append_drop: "sorted_wrt P (xs @ ys) \<Longrightarrow> sorted_wrt P (xs @ drop k ys)"
  by (auto simp: sorted_wrt_append sorted_wrt_drop dest: in_set_dropD)

lemma sorted_wrt_gap: "sorted_wrt P xs \<Longrightarrow> i \<le> j \<Longrightarrow> sorted_wrt P (take i xs @ drop j xs)"
  using sorted_wrt_append_drop [of P "take i xs" "drop i xs" "j - i"] by simp

text \<open>A queue with some matched nodes and a run of unmatched nodes taken out.\<close>

lemma arranged_cut:
  assumes "arranged ms us q" and "que r = ms' @ take i us @ drop j us" and "i \<le> j"
    and "set ms' \<subseteq> set ms" and "match_cnt r = of_nat (length ms')"
    and "que_size r = of_nat (length (que r))" and "bundled_streams r = bundled_streams q"
    and "max_unmatched_frames (attr r) = max_unmatched_frames (attr q)"
  shows "arranged ms' (take i us @ drop j us) r"
proof -
  have sub: "set (take i us @ drop j us) \<subseteq> set us"
    using set_take_subset [of i us] set_drop_subset [of j us] by simp
  have "length (take i us @ drop j us) \<le> length us" using assms(3) by simp
  then show ?thesis
    using assms sub unfolding arranged_def list_all_iff
    by (auto simp: sorted_wrt_gap)
qed

lemma queue_invI:
  assumes "queue_inv q" and "arranged ms us r" and "bundled_streams r = bundled_streams q"
    and "sb_prio (attr r) = sb_prio (attr q)" and "max_unmatched_frames (attr r) = max_unmatched_frames (attr q)"
  shows "queue_inv r"
  using assms by (auto simp: queue_inv_def)

lemma arranged_node: "arranged ms us q \<Longrightarrow> n \<in> set ms \<or> n \<in> set us \<Longrightarrow> node_ok (bundled_streams q) n"
  by (auto simp: arranged_def list_all_iff)

lemma contract_dequeue:
  assumes "superbuf_dequeue_internal m c s = (Some n, t)"
  shows "contract s none (at c (node_bufs n)) t" and "matched n \<or> \<not> m"
    and "mm_ok s \<Longrightarrow> node_ok (bundled_streams (queue_of c s)) n"
    and "bundled_streams (queue_of c t) = bundled_streams (queue_of c s)"
proof -
  obtain ns where ns: "que (queue_of c s) = n # ns"
    using assms by (auto simp: superbuf_dequeue_internal_def Let_def split: list.splits if_splits)
  let ?f = "\<lambda>q. q\<lparr>que := ns, que_size := que_size q - 1, match_cnt := (if matched n then match_cnt q - 1 else match_cnt q)\<rparr>"
  have two: "upd_q c g (upd_q c h s) = upd_q c (g \<circ> h) s" for g h
    by (simp add: upd_q_def upd_ch_def)
  have t: "t = (if matched n then sync_remove (frame_idx n) c (upd_q c ?f s) else upd_q c ?f s)"
    using assms ns by (auto simp: superbuf_dequeue_internal_def Let_def two comp_def split: if_splits)
  have "queue_inv (?f (queue_of c s))" if s: "mm_ok s"
  proof -
    obtain ms us where a: "arranged ms us (queue_of c s)" using mm_ok_queue [OF s, of c] by (auto simp: queue_inv_def)
    show ?thesis
    proof (cases ms)
      case Nil
      then have us: "us = n # ns" using a ns by (simp add: arranged_def)
      then have "\<not> matched n" using a by (simp add: arranged_def)
      then have "arranged [] ns (?f (queue_of c s))"
        using arranged_cut [OF a, of "?f (queue_of c s)" "[]" 0 1] us a Nil by (auto simp: arranged_def)
      then show ?thesis by (rule queue_invI [OF mm_ok_queue [OF s, of c]]) simp_all
    next
      case (Cons x xs)
      then have x: "x = n" "ns = xs @ us" "matched n" using a ns by (auto simp: arranged_def)
      then have "arranged xs us (?f (queue_of c s))"
        using arranged_cut [OF a, of "?f (queue_of c s)" xs 0 0] a Cons by (auto simp: arranged_def)
      then show ?thesis by (rule queue_invI [OF mm_ok_queue [OF s, of c]]) simp_all
    qed
  qed
  then have "contract s (at c {#}) (at c (node_bufs n)) (upd_q c ?f s)"
    by (intro contract_upd_q) (auto simp: q_bufs_def ns)
  from contract_then [OF this contract_aside, of t] show "contract s none (at c (node_bufs n)) t"
    by (simp add: t)
  show "matched n \<or> \<not> m" using assms ns by (auto simp: superbuf_dequeue_internal_def split: if_splits)
  show "mm_ok s \<Longrightarrow> node_ok (bundled_streams (queue_of c s)) n" using mm_ok_node [of s n c] ns by simp
  show "bundled_streams (queue_of c t) = bundled_streams (queue_of c s)" by (simp add: t)
qed

lemma dequeue_None:
  assumes "superbuf_dequeue_internal m c s = (None, t)"
  shows "t = s" and "que (queue_of c s) \<noteq> [] \<Longrightarrow> m \<and> \<not> matched (hd (que (queue_of c s)))"
  using assms by (auto simp: superbuf_dequeue_internal_def Let_def split: list.splits if_splits)

text \<open>While anything is counted as matched, a matched node is at the head.\<close>

lemma dequeue_matched_Some:
  assumes "mm_ok s" and "match_cnt (queue_of c s) \<noteq> 0"
  shows "\<exists>n t. superbuf_dequeue_internal True c s = (Some n, t)"
proof -
  obtain ms us where a: "arranged ms us (queue_of c s)"
    using mm_ok_queue [OF assms(1), of c] by (auto simp: queue_inv_def)
  with assms(2) obtain n ns where "ms = n # ns" by (cases ms) (auto simp: arranged_def)
  with a show ?thesis by (auto simp: superbuf_dequeue_internal_def Let_def arranged_def)
qed

text \<open>Dequeue a node and give its buffers back.\<close>

lemma contract_drop:
  assumes "superbuf_dequeue_internal m c s = (Some n, t)"
    and "\<And>b hs. node_ok hs n \<Longrightarrow> b \<in> set (super_buf n) \<Longrightarrow> P b \<longleftrightarrow> has_buf b"
  shows "contract s none none (qbuf_slots c P n t)"
proof (cases "mm_ok s")
  case True
  have n: "node_ok (bundled_streams (queue_of c t)) n"
    using contract_dequeue [OF assms(1)] True by simp
  show ?thesis
    by (rule contract_close [OF contract_dequeue(1) [OF assms(1)] contract_slots [OF n]])
      (rule assms(2) [OF n])
next
  case False
  then show ?thesis by (simp add: contract_def)
qed

lemma contract_flush:
  assumes "\<And>n b hs. node_ok hs n \<Longrightarrow> b \<in> set (super_buf n) \<Longrightarrow> P b \<longleftrightarrow> has_buf b"
  shows "contract s none none (superbuf_flush_loop m P c s)"
  using assms
proof (induction m P c s rule: superbuf_flush_loop.induct)
  case (1 m P c s)
  show ?case
  proof (cases "superbuf_dequeue_internal m c s")
    case (Pair r t)
    show ?thesis
    proof (cases r)
      case None
      then show ?thesis
        using Pair dequeue_None(1) [of m c s t] by (simp add: superbuf_flush_loop.simps [of m P c s] contract_refl)
    next
      case (Some n)
      have d: "superbuf_dequeue_internal m c s = (Some n, t)" using Pair Some by simp
      have "contract s none none (qbuf_slots c P n t)"
        by (rule contract_drop [OF d]) (rule "1.prems")
      moreover have "contract (qbuf_slots c P n t) none none (superbuf_flush_loop m P c (qbuf_slots c P n t))"
        using "1.IH" [OF d [symmetric] refl] "1.prems" by blast
      ultimately show ?thesis
        using d contract_seq by (simp add: superbuf_flush_loop.simps [of m P c s])
    qed
  qed
qed

lemma drop_loop_ok:
  assumes "mm_ok s"
  shows "\<exists>t. drop_loop c limit s = Some t \<and> contract s none none t \<and> \<not> limit < match_cnt (queue_of c t)"
  using assms
proof (induction "length (que (queue_of c s))" arbitrary: s rule: less_induct)
  case less
  show ?case
  proof (cases "limit < match_cnt (queue_of c s)")
    case False
    then show ?thesis by (auto simp: drop_loop.simps [of c limit s] contract_refl)
  next
    case True
    then have "match_cnt (queue_of c s) \<noteq> 0" by auto
    from dequeue_matched_Some [OF less.prems this] obtain n t
      where d: "superbuf_dequeue_internal True c s = (Some n, t)" by blast
    let ?u = "qbuf_slots c has_buf n t"
    have u: "contract s none none ?u" by (rule contract_drop [OF d]) simp
    then have "mm_ok ?u" using less.prems by (simp add: contract_def)
    moreover have "length (que (queue_of c ?u)) < length (que (queue_of c s))"
      using dequeue_que [OF d] by simp
    ultimately obtain v where v: "drop_loop c limit ?u = Some v" "contract ?u none none v"
      "\<not> limit < match_cnt (queue_of c v)" using less.hyps by blast
    moreover have "drop_loop c limit s = drop_loop c limit ?u"
      using True d by (simp add: drop_loop.simps [of c limit s])
    ultimately show ?thesis using contract_seq [OF u v(2)] by auto
  qed
qed

lemma index_of_Some: "index_of P xs = Some i \<Longrightarrow> i < length xs \<and> P (xs ! i)"
  by (induction xs arbitrary: i) (auto split: if_splits)

lemma index_of_None: "index_of P xs = None \<Longrightarrow> x \<in> set xs \<Longrightarrow> \<not> P x"
  by (induction xs) (auto split: if_splits)

lemma contract_dequeue_frame:
  assumes "superbuf_dequeue_frame_internal f c s = (Some n, t)"
  shows "contract s none (at c (node_bufs n)) t" and "matched n" and "frame_idx n = f"
    and "mm_ok s \<Longrightarrow> node_ok (bundled_streams (queue_of c s)) n"
    and "length (que (queue_of c t)) < length (que (queue_of c s))"
    and "x \<noteq> c \<Longrightarrow> chs t x = chs s x" and "fs t = fs s"
proof -
  let ?q = "queue_of c s"
  obtain i where i: "index_of (\<lambda>n. matched n \<and> frame_idx n = f) (que ?q) = Some i" "n = que ?q ! i"
    using assms by (auto simp: superbuf_dequeue_frame_internal_def split: option.splits)
  from index_of_Some [OF i(1)] have len: "i < length (que ?q)" and n: "matched n" "frame_idx n = f"
    by (auto simp: i(2))
  let ?f = "\<lambda>q. q\<lparr>que := take i (que q) @ drop (Suc i) (que q), que_size := que_size q - 1,
    match_cnt := match_cnt q - 1\<rparr>"
  have t: "t = upd_q c ?f s" using assms i by (simp add: superbuf_dequeue_frame_internal_def)
  have "queue_inv (?f ?q)" if s: "mm_ok s"
  proof -
    obtain ms us where a: "arranged ms us ?q" using mm_ok_queue [OF s, of c] by (auto simp: queue_inv_def)
    have ms: "i < length ms"
      using a len n by (auto simp: arranged_def i(2) nth_append list_all_length split: if_splits)
    let ?ms = "take i ms @ drop (Suc i) ms"
    have que: "que ?q = ms @ us" "que_size ?q = of_nat (length (que ?q))" "match_cnt ?q = of_nat (length ms)"
      using a by (simp_all add: arranged_def)
    have "arranged ?ms (take 0 us @ drop 0 us) (?f ?q)"
    proof (rule arranged_cut [OF a])
      show "que (?f ?q) = ?ms @ take 0 us @ drop 0 us" using ms que by simp
      show "set ?ms \<subseteq> set ms" using set_take_subset [of i ms] set_drop_subset [of "Suc i" ms] by simp
      show "match_cnt (?f ?q) = of_nat (length ?ms)" using ms que by (simp add: of_nat_diff)
      show "que_size (?f ?q) = of_nat (length (que (?f ?q)))" using ms que by (simp add: of_nat_diff)
    qed simp_all
    then show ?thesis by (rule queue_invI [OF mm_ok_queue [OF s, of c]]) simp_all
  qed
  then have "contract s (at c {#}) (at c (node_bufs n)) (upd_q c ?f s)"
    using sum_list_without [OF len, of node_bufs] by (intro contract_upd_q) (auto simp: q_bufs_def i(2))
  then show "contract s none (at c (node_bufs n)) t" by (simp add: t)
  show "matched n" "frame_idx n = f" by (fact n)+
  show "mm_ok s \<Longrightarrow> node_ok (bundled_streams ?q) n" using mm_ok_node [of s n c] len i(2) by simp
  show "length (que (queue_of c t)) < length (que ?q)" using len by (simp add: t)
  show "x \<noteq> c \<Longrightarrow> chs t x = chs s x" "fs t = fs s" by (simp_all add: t)
qed

lemma dequeue_frame_None: "superbuf_dequeue_frame_internal f c s = (None, t) \<Longrightarrow> t = s"
  by (auto simp: superbuf_dequeue_frame_internal_def split: option.splits)

section \<open>The search\<close>

lemma scan_matched:
  "list_all matched ms \<Longrightarrow> scan_queue prio i b p (ms @ ns) r = scan_queue prio i b (p + length ms) ns r"
  by (induction ms arbitrary: p) auto

lemma or_else_simps [simp]: "or_else a None = a" "or_else None b = b" "or_else (Some x) b = Some x"
  by (auto simp: or_else_def split: option.split)

lemma scan_older:
  assumes "prio \<noteq> PRIORITY_LOW" and "\<forall>n \<in> set us. \<not> matched n \<and> frame_idx n < bi_frame_idx b"
  shows "scan_queue prio i b p (us @ ns) r = scan_queue prio i b (p + length us) ns
    (r\<lparr>scan_unmatched := scan_unmatched r + of_nat (length us),
       scan_last := or_else (scan_last r) (if us = [] then None else Some p)\<rparr>)"
  using assms(2)
proof (induction us arbitrary: p r)
  case Nil
  then show ?case by simp
next
  case (Cons u us)
  then have "\<not> matched u" "\<not> joins prio i b u" "frame_idx u < bi_frame_idx b" "\<not> bi_frame_idx b < frame_idx u"
    using assms(1) by (auto simp: joins_def)
  with Cons show ?case by (cases "scan_last r") (simp_all add: ac_simps)
qed

lemma scan_newer:
  assumes "prio \<noteq> PRIORITY_LOW" and "\<forall>n \<in> set us. \<not> matched n \<and> bi_frame_idx b < frame_idx n"
  shows "scan_queue prio i b p us r = r\<lparr>scan_unmatched := scan_unmatched r + of_nat (length us),
    scan_before := or_else (scan_before r) (if us = [] then None else Some p)\<rparr>"
  using assms(2)
proof (induction us arbitrary: p r)
  case Nil
  then show ?case by simp
next
  case (Cons u us)
  then have "\<not> matched u" "\<not> joins prio i b u" "bi_frame_idx b < frame_idx u" "\<not> frame_idx u < bi_frame_idx b"
    using assms(1) by (auto simp: joins_def)
  with Cons show ?case by (cases "scan_before r") (simp_all add: ac_simps)
qed

definition scan_start :: scan where
  "scan_start = \<lparr>scan_found = None, scan_unmatched = 0, scan_last = None, scan_before = None\<rparr>"

text \<open>Where the frame belongs among the unmatched nodes.\<close>

lemma sorted_place:
  assumes "sorted_wrt (\<lambda>a b. frame_idx a < frame_idx b) us"
  obtains us1 us2 where "us = us1 @ us2" "\<forall>n \<in> set us1. frame_idx n < f"
    "\<forall>n \<in> set us2. f < frame_idx n"
  | us1 n us2 where "us = us1 @ n # us2" "\<forall>n \<in> set us1. frame_idx n < f" "frame_idx n = f"
    "\<forall>n \<in> set us2. f < frame_idx n"
proof -
  let ?us1 = "takeWhile (\<lambda>n. frame_idx n < f) us" and ?us2 = "dropWhile (\<lambda>n. frame_idx n < f) us"
  have us: "us = ?us1 @ ?us2" "\<forall>n \<in> set ?us1. frame_idx n < f" by (auto dest: set_takeWhileD)
  show ?thesis
  proof (cases ?us2)
    case Nil
    then show ?thesis using that(1) [of us "[]"] us by (metis append_Nil2 empty_iff list.set(1))
  next
    case (Cons n ns)
    then have n: "\<not> frame_idx n < f" using hd_dropWhile [of "\<lambda>n. frame_idx n < f" us] by fastforce
    have "sorted_wrt (\<lambda>a b. frame_idx a < frame_idx b) (?us1 @ n # ns)" using assms us(1) Cons by metis
    then have ns: "\<forall>m \<in> set ns. frame_idx n < frame_idx m" by (simp add: sorted_wrt_append)
    show ?thesis
    proof (cases "frame_idx n = f")
      case True
      then show ?thesis using that(2) [of ?us1 n ns] us Cons ns by metis
    next
      case False
      then have "\<forall>m \<in> set ?us2. f < frame_idx m" using n ns Cons by (auto dest: less_trans)
      then show ?thesis using that(1) [of ?us1 ?us2] us by blast
    qed
  qed
qed

lemma scan_found_at:
  fixes i :: nat
  assumes "arranged ms (us1 @ n # us2) q" and "sb_prio (attr q) \<noteq> PRIORITY_LOW"
    and "\<forall>n \<in> set us1. frame_idx n < bi_frame_idx b" and "frame_idx n = bi_frame_idx b"
  defines "r \<equiv> scan_queue (sb_prio (attr q)) i b 0 (que q) scan_start"
  shows "scan_found r = Some (length ms + length us1)"
    and "scan_last r = (if us1 = [] then None else Some (length ms))"
proof -
  have us1: "\<forall>n \<in> set us1. \<not> matched n \<and> frame_idx n < bi_frame_idx b"
    using assms(1,3) by (auto simp: arranged_def list_all_iff)
  have n: "\<not> matched n" "joins (sb_prio (attr q)) i b n"
    using assms(1,4) by (auto simp: arranged_def joins_def)
  have "que q = ms @ us1 @ n # us2" "list_all matched ms" using assms(1) by (auto simp: arranged_def)
  then have "r = scan_start\<lparr>scan_unmatched := of_nat (length us1),
      scan_last := if us1 = [] then None else Some (length ms), scan_found := Some (length ms + length us1)\<rparr>"
    using n unfolding r_def by (simp add: scan_matched scan_older [OF assms(2) us1] scan_start_def)
  then show "scan_found r = Some (length ms + length us1)"
    "scan_last r = (if us1 = [] then None else Some (length ms))" by simp_all
qed

lemma scan_none:
  assumes "arranged ms (us1 @ us2) q" and "sb_prio (attr q) \<noteq> PRIORITY_LOW"
    and "\<forall>n \<in> set us1. frame_idx n < bi_frame_idx b" and "\<forall>n \<in> set us2. bi_frame_idx b < frame_idx n"
  shows "scan_queue (sb_prio (attr q)) i b 0 (que q) scan_start =
    \<lparr>scan_found = None, scan_unmatched = of_nat (length (us1 @ us2)),
     scan_last = (if us1 = [] then None else Some (length ms)),
     scan_before = (if us2 = [] then None else Some (length ms + length us1))\<rparr>"
proof -
  have us1: "\<forall>n \<in> set us1. \<not> matched n \<and> frame_idx n < bi_frame_idx b"
    and us2: "\<forall>n \<in> set us2. \<not> matched n \<and> bi_frame_idx b < frame_idx n"
    using assms(1,3,4) by (auto simp: arranged_def list_all_iff)
  have "que q = ms @ us1 @ us2" "list_all matched ms" using assms(1) by (auto simp: arranged_def)
  then show ?thesis
    by (simp add: scan_matched scan_older [OF assms(2) us1] scan_newer [OF assms(2) us2] scan_start_def)
qed

end
