(* ===== verification/Mm_Match_Inv.thy ===== *)
theory Mm_Match_Inv
  imports Mm_Inv
begin

text \<open>The contracts of the metadata handling and of the matching of an incoming buffer.\<close>

section \<open>Metadata\<close>

lemma contract_flush_all:
  "contract s none none (superbuf_flush c CAM_STREAM_TYPE_DEFAULT s)"
  "contract s none none (superbuf_flush_matched c s)"
  unfolding superbuf_flush_def superbuf_flush_matched_def
  by (rule contract_flush, simp add: filled_has_buf)+

lemma contract_upd:
  "contract s a b t \<Longrightarrow> same_queue (queue_of c t) (f (queue_of c t)) \<Longrightarrow> contract s a b (upd_q c f t)"
  "contract s a b t \<Longrightarrow> same_queue (queue_of c t) (superbuf_queue (g (chs t c))) \<Longrightarrow>
   streams (g (chs t c)) = streams (chs t c) \<Longrightarrow> contract s a b (upd_ch c g t)"
  using contract_then [OF _ contract_aside] 
    aside_upd_q [where c = c and s = t and f = f and t = t]
    aside_upd_ch [where c = c and s = t and f = g and t = t] by auto

lemma contract_flushes:
  "contract s a b t \<Longrightarrow> contract s a b (superbuf_flush c CAM_STREAM_TYPE_DEFAULT t)"
  "contract s a b t \<Longrightarrow> contract s a b (superbuf_flush_matched c t)"
  using contract_then [OF _ contract_flush_all(1)] contract_then [OF _ contract_flush_all(2)] by blast+

lemma contract_flags:
  "contract s a b t \<Longrightarrow> contract s a b (t\<lparr>undef := x\<rparr>)"
  "contract s a b t \<Longrightarrow> contract s a b (snd (mm_malloc t))"
  "contract s a b t \<Longrightarrow> contract s a b (snd (capture_at c i t))"
  "contract s a b t \<Longrightarrow> contract s a b (sync_add f c t)"
  using contract_then [OF _ contract_aside] by auto

lemma same_queue_refl [simp]: "same_queue q q"
  by (simp add: same_queue_def)

lemmas contract_intros = contract_upd contract_flushes contract_flags contract_refl

lemma contract_metadata: "contract s none none (snd (mm_channel_handle_metadata c b mdo s))"
proof -
  have crop: "contract s none none (snd (md_crop_1x c md s))" for md
    by (auto simp: md_crop_1x_def case_prod_beta Let_def intro!: contract_intros split: option.split)
  have divert: "contract s none none t \<Longrightarrow> contract s none none (md_divert c b md t)" for md t
    by (auto simp: md_divert_def intro!: contract_intros split: option.split)
  have zoom: "contract s none none t \<Longrightarrow> contract s none none (md_zoom c b x t)" for x t
    by (auto simp: md_zoom_def same_queue_def intro!: contract_intros)
  have prep: "contract s none none t \<Longrightarrow> contract s none none (md_prep c md t)" for md t
    by (auto simp: md_prep_def same_queue_def Let_def intro!: contract_intros split: option.split)
  have range: "contract s none none t \<Longrightarrow> contract s none none (md_range c md t)" for md t
    by (auto simp: md_range_def set_good_def same_queue_def Let_def intro!: contract_intros split: option.split)
  have brack: "contract s none none t \<Longrightarrow> contract s none none (md_bracketing c md t)" for md t
    by (auto simp: md_bracketing_def set_good_def same_queue_def intro!: contract_intros split: option.split)
  have config: "contract s none none t \<Longrightarrow> contract s none none (md_config c md t)" for md t
    by (auto simp: md_config_def set_good_def same_queue_def Let_def case_prod_beta intro!: contract_intros split: option.split)
  have led: "contract s none none t \<Longrightarrow> contract s none none (md_led_off c b t)" for t
    by (auto simp: md_led_off_def same_queue_def Let_def intro!: contract_intros)
  have low: "contract s none none t \<Longrightarrow> contract s none none (md_low_light_step c md t)" for md t
    by (auto simp: md_low_light_step_def intro!: contract_intros split: option.split)
  have user: "contract s none none t \<Longrightarrow> contract s none none (md_user_expected c b md t)" for md t
    by (auto simp: md_user_expected_def clear_user_expected_def same_queue_def Let_def intro!: contract_intros)
  show ?thesis
    by (auto simp: mm_channel_handle_metadata_def Let_def case_prod_beta contract_refl
        intro!: crop divert zoom prep range brack config led low user split: option.split)
qed

section \<open>A buffer that joins a node\<close>

definition incoming :: "nat \<Rightarrow> nat \<Rightarrow> buf_info \<Rightarrow> buf_def \<Rightarrow> mm_sys \<Rightarrow> bool" where
  "incoming c i b d s \<longleftrightarrow> bi_buf b = Some d \<and> bi_stream_id b = buf_stream_id d \<and>
     buf_frame_idx d = bi_frame_idx b \<and> bi_frame_idx b \<noteq> 0 \<and>
     i < length (bundled_streams (queue_of c s)) \<and> bundled_streams (queue_of c s) ! i = buf_stream_id d"

lemma node_bufs_fill:
  assumes "i < length (super_buf n)" and "\<not> has_buf (super_buf n ! i)" and "bi_buf b = Some d"
  shows "node_bufs (n\<lparr>super_buf := (super_buf n)[i := b]\<rparr>) = node_bufs n + {#d#}"
proof -
  let ?xs = "super_buf n"
  have "?xs = take i ?xs @ ?xs ! i # drop (Suc i) ?xs" using assms(1) by (rule id_take_nth_drop)
  then have "node_bufs n = some_bufs (map bi_buf (take i ?xs @ ?xs ! i # drop (Suc i) ?xs))"
    by (simp add: node_bufs_def)
  moreover have "?xs[i := b] = take i ?xs @ b # drop (Suc i) ?xs"
    using assms(1) by (rule upd_conv_take_nth_drop)
  ultimately show ?thesis
    using assms(2,3) by (simp add: node_bufs_def some_bufs_def has_buf_def)
qed

lemma slot_filled:
  assumes "node_ok hs n" and "b \<in> set (super_buf n)"
  shows "is_filled b \<longleftrightarrow> has_buf b"
  by (rule filled_has_buf(1) [OF assms])

lemma node_ok_fill:
  assumes "incoming c i b d s" and "node_ok (bundled_streams (queue_of c s)) n" and "frame_idx n = bi_frame_idx b"
  defines "m \<equiv> n\<lparr>super_buf := (super_buf n)[i := b]\<rparr>"
  shows "list_all is_filled (super_buf m) \<Longrightarrow> node_ok (bundled_streams (queue_of c s)) (m\<lparr>matched := True, expected_frame := e\<rparr>)"
    and "\<not> list_all is_filled (super_buf m) \<Longrightarrow> \<not> matched n \<Longrightarrow>
      node_ok (bundled_streams (queue_of c s)) m \<and> node_ok (bundled_streams (queue_of c s)) (m\<lparr>expected_frame := e\<rparr>)"
proof -
  let ?hs = "bundled_streams (queue_of c s)"
  have len: "length (super_buf n) = length ?hs" using assms(2) by (auto simp: node_ok_def list_all2_lengthD)
  have "slot_ok (frame_idx n) (?hs ! i) b" using assms(1,3) by (auto simp: incoming_def slot_ok_def)
  then have slots: "list_all2 (slot_ok (frame_idx n)) ?hs (super_buf m)"
    using assms(2) list_all2_update_cong [of "slot_ok (frame_idx n)" ?hs "super_buf n" "?hs ! i" b i]
    unfolding list_update_id by (simp add: m_def node_ok_def)
  have "b \<in> set (super_buf m)" using assms(1) len by (simp add: m_def incoming_def set_update_memI)
  then have ex: "list_ex is_filled (super_buf m)"
    using assms(1) by (auto simp: list_ex_iff is_filled_def incoming_def)
  show "list_all is_filled (super_buf m) \<Longrightarrow> node_ok ?hs (m\<lparr>matched := True, expected_frame := e\<rparr>)"
    using slots ex assms(2) by (simp add: node_ok_def m_def)
  show "\<not> list_all is_filled (super_buf m) \<Longrightarrow> \<not> matched n \<Longrightarrow> node_ok ?hs m \<and> node_ok ?hs (m\<lparr>expected_frame := e\<rparr>)"
    using slots ex assms(2) by (simp add: node_ok_def m_def)
qed

lemma q_bufs_append: "que q = xs @ ys \<Longrightarrow> q_bufs q = sum_list (map node_bufs xs) + sum_list (map node_bufs ys)"
  by (simp add: q_bufs_def)

text \<open>Calls on the way do not interfere with a change of the queue.\<close>

lemma qbuf_upd_q: "qbuf_opt c b (upd_q c f s) = upd_q c f (qbuf_opt c b s)"
  by (auto simp: qbuf_opt_def mm_channel_qbuf_def mm_tell_def upd_q_def upd_ch_def get_stream_by_handler_def
      split: option.split)

lemma slots_upd_q: "qbuf_slots c P n (upd_q c f s) = upd_q c f (qbuf_slots c P n s)"
proof -
  have "fold (\<lambda>b. qbuf_opt c (bi_buf b)) bs (upd_q c f s) = upd_q c f (fold (\<lambda>b. qbuf_opt c (bi_buf b)) bs s)" for bs
    by (induction bs arbitrary: s) (simp_all add: qbuf_upd_q)
  then show ?thesis by (simp add: qbuf_slots_def)
qed

lemma fold_slots_upd_q:
  "fold (qbuf_slots c P) ns (upd_q c f s) = upd_q c f (fold (qbuf_slots c P) ns s)"
  by (induction ns arbitrary: s) (simp_all add: slots_upd_q)

lemma sync_upd_q: "attr (g (queue_of c s)) = attr (queue_of c s) \<Longrightarrow>
    upd_q c g (sync_add f c s) = sync_add f c (upd_q c g s)"
  by (simp add: sync_add_def upd_q_def upd_ch_def)

lemma contract_fold_slots:
  assumes "\<forall>n \<in> set ns. node_ok (bundled_streams (queue_of c s)) n"
  shows "contract s (at c (sum_list (map node_bufs ns))) none (fold (qbuf_slots c is_filled) ns s)"
  using assms
proof (induction ns arbitrary: s)
  case Nil
  then show ?case by (simp add: contract_refl)
next
  case (Cons n ns)
  have n: "node_ok (bundled_streams (queue_of c s)) n" using Cons.prems by simp
  let ?t = "qbuf_slots c is_filled n s"
  have "contract s (at c (node_bufs n)) none ?t" by (rule contract_slots [OF n slot_filled [OF n]])
  moreover have "contract ?t (at c (sum_list (map node_bufs ns))) none (fold (qbuf_slots c is_filled) ns ?t)"
    by (rule Cons.IH) (use Cons.prems in auto)
  ultimately show ?case using contract_trans by (fastforce simp: at_add)
qed

text \<open>A node is completed and the older unmatched ones are released.\<close>

lemma contract_complete:
  assumes "mm_ok s" and "arranged ms (us1 @ n0 # us2) (queue_of c s)"
    and "node_ok (bundled_streams (queue_of c s)) n" and "matched n"
    and "node_bufs n = node_bufs n0 + M"
  defines "g \<equiv> \<lambda>q. q\<lparr>que := ms @ n # us2, que_size := que_size q - of_nat (length us1), match_cnt := match_cnt q + 1\<rparr>"
  shows "contract s (at c M) none (fold (qbuf_slots c is_filled) us1 (sync_add f c (upd_q c g s)))"
proof -
  let ?q = "queue_of c s" and ?t = "sync_add f c (upd_q c g s)"
  have a: "que ?q = ms @ us1 @ n0 # us2" "match_cnt ?q = of_nat (length ms)" "que_size ?q = of_nat (length (que ?q))"
    using assms(2) by (auto simp: arranged_def)
  have "arranged (ms @ [n]) us2 (g ?q)"
    using assms(2-4) by (auto simp: arranged_def g_def sorted_wrt_append)
  then have "queue_inv (g ?q)"
    by (rule queue_invI [OF mm_ok_queue [OF assms(1), of c]]) (simp_all add: g_def)
  then have "contract s (at c M) (at c (sum_list (map node_bufs us1))) (upd_q c g s)"
    using a assms(5) by (intro contract_upd_q) (auto simp: q_bufs_def g_def ac_simps)
  then have "contract s (at c M) (at c (sum_list (map node_bufs us1))) ?t"
    by (rule contract_flags(4))
  moreover have "\<forall>m \<in> set us1. node_ok (bundled_streams (queue_of c ?t)) m"
    using assms(2) by (auto simp: arranged_def list_all_iff g_def)
  ultimately show ?thesis using contract_close contract_fold_slots by blast
qed

lemma release_eq:
  fixes n :: queue_node and f :: int32
  assumes "arranged ms (us1 @ n0 # us2) (queue_of c s)"
  defines "pos \<equiv> length ms + length us1" and "older \<equiv> (if us1 = [] then None else Some (length ms))"
  defines "t \<equiv> sync_add f c (upd_q c (\<lambda>q. q\<lparr>match_cnt := match_cnt q + 1\<rparr>) (set_node c pos n s))"
  shows "(case older of None \<Rightarrow> t | Some l \<Rightarrow> release_nodes c l pos t) =
    fold (qbuf_slots c is_filled) us1 (sync_add f c
      (upd_q c (\<lambda>q. q\<lparr>que := ms @ n # us2, que_size := que_size q - of_nat (length us1),
                     match_cnt := match_cnt q + 1\<rparr>) s))"
proof -
  have q: "que (queue_of c s) = ms @ us1 @ n0 # us2" using assms(1) by (simp add: arranged_def)
  have two: "upd_q c g (upd_q c h u) = upd_q c (\<lambda>q. g (h q)) u" for g h u by (simp add: upd_q_def upd_ch_def)
  have cong: "upd_q c g u = upd_q c h u" if "g (queue_of c u) = h (queue_of c u)" for g h u
    using that by (simp add: upd_q_def upd_ch_def)
  have qt: "que (queue_of c t) = ms @ us1 @ n # us2"
    using q by (simp add: t_def set_node_def pos_def list_update_append)
  show ?thesis
  proof (cases "us1 = []")
    case True
    have "t = sync_add f c (upd_q c (\<lambda>q. q\<lparr>que := ms @ n # us2, que_size := que_size q - of_nat (length us1),
        match_cnt := match_cnt q + 1\<rparr>) s)"
      unfolding t_def set_node_def two using q True
      by (intro arg_cong [of _ _ "sync_add f c"] cong) (simp add: pos_def)
    then show ?thesis using True by (simp add: older_def)
  next
    case False
    let ?g = "\<lambda>q. q\<lparr>que := take (length ms) (que q) @ drop pos (que q), que_size := que_size q - of_nat (length us1)\<rparr>"
    have gone: "take (pos - length ms) (drop (length ms) (que (queue_of c t))) = us1"
      "max (length ms) pos = pos" by (simp_all add: qt pos_def)
    have "release_nodes c (length ms) pos t = upd_q c ?g (fold (qbuf_slots c is_filled) us1 t)"
      unfolding release_nodes_def gone Let_def by simp
    also have "\<dots> = fold (qbuf_slots c is_filled) us1 (upd_q c ?g t)" by (simp add: fold_slots_upd_q)
    also have "upd_q c ?g t = sync_add f c (upd_q c ?g (upd_q c (\<lambda>q. q\<lparr>match_cnt := match_cnt q + 1\<rparr>) (set_node c pos n s)))"
      unfolding t_def by (rule sync_upd_q) simp
    also have "upd_q c ?g (upd_q c (\<lambda>q. q\<lparr>match_cnt := match_cnt q + 1\<rparr>) (set_node c pos n s)) =
        upd_q c (\<lambda>q. q\<lparr>que := ms @ n # us2, que_size := que_size q - of_nat (length us1), match_cnt := match_cnt q + 1\<rparr>) s"
      unfolding set_node_def two using q by (intro cong) (simp add: pos_def list_update_append)
    finally show ?thesis using False by (simp add: older_def)
  qed
qed

lemma arranged_same: "same_queue q r \<Longrightarrow> arranged ms us q \<Longrightarrow> arranged ms us r"
  by (auto simp: arranged_def same_queue_def)

lemma contract_node_matched:
  assumes "mm_ok s" and "arranged ms (us1 @ n0 # us2) (queue_of c s)"
    and "node_ok (bundled_streams (queue_of c s)) (n\<lparr>matched := True, expected_frame := False\<rparr>)"
    and "node_bufs n = node_bufs n0 + M"
  shows "contract s (at c M) none (node_matched c b (length ms + length us1)
    (if us1 = [] then None else Some (length ms)) n s)"
proof -
  define s1 where "s1 = (if isFlashBracketingEnabled (chs s c)
    then upd_ch c (\<lambda>ch. ch\<lparr>isFlashBracketingEnabled := bi_frame_idx b < expected_frame_id_without_led (queue_of c s)\<rparr>)
           (upd_q c (\<lambda>q. q\<lparr>expected_frame_id := expected_frame_id_without_led q\<rparr>) s)
    else upd_q c (\<lambda>q. q\<lparr>expected_frame_id := bi_frame_idx b + ucast (post_frame_skip (attr q))\<rparr>) s)"
  have s1: "contract s none none s1" "same_queue (queue_of c s) (queue_of c s1)"
    by (auto simp: s1_def same_queue_def intro!: contract_intros) (simp_all add: upd_ch_def)
  then have ok: "mm_ok s1" using assms(1) by (simp add: contract_def)
  have bnd: "bundled_streams (queue_of c s1) = bundled_streams (queue_of c s)"
    using s1(2) by (simp add: same_queue_def)
  let ?n = "n\<lparr>matched := True, expected_frame := False\<rparr>"
  have "node_bufs ?n = node_bufs n0 + M" using assms(4) by (simp add: node_bufs_def)
  from contract_complete [OF ok arranged_same [OF s1(2) assms(2)] _ _ this, unfolded bnd, OF assms(3)]
    contract_seq [OF s1(1)]
  have "contract s (at c M) none (fold (qbuf_slots c is_filled) us1 (sync_add (bi_frame_idx b) c
      (upd_q c (\<lambda>q. q\<lparr>que := ms @ ?n # us2, que_size := que_size q - of_nat (length us1),
         match_cnt := match_cnt q + 1\<rparr>) s1)))"
    by simp
  then show ?thesis
    unfolding release_eq [OF arranged_same [OF s1(2) assms(2)], symmetric]
    by (simp only: node_matched_def s1_def Let_def)
qed

lemma contract_fill:
  assumes "mm_ok s" and "arranged ms (us1 @ n # us2) (queue_of c s)" and "incoming c i b d s"
    and "frame_idx n = bi_frame_idx b"
  shows "contract s (at c {#d#}) none (fill_found c b i (length ms + length us1)
    (if us1 = [] then None else Some (length ms)) s)"
proof -
  let ?pos = "length ms + length us1" and ?q = "queue_of c s"
  have q: "que ?q = ms @ us1 @ n # us2" using assms(2) by (simp add: arranged_def)
  have n: "node_ok (bundled_streams ?q) n" "\<not> matched n"
    using assms(2) by (auto simp: arranged_def list_all_iff)
  then have len: "i < length (super_buf n)" using assms(3) by (auto simp: incoming_def node_ok_def dest: list_all2_lengthD)
  have in_bundle: "buf_stream_id d \<in> set (bundled_streams ?q)"
    using assms(3) by (auto simp: incoming_def in_set_conv_nth)
  let ?m = "n\<lparr>super_buf := (super_buf n)[i := b]\<rparr>"
  show ?thesis
  proof (cases "is_filled (super_buf n ! i)")
    case True
    let ?t = "set_node c ?pos n s"
    have "contract s none none ?t"
      using q by (auto simp: set_node_def same_queue_def list_update_append intro!: contract_intros)
    moreover have "contract ?t (at c {#d#}) none (mm_channel_qbuf c d ?t)"
      by (rule contract_qbuf) (simp add: set_node_def in_bundle)
    ultimately have "contract s (at c {#d#}) none (mm_channel_qbuf c d ?t)" by (rule contract_seq)
    then show ?thesis
      using True n q assms(3) by (simp add: fill_found_def node_ok_def incoming_def)
  next
    case False
    have nb: "\<not> has_buf (super_buf n ! i)" using False slot_filled [OF n(1)] len by simp
    have bufs: "node_bufs ?m = node_bufs n + {#d#}"
      by (rule node_bufs_fill [OF len nb]) (use assms(3) in \<open>simp add: incoming_def\<close>)
    have one: "contract s (at c {#d#}) none (set_node c ?pos m s)"
      if m: "node_ok (bundled_streams ?q) m" "\<not> matched m" "node_bufs m = node_bufs n + {#d#}"
        "frame_idx m = frame_idx n" for m
    proof -
      let ?f = "\<lambda>q. q\<lparr>que := (que q)[?pos := m]\<rparr>"
      have que: "que (?f ?q) = ms @ us1 @ m # us2" using q by (simp add: list_update_append)
      have "arranged ms (us1 @ m # us2) (?f ?q)"
        using assms(2) m que by (auto simp: arranged_def sorted_wrt_append)
      then have "queue_inv (?f ?q)" by (rule queue_invI [OF mm_ok_queue [OF assms(1), of c]]) simp_all
      then have "contract s (at c {#d#}) (at c {#}) (upd_q c ?f s)"
        using que q m(3) by (intro contract_upd_q) (auto simp: q_bufs_def)
      then show ?thesis by (simp add: set_node_def)
    qed
    show ?thesis
    proof (cases "list_all is_filled (super_buf ?m)")
      case True
      note ok = node_ok_fill(1) [OF assms(3) n(1) assms(4) True, of False]
      from contract_node_matched [OF assms(1,2) ok bufs] True False n q show ?thesis
        by (simp add: fill_found_def node_ok_def)
    next
      case hole: False
      note ok = node_ok_fill(2) [OF assms(3) n(1) assms(4) hole n(2)]
      have "contract s (at c {#d#}) none (set_node c ?pos ?m s)"
        "contract s (at c {#d#}) none (set_node c ?pos (?m\<lparr>expected_frame := True\<rparr>) s)"
        using ok [of True] n(2) bufs by (auto intro!: one simp: node_bufs_def)
      then have "contract s (at c {#d#}) none (set_node c ?pos ?m s)"
        "contract s (at c {#d#}) none (upd_ch c (\<lambda>ch. ch\<lparr>diverted_frame_id := 0\<rparr>)
           (set_node c ?pos (?m\<lparr>expected_frame := True\<rparr>) s))"
        by (auto intro: contract_upd)
      then show ?thesis using hole False n q by (simp add: fill_found_def node_ok_def Let_def)
    qed
  qed
qed

section \<open>A buffer that begins a node\<close>

lemma find_droppable_at:
  "find_droppable before p ns = Some x \<Longrightarrow>
     p \<le> x \<and> x < p + length ns \<and> before \<noteq> Some x"
  by (induction ns arbitrary: p) (fastforce split: if_splits)+

text \<open>What a dropped node leaves: a place for the frame among one node less.\<close>

definition room :: "queue_node list \<Rightarrow> queue_node list \<Rightarrow> queue_node list \<Rightarrow> buf_info \<Rightarrow> channel_queue \<Rightarrow> bool" where
  "room ms us1 us2 b q \<longleftrightarrow> arranged ms (us1 @ us2) q \<and> (\<forall>n \<in> set us1. frame_idx n < bi_frame_idx b) \<and>
     (\<forall>n \<in> set us2. bi_frame_idx b < frame_idx n)"

definition place_of :: "queue_node list \<Rightarrow> queue_node list \<Rightarrow> queue_node list \<Rightarrow> nat option" where
  "place_of ms us1 us2 = (if us2 = [] then None else Some (length ms + length us1))"

lemma drop_room:
  assumes "room ms us1 us2 b q" and "length ms \<le> p" and "p < length ms + length (us1 @ us2)"
    and "place_of ms us1 us2 \<noteq> Some p"
  defines "r \<equiv> q\<lparr>que := take p (que q) @ drop (Suc p) (que q), que_size := que_size q - 1\<rparr>"
  shows "\<exists>vs1 vs2. room ms vs1 vs2 b r \<and> Suc (length (vs1 @ vs2)) = length (us1 @ us2) \<and>
    place_of ms vs1 vs2 = after_drop p (place_of ms us1 us2)"
proof -
  have a: "arranged ms (us1 @ us2) q" using assms(1) by (simp add: room_def)
  then have q: "que q = ms @ us1 @ us2" "que_size q = of_nat (length (que q))" "match_cnt q = of_nat (length ms)"
    by (simp_all add: arranged_def)
  define k where "k = p - length ms"
  have p: "p = length ms + k" "k < length (us1 @ us2)" using assms(2,3) by (auto simp: k_def)
  have cut: "que r = ms @ take k (us1 @ us2) @ drop (Suc k) (us1 @ us2)"
    by (simp add: r_def q(1) p(1))
  have ar: "arranged ms (take k (us1 @ us2) @ drop (Suc k) (us1 @ us2)) r"
  proof (rule arranged_cut [OF a cut])
    show "match_cnt r = of_nat (length ms)" by (simp add: r_def q(3))
    have "length (que q) = Suc (length (que r))" using p(2) by (simp add: cut q(1))
    then show "que_size r = of_nat (length (que r))" using q(2) by (simp add: r_def)
  qed (simp_all add: r_def)
  show ?thesis
  proof (cases "k < length us1")
    case True
    let ?v = "take k us1 @ drop (Suc k) us1"
    have "take k (us1 @ us2) @ drop (Suc k) (us1 @ us2) = ?v @ us2" using True by simp
    then have "room ms ?v us2 b r"
      using ar assms(1) by (auto simp: room_def dest: in_set_takeD in_set_dropD)
    moreover have "Suc (length (?v @ us2)) = length (us1 @ us2)" using True by simp
    moreover have "place_of ms ?v us2 = after_drop p (place_of ms us1 us2)"
      using True by (simp add: place_of_def after_drop_def p(1))
    ultimately show ?thesis by blast
  next
    case False
    let ?j = "k - length us1"
    let ?v = "take ?j us2 @ drop (Suc ?j) us2"
    have j: "?j < length us2" using False p(2) by simp
    then have "us2 \<noteq> []" by auto
    then have "?j \<noteq> 0" using assms(4) p(1) False by (auto simp: place_of_def)
    have "take k (us1 @ us2) @ drop (Suc k) (us1 @ us2) = us1 @ ?v" using False by (simp add: Suc_diff_le)
    then have "room ms us1 ?v b r"
      using ar assms(1) by (auto simp: room_def dest: in_set_takeD in_set_dropD)
    moreover have "Suc (length (us1 @ ?v)) = length (us1 @ us2)" using j by simp
    moreover have "place_of ms us1 ?v = after_drop p (place_of ms us1 us2)"
      using \<open>?j \<noteq> 0\<close> \<open>us2 \<noteq> []\<close> False by (cases us2) (auto simp: place_of_def after_drop_def p(1))
    ultimately show ?thesis by blast
  qed
qed

lemma release_one:
  assumes "p < length (que (queue_of c s))"
  shows "release_nodes c p (p + 1) s = qbuf_slots c is_filled (que (queue_of c s) ! p)
    (upd_q c (\<lambda>q. q\<lparr>que := take p (que q) @ drop (Suc p) (que q), que_size := que_size q - 1\<rparr>) s)"
proof -
  have "take (p + 1 - p) (drop p (que (queue_of c s))) = [que (queue_of c s) ! p]"
    using assms by (simp add: take_Suc_conv_app_nth hd_drop_conv_nth)
  moreover have "max p (p + 1) = Suc p" by simp
  ultimately show ?thesis unfolding release_nodes_def Let_def by (simp add: slots_upd_q)
qed

lemma contract_drop_unmatched:
  assumes "mm_ok s" and "room ms us1 us2 b (queue_of c s)" and "us1 \<noteq> []"
    and "unat (max_unmatched_frames (attr (queue_of c s))) < length (us1 @ us2)"
    and "scan_unmatched r = of_nat (length (us1 @ us2))" and "scan_before r = place_of ms us1 us2"
  obtains p t vs1 vs2 where "drop_unmatched c r (length ms) s = (p, t)" "contract s none none t"
    "room ms vs1 vs2 b (queue_of c t)" "length (vs1 @ vs2) \<le> unat (max_unmatched_frames (attr (queue_of c t)))"
    "place_of ms vs1 vs2 = after_drop p (scan_before r)"
    "bundled_streams (queue_of c t) = bundled_streams (queue_of c s)"
proof -
  let ?q = "queue_of c s"
  have a: "arranged ms (us1 @ us2) ?q" using assms(2) by (simp add: room_def)
  then have que: "que ?q = ms @ us1 @ us2" "length (us1 @ us2) \<le> Suc (unat (max_unmatched_frames (attr ?q)))"
    by (simp_all add: arranged_def)
  have max: "max_unmatched_frames (attr ?q) < 255"
    using mm_ok_queue [OF assms(1), of c] by (simp add: queue_inv_def)
  then have max_nat: "unat (max_unmatched_frames (attr ?q)) < 255"
    by (simp add: word_less_nat_alt)
  have len: "length (us1 @ us2) = Suc (unat (max_unmatched_frames (attr ?q)))" using que(2) assms(4) by simp
  have fine: "\<not> max_unmatched_frames (attr ?q) < scan_unmatched r - 1"
    unfolding assms(5) len by simp
  let ?f = "\<lambda>p q. q\<lparr>que := take p (que q) @ drop (Suc p) (que q), que_size := que_size q - 1\<rparr>"
  have one: "contract s none none (release_nodes c p (p + 1) u) \<and>
      (\<exists>vs1 vs2. room ms vs1 vs2 b (queue_of c (release_nodes c p (p + 1) u)) \<and>
        length (vs1 @ vs2) \<le> unat (max_unmatched_frames (attr (queue_of c (release_nodes c p (p + 1) u)))) \<and>
        place_of ms vs1 vs2 = after_drop p (scan_before r)) \<and>
      bundled_streams (queue_of c (release_nodes c p (p + 1) u)) = bundled_streams ?q"
    if p: "length ms \<le> p" "p < length ms + length (us1 @ us2)" "place_of ms us1 us2 \<noteq> Some p"
      and u: "contract s none none u" "queue_of c u = ?q" for p u
  proof -
    have "p < length (que (queue_of c u))" using p(2) que(1) u(2) by simp
    note rel = release_one [OF this]
    obtain vs1 vs2 where v: "room ms vs1 vs2 b (?f p ?q)" "Suc (length (vs1 @ vs2)) = length (us1 @ us2)"
      "place_of ms vs1 vs2 = after_drop p (place_of ms us1 us2)"
      using drop_room [OF assms(2) p] by blast
    have ok: "mm_ok u" using assms(1) u(1) by (simp add: contract_def)
    let ?n = "que ?q ! p"
    have n: "node_ok (bundled_streams ?q) ?n"
      using p(2) que(1) by (intro mm_ok_node [OF assms(1)] nth_mem) simp
    have "queue_inv (?f p ?q)"
      using v(1) by (intro queue_invI [OF mm_ok_queue [OF assms(1), of c]]) (auto simp: room_def)
    then have "contract u (at c {#}) (at c (node_bufs ?n)) (upd_q c (?f p) u)"
      using sum_list_without [of p "que ?q" node_bufs] p(2) que(1)
      by (intro contract_upd_q) (auto simp: u(2) q_bufs_def)
    then have "contract s none (at c (node_bufs ?n)) (upd_q c (?f p) u)"
      using contract_seq [OF u(1)] by simp
    moreover have "contract (upd_q c (?f p) u) (at c (node_bufs ?n)) none
        (qbuf_slots c is_filled ?n (upd_q c (?f p) u))"
      using n by (intro contract_slots slot_filled) (auto simp: u(2))
    ultimately have "contract s none none (release_nodes c p (p + 1) u)"
      unfolding rel u(2) by (rule contract_close)
    moreover have "queue_of c (release_nodes c p (p + 1) u) = ?f p ?q"
      unfolding rel by (simp add: u(2))
    moreover have "\<exists>vs1 vs2. room ms vs1 vs2 b (?f p ?q) \<and>
        length (vs1 @ vs2) \<le> unat (max_unmatched_frames (attr (?f p ?q))) \<and>
        place_of ms vs1 vs2 = after_drop p (scan_before r)"
      by (rule exI [of _ vs1], rule exI [of _ vs2]) (use v len assms(6) in simp)
    ultimately show ?thesis by simp
  qed
  show ?thesis
  proof (cases "find_droppable (scan_before r) (length ms) (drop (length ms) (que ?q))")
    case None
    have "place_of ms us1 us2 \<noteq> Some (length ms)" using assms(3) by (simp add: place_of_def)
    from one [OF _ _ this contract_refl refl] assms(3) None that show ?thesis
      by (auto simp: drop_unmatched_def)
  next
    case (Some p)
    let ?u = "s\<lparr>read_freed := True,
        bad_link := bad_link s \<or> max_unmatched_frames (attr ?q) < scan_unmatched r - 1\<rparr>"
    have u: "contract s none none ?u" "queue_of c ?u = ?q"
      using fine by (auto intro!: contract_aside simp: aside_def same_queue_def)
    have p: "length ms \<le> p" "p < length ms + length (us1 @ us2)" "place_of ms us1 us2 \<noteq> Some p"
      using find_droppable_at [OF Some] que(1) assms(6) by auto
    from one [OF p u] Some that show ?thesis by (auto simp: drop_unmatched_def)
  qed
qed

lemma contract_insert:
  assumes "mm_ok s" and "room ms us1 us2 b (queue_of c s)" and "incoming c i b d s"
    and "length (us1 @ us2) \<le> unat (max_unmatched_frames (attr (queue_of c s)))"
  shows "contract s (at c {#d#}) none (insert_new c b i (place_of ms us1 us2) s)"
proof -
  obtain ok1 s1 where s1: "mm_malloc s = (ok1, s1)" by (cases "mm_malloc s")
  obtain ok2 s2 where s2: "mm_malloc s1 = (ok2, s2)" by (cases "mm_malloc s1")
  have m: "contract s none none s2" "chs s2 = chs s"
    using contract_flags(2) [OF contract_flags(2) [OF contract_refl, of s]] s1 s2
    by (auto simp: mm_malloc_def)
  let ?q = "queue_of c s" and ?hs = "bundled_streams (queue_of c s)"
  let ?one = "length ?hs = 1"
  have d: "bi_buf b = Some d" "i < length ?hs" "?hs ! i = buf_stream_id d" "bi_frame_idx b \<noteq> 0"
    using assms(3) by (auto simp: incoming_def)
  show ?thesis
  proof (cases "ok1 \<and> ok2")
    case False
    have "contract s2 (at c {#d#}) none (mm_channel_qbuf c d s2)"
      using d by (intro contract_qbuf) (auto simp: m(2) in_set_conv_nth)
    from contract_seq [OF m(1) this] False s1 s2 d(1) show ?thesis by (auto simp: insert_new_def)
  next
    case True
    have low: "sb_prio (attr ?q) \<noteq> PRIORITY_LOW"
      using mm_ok_queue [OF assms(1), of c] by (simp add: queue_inv_def)
    define good where "good \<longleftrightarrow> ucast (diverted_frame_id (chs s c)) = bi_frame_idx b \<or> bi_frame_idx b = good_frame_id ?q"
    define n where "n = \<lparr>super_buf = (replicate (length ?hs) no_buf)[i := b], matched = ?one,
      expected_frame = (good \<and> \<not> ?one), frame_idx = bi_frame_idx b, unmatched_meta_idx = 0\<rparr>"
    define s3 where "s3 = (if good then upd_ch c (\<lambda>ch. ch\<lparr>diverted_frame_id := 0\<rparr>) s2 else s2)"
    have s3: "contract s none none s3" "same_queue ?q (queue_of c s3)"
      using m by (auto simp: s3_def intro!: contract_upd) (simp_all add: upd_ch_def)
    have ok3: "mm_ok s3" using s3(1) assms(1) by (simp add: contract_def)
    have room3: "room ms us1 us2 b (queue_of c s3)"
      using assms(2) arranged_same [OF s3(2)] by (simp add: room_def)
    have q3: "que (queue_of c s3) = ms @ us1 @ us2" "bundled_streams (queue_of c s3) = ?hs"
      "max_unmatched_frames (attr (queue_of c s3)) = max_unmatched_frames (attr ?q)"
      using room3 s3(2) by (auto simp: room_def arranged_def same_queue_def)
    let ?before = "place_of ms us1 us2"
    have slots: "list_all2 (slot_ok (bi_frame_idx b)) ?hs (super_buf n)"
    proof -
      have "list_all2 (slot_ok (bi_frame_idx b)) ?hs (replicate (length ?hs) no_buf)"
        by (simp add: list_all2_conv_all_nth slot_ok_def)
      moreover have "slot_ok (bi_frame_idx b) (?hs ! i) b" using assms(3) by (auto simp: slot_ok_def incoming_def)
      ultimately show ?thesis
        using list_all2_update_cong [of "slot_ok (bi_frame_idx b)" ?hs "replicate (length ?hs) no_buf" "?hs ! i" b i]
        unfolding list_update_id by (simp add: n_def)
    qed
    have filled: "list_all is_filled (super_buf n) \<longleftrightarrow> ?one"
    proof
      assume all: "list_all is_filled (super_buf n)"
      show ?one
      proof (rule ccontr)
        assume "\<not> ?one"
        then obtain j where j: "j < length ?hs" "j \<noteq> i" using d(2)
          by (metis One_nat_def Suc_lessI gr_implies_not0 less_Suc0 neq0_conv zero_less_Suc)
        then have "\<not> is_filled (super_buf n ! j)" by (simp add: n_def)
        with all j(1) show False by (simp add: list_all_length n_def)
      qed
    next
      assume ?one
      then have "super_buf n = [b]" using d(2) by (simp add: n_def)
      then show "list_all is_filled (super_buf n)" using d(4) by (simp add: is_filled_def)
    qed
    have "b \<in> set (super_buf n)" using d(2) by (simp add: n_def set_update_memI)
    then have n: "node_ok ?hs n"
      using slots filled d(4) by (auto simp: node_ok_def n_def list_ex_iff is_filled_def)
    have bufs: "node_bufs n = {#d#}"
    proof -
      let ?e = "\<lparr>super_buf = replicate (length ?hs) no_buf, matched = ?one, expected_frame = (good \<and> \<not> ?one),
        frame_idx = bi_frame_idx b, unmatched_meta_idx = 0\<rparr>"
      have "node_bufs ?e = {#}" by (simp add: node_bufs_def some_bufs_def)
      then show ?thesis using node_bufs_fill [of i ?e b d] d(1,2) by (simp add: n_def)
    qed
    let ?f = "\<lambda>q. q\<lparr>que := insert_at ?before n (que q), que_size := que_size q + 1\<rparr>"
    let ?g = "\<lambda>q. (?f q)\<lparr>match_cnt := match_cnt q + 1, expected_frame_id := bi_frame_idx b + ucast (post_frame_skip (attr q))\<rparr>"
    let ?h = "if ?one then ?g else ?f"
    have que: "que (?h (queue_of c s3)) = ms @ us1 @ n # us2"
      by (simp add: q3(1) place_of_def insert_at_def)
    have inv: "queue_inv (?h (queue_of c s3))"
    proof -
      have a: "arranged ms (us1 @ us2) (queue_of c s3)" using room3 by (simp add: room_def)
      have "arranged (if ?one then ms @ [n] else ms) (if ?one then us1 @ us2 else us1 @ n # us2) (?h (queue_of c s3))"
      proof (cases ?one)
        case True
        have "us1 @ us2 = []"
        proof (rule ccontr)
          assume "us1 @ us2 \<noteq> []"
          then obtain u where u: "u \<in> set (us1 @ us2)" by (meson last_in_set)
          then have "node_ok ?hs u" "\<not> matched u" using a q3(2) by (auto simp: arranged_def list_all_iff)
          then show False using True
            by (cases "super_buf u") (auto simp: node_ok_def dest!: list_all2_lengthD)
        qed
        then show ?thesis using a True n q3 by (auto simp: arranged_def n_def place_of_def insert_at_def)
      next
        case False
        then show ?thesis
          using a n q3 que assms(2,4)
            by (simp add: arranged_def n_def room_def sorted_wrt_append place_of_def insert_at_def)
      qed
      then show ?thesis by (rule queue_invI [OF mm_ok_queue [OF ok3, of c]]) simp_all
    qed
    have "contract s3 (at c {#d#}) (at c {#}) (upd_q c ?h s3)"
      using inv que bufs by (intro contract_upd_q) (auto simp: q_bufs_def q3(1))
    then have "contract s3 (at c {#d#}) none (upd_q c ?h s3)" by simp
    from contract_seq [OF s3(1) this]
    have fin: "contract s (at c {#d#}) none (upd_q c ?h s3)" "contract s (at c {#d#}) none (sync_add (bi_frame_idx b) c (upd_q c ?h s3))"
      by (auto intro: contract_flags)
    have two: "upd_q c g (upd_q c h u) = upd_q c (\<lambda>q. g (h q)) u" for g h u by (simp add: upd_q_def upd_ch_def)
    have "insert_new c b i (place_of ms us1 us2) s =
      (if ?one then sync_add (bi_frame_idx b) c (upd_q c ?g s3) else upd_q c ?f s3)"
      using True low
      by (simp add: insert_new_def s1 s2 m(2) Let_def two good_def s3_def n_def)
    then show ?thesis using fin by (cases ?one) simp_all
  qed
qed

section \<open>The whole operation\<close>

lemma len_u8:
  assumes "n < 256"
  shows "unat (of_nat n :: u8) = n"
  using assms by (simp add: unat_of_nat take_bit_nat_eq_self)

lemma u8_less:
  assumes "arranged ms us q" and "max_unmatched_frames (attr q) < 255"
  shows "max_unmatched_frames (attr q) < of_nat (length us) \<longleftrightarrow> unat (max_unmatched_frames (attr q)) < length us"
proof -
  have "unat (max_unmatched_frames (attr q)) < 255" using assms(2) by (simp add: word_less_nat_alt)
  then have "length us < 256" using assms(1) by (simp add: arranged_def)
  then show ?thesis by (simp add: word_less_nat_alt len_u8)
qed

lemma contract_enqueue_unmatched:
  assumes "mm_ok s" and "room ms us1 us2 b (queue_of c s)" and "incoming c i b d s"
    and "r = scan_queue (sb_prio (attr (queue_of c s))) i b 0 (que (queue_of c s)) scan_start"
  shows "contract s (at c {#d#}) none (enqueue_unmatched c b i r s)"
proof -
  let ?q = "queue_of c s" and ?us = "us1 @ us2"
  have inv: "sb_prio (attr ?q) \<noteq> PRIORITY_LOW" "max_unmatched_frames (attr ?q) < 255"
    using mm_ok_queue [OF assms(1), of c] by (auto simp: queue_inv_def)
  have a: "arranged ms ?us ?q" and us: "\<forall>n \<in> set us1. frame_idx n < bi_frame_idx b"
    "\<forall>n \<in> set us2. bi_frame_idx b < frame_idx n" using assms(2) by (auto simp: room_def)
  have r: "scan_unmatched r = of_nat (length ?us)" "scan_last r = (if us1 = [] then None else Some (length ms))"
    "scan_before r = place_of ms us1 us2"
    unfolding assms(4) scan_none [OF a inv(1) us] by (simp_all add: place_of_def)
  note full = u8_less [OF a inv(2), folded r(1)]
  show ?thesis
  proof (cases "max_unmatched_frames (attr ?q) < scan_unmatched r")
    case False
    then have "length ?us \<le> unat (max_unmatched_frames (attr ?q))" using full by simp
    from contract_insert [OF assms(1-3) this] False r(3) show ?thesis by (simp add: enqueue_unmatched_def)
  next
    case over: True
    show ?thesis
    proof (cases "us1 = []")
      case True
      have "contract s (at c {#d#}) none (mm_channel_qbuf c d s)"
        using assms(3) by (intro contract_qbuf) (auto simp: incoming_def in_set_conv_nth)
      then show ?thesis using over True r(2) assms(3) by (simp add: enqueue_unmatched_def incoming_def)
    next
      case False
      have "unat (max_unmatched_frames (attr ?q)) < length ?us" using over full by blast
      from contract_drop_unmatched [OF assms(1,2) False this r(1,3)] obtain p t vs1 vs2 where
        t: "drop_unmatched c r (length ms) s = (p, t)" "contract s none none t"
        "room ms vs1 vs2 b (queue_of c t)" "length (vs1 @ vs2) \<le> unat (max_unmatched_frames (attr (queue_of c t)))"
        "place_of ms vs1 vs2 = after_drop p (scan_before r)"
        "bundled_streams (queue_of c t) = bundled_streams (queue_of c s)" .
      have "mm_ok t" using t(2) assms(1) by (simp add: contract_def)
      moreover have "incoming c i b d t" using assms(3) t(6) by (simp add: incoming_def)
      ultimately have "contract t (at c {#d#}) none (insert_new c b i (place_of ms vs1 vs2) t)"
        using t(3,4) by (intro contract_insert)
      from contract_seq [OF t(2) this] show ?thesis
        using over False r(2) t(1,5) by (simp add: enqueue_unmatched_def)
    qed
  qed
qed

text \<open>
  The buffer of a command: its descriptor agrees with it, as the stream fills both from one frame,
  and its stream is one of the bundle.
\<close>

definition frame_of :: "nat \<Rightarrow> buf_info \<Rightarrow> buf_def \<Rightarrow> mm_sys \<Rightarrow> bool" where
  "frame_of c b d s \<longleftrightarrow> bi_buf b = Some d \<and> bi_stream_id b = buf_stream_id d \<and>
     buf_frame_idx d = bi_frame_idx b \<and> buf_stream_id d \<in> set (bundled_streams (queue_of c s))"

lemma contract_match:
  assumes "mm_ok s" and "incoming c i b d s"
    and "r = scan_queue (sb_prio (attr (queue_of c s))) i b 0 (que (queue_of c s)) scan_start"
  shows "contract s (at c {#d#}) none (case scan_found r of
      Some pos \<Rightarrow> fill_found c b i pos (scan_last r) s | None \<Rightarrow> enqueue_unmatched c b i r s)"
proof -
  let ?q = "queue_of c s"
  obtain ms us where a: "arranged ms us ?q" and low: "sb_prio (attr ?q) \<noteq> PRIORITY_LOW"
    using mm_ok_queue [OF assms(1), of c] by (auto simp: queue_inv_def)
  have "sorted_wrt (\<lambda>a b. frame_idx a < frame_idx b) us" using a by (simp add: arranged_def)
  then show ?thesis
  proof (cases rule: sorted_place [where f = "bi_frame_idx b"])
    case (1 us1 us2)
    then have room: "room ms us1 us2 b ?q" using a by (simp add: room_def)
    have "scan_found r = None"
      unfolding assms(3) scan_none [OF a [unfolded 1(1)] low 1(2,3)] by simp
    then show ?thesis using contract_enqueue_unmatched [OF assms(1) room assms(2,3)] by simp
  next
    case (2 us1 n us2)
    show ?thesis
      using contract_fill [OF assms(1) a [unfolded 2(1)] assms(2) 2(3)]
        scan_found_at [OF a [unfolded 2(1)] low 2(2,3), of i, folded assms(3)] by simp
  qed
qed

lemma contract_enqueue:
  assumes "frame_of c b d s"
  shows "contract s (at c {#d#}) none (snd (superbuf_comp_and_enqueue c b md s))"
proof -
  let ?hs = "bundled_streams (queue_of c s)"
  have d: "bi_buf b = Some d" "bi_stream_id b = buf_stream_id d" "buf_frame_idx d = bi_frame_idx b"
    "buf_stream_id d \<in> set ?hs" using assms by (auto simp: frame_of_def)
  then obtain i where i: "index_of (\<lambda>h. bi_stream_id b = h) ?hs = Some i"
    using index_of_None [of "\<lambda>h. bi_stream_id b = h" ?hs "buf_stream_id d"]
    by (cases "index_of (\<lambda>h. bi_stream_id b = h) ?hs") auto
  note at_i = index_of_Some [OF i]
  obtain ok s1 where s1: "mm_channel_handle_metadata c b md s = (ok, s1)" by fastforce
  then have m: "contract s none none s1" using contract_metadata [of s c b md] by simp
  have ret: "contract u (at c {#d#}) none (mm_channel_qbuf c d u)"
    if "bundled_streams (queue_of c u) = ?hs" for u
    by (rule contract_qbuf) (simp add: that d(4))
  show ?thesis
  proof (cases "mm_ok s")
    case False
    then show ?thesis by (simp add: contract_def)
  next
    case ok: True
    then have s1_ok: "mm_ok s1" "bundled_streams (queue_of c s1) = ?hs" using m by (simp_all add: contract_def)
    note back1 = contract_seq [OF m ret [OF s1_ok(2)]]
    show ?thesis
    proof (cases "bi_frame_idx b = 0")
      case True
      then show ?thesis using i d(1) ret [OF refl] by (simp add: superbuf_comp_and_enqueue_def)
    next
      case False
      then have inc: "incoming c i b d s1" using at_i d s1_ok(2) by (auto simp: incoming_def)
      note match = contract_seq [OF m contract_match [OF s1_ok(1) inc refl, unfolded scan_start_def]]
      show ?thesis
        using i s1 False back1 match d(1) by (simp add: superbuf_comp_and_enqueue_def Let_def)
    qed
  qed
qed

end
