(* ===== verification/Mm_Dispatch_Inv.thy ===== *)
theory Mm_Dispatch_Inv
  imports Mm_Match_Inv
begin

text \<open>
  The contract of a command: it returns, it keeps the invariant of every channel, and the buffer
  that came with it is in the queue or has left, with every other buffer, through one call, except
  for what the command loses: a frame of a stream that is not bundled, and the buffers of the other
  streams in a flush of one type of stream.
\<close>

section \<open>Commands\<close>

definition cmd_bufs :: "nat \<Rightarrow> mm_cmd \<Rightarrow> nat \<Rightarrow> buf_def multiset" where
  "cmd_bufs c cmd = (case cmd of
      CMD_DATA_CB b md \<Rightarrow> at c (some_bufs [bi_buf b])
    | _ \<Rightarrow> none)"

text \<open>
  What is assumed of a command: the descriptor of a frame agrees with its buffer, as the stream
  fills both from one frame.
\<close>

definition cmd_ok :: "mm_cmd \<Rightarrow> bool" where
  "cmd_ok cmd \<longleftrightarrow> (case cmd of
      CMD_DATA_CB b md \<Rightarrow> (case bi_buf b of
        None \<Rightarrow> False
      | Some d \<Rightarrow> bi_stream_id b = buf_stream_id d \<and> buf_frame_idx d = bi_frame_idx b)
    | _ \<Rightarrow> True)"

definition is_type :: "stream_type \<Rightarrow> buf_def \<Rightarrow> bool" where
  "is_type ty d \<longleftrightarrow> ty = CAM_STREAM_TYPE_DEFAULT \<or> buf_stream_type d = ty"

text \<open>What a command neither keeps nor hands on.\<close>

definition cmd_lost :: "nat \<Rightarrow> mm_cmd \<Rightarrow> mm_sys \<Rightarrow> nat \<Rightarrow> buf_def multiset" where
  "cmd_lost c cmd s = (case cmd of
      CMD_DATA_CB b md \<Rightarrow>
        (if bi_stream_id b \<in> set (bundled_streams (queue_of c s)) then none else at c (some_bufs [bi_buf b]))
    | CMD_FLUSH_QUEUE f ty \<Rightarrow> at c (filter_mset (\<lambda>d. \<not> is_type ty d) (held c s))
    | _ \<Rightarrow> none)"

lemma contract_ok: "contract s a b t \<Longrightarrow> mm_ok s \<Longrightarrow> mm_ok t"
  by (simp add: contract_def)

lemma contract_tell:
  assumes "contract s a b t" and "plain_call x"
  shows "contract s a b (mm_tell x t)"
  by (rule contract_then [OF assms(1) contract_aside]) (simp add: aside_tell [OF assms(2)])

lemma plain_calls [simp]: "plain_call (Start_zsl c)" "plain_call (Stop_zsl c)" "plain_call (Post_sync c)"
  by (simp_all add: plain_call_def)

lemma contract_request:
  assumes "mm_ok s"
  shows "\<exists>t. proc_request c ty num retro s = Some t \<and> contract s none none t"
proof -
  define r where "r = (if num = 0 \<or> num < retro then num else retro)"
  define u where "u = upd_ch c (\<lambda>ch. ch\<lparr>pending_cnt := num, pending_retro_cnt := r,
        ch_req_type := ty, bWaitForPrepSnapshotDone := False,
        needLEDFlash := (if 0 < r then False else needLEDFlash ch),
        stopZslSnapshot := False, unLockAEC := False\<rparr>) s"
  have req: "proc_request c ty num retro s = superbuf_skip c u"
    by (simp add: proc_request_def u_def r_def Let_def)
  have u: "contract s none none u" by (auto simp: u_def intro!: contract_intros)
  from drop_loop_ok [OF contract_ok [OF u assms], of c "ucast (look_back (attr (queue_of c u)))"]
  show ?thesis using contract_seq [OF u] u by (auto simp: req superbuf_skip_def Let_def)
qed

lemma contract_general: "contract s none none (proc_general c g s)"
  by (cases g) (auto simp: proc_general_def intro!: contract_intros)

text \<open>A flush of one type of stream loses the buffers of the others.\<close>

lemma some_bufs_flushed:
  "some_bufs (map bi_buf (filter (flushed ty) bs)) = filter_mset (is_type ty) (some_bufs (map bi_buf bs))"
  by (induction bs) (auto simp: some_bufs_def flushed_def is_type_def split: option.splits)

lemma contract_slots_of_type:
  assumes "node_ok (bundled_streams (queue_of c s)) n"
  shows "contract s (at c (filter_mset (is_type ty) (node_bufs n))) none (qbuf_slots c (flushed ty) n s)"
proof -
  have "\<forall>b \<in> set (filter (flushed ty) (super_buf n)). \<exists>d. bi_buf b = Some d \<and>
      buf_stream_id d \<in> set (bundled_streams (queue_of c s))"
    by (auto simp: flushed_def dest: node_bufs_in [OF assms])
  from contract_qbufs [OF this] show ?thesis
    by (simp add: qbuf_slots_def some_bufs_flushed node_bufs_def)
qed

lemma mset_parts: "filter_mset P M + filter_mset (\<lambda>x. \<not> P x) M = M"
  by (metis multiset_partition)

lemma contract_drop_of_type:
  assumes "superbuf_dequeue_internal m c s = (Some n, t)"
  shows "contract s none (at c (filter_mset (\<lambda>d. \<not> is_type ty d) (node_bufs n))) (qbuf_slots c (flushed ty) n t)"
proof (cases "mm_ok s")
  case False
  then show ?thesis by (simp add: contract_def)
next
  case True
  let ?T = "filter_mset (is_type ty) (node_bufs n)" and ?O = "filter_mset (\<lambda>d. \<not> is_type ty d) (node_bufs n)"
  note d = contract_dequeue [OF assms]
  have n: "node_ok (bundled_streams (queue_of c t)) n" using d(3) [OF True] d(4) by simp
  have split: "at c (node_bufs n) x = at c ?O x + at c ?T x" for x
    using mset_parts [of "is_type ty" "node_bufs n"] by (simp add: at_def add.commute)
  have "contract s (\<lambda>x. {#} + at c ?T x) (\<lambda>x. at c ?O x + at c ?T x) (qbuf_slots c (flushed ty) n t)"
    using contract_trans [OF d(1) contract_slots_of_type [OF n, of ty]] by (simp add: split)
  then show ?thesis by (rule contract_cancel)
qed

lemma contract_flush_of_type:
  "contract s none (at c (filter_mset (\<lambda>d. \<not> is_type ty d) (held c s))) (superbuf_flush c ty s)"
  unfolding superbuf_flush_def
proof (induction "length (que (queue_of c s))" arbitrary: s rule: less_induct)
  case less
  show ?case
  proof (cases "superbuf_dequeue_internal False c s")
    case (Pair r t)
    show ?thesis
    proof (cases r)
      case None
      then have "t = s" "que (queue_of c s) = []" using Pair dequeue_None [of False c s t] by auto
      then show ?thesis using Pair None
        by (simp add: superbuf_flush_loop.simps [of _ _ c s] held_def contract_refl)
    next
      case (Some n)
      have d: "superbuf_dequeue_internal False c s = (Some n, t)" using Pair Some by simp
      let ?u = "qbuf_slots c (flushed ty) n t"
      have q: "que (queue_of c s) = n # que (queue_of c ?u)" using dequeue_que [OF d] by simp
      have "contract ?u none (at c (filter_mset (\<lambda>d. \<not> is_type ty d) (held c ?u)))
          (superbuf_flush_loop False (flushed ty) c ?u)"
        by (rule less) (simp add: q)
      from contract_trans [OF contract_drop_of_type [OF d, of ty] this] show ?thesis
        using d q by (simp add: superbuf_flush_loop.simps [of _ _ c s] at_add held_def add.commute)
    qed
  qed
qed

lemma enqueue_unbundled:
  "bi_stream_id b \<notin> set (bundled_streams (queue_of c s)) \<Longrightarrow> superbuf_comp_and_enqueue c b md s = (False, s)"
  by (cases "index_of (\<lambda>h. bi_stream_id b = h) (bundled_streams (queue_of c s))")
    (auto simp: superbuf_comp_and_enqueue_def dest!: index_of_Some intro: nth_mem)

lemma contract_cmd:
  assumes "mm_ok s" and "cmd_ok cmd"
  shows "\<exists>t. proc_cmd c cmd s = Some t \<and> contract s (cmd_bufs c cmd) (cmd_lost c cmd s) t"
proof (cases cmd)
  case (CMD_DATA_CB b md)
  then obtain d where d: "bi_buf b = Some d" "bi_stream_id b = buf_stream_id d" "buf_frame_idx d = bi_frame_idx b"
    using assms(2) by (auto simp: cmd_ok_def split: option.splits)
  show ?thesis
  proof (cases "bi_stream_id b \<in> set (bundled_streams (queue_of c s))")
    case True
    then have "frame_of c b d s" using d by (simp add: frame_of_def)
    from contract_enqueue [OF this, of md] d(1) CMD_DATA_CB True show ?thesis
      by (simp add: proc_cmd_def cmd_bufs_def cmd_lost_def some_bufs_def)
  next
    case False
    then show ?thesis using enqueue_unbundled [OF False, of md] CMD_DATA_CB
      by (simp add: proc_cmd_def cmd_bufs_def cmd_lost_def contract_def)
  qed
next
  case (CMD_REQ_DATA_CB t num retro)
  then show ?thesis using contract_request [OF assms(1)] by (simp add: proc_cmd_def cmd_bufs_def cmd_lost_def)
next
  case (CMD_GENERAL g)
  then show ?thesis using contract_general by (simp add: proc_cmd_def cmd_bufs_def cmd_lost_def)
next
  case (CMD_FLUSH_QUEUE f ty)
  let ?u = "upd_q c (\<lambda>q. q\<lparr>expected_frame_id := f\<rparr>) s"
  have u: "contract s none none ?u" by (auto simp: same_queue_def intro!: contract_intros)
  have "held c ?u = held c s" by (simp add: held_def)
  then show ?thesis
    using contract_seq [OF u contract_flush_of_type [of ?u c ty]] CMD_FLUSH_QUEUE
    by (auto simp: proc_cmd_def cmd_bufs_def cmd_lost_def intro: contract_tell)
qed (auto simp: proc_cmd_def cmd_bufs_def cmd_lost_def same_queue_def intro!: contract_intros contract_tell)

section \<open>Zero shutter lag\<close>

lemma contract_start_zsl: "contract s a b t \<Longrightarrow> contract s a b (start_zsl c t)"
  by (auto simp: start_zsl_def intro!: contract_upd contract_tell)

lemma contract_stop_zsl: "contract s a b t \<Longrightarrow> contract s a b (stop_zsl c t)"
  by (auto simp: stop_zsl_def intro!: contract_upd contract_tell)

lemma contract_zsl_control: "contract s none none (zsl_control c s)"
  by (auto simp: zsl_control_def Let_def
      intro!: contract_upd(2) contract_start_zsl contract_stop_zsl contract_flushes contract_refl)

lemma aside_stop_zsl: "aside s t \<Longrightarrow> aside s (stop_zsl c t)"
  unfolding stop_zsl_def by (intro aside_upd_ch aside_tell) auto

lemma aside_count_batch: "aside s t \<Longrightarrow> aside s (count_batch c t)"
  unfolding count_batch_def Let_def case_prod_beta
  by (auto intro!: aside_upd_ch aside_upd_q simp: same_queue_def set_good_def)

lemma aside_count_sent: "aside s (count_sent c s)"
  unfolding count_sent_def Let_def
  by (auto intro!: aside_count_batch aside_stop_zsl aside_upd_ch simp: same_queue_def)

section \<open>Super buffers on their way\<close>

definition info_bufs :: "(nat \<times> queue_node) list \<Rightarrow> nat \<Rightarrow> buf_def multiset" where
  "info_bufs info x = sum_list (map (\<lambda>(c, n). at c (node_bufs n) x) info)"

definition info_ok :: "(nat \<times> queue_node) list \<Rightarrow> mm_sys \<Rightarrow> bool" where
  "info_ok info s \<longleftrightarrow> (\<forall>(c, n) \<in> set info. matched n \<and> node_ok (bundled_streams (queue_of c s)) n)"

lemma info_bufs_simps [simp]:
  "info_bufs [] = none" "info_bufs ((c, n) # info) = (\<lambda>x. at c (node_bufs n) x + info_bufs info x)"
  by (auto simp: info_bufs_def)

lemma node_complete:
  assumes "node_ok hs n" and "matched n"
  shows "complete hs (map bi_buf (super_buf n))"
proof -
  have "list_all2 (\<lambda>h b. \<exists>d. bi_buf b = Some d \<and> buf_stream_id d = h \<and> buf_frame_idx d = frame_idx n) hs (super_buf n)"
    unfolding list_all2_conv_all_nth
  proof (intro conjI allI impI)
    show len: "length hs = length (super_buf n)" using assms by (auto simp: node_ok_def dest: list_all2_lengthD)
    fix i assume i: "i < length hs"
    have "slot_ok (frame_idx n) (hs ! i) (super_buf n ! i)" "is_filled (super_buf n ! i)"
      using assms i len by (auto simp: node_ok_def list_all2_conv_all_nth list_all_length)
    then show "\<exists>d. bi_buf (super_buf n ! i) = Some d \<and> buf_stream_id d = hs ! i \<and> buf_frame_idx d = frame_idx n"
      by (auto simp: slot_ok_def)
  qed
  then show ?thesis
    using assms(1) by (auto simp: complete_def node_ok_def list_all2_map2)
qed

lemma contract_send_node:
  assumes "matched n" and "node_ok (bundled_streams (queue_of c s)) n"
  shows "contract s (at c (node_bufs n)) none (send_node (c, n) s)"
proof -
  obtain ok s1 where s1: "mm_malloc s = (ok, s1)" by fastforce
  have m: "contract s none none s1" "chs s1 = chs s"
    using contract_flags(2) [OF contract_refl, of s] s1 by (auto simp: mm_malloc_def)
  have all: "b \<in> set (super_buf n) \<Longrightarrow> True \<longleftrightarrow> has_buf b" for b
    using assms slot_filled [OF assms(2)] by (auto simp: node_ok_def list_all_iff)
  have drop: "contract u (at c (node_bufs n)) none (node_qbuf c n u)" if "chs u = chs s" for u
    unfolding node_qbuf_def by (rule contract_slots) (use that assms(2) all in auto)
  let ?t = "\<lambda>x y. mm_tell (Super_buf c (map bi_buf (super_buf n)) x y) s1"
  have "contract s1 (at c (node_bufs n)) none (?t x y)" for x y
    using node_complete [OF assms(2,1)] m(2)
    by (auto simp: contract_def mm_ok_def calls_ok_def mm_tell_def held_def gone_def call_bufs_def
        node_bufs_def at_def)
  from contract_seq [OF m(1) this] have "contract s (at c (node_bufs n)) none
      (upd_ch c (\<lambda>ch. ch\<lparr>unLockAEC := False\<rparr>) (?t x y))" for x y
    by (auto intro: contract_upd)
  then show ?thesis
    using s1 m drop [OF refl] contract_seq [OF m(1) drop [OF m(2)]] by (simp add: send_node_def Let_def)
qed

lemma send_node_keeps: "superbuf_queue (chs (send_node cn s) x) = superbuf_queue (chs s x)"
  by (auto simp: send_node_def Let_def mm_malloc_def mm_tell_def upd_ch_def node_qbuf_def split: prod.split)

lemma info_ok_same: "(\<And>x. bundled_streams (queue_of x t) = bundled_streams (queue_of x s)) \<Longrightarrow> info_ok info t = info_ok info s"
  by (simp add: info_ok_def)

lemma contract_send:
  assumes "info_ok info s"
  shows "contract s (info_bufs info) none (send_super_buf info s)"
  using assms
proof (induction info arbitrary: s)
  case Nil
  then show ?case by (simp add: send_super_buf_def contract_refl)
next
  case (Cons cn info)
  obtain c n where cn: "cn = (c, n)" by fastforce
  have "contract s (at c (node_bufs n)) none (send_node cn s)"
    using Cons.prems unfolding cn by (intro contract_send_node) (auto simp: info_ok_def)
  moreover have "contract (send_node cn s) (info_bufs info) none (send_super_buf info (send_node cn s))"
    by (rule Cons.IH) (use Cons.prems in \<open>auto simp: info_ok_def send_node_keeps\<close>)
  ultimately show ?case using contract_trans by (fastforce simp: cn send_super_buf_def)
qed

lemma contract_drop_info:
  assumes "info_ok info s"
  shows "contract s (info_bufs info) none (fold (\<lambda>(c, n). node_qbuf c n) info s)"
  using assms
proof (induction info arbitrary: s)
  case Nil
  then show ?case by (simp add: contract_refl)
next
  case (Cons cn info)
  obtain c n where cn: "cn = (c, n)" by fastforce
  have n: "matched n" "node_ok (bundled_streams (queue_of c s)) n" using Cons.prems by (auto simp: info_ok_def cn)
  have "contract s (at c (node_bufs n)) none (node_qbuf c n s)"
    unfolding node_qbuf_def
    by (rule contract_slots [OF n(2)]) (use n slot_filled [OF n(2)] in \<open>auto simp: node_ok_def list_all_iff\<close>)
  moreover have "contract (node_qbuf c n s) (info_bufs info) none
      (fold (\<lambda>(c, n). node_qbuf c n) info (node_qbuf c n s))"
    by (rule Cons.IH) (use Cons.prems in \<open>auto simp: info_ok_def node_qbuf_def\<close>)
  ultimately show ?case using contract_trans by (fastforce simp: cn)
qed

section \<open>Nodes that are taken to be sent\<close>

definition shrinks :: "mm_sys \<Rightarrow> mm_sys \<Rightarrow> bool" where
  "shrinks s t \<longleftrightarrow> (\<forall>x. length (que (queue_of x t)) \<le> length (que (queue_of x s)))"

lemma shrinks_refl: "shrinks s s"
  by (simp add: shrinks_def)

lemma shrinks_trans: "shrinks s t \<Longrightarrow> shrinks t u \<Longrightarrow> shrinks s u"
  unfolding shrinks_def by (meson le_trans)

definition taken :: "nat option list \<Rightarrow> mm_sys \<Rightarrow> (nat \<times> queue_node) list \<Rightarrow> mm_sys \<Rightarrow> bool" where
  "taken cs s info t \<longleftrightarrow> contract s none (info_bufs info) t \<and> info_ok info t \<and> shrinks s t \<and>
     (info \<noteq> [] \<longrightarrow> (\<exists>x. Some x \<in> set cs \<and> length (que (queue_of x t)) < length (que (queue_of x s))))"

lemma contract_bundles:
  "contract s a b t \<Longrightarrow> mm_ok s \<Longrightarrow> bundled_streams (queue_of x t) = bundled_streams (queue_of x s)"
  by (simp add: contract_def)

lemma dequeue_keeps:
  "superbuf_dequeue_internal m c s = (r, t) \<Longrightarrow> x \<noteq> c \<Longrightarrow> chs t x = chs s x"
  by (auto simp: superbuf_dequeue_internal_def Let_def split: list.splits if_splits)

lemma capture_at_keeps [simp]: "chs (snd (capture_at c i s)) = chs s"
  by (simp add: capture_at_def)

lemma take_own_ok:
  assumes "mm_ok s" and "take_own c s = (info, t)"
  shows "taken [Some c] s info t"
proof (cases "superbuf_dequeue c s")
  case (Pair r s1)
  show ?thesis
  proof (cases r)
    case None
    then have "s1 = s" using Pair dequeue_None(1) by (simp add: superbuf_dequeue_def)
    then show ?thesis using assms(2) None Pair
      by (auto simp: take_own_def taken_def contract_refl shrinks_refl info_ok_def)
  next
    case (Some n)
    have d: "superbuf_dequeue_internal True c s = (Some n, s1)" using Pair Some by (simp add: superbuf_dequeue_def)
    have n: "matched n" "node_ok (bundled_streams (queue_of c s)) n"
      using contract_dequeue(2,3) [OF d] assms(1) by auto
    have less: "length (que (queue_of c s1)) < length (que (queue_of c s))" using dequeue_que [OF d] by simp
    have shr: "shrinks s s1" unfolding shrinks_def
    proof
      fix x
      show "length (que (queue_of x s1)) \<le> length (que (queue_of x s))"
        using less dequeue_keeps [OF d, of x] by (cases "x = c") auto
    qed
    obtain f s2 where f: "capture_at c (unat (cur_capture_idx (chs s1 c))) s1 = (f, s2)" by fastforce
    then have s2: "chs s2 = chs s1" "contract s none (at c (node_bufs n)) s2"
      using capture_at_keeps [of c "unat (cur_capture_idx (chs s1 c))" s1]
        contract_flags(3) [OF contract_dequeue(1) [OF d]] by (simp, metis snd_conv)
    have bnd: "bundled_streams (queue_of c s1) = bundled_streams (queue_of c s)"
      by (rule contract_dequeue(4) [OF d])
    have "contract s2 (at c (node_bufs n)) none (node_qbuf c n s2)"
      unfolding node_qbuf_def
      by (rule contract_slots) (use n s2(1) bnd slot_filled [OF n(2)] in \<open>auto simp: node_ok_def list_all_iff\<close>)
    then have drop: "contract s none none (node_qbuf c n s2)" by (rule contract_close [OF s2(2)])
    have taken: "taken [Some c] s [(c, n)] u" if "chs u = chs s1" "contract s none (at c (node_bufs n)) u" for u
      using that n bnd less shr by (simp add: taken_def shrinks_def info_ok_def)
    show ?thesis
    proof (cases "isConfigCapture (chs s1 c) \<and> frame_idx n < f")
      case True
      then have "info = [] \<and> t = node_qbuf c n s2" using assms(2) Pair Some f by (simp add: take_own_def)
      then show ?thesis using drop shr s2(1) by (simp add: taken_def node_qbuf_def shrinks_def info_ok_def)
    next
      case False
      then have "info = [(c, n)] \<and> (t = s1 \<or> t = s2)"
        using assms(2) Pair Some f by (auto simp: take_own_def split: if_splits)
      then show ?thesis using taken [OF refl contract_dequeue(1) [OF d]] taken [OF s2] by auto
    qed
  qed
qed

text \<open>The nodes of one frame, from channels of the table.\<close>

lemma collect_ok:
  assumes "mm_ok s" and "collect_frame f cs s = (info, t)"
  shows "taken cs s info t \<and> fs t = fs s \<and> (\<forall>(c, n) \<in> set info. frame_idx n = f \<and> Some c \<in> set cs)"
  using assms
proof (induction f cs s arbitrary: info t rule: collect_frame.induct)
  case (1 f s)
  then show ?case by (simp add: taken_def contract_refl info_ok_def shrinks_refl)
next
  case (2 f cs s)
  then show ?case by (fastforce simp: taken_def)
next
  case (3 f c cs s)
  obtain r s1 where d: "superbuf_dequeue_frame_internal f c s = (r, s1)" by fastforce
  obtain info' s2 where c: "collect_frame f cs s1 = (info', s2)" by fastforce
  show ?case
  proof (cases r)
    case None
    then have "s1 = s" using d dequeue_frame_None by blast
    then show ?thesis using 3 c d None by (fastforce simp: taken_def)
  next
    case (Some n)
    note q = contract_dequeue_frame [OF d [unfolded Some]]
    have s1: "mm_ok s1" using q(1) "3.prems"(1) by (rule contract_ok)
    from "3.IH" [OF d [symmetric] refl s1 c]
    have rest: "contract s1 none (info_bufs info') s2" "info_ok info' s2" "shrinks s1 s2" "fs s2 = fs s1"
      "\<forall>(c, n) \<in> set info'. frame_idx n = f \<and> Some c \<in> set cs" by (auto simp: taken_def)
    have all: "info = (c, n) # info'" "t = s2" using "3.prems"(2) c d Some by auto
    have shr: "shrinks s s1" unfolding shrinks_def
    proof
      fix x
      show "length (que (queue_of x s1)) \<le> length (que (queue_of x s))"
        using q(5) q(6) [of x] by (cases "x = c") auto
    qed
    have "contract s none (info_bufs info) t"
      using contract_trans [OF q(1) rest(1)] by (simp add: all)
    moreover have "bundled_streams (queue_of c s2) = bundled_streams (queue_of c s)"
      using contract_bundles [OF rest(1) s1] contract_bundles [OF q(1) "3.prems"(1)] by simp
    then have "info_ok info t" using rest(2) q(2,4) "3.prems"(1) by (auto simp: info_ok_def all)
    moreover have "length (que (queue_of c t)) < length (que (queue_of c s))"
      using q(5) rest(3) by (auto simp: shrinks_def all intro: le_less_trans)
    ultimately show ?thesis
      using shrinks_trans [OF shr rest(3)] rest(4,5) q(3,7) by (auto simp: taken_def all)
  qed
qed

lemma take_synced_ok:
  assumes "mm_ok s" and "take_synced s = (info, t)"
  shows "taken (fs_ch (fs s)) s info t"
proof (cases "mm_frame_sync_find_matched False (fs s) = 0")
  case True
  then show ?thesis using assms
    by (auto simp: take_synced_def taken_def contract_refl shrinks_refl info_ok_def)
next
  case False
  define f where "f = mm_frame_sync_find_matched False (fs s)"
  obtain i s1 where c: "collect_frame f (fs_ch (fs s)) s = (i, s1)" by fastforce
  note col = collect_ok [OF assms(1) c]
  let ?s2 = "s1\<lparr>fs := mm_frame_sync_remove f (fs s1)\<rparr>"
  have "aside s1 ?s2" by (simp add: aside_def cam_table_ops same_queue_def)
  then have s2: "contract s none (info_bufs i) ?s2"
    using col contract_then [OF _ contract_aside] by (auto simp: taken_def)
  have t: "(info, t) = (if length i = num_cam (fs ?s2) then (i, ?s2)
      else ([], fold (\<lambda>(c, n). node_qbuf c n) i ?s2))"
    using assms(2) False c by (auto simp: take_synced_def f_def [symmetric] Let_def split: if_splits)
  have ok: "info_ok i ?s2" using col by (simp add: taken_def info_ok_def)
  have keeps: "chs (fold (\<lambda>(c, n). node_qbuf c n) i u) = chs u" for u
    by (induction i arbitrary: u) (auto simp: node_qbuf_def)
  show ?thesis
  proof (cases "length i = num_cam (fs ?s2)")
    case True
    then have "info = i" "t = ?s2" using t by auto
    then show ?thesis using col s2 ok by (simp add: taken_def shrinks_def)
  next
    case False
    then have "info = []" "t = fold (\<lambda>(c, n). node_qbuf c n) i ?s2" using t by auto
    then show ?thesis
      using col contract_close [OF s2 contract_drop_info [OF ok]] by (simp add: taken_def keeps shrinks_def info_ok_def)
  qed
qed

section \<open>The registered cameras\<close>

definition registered_chs :: "frame_sync \<Rightarrow> nat list" where
  "registered_chs f = map the (filter (\<lambda>x. x \<noteq> None) (fs_ch f))"

text \<open>Every channel is registered once, and the count of the cameras is that of the channels.\<close>

definition table_ok :: "frame_sync \<Rightarrow> bool" where
  "table_ok f \<longleftrightarrow> distinct (registered_chs f) \<and> num_cam f = length (registered_chs f) \<and>
     length (fs_ch f) = MAX_NUM_CAMERA_PER_BUNDLE"

lemma table_reset: "table_ok mm_frame_sync_reset"
  by (simp add: table_ok_def registered_chs_def mm_frame_sync_reset_def)

lemma table_two:
  assumes "table_ok f"
  obtains x y where "fs_ch f = [x, y]"
  using assms by (auto simp: table_ok_def length_Suc_conv numeral_2_eq_2)

lemma table_register:
  assumes "table_ok f" and "c \<notin> set (registered_chs f)"
  shows "table_ok (snd (mm_frame_sync_register_channel c f))"
proof -
  obtain x y where "fs_ch f = [x, y]" by (rule table_two [OF assms(1)])
  with assms show ?thesis
    by (auto simp: mm_frame_sync_register_channel_def table_ok_def registered_chs_def
        mm_frame_sync_reset_def Let_def numeral_2_eq_2 split: if_splits)
qed

lemma table_unregister:
  assumes "table_ok f"
  shows "table_ok (snd (mm_frame_sync_unregister_channel c f))"
proof -
  obtain x y where "fs_ch f = [x, y]" by (rule table_two [OF assms])
  with assms show ?thesis
    by (auto simp: mm_frame_sync_unregister_channel_def table_ok_def registered_chs_def
        mm_frame_sync_reset_def Let_def split: if_splits)
qed

lemma table_same: "cam_table f = cam_table g \<Longrightarrow> table_ok f = table_ok g \<and> registered_chs f = registered_chs g"
  by (simp add: cam_table_def table_ok_def registered_chs_def)

definition has_frame :: "int32 \<Rightarrow> mm_sys \<Rightarrow> nat \<Rightarrow> bool" where
  "has_frame f s c \<longleftrightarrow> list_ex (\<lambda>n. matched n \<and> frame_idx n = f) (que (queue_of c s))"

lemma dequeue_frame_has:
  assumes "superbuf_dequeue_frame_internal f c s = (r, t)"
  shows "r \<noteq> None \<longleftrightarrow> has_frame f s c"
proof (cases "index_of (\<lambda>n. matched n \<and> frame_idx n = f) (que (queue_of c s))")
  case None
  then have "\<not> has_frame f s c" using index_of_None [OF None] by (auto simp: has_frame_def list_ex_iff)
  then show ?thesis using assms None by (auto simp: superbuf_dequeue_frame_internal_def)
next
  case (Some i)
  from index_of_Some [OF Some] have "has_frame f s c" by (auto simp: has_frame_def list_ex_length)
  then show ?thesis using assms Some by (auto simp: superbuf_dequeue_frame_internal_def)
qed

lemma collect_channels:
  assumes "distinct (map the (filter (\<lambda>x. x \<noteq> None) cs))" and "collect_frame f cs s = (info, t)"
  shows "map fst info = filter (has_frame f s) (map the (filter (\<lambda>x. x \<noteq> None) cs))"
  using assms
proof (induction f cs s arbitrary: info t rule: collect_frame.induct)
  case (3 f c cs s)
  obtain r s1 where d: "superbuf_dequeue_frame_internal f c s = (r, s1)" by fastforce
  obtain info' s2 where c: "collect_frame f cs s1 = (info', s2)" by fastforce
  let ?cs = "map the (filter (\<lambda>x. x \<noteq> None) cs)"
  have new: "c \<notin> set ?cs" "distinct ?cs" using "3.prems"(1) by auto
  have others: "chs s1 x = chs s x" if "x \<noteq> c" for x
  proof (cases r)
    case None
    then show ?thesis using d dequeue_frame_None by blast
  next
    case (Some n)
    from contract_dequeue_frame(6) [OF d [unfolded Some] that] show ?thesis .
  qed
  have same: "has_frame f s1 x = has_frame f s x" if "x \<in> set ?cs" for x
  proof -
    have "x \<noteq> c" using that new(1) by blast
    then show ?thesis by (simp add: has_frame_def others)
  qed
  have "filter (has_frame f s1) ?cs = filter (has_frame f s) ?cs" by (rule filter_cong [OF refl same])
  moreover have "map fst info' = filter (has_frame f s1) ?cs" using "3.IH" [OF d [symmetric] refl new(2) c] .
  moreover have "map fst info = (if has_frame f s c then [c] else []) @ map fst info'"
    using "3.prems"(2) d c dequeue_frame_has [OF d] by (cases r) auto
  ultimately show ?case by simp
qed auto

section \<open>The dispatch ends\<close>

definition nodes :: "nat set \<Rightarrow> mm_sys \<Rightarrow> nat" where
  "nodes A s = (\<Sum>x \<in> A. length (que (queue_of x s)))"

definition served :: "nat \<Rightarrow> mm_sys \<Rightarrow> nat set" where
  "served c s = insert c {x. Some x \<in> set (fs_ch (fs s))}"

lemma served_finite [simp]: "finite (served c s)"
proof -
  have "finite {x. Some x \<in> set xs}" for xs :: "nat option list"
    by (rule finite_subset [of _ "the ` set xs"]) force+
  then show ?thesis by (simp add: served_def)
qed

lemma taken_nodes:
  assumes "taken cs s info t" and "info \<noteq> []" and "set cs \<subseteq> Some ` A \<union> {None}" and "finite A"
  shows "nodes A t < nodes A s"
proof -
  obtain x where x: "Some x \<in> set cs" "length (que (queue_of x t)) < length (que (queue_of x s))"
    using assms(1,2) by (auto simp: taken_def)
  then have "x \<in> A" using assms(3) by auto
  with x assms(1,4) show ?thesis
    unfolding nodes_def by (intro sum_strict_mono_ex1) (auto simp: taken_def shrinks_def)
qed

lemma send_keeps: "superbuf_queue (chs (send_super_buf info s) x) = superbuf_queue (chs s x)"
  by (induction info arbitrary: s) (simp_all add: send_super_buf_def send_node_keeps)

lemma taken_sent:
  assumes "taken cs s info t" and "aside t u"
  shows "contract s none none (send_super_buf info u)"
    and "que (queue_of x (send_super_buf info u)) = que (queue_of x t)"
proof -
  have "info_ok info u" using assms by (auto simp: taken_def info_ok_def aside_def same_queue_def)
  moreover have "contract s none (info_bufs info) u"
    using contract_then [OF _ contract_aside [OF assms(2)]] assms(1) by (auto simp: taken_def)
  ultimately show "contract s none none (send_super_buf info u)"
    using contract_close contract_send by blast
  show "que (queue_of x (send_super_buf info u)) = que (queue_of x t)"
    using assms(2) by (simp add: send_keeps aside_def same_queue_def)
qed

lemma dispatch_loop_ok:
  assumes "mm_ok s"
  shows "\<exists>t. dispatch_loop c mode s = Some t \<and> contract s none none t"
  using assms
proof (induction "nodes (served c s) s" arbitrary: s rule: less_induct)
  case less
  let ?wants = "(0 < pending_cnt (chs s c) \<or> mode = NOTIFY_CONTINUOUS) \<and> \<not> bWaitForPrepSnapshotDone (chs s c)"
  define cs where "cs = (if ch_req_type (chs s c) = REQ_FRAME_SYNC_BUF then fs_ch (fs s) else [Some c])"
  obtain info s1 where i: "(if ch_req_type (chs s c) = REQ_FRAME_SYNC_BUF then take_synced s else take_own c s) = (info, s1)"
    by fastforce
  then have tk: "taken cs s info s1"
    using take_synced_ok [OF less.prems] take_own_ok [OF less.prems] by (auto simp: cs_def split: if_splits)
  define u where "u = (if mode = NOTIFY_BURST then count_sent c s1 else s1)"
  have u: "aside s1 u" by (simp add: u_def aside_count_sent)
  let ?t = "send_super_buf info u"
  note sent = taken_sent [OF tk u]
  show ?case
  proof (cases "?wants \<and> info \<noteq> []")
    case False
    then have "dispatch_loop c mode s = Some (if ?wants then s1 else s)"
      using i by (subst dispatch_loop.simps) (auto simp: Let_def)
    moreover have "info = [] \<Longrightarrow> contract s none none s1" using tk by (auto simp: taken_def)
    ultimately show ?thesis using False contract_refl by auto
  next
    case True
    have "set cs \<subseteq> Some ` served c s \<union> {None}"
    proof
      fix y assume "y \<in> set cs"
      then show "y \<in> Some ` served c s \<union> {None}"
        by (cases y) (auto simp: cs_def served_def split: if_splits)
    qed
    then have "nodes (served c s) s1 < nodes (served c s) s" using tk True by (intro taken_nodes) auto
    moreover have "served c ?t = served c s" using sent(1) less.prems by (simp add: contract_def served_def cam_table_def)
    ultimately have "nodes (served c ?t) ?t < nodes (served c s) s" by (simp add: nodes_def sent(2))
    from less.hyps [OF this contract_ok [OF sent(1) less.prems]] obtain v where
      v: "dispatch_loop c mode ?t = Some v" "contract ?t none none v" by blast
    have "dispatch_loop c mode s = dispatch_loop c mode ?t"
      using True i unfolding dispatch_loop.simps [of c mode s] by (simp add: u_def)
    then show ?thesis using v contract_seq [OF sent(1) v(2)] by simp
  qed
qed

lemma overflow_ok:
  assumes "mm_ok s"
  shows "\<exists>t. superbuf_bufdone_overflow c s = Some t \<and> contract s none none t \<and>
    (attr_notify_mode (attr (queue_of c s)) = NOTIFY_CONTINUOUS \<or>
     match_cnt (queue_of c t) \<le> ucast (water_mark (attr (queue_of c s))))"
  using drop_loop_ok [OF assms, of c "ucast (water_mark (attr (queue_of c s)))"] contract_refl [of s]
  by (auto simp: superbuf_bufdone_overflow_def Let_def)

lemma command_ok:
  assumes "mm_ok s" and "cmd_ok cmd"
  shows "\<exists>t. process_stream_buf c cmd s = Some t \<and> contract s (cmd_bufs c cmd) (cmd_lost c cmd s) t"
proof -
  from contract_cmd [OF assms] obtain s1 where
    s1: "proc_cmd c cmd s = Some s1" "contract s (cmd_bufs c cmd) (cmd_lost c cmd s) s1" by blast
  note ok1 = contract_ok [OF s1(2) assms(1)]
  from overflow_ok [OF contract_ok [OF contract_zsl_control ok1]] obtain s2 where
    s2: "superbuf_bufdone_overflow c (zsl_control c s1) = Some s2" "contract (zsl_control c s1) none none s2" by blast
  have c2: "contract s1 none none s2" using contract_seq [OF contract_zsl_control s2(2)] .
  from dispatch_loop_ok [OF contract_ok [OF c2 ok1]] obtain t where
    t: "dispatch_loop c (attr_notify_mode (attr (queue_of c s1))) s2 = Some t" "contract s2 none none t" by blast
  have "contract s (cmd_bufs c cmd) (cmd_lost c cmd s) t"
    using contract_then [OF s1(2) contract_seq [OF c2 t(2)]] .
  then show ?thesis using s1 s2(1) t(1) by (cases cmd) (auto simp: process_stream_buf_def Let_def)
qed

end
