(* ===== verification/Mm_Sent.thy ===== *)
theory Mm_Sent
  imports Mm_Dispatch_Inv
begin

text \<open>
  How many super buffers a channel sends: only the dispatch sends, each time for one that is
  pending, and only a request makes any pending.
\<close>

section \<open>What sends nothing\<close>

definition is_sent :: "nat \<Rightarrow> mm_call \<Rightarrow> bool" where
  "is_sent c a \<longleftrightarrow> (case a of Super_buf c' _ _ _ \<Rightarrow> c' = c | _ \<Rightarrow> False)"

definition sent :: "nat \<Rightarrow> mm_sys \<Rightarrow> nat" where
  "sent c s = length (filter (is_sent c) (mm_calls s))"

definition same_wants :: "channel \<Rightarrow> channel \<Rightarrow> bool" where
  "same_wants ch ch' \<longleftrightarrow> pending_cnt ch' = pending_cnt ch \<and> ch_req_type ch' = ch_req_type ch \<and>
     attr_notify_mode (attr (superbuf_queue ch')) = attr_notify_mode (attr (superbuf_queue ch))"

definition still :: "mm_sys \<Rightarrow> mm_sys \<Rightarrow> bool" where
  "still s t \<longleftrightarrow> (\<forall>c. same_wants (chs s c) (chs t c) \<and> sent c t = sent c s)"

lemma still_refl [simp]: "still s s"
  by (simp add: still_def same_wants_def)

lemma still_trans: "still s t \<Longrightarrow> still t u \<Longrightarrow> still s u"
  by (simp add: still_def same_wants_def)

lemma sent_keeps [simp]: "sent x (upd_ch c f t) = sent x t" "sent x (upd_q c g t) = sent x t"
  by (simp_all add: sent_def upd_ch_def upd_q_def)

lemma still_upd:
  "same_wants (chs t c) (f (chs t c)) \<Longrightarrow> still s t \<Longrightarrow> still s (upd_ch c f t)"
  "attr_notify_mode (attr (g (queue_of c t))) = attr_notify_mode (attr (queue_of c t)) \<Longrightarrow>
   still s t \<Longrightarrow> still s (upd_q c g t)"
  by (auto simp: still_def same_wants_def) (auto simp: upd_q_def upd_ch_def)

lemma still_tell: "(\<And>x. \<not> is_sent x a) \<Longrightarrow> still s t \<Longrightarrow> still s (mm_tell a t)"
  by (simp add: still_def mm_tell_def sent_def)

lemma is_sent_simps [simp]:
  "\<not> is_sent x (Qbuf c d)" "\<not> is_sent x (Qbuf_linked c d)" "\<not> is_sent x (Start_zsl c)"
  "\<not> is_sent x (Stop_zsl c)" "\<not> is_sent x (Post_sync c)" "is_sent x (Super_buf c bs p q) \<longleftrightarrow> c = x"
  by (simp_all add: is_sent_def)

lemma still_flags [simp]:
  "still s (t\<lparr>undef := x\<rparr>) = still s t" "still s (t\<lparr>read_freed := x\<rparr>) = still s t"
  "still s (t\<lparr>read_freed := x, bad_link := y\<rparr>) = still s t"
  "still s (snd (mm_malloc t)) = still s t" "still s (snd (capture_at c i t)) = still s t"
  "still s (sync_add f c t) = still s t" "still s (sync_remove f c t) = still s t"
  by (simp_all add: still_def sent_def mm_malloc_def capture_at_def sync_add_def sync_remove_def)

lemma still_qbuf: "still s t \<Longrightarrow> still s (qbuf_opt c b t)"
  by (auto simp: qbuf_opt_def mm_channel_qbuf_def intro!: still_tell split: option.split)

lemma still_slots: "still s t \<Longrightarrow> still s (qbuf_slots c P n t)"
proof -
  have "still s t \<Longrightarrow> still s (fold (\<lambda>b. qbuf_opt c (bi_buf b)) bs t)" for bs
    by (induction bs arbitrary: t) (auto intro: still_qbuf)
  then show "still s t \<Longrightarrow> still s (qbuf_slots c P n t)" by (simp add: qbuf_slots_def)
qed

lemma still_fold_slots: "still s t \<Longrightarrow> still s (fold (qbuf_slots c P) ns t)"
  by (induction ns arbitrary: t) (auto intro: still_slots)

lemma still_dequeue: "superbuf_dequeue_internal m c t = (r, u) \<Longrightarrow> still s t \<Longrightarrow> still s u"
  by (auto simp: superbuf_dequeue_internal_def Let_def intro!: still_upd split: list.splits if_splits)

lemma still_drop_loop:
  assumes "drop_loop c limit s = Some t"
  shows "still s t"
proof (rule drop_loop.raw_induct [of "\<lambda>c limit s t. still s t", OF _ assms])
  fix f :: "nat \<Rightarrow> int32 \<Rightarrow> mm_sys \<Rightarrow> mm_sys option" and c limit s t
  assume IH: "\<And>c limit s t. f c limit s = Some t \<Longrightarrow> still s t"
    and body: "(if limit < match_cnt (queue_of c s)
      then case superbuf_dequeue_internal True c s of
             (None, s1) \<Rightarrow> f c limit s1
           | (Some n, s1) \<Rightarrow> f c limit (qbuf_slots c has_buf n s1)
      else Some s) = Some t"
  obtain r u where d: "superbuf_dequeue_internal True c s = (r, u)" by fastforce
  have u: "still s u" by (rule still_dequeue [OF d still_refl])
  show "still s t"
    using body d IH [of c limit u t, THEN still_trans [OF u]] u
      IH [of c limit _ t, THEN still_trans [OF still_slots [OF u]]]
    by (cases r) (auto split: if_splits)
qed

lemma still_flush: "still s t \<Longrightarrow> still s (superbuf_flush_loop m P c t)"
proof (induction m P c t rule: superbuf_flush_loop.induct)
  case (1 m P c t)
  obtain r u where d: "superbuf_dequeue_internal m c t = (r, u)" by fastforce
  have u: "still s u" by (rule still_dequeue [OF d "1.prems"])
  show ?case
    using d u "1.IH" [OF d [symmetric]] still_slots [OF u]
    by (cases r) (simp_all add: superbuf_flush_loop.simps [of m P c t])
qed

lemma still_flushes:
  "still s t \<Longrightarrow> still s (superbuf_flush c ty t)" "still s t \<Longrightarrow> still s (superbuf_flush_matched c t)"
  by (simp_all add: superbuf_flush_def superbuf_flush_matched_def still_flush)

lemma same_wants_simps [simp]: "same_wants ch ch"
  by (simp add: same_wants_def)

lemmas still_intros = still_upd still_flushes still_qbuf still_slots still_fold_slots

lemma still_metadata: "still s (snd (mm_channel_handle_metadata c b mdo s))"
proof -
  have crop: "still s (snd (md_crop_1x c md s))" for md
    by (auto simp: md_crop_1x_def case_prod_beta Let_def intro!: still_intros split: option.split)
  have divert: "still s t \<Longrightarrow> still s (md_divert c b md t)" for md t
    by (auto simp: md_divert_def same_wants_def intro!: still_intros split: option.split)
  have zoom: "still s t \<Longrightarrow> still s (md_zoom c b x t)" for x t
    by (auto simp: md_zoom_def same_wants_def intro!: still_intros)
  have prep: "still s t \<Longrightarrow> still s (md_prep c md t)" for md t
    by (auto simp: md_prep_def same_wants_def Let_def intro!: still_intros split: option.split)
  have range: "still s t \<Longrightarrow> still s (md_range c md t)" for md t
    by (auto simp: md_range_def set_good_def Let_def intro!: still_intros split: option.split)
  have brack: "still s t \<Longrightarrow> still s (md_bracketing c md t)" for md t
    by (auto simp: md_bracketing_def set_good_def same_wants_def intro!: still_intros split: option.split)
  have config: "still s t \<Longrightarrow> still s (md_config c md t)" for md t
    by (auto simp: md_config_def set_good_def same_wants_def Let_def case_prod_beta intro!: still_intros split: option.split)
  have led: "still s t \<Longrightarrow> still s (md_led_off c b t)" for t
    by (auto simp: md_led_off_def same_wants_def Let_def intro!: still_intros)
  have low: "still s t \<Longrightarrow> still s (md_low_light_step c md t)" for md t
    by (auto simp: md_low_light_step_def same_wants_def intro!: still_intros split: option.split)
  have user: "still s t \<Longrightarrow> still s (md_user_expected c b md t)" for md t
    by (auto simp: md_user_expected_def clear_user_expected_def Let_def intro!: still_intros)
  show ?thesis
    by (auto simp: mm_channel_handle_metadata_def Let_def case_prod_beta
        intro!: crop divert zoom prep range brack config led low user split: option.split)
qed

lemma still_release: "still s t \<Longrightarrow> still s (release_nodes c from till t)"
  by (auto simp: release_nodes_def Let_def intro!: still_intros)

lemma still_set_node: "still s t \<Longrightarrow> still s (set_node c p n t)"
  by (auto simp: set_node_def intro!: still_intros)

lemma still_node_matched: "still s t \<Longrightarrow> still s (node_matched c b p older n t)"
  unfolding node_matched_def Let_def
  by (auto intro!: still_release still_set_node still_intros simp: same_wants_def split: option.split)

lemma still_fill: "still s t \<Longrightarrow> still s (fill_found c b i p older t)"
  unfolding fill_found_def Let_def
  by (auto intro!: still_node_matched still_set_node still_intros simp: same_wants_def)

lemma still_insert: "still s t \<Longrightarrow> still s (insert_new c b i before t)"
proof -
  assume "still s t"
  then have "still s (snd (mm_malloc (snd (mm_malloc t))))" by simp
  then show ?thesis
    unfolding insert_new_def Let_def case_prod_beta
    by (auto intro!: still_intros simp: same_wants_def)
qed

lemma still_enqueue_unmatched: "still s t \<Longrightarrow> still s (enqueue_unmatched c b i r t)"
  unfolding enqueue_unmatched_def drop_unmatched_def
  by (auto intro!: still_insert still_intros still_release split: option.split)

lemma still_enqueue: "still s (snd (superbuf_comp_and_enqueue c b md s))"
proof -
  obtain ok s1 where s1: "mm_channel_handle_metadata c b md s = (ok, s1)" by fastforce
  then have "still s s1" using still_metadata [of s c b md] by simp
  then show ?thesis
    unfolding superbuf_comp_and_enqueue_def s1 Let_def case_prod_conv
    by (auto intro!: still_fill still_enqueue_unmatched still_intros split: option.split)
qed

lemma still_zsl:
  "still s t \<Longrightarrow> still s (start_zsl c t)" "still s t \<Longrightarrow> still s (stop_zsl c t)"
  by (auto simp: start_zsl_def stop_zsl_def same_wants_def intro!: still_upd still_tell)

lemma still_zsl_control: "still s (zsl_control c s)"
  by (auto simp: zsl_control_def Let_def same_wants_def intro!: still_zsl still_intros)

lemma still_general: "still s (proc_general c g s)"
  by (cases g) (auto simp: proc_general_def same_wants_def intro!: still_intros)

lemma still_overflow: "superbuf_bufdone_overflow c s = Some t \<Longrightarrow> still s t"
  by (auto simp: superbuf_bufdone_overflow_def Let_def split: if_splits intro: still_drop_loop)

lemma still_count_batch: "still s t \<Longrightarrow> still s (count_batch c t)"
  unfolding count_batch_def Let_def case_prod_beta
  by (auto intro!: still_intros simp: same_wants_def set_good_def)

section \<open>What is sent\<close>

definition budget :: "nat \<Rightarrow> mm_sys \<Rightarrow> nat" where
  "budget x s = sent x s + unat (pending_cnt (chs s x))"

definition frugal :: "mm_sys \<Rightarrow> mm_sys \<Rightarrow> bool" where
  "frugal s t \<longleftrightarrow> (\<forall>x. budget x t \<le> budget x s \<and> ch_req_type (chs t x) = ch_req_type (chs s x) \<and>
     attr_notify_mode (attr (queue_of x t)) = attr_notify_mode (attr (queue_of x s)))"

lemma frugal_trans: "frugal s t \<Longrightarrow> frugal t u \<Longrightarrow> frugal s u"
  unfolding frugal_def by (metis le_trans)

lemma still_frugal: "still s t \<Longrightarrow> frugal s t"
  by (simp add: still_def frugal_def same_wants_def budget_def)

lemma still_take_own: "take_own c s = (info, t) \<Longrightarrow> still s t \<and> length info \<le> 1 \<and> fst ` set info \<subseteq> {c}"
proof (cases "superbuf_dequeue c s")
  case (Pair r u)
  assume t: "take_own c s = (info, t)"
  have u: "still s u" using Pair by (auto simp: superbuf_dequeue_def intro: still_dequeue)
  then have v: "still s (snd (capture_at c i u))" for i by simp
  show ?thesis
    using t Pair u v still_slots [OF v]
    by (cases r) (auto simp: take_own_def node_qbuf_def case_prod_beta split: if_splits)
qed

text \<open>One node less is pending for each that is sent.\<close>

lemma count_sent_pending:
  assumes "0 < pending_cnt (chs s c)"
  shows "unat (pending_cnt (chs (count_sent c s) c)) + 1 = unat (pending_cnt (chs s c))"
    and "x \<noteq> c \<Longrightarrow> pending_cnt (chs (count_sent c s) x) = pending_cnt (chs s x)"
    and "sent x (count_sent c s) = sent x s"
    and "ch_req_type (chs (count_sent c s) x) = ch_req_type (chs s x)"
    and "attr_notify_mode (attr (queue_of x (count_sent c s))) = attr_notify_mode (attr (queue_of x s))"
proof -
  define s1 where "s1 = upd_ch c (\<lambda>ch. ch\<lparr>pending_cnt := pending_cnt ch - 1,
            bWaitForPrepSnapshotDone := (bWaitForPrepSnapshotDone ch \<or> pending_retro_cnt ch = 1),
            pending_retro_cnt := (if 0 < pending_retro_cnt ch then pending_retro_cnt ch - 1 else 0)\<rparr>) s"
  have "still s1 (count_sent c s)"
    unfolding count_sent_def Let_def s1_def [symmetric]
    by (auto intro!: still_count_batch still_zsl)
  then have q: "same_wants (chs s1 y) (chs (count_sent c s) y)" "sent y (count_sent c s) = sent y s1" for y
    by (simp_all add: still_def)
  have pos: "pending_cnt (chs s c) \<noteq> 0" using assms by auto
  then have "unat (pending_cnt (chs s c)) \<noteq> 0" by (simp add: unat_eq_0)
  with unat_minus_one [OF pos] q(1) [of c]
  show "unat (pending_cnt (chs (count_sent c s) c)) + 1 = unat (pending_cnt (chs s c))"
    by (simp add: same_wants_def s1_def upd_ch_def)
  show "x \<noteq> c \<Longrightarrow> pending_cnt (chs (count_sent c s) x) = pending_cnt (chs s x)"
    "ch_req_type (chs (count_sent c s) x) = ch_req_type (chs s x)"
    "attr_notify_mode (attr (queue_of x (count_sent c s))) = attr_notify_mode (attr (queue_of x s))"
    using q(1) [of x] by (auto simp: same_wants_def s1_def upd_ch_def)
  show "sent x (count_sent c s) = sent x s" using q(2) by (simp add: s1_def)
qed

lemma sent_tell: "sent x (mm_tell a t) = sent x t + (if is_sent x a then 1 else 0)"
  by (simp add: sent_def mm_tell_def)

lemma sent_allocs: "sent x (t\<lparr>allocs := k\<rparr>) = sent x t"
  by (simp add: sent_def)

lemma send_node_sent:
  "sent x (send_node (c, n) s) \<le> sent x s + (if x = c then 1 else 0)"
  "pending_cnt (chs (send_node (c, n) s) x) = pending_cnt (chs s x)"
  "ch_req_type (chs (send_node (c, n) s) x) = ch_req_type (chs s x)"
proof -
  have q: "sent y (qbuf_slots c P n t) = sent y t" for y P t
    using still_slots [OF still_refl, of t c P n] by (simp add: still_def)
  show "sent x (send_node (c, n) s) \<le> sent x s + (if x = c then 1 else 0)"
    by (auto simp: send_node_def Let_def mm_malloc_def node_qbuf_def q sent_tell sent_allocs)
  show "pending_cnt (chs (send_node (c, n) s) x) = pending_cnt (chs s x)"
    "ch_req_type (chs (send_node (c, n) s) x) = ch_req_type (chs s x)"
    by (auto simp: send_node_def Let_def mm_malloc_def node_qbuf_def mm_tell_def upd_ch_def)
qed

lemma frugal_round:
  assumes "take_own c s = (info, s1)" and "0 < pending_cnt (chs s c)"
  shows "frugal s (send_super_buf info (count_sent c s1))"
proof -
  from still_take_own [OF assms(1)] have q: "still s s1" and len: "length info \<le> 1" and c: "fst ` set info \<subseteq> {c}"
    by auto
  have pend: "0 < pending_cnt (chs s1 c)" using q assms(2) by (simp add: still_def same_wants_def)
  note cs = count_sent_pending [OF pend]
  show ?thesis
  proof (cases info)
    case Nil
    have "budget x (count_sent c s1) \<le> budget x s" for x
      using cs(1) cs(2,3) [of x] q by (cases "x = c") (auto simp: budget_def still_def same_wants_def)
    then show ?thesis using Nil cs(4,5) q by (simp add: send_super_buf_def frugal_def still_def same_wants_def)
  next
    case (Cons cn rest)
    then obtain n where i: "info = [(c, n)]" using len c by (cases cn) auto
    let ?u = "count_sent c s1"
    have "budget x (send_node (c, n) ?u) \<le> budget x s" for x
      using cs(1) cs(2,3) [of x] q send_node_sent(1,2) [where x = x and c = c and n = n and s = ?u]
      by (cases "x = c") (auto simp: budget_def still_def same_wants_def)
    then show ?thesis
      using cs(4,5) q send_node_sent(3) [where c = c and n = n and s = ?u] send_node_keeps [of "(c, n)" ?u]
      by (simp add: i send_super_buf_def frugal_def still_def same_wants_def)
  qed
qed

lemma frugal_loop:
  assumes "dispatch_loop c mode s = Some t" and "ch_req_type (chs s c) = REQ_SUPER_BUF" and "mode = NOTIFY_BURST"
  shows "frugal s t"
proof -
  have "ch_req_type (chs s c) = REQ_SUPER_BUF \<longrightarrow> mode = NOTIFY_BURST \<longrightarrow> frugal s t"
  proof (rule dispatch_loop.raw_induct [of "\<lambda>c mode s t. ch_req_type (chs s c) = REQ_SUPER_BUF \<longrightarrow>
      mode = NOTIFY_BURST \<longrightarrow> frugal s t", OF _ assms(1)], intro impI)
    fix f :: "nat \<Rightarrow> notify_mode \<Rightarrow> mm_sys \<Rightarrow> mm_sys option" and c mode s t
    assume IH: "\<And>c mode s t. f c mode s = Some t \<Longrightarrow> ch_req_type (chs s c) = REQ_SUPER_BUF \<longrightarrow>
        mode = NOTIFY_BURST \<longrightarrow> frugal s t"
      and body: "(if (0 < pending_cnt (chs s c) \<or> mode = NOTIFY_CONTINUOUS) \<and> \<not> bWaitForPrepSnapshotDone (chs s c)
      then let (info, s1) = (if ch_req_type (chs s c) = REQ_FRAME_SYNC_BUF then take_synced s else take_own c s)
           in if info = [] then Some s1
              else f c mode
                (send_super_buf info (if mode = NOTIFY_BURST then count_sent c s1 else s1))
      else Some s) = Some t"
      and req: "ch_req_type (chs s c) = REQ_SUPER_BUF" and burst: "mode = NOTIFY_BURST"
    obtain info s1 where i: "take_own c s = (info, s1)" by fastforce
    have s1: "still s s1" using still_take_own [OF i] by simp
    show "frugal s t"
    proof (cases "0 < pending_cnt (chs s c) \<and> \<not> bWaitForPrepSnapshotDone (chs s c) \<and> info \<noteq> []")
      case True
      let ?u = "send_super_buf info (count_sent c s1)"
      have u: "frugal s ?u" using True by (intro frugal_round [OF i]) simp
      have "f c mode ?u = Some t" using body True i req burst by simp
      from IH [OF this] u req burst have "frugal ?u t" by (simp add: frugal_def)
      with u show ?thesis by (rule frugal_trans)
    next
      case False
      then have "t = s \<or> t = s1" using body i req burst by (auto split: if_splits)
      then show ?thesis using still_frugal [OF s1] still_frugal [OF still_refl] by auto
    qed
  qed
  with assms(2,3) show ?thesis by simp
qed

section \<open>Runs\<close>

definition modest :: "mm_sys \<Rightarrow> bool" where
  "modest s \<longleftrightarrow> (\<forall>x. ch_req_type (chs s x) = REQ_SUPER_BUF \<and>
     attr_notify_mode (attr (queue_of x s)) = NOTIFY_BURST)"

definition modest_cmd :: "mm_cmd \<Rightarrow> bool" where
  "modest_cmd cmd \<longleftrightarrow> (case cmd of
      CMD_REQ_DATA_CB t num retro \<Rightarrow> t = REQ_SUPER_BUF
    | CMD_CONFIG_NOTIFY m \<Rightarrow> m = NOTIFY_BURST
    | _ \<Rightarrow> True)"

definition asked :: "nat \<Rightarrow> nat \<times> mm_cmd \<Rightarrow> nat" where
  "asked x cc = (case cc of (c, CMD_REQ_DATA_CB t num retro) \<Rightarrow> if c = x then unat num else 0 | _ \<Rightarrow> 0)"

lemma proc_cmd_budget:
  assumes "proc_cmd c cmd s = Some t" and "modest s" and "modest_cmd cmd"
  shows "modest t" and "budget x t \<le> budget x s + asked x (c, cmd)"
proof -
  have "modest t \<and> budget x t \<le> budget x s + asked x (c, cmd)"
  proof (cases "\<exists>num retro. cmd = CMD_REQ_DATA_CB REQ_SUPER_BUF num retro")
    case True
    then obtain num retro where cmd: "cmd = CMD_REQ_DATA_CB REQ_SUPER_BUF num retro" by blast
    define r where "r = (if num = 0 \<or> num < retro then num else retro)"
    define u where "u = upd_ch c (\<lambda>ch. ch\<lparr>pending_cnt := num, pending_retro_cnt := r,
        ch_req_type := REQ_SUPER_BUF, bWaitForPrepSnapshotDone := False,
        needLEDFlash := (if 0 < r then False else needLEDFlash ch),
        stopZslSnapshot := False, unLockAEC := False\<rparr>) s"
    have "superbuf_skip c u = Some t"
      using assms(1) by (simp add: cmd proc_cmd_def proc_request_def u_def r_def Let_def)
    then have "still u t" by (auto simp: superbuf_skip_def Let_def split: if_splits intro: still_drop_loop)
    moreover have "budget x u \<le> budget x s + asked x (c, cmd)"
      by (simp add: budget_def u_def upd_ch_def cmd asked_def sent_def)
    moreover have "modest u" using assms(2) by (simp add: modest_def u_def upd_ch_def)
    ultimately show ?thesis by (simp add: still_def same_wants_def budget_def modest_def)
  next
    case False
    then have "still s t"
      using assms still_enqueue still_general
      by (cases cmd) (auto simp: proc_cmd_def modest_cmd_def modest_def same_wants_def
          intro!: still_tell still_intros)
    then show ?thesis using assms(2) by (simp add: still_def same_wants_def budget_def modest_def)
  qed
  then show "modest t" "budget x t \<le> budget x s + asked x (c, cmd)" by auto
qed

lemma frugal_modest: "frugal s t \<Longrightarrow> modest s \<Longrightarrow> modest t \<and> budget x t \<le> budget x s"
  by (simp add: frugal_def modest_def)

lemma command_budget:
  assumes "process_stream_buf c cmd s = Some t" and "modest s" and "modest_cmd cmd"
  shows "modest t" and "budget x t \<le> budget x s + asked x (c, cmd)"
proof -
  obtain s1 where s1: "proc_cmd c cmd s = Some s1"
    using assms(1) by (auto simp: process_stream_buf_def split: option.splits)
  note b = proc_cmd_budget [OF s1 assms(2,3)]
  have "frugal s1 t"
  proof (cases "\<exists>f ty. cmd = CMD_FLUSH_QUEUE f ty")
    case True
    then show ?thesis using assms(1) s1 still_frugal [OF still_refl] by (auto simp: process_stream_buf_def)
  next
    case False
    then obtain s2 where s2: "superbuf_bufdone_overflow c (zsl_control c s1) = Some s2"
      "dispatch_loop c (attr_notify_mode (attr (queue_of c s1))) s2 = Some t"
      using assms(1) s1 by (auto simp: process_stream_buf_def Let_def split: option.splits mm_cmd.splits)
    have "still s1 s2" using still_trans [OF still_zsl_control still_overflow [OF s2(1)]] .
    moreover from this have "frugal s2 t"
      using b(1) by (intro frugal_loop [OF s2(2)]) (auto simp: still_def same_wants_def modest_def)
    ultimately show ?thesis using still_frugal frugal_trans by blast
  qed
  from frugal_modest [OF this b(1)] show "modest t" "budget x t \<le> budget x s + asked x (c, cmd)"
    using le_trans [OF _ b(2)] by auto
qed

lemma run_budget:
  assumes "run_cmds cmds s = Some t" and "modest s" and "\<forall>(c, cmd) \<in> set cmds. modest_cmd cmd"
  shows "budget x t \<le> budget x s + sum_list (map (asked x) cmds)"
  using assms
proof (induction cmds s rule: run_cmds.induct)
  case (1 s)
  then show ?case by simp
next
  case (2 c cmd cs s)
  then obtain u where u: "process_stream_buf c cmd s = Some u" by (auto split: option.splits)
  note b = command_budget [OF u "2.prems"(2)]
  have "budget x t \<le> budget x u + sum_list (map (asked x) cs)"
    using "2.IH" [OF u] "2.prems" b(1) u by auto
  then show ?case using b(2) [of x] "2.prems"(3) by auto
qed

end
