(* ===== verification/Mm_Assemble.thy ===== *)
theory Mm_Assemble
  imports Mm_Sent
begin

text \<open>
  What matching is for: the buffers of one frame, one from each bundled stream and in any order,
  become one complete node, whose slots follow the order of the bundle.
\<close>

section \<open>The slots\<close>

definition slot_of :: "buf_info list \<Rightarrow> int32 \<Rightarrow> buf_info" where
  "slot_of bs h = (case find (\<lambda>b. bi_stream_id b = h) bs of None \<Rightarrow> no_buf | Some b \<Rightarrow> b)"

definition frame_bufs :: "int32 \<Rightarrow> int32 list \<Rightarrow> buf_info list \<Rightarrow> bool" where
  "frame_bufs f hs bs \<longleftrightarrow> f \<noteq> 0 \<and> distinct (map bi_stream_id bs) \<and> bi_stream_id ` set bs \<subseteq> set hs \<and>
     (\<forall>b \<in> set bs. bi_frame_idx b = f)"

lemma find_app: "find P (xs @ ys) = (case find P xs of None \<Rightarrow> find P ys | Some x \<Rightarrow> Some x)"
  by (induction xs) auto

lemma slot_of_new:
  assumes "h \<notin> bi_stream_id ` set bs"
  shows "slot_of bs h = no_buf" and "slot_of (bs @ [b]) h = (if bi_stream_id b = h then b else no_buf)"
proof -
  have "find (\<lambda>b. bi_stream_id b = h) bs = None" using assms by (auto simp: find_None_iff)
  then show "slot_of bs h = no_buf" "slot_of (bs @ [b]) h = (if bi_stream_id b = h then b else no_buf)"
    by (simp_all add: slot_of_def find_app)
qed

lemma slot_of_in:
  assumes "h \<in> bi_stream_id ` set bs"
  shows "slot_of bs h \<in> set bs" and "slot_of (bs @ [b]) h = slot_of bs h"
proof -
  obtain x where "find (\<lambda>b. bi_stream_id b = h) bs = Some x"
    using assms by (cases "find (\<lambda>b. bi_stream_id b = h) bs") (auto simp: find_None_iff)
  moreover from this have "x \<in> set bs" by (auto simp: find_Some_iff)
  ultimately show "slot_of bs h \<in> set bs" "slot_of (bs @ [b]) h = slot_of bs h"
    by (simp_all add: slot_of_def find_app)
qed

lemma slot_filled_iff:
  assumes "frame_bufs f hs bs"
  shows "is_filled (slot_of bs h) \<longleftrightarrow> h \<in> bi_stream_id ` set bs"
proof (cases "h \<in> bi_stream_id ` set bs")
  case True
  from slot_of_in(1) [OF this] have "bi_frame_idx (slot_of bs h) = f" "f \<noteq> 0"
    using assms by (auto simp: frame_bufs_def)
  then show ?thesis using True by (simp add: is_filled_def)
next
  case False
  from slot_of_new(1) [OF this] False show ?thesis by simp
qed

lemma all_filled_iff:
  assumes "frame_bufs f hs bs" and "distinct hs"
  shows "list_all is_filled (map (slot_of bs) hs) \<longleftrightarrow> length bs = length hs"
proof -
  have ids: "distinct (map bi_stream_id bs)" "set (map bi_stream_id bs) \<subseteq> set hs"
    using assms(1) by (auto simp: frame_bufs_def)
  have "list_all is_filled (map (slot_of bs) hs) \<longleftrightarrow> set hs \<subseteq> set (map bi_stream_id bs)"
    using slot_filled_iff [OF assms(1)] by (auto simp: list_all_iff)
  also have "\<dots> \<longleftrightarrow> card (set (map bi_stream_id bs)) = card (set hs)"
    using ids(2) by (metis List.finite_set card_subset_eq subset_antisym order_refl)
  also have "\<dots> \<longleftrightarrow> length bs = length hs"
    unfolding distinct_card [OF ids(1)] distinct_card [OF assms(2)] by simp
  finally show ?thesis .
qed

lemma slots_update:
  assumes "frame_bufs f hs (bs @ [b])" and "distinct hs" and "i < length hs" and "hs ! i = bi_stream_id b"
  shows "(map (slot_of bs) hs)[i := b] = map (slot_of (bs @ [b])) hs"
proof (rule nth_equalityI)
  fix j assume "j < length ((map (slot_of bs) hs)[i := b])"
  then have j: "j < length hs" by simp
  have new: "bi_stream_id b \<notin> bi_stream_id ` set bs" using assms(1) by (auto simp: frame_bufs_def)
  show "(map (slot_of bs) hs)[i := b] ! j = map (slot_of (bs @ [b])) hs ! j"
  proof (cases "j = i")
    case True
    then show ?thesis using assms(3,4) slot_of_new(2) [OF new, of b] by simp
  next
    case False
    then have "hs ! j \<noteq> bi_stream_id b" using assms(2-4) j nth_eq_iff_index_eq by metis
    then have "slot_of (bs @ [b]) (hs ! j) = slot_of bs (hs ! j)"
      using slot_of_in(2) [of "hs ! j" bs b] slot_of_new(1) [of "hs ! j" bs] slot_of_new(2) [of "hs ! j" bs b] by (cases "hs ! j \<in> bi_stream_id ` set bs") auto
    then show ?thesis using False j by simp
  qed
qed simp

section \<open>A node that grows\<close>

text \<open>
  A channel and a buffer to which nothing special happens: no zoom frame, good frame or flash is
  waited for, the stream is known, and metadata, which has to be there for a metadata stream, asks
  for no flush and moves no frame number.
\<close>

definition calm_channel :: "channel \<Rightarrow> bool" where
  "calm_channel ch \<longleftrightarrow> \<not> isZoom1xFrameRequested ch \<and> bracketingState ch \<noteq> BRACKETING_WAIT_GOOD_FRAME_IDX \<and>
     \<not> needLEDFlash ch"

definition calm :: "channel \<Rightarrow> buf_info \<times> metadata option \<Rightarrow> bool" where
  "calm ch x \<longleftrightarrow> (case get_stream_by_handler ch (bi_stream_id (fst x)) of
      None \<Rightarrow> False
    | Some st \<Rightarrow> (case stream_info st of
        None \<Rightarrow> False
      | Some t \<Rightarrow> t = CAM_STREAM_TYPE_METADATA \<longrightarrow> (case snd x of
          None \<Rightarrow> False
        | Some md \<Rightarrow> md_prep_snapshot_done md \<noteq> Some True \<and> md_good_frame_idx_range md = None)))"

definition assembly :: "nat \<Rightarrow> int32 \<Rightarrow> buf_info list \<Rightarrow> mm_sys \<Rightarrow> bool" where
  "assembly c f bs s \<longleftrightarrow> (let ch = chs s c; q = superbuf_queue ch; hs = bundled_streams q in
     distinct hs \<and> calm_channel ch \<and> sb_prio (attr q) \<noteq> PRIORITY_LOW \<and>
     frame_bufs f hs bs \<and> (length bs < length hs \<longrightarrow> expected_frame_id q \<le> f) \<and>
     (if bs = [] then que q = [] \<and> match_cnt q = 0 \<and> mem_ok s (allocs s) \<and> mem_ok s (allocs s + 1)
      else \<exists>n. que q = [n] \<and> super_buf n = map (slot_of bs) hs \<and> frame_idx n = f \<and>
        unmatched_meta_idx n = 0 \<and> (matched n \<longleftrightarrow> length bs = length hs) \<and>
        match_cnt q = (if matched n then 1 else 0)))"

lemma sync_add_keeps [simp]:
  "mem_ok (sync_add f c s) = mem_ok s" "allocs (sync_add f c s) = allocs s"
  by (simp_all add: sync_add_def)

text \<open>The parts of a channel that matching keeps.\<close>

definition same_frame :: "channel \<Rightarrow> channel \<Rightarrow> bool" where
  "same_frame ch ch' \<longleftrightarrow> streams ch' = streams ch \<and>
     bundled_streams (superbuf_queue ch') = bundled_streams (superbuf_queue ch) \<and>
     sb_prio (attr (superbuf_queue ch')) = sb_prio (attr (superbuf_queue ch)) \<and>
     (calm_channel ch \<longrightarrow> calm_channel ch')"

lemma same_frame_calm: "same_frame ch ch' \<Longrightarrow> calm ch' = calm ch"
  by (simp add: same_frame_def calm_def get_stream_by_handler_def fun_eq_iff)

text \<open>Calm metadata moves at most the expected frame, and not beyond its own.\<close>

definition untouched :: "nat \<Rightarrow> mm_sys \<Rightarrow> mm_sys \<Rightarrow> bool" where
  "untouched c s t \<longleftrightarrow> same_frame (chs s c) (chs t c) \<and> que (queue_of c t) = que (queue_of c s) \<and>
     match_cnt (queue_of c t) = match_cnt (queue_of c s) \<and> mem_ok t = mem_ok s \<and> allocs t = allocs s"

lemma untouched_refl: "untouched c s s"
  by (simp add: untouched_def same_frame_def)

lemma untouched_upd_ch:
  "untouched c s t \<Longrightarrow> superbuf_queue (g (chs t c)) = superbuf_queue (chs t c) \<Longrightarrow>
   streams (g (chs t c)) = streams (chs t c) \<Longrightarrow> (calm_channel (chs t c) \<longrightarrow> calm_channel (g (chs t c))) \<Longrightarrow>
   untouched c s (upd_ch c g t)"
  by (simp add: untouched_def upd_ch_def same_frame_def)

lemma untouched_upd_q:
  "untouched c s t \<Longrightarrow> que (g (queue_of c t)) = que (queue_of c t) \<Longrightarrow>
   match_cnt (g (queue_of c t)) = match_cnt (queue_of c t) \<Longrightarrow>
   bundled_streams (g (queue_of c t)) = bundled_streams (queue_of c t) \<Longrightarrow>
   sb_prio (attr (g (queue_of c t))) = sb_prio (attr (queue_of c t)) \<Longrightarrow> untouched c s (upd_q c g t)"
  by (simp add: untouched_def upd_q_def upd_ch_def same_frame_def calm_channel_def)

lemma calm_step_channel:
  assumes "md_prep_snapshot_done md \<noteq> Some True"
  shows "untouched c s (snd (md_crop_1x c md s))" and "untouched c s (md_divert c b md s)"
    and "untouched c s (md_prep c md s)" and "untouched c s (md_low_light_step c md s)"
    and "queue_of c (snd (md_crop_1x c md s)) = queue_of c s" and "queue_of c (md_divert c b md s) = queue_of c s"
    and "queue_of c (md_prep c md s) = queue_of c s" and "queue_of c (md_low_light_step c md s) = queue_of c s"
proof -
  have crop: "chs (snd (md_crop_1x c md s)) = chs s" "mem_ok (snd (md_crop_1x c md s)) = mem_ok s"
    "allocs (snd (md_crop_1x c md s)) = allocs s"
    by (simp_all add: md_crop_1x_def case_prod_beta Let_def split: option.split)
  then show "untouched c s (snd (md_crop_1x c md s))" by (simp add: untouched_def same_frame_def)
  show "untouched c s (md_divert c b md s)" "untouched c s (md_low_light_step c md s)"
    by (auto simp: md_divert_def md_low_light_step_def calm_channel_def untouched_refl
        split: option.split intro!: untouched_upd_ch)
  show "untouched c s (md_prep c md s)"
    using assms by (auto simp: md_prep_def Let_def calm_channel_def untouched_refl split: option.split intro!: untouched_upd_ch)
  show "queue_of c (snd (md_crop_1x c md s)) = queue_of c s" by (simp add: crop)
  show "queue_of c (md_divert c b md s) = queue_of c s" "queue_of c (md_low_light_step c md s) = queue_of c s"
    by (simp_all add: md_divert_def md_low_light_step_def upd_ch_def split: option.split)
  show "queue_of c (md_prep c md s) = queue_of c s"
    using assms by (auto simp: md_prep_def Let_def upd_ch_def split: option.split)
qed

lemma untouched_trans: "untouched c s t \<Longrightarrow> untouched c t u \<Longrightarrow> untouched c s u"
  by (simp add: untouched_def same_frame_def)

lemma untouched_user:
  "untouched c s (md_user_expected c b md s)"
  "expected_frame_id (queue_of c s) \<le> bi_frame_idx b \<Longrightarrow>
   expected_frame_id (queue_of c (md_user_expected c b md s)) \<le> bi_frame_idx b"
  by (auto simp: md_user_expected_def clear_user_expected_def Let_def untouched_refl intro!: untouched_upd_q)

lemma calm_metadata:
  assumes "calm_channel (chs s c)" and "md_prep_snapshot_done md \<noteq> Some True"
    and "md_good_frame_idx_range md = None" and "expected_frame_id (queue_of c s) \<le> bi_frame_idx b"
  defines "u \<equiv> md_divert c b md (snd (md_crop_1x c md s))"
  defines "t \<equiv> md_user_expected c b md (md_low_light_step c md (md_led_off c b
    (md_config c md (md_bracketing c md (md_range c md (md_prep c md u))))))"
  shows "\<not> isZoom1xFrameRequested (chs u c)" and "untouched c s t"
    and "expected_frame_id (queue_of c t) \<le> bi_frame_idx b"
proof -
  note calm = calm_step_channel [OF assms(2)]
  have u: "untouched c s u" "queue_of c u = queue_of c s"
    using untouched_trans [OF calm(1) calm(2)] calm(5,6) by (simp_all add: u_def)
  have cu: "calm_channel (chs u c)" using u(1) assms(1) by (simp add: untouched_def same_frame_def)
  then show "\<not> isZoom1xFrameRequested (chs u c)" by (simp add: calm_channel_def)
  let ?p = "md_prep c md u"
  have cp: "calm_channel (chs ?p c)" using calm(3) [of c u] cu by (simp add: untouched_def same_frame_def)
  have "md_led_off c b (md_config c md (md_bracketing c md (md_range c md ?p))) = ?p"
    using cp assms(3)
    by (simp add: md_led_off_def md_config_def md_bracketing_def md_range_def calm_channel_def Let_def)
  then have t: "t = md_user_expected c b md (md_low_light_step c md ?p)" by (simp add: t_def)
  show "untouched c s t"
    unfolding t by (rule untouched_trans [OF untouched_trans [OF untouched_trans [OF u(1) calm(3)] calm(4)] untouched_user(1)])
  show "expected_frame_id (queue_of c t) \<le> bi_frame_idx b"
    unfolding t by (rule untouched_user(2)) (simp add: calm(7,8) u(2) assms(4))
qed

lemma calm_handled:
  assumes "calm_channel (chs s c)" and "calm (chs s c) (b, md)"
    and "expected_frame_id (queue_of c s) \<le> bi_frame_idx b"
  obtains t where "mm_channel_handle_metadata c b md s = (True, t)" and "untouched c s t"
    and "expected_frame_id (queue_of c t) \<le> bi_frame_idx b"
proof -
  obtain st ty where st: "get_stream_by_handler (chs s c) (bi_stream_id b) = Some st" "stream_info st = Some ty"
    using assms(2) by (auto simp: calm_def split: option.splits)
  show ?thesis
  proof (cases "ty = CAM_STREAM_TYPE_METADATA \<and> (owned st \<or> linked_here st)")
    case False
    then show ?thesis using that [of s] st assms(3) untouched_refl by (auto simp: mm_channel_handle_metadata_def)
  next
    case True
    then obtain m where m: "md = Some m" "md_prep_snapshot_done m \<noteq> Some True" "md_good_frame_idx_range m = None"
      using assms(2) st by (auto simp: calm_def split: option.splits)
    note c = calm_metadata [OF assms(1) m(2,3) assms(3)]
    show ?thesis
      using that [OF _ c(2,3)] st True m(1) c(1) by (simp add: mm_channel_handle_metadata_def case_prod_beta Let_def)
  qed
qed

lemma assembly_untouched:
  assumes "assembly c f bs s" and "untouched c s t" and "expected_frame_id (queue_of c t) \<le> f"
  shows "assembly c f bs t"
  using assms by (auto simp: assembly_def Let_def untouched_def same_frame_def)

lemma insert_empty:
  fixes i :: nat and b :: buf_info
  assumes "que (queue_of c s) = []" and "mem_ok s (allocs s)" and "mem_ok s (allocs s + 1)"
    and "sb_prio (attr (queue_of c s)) \<noteq> PRIORITY_LOW"
  defines "u \<equiv> insert_new c b i None s" and "hs \<equiv> bundled_streams (queue_of c s)"
  shows "same_frame (chs s c) (chs u c)"
    and "\<exists>n. que (queue_of c u) = [n] \<and> super_buf n = (replicate (length hs) no_buf)[i := b] \<and>
      frame_idx n = bi_frame_idx b \<and> unmatched_meta_idx n = 0 \<and> (matched n \<longleftrightarrow> length hs = 1) \<and>
      match_cnt (queue_of c u) = match_cnt (queue_of c s) + (if matched n then 1 else 0)"
    and "length hs \<noteq> 1 \<Longrightarrow> expected_frame_id (queue_of c u) = expected_frame_id (queue_of c s)"
proof -
  show "same_frame (chs s c) (chs u c)"
    using assms(1-4) by (simp add: u_def insert_new_def mm_malloc_def Let_def same_frame_def)
      (simp add: upd_ch_def upd_q_def calm_channel_def)
  show "\<exists>n. que (queue_of c u) = [n] \<and> super_buf n = (replicate (length hs) no_buf)[i := b] \<and>
      frame_idx n = bi_frame_idx b \<and> unmatched_meta_idx n = 0 \<and> (matched n \<longleftrightarrow> length hs = 1) \<and>
      match_cnt (queue_of c u) = match_cnt (queue_of c s) + (if matched n then 1 else 0)"
    using assms(1-4) by (simp add: u_def hs_def insert_new_def mm_malloc_def Let_def insert_at_def)
      (simp add: upd_ch_def upd_q_def)
  show "length hs \<noteq> 1 \<Longrightarrow> expected_frame_id (queue_of c u) = expected_frame_id (queue_of c s)"
    using assms(1-4) by (simp add: u_def hs_def insert_new_def mm_malloc_def Let_def) (simp add: upd_ch_def upd_q_def)
qed

lemma fill_single:
  fixes c i :: nat and b :: buf_info
  assumes "que (queue_of c s) = [n]" and "unmatched_meta_idx n = 0" and "\<not> is_filled (super_buf n ! i)"
    and "\<not> matched n"
  defines "u \<equiv> fill_found c b i 0 None s" and "full \<equiv> list_all is_filled ((super_buf n)[i := b])"
  shows "same_frame (chs s c) (chs u c)"
    and "\<exists>m. que (queue_of c u) = [m] \<and> super_buf m = (super_buf n)[i := b] \<and>
      frame_idx m = frame_idx n \<and> unmatched_meta_idx m = 0 \<and> (matched m \<longleftrightarrow> full) \<and>
      match_cnt (queue_of c u) = match_cnt (queue_of c s) + (if full then 1 else 0)"
    and "\<not> full \<Longrightarrow> expected_frame_id (queue_of c u) = expected_frame_id (queue_of c s)"
proof -
  note fill = fill_found_def node_matched_def set_node_def upd_ch_def upd_q_def Let_def
  show "same_frame (chs s c) (chs u c)"
    using assms(1-3) by (simp add: u_def fill same_frame_def calm_channel_def)
  show "\<exists>m. que (queue_of c u) = [m] \<and> super_buf m = (super_buf n)[i := b] \<and>
      frame_idx m = frame_idx n \<and> unmatched_meta_idx m = 0 \<and> (matched m \<longleftrightarrow> full) \<and>
      match_cnt (queue_of c u) = match_cnt (queue_of c s) + (if full then 1 else 0)"
    using assms(1-4) by (simp add: u_def full_def fill)
  show "\<not> full \<Longrightarrow> expected_frame_id (queue_of c u) = expected_frame_id (queue_of c s)"
    using assms(1-3) by (simp add: u_def full_def fill)
qed

text \<open>A buffer of the frame that passes the metadata is put into its slot.\<close>

definition matched_in :: "nat \<Rightarrow> buf_info \<Rightarrow> nat \<Rightarrow> mm_sys \<Rightarrow> mm_sys" where
  "matched_in c b i s = (let q = queue_of c s; r = scan_queue (sb_prio (attr q)) i b 0 (que q) scan_start in
     case scan_found r of
       Some pos \<Rightarrow> fill_found c b i pos (scan_last r) s
     | None \<Rightarrow> enqueue_unmatched c b i r s)"

lemma assembly_matched:
  assumes "assembly c f bs s" and "frame_bufs f (bundled_streams (queue_of c s)) (bs @ [b])"
    and "index_of (\<lambda>h. bi_stream_id b = h) (bundled_streams (queue_of c s)) = Some i"
  defines "u \<equiv> matched_in c b i s"
  shows "assembly c f (bs @ [b]) u" and "same_frame (chs s c) (chs u c)"
proof -
  let ?q = "queue_of c s" and ?hs = "bundled_streams (queue_of c s)"
  have a: "distinct ?hs" "calm_channel (chs s c)" "sb_prio (attr ?q) \<noteq> PRIORITY_LOW"
    "frame_bufs f ?hs bs" "length bs < length ?hs \<Longrightarrow> expected_frame_id ?q \<le> f"
    using assms(1) by (simp_all add: assembly_def Let_def)
  have b: "bi_stream_id b \<in> set ?hs" "bi_frame_idx b = f" "f \<noteq> 0" "bi_stream_id b \<notin> bi_stream_id ` set bs"
    using assms(2) by (auto simp: frame_bufs_def)
  have len: "length (bs @ [b]) \<le> length ?hs"
    using assms(2) a(1) card_mono [of "set ?hs" "set (map bi_stream_id (bs @ [b]))"]
      distinct_card [of "map bi_stream_id (bs @ [b])"] distinct_card [of ?hs]
    by (auto simp: frame_bufs_def)
  have exp: "expected_frame_id ?q \<le> f" using a(5) len by simp
  from index_of_Some [OF assms(3)] have at_i: "i < length ?hs" "?hs ! i = bi_stream_id b" by auto
  have go: "u = (case scan_found r of Some pos \<Rightarrow> fill_found c b i pos (scan_last r) s
      | None \<Rightarrow> enqueue_unmatched c b i r s)" if "r = scan_queue (sb_prio (attr ?q)) i b 0 (que ?q) scan_start" for r
    unfolding that u_def matched_in_def Let_def ..
  have slots: "map (slot_of (bs @ [b])) ?hs = (map (slot_of bs) ?hs)[i := b]"
    using slots_update [OF assms(2) a(1) at_i] by simp
  have full: "list_all is_filled (map (slot_of (bs @ [b])) ?hs) \<longleftrightarrow> length (bs @ [b]) = length ?hs"
    by (rule all_filled_iff [OF assms(2) a(1)])
  have out: "assembly c f (bs @ [b]) u \<and> same_frame (chs s c) (chs u c)"
    if "same_frame (chs s c) (chs u c)"
      and "\<exists>n. que (queue_of c u) = [n] \<and> super_buf n = map (slot_of (bs @ [b])) ?hs \<and> frame_idx n = f \<and>
        unmatched_meta_idx n = 0 \<and> (matched n \<longleftrightarrow> length (bs @ [b]) = length ?hs) \<and>
        match_cnt (queue_of c u) = (if matched n then 1 else 0)"
      and "length (bs @ [b]) \<noteq> length ?hs \<Longrightarrow> expected_frame_id (queue_of c u) = expected_frame_id ?q"
    using that a assms(2) exp
    by (auto simp: assembly_def Let_def same_frame_def)
  have "assembly c f (bs @ [b]) u \<and> same_frame (chs s c) (chs u c)"
  proof (cases "bs = []")
    case True
    then have q: "que ?q = []" "match_cnt ?q = 0" "mem_ok s (allocs s)" "mem_ok s (allocs s + 1)"
      using assms(1) by (auto simp: assembly_def Let_def)
    have "u = insert_new c b i None s"
      using go [OF refl] q(1) by (simp add: scan_start_def enqueue_unmatched_def)
    moreover have "map (slot_of bs) ?hs = replicate (length ?hs) no_buf"
      using True by (intro nth_equalityI) (simp_all add: slot_of_def)
    ultimately have ins: "same_frame (chs s c) (chs u c)"
      "\<exists>n. que (queue_of c u) = [n] \<and> super_buf n = map (slot_of (bs @ [b])) ?hs \<and> frame_idx n = f \<and>
        unmatched_meta_idx n = 0 \<and> (matched n \<longleftrightarrow> length ?hs = 1) \<and>
        match_cnt (queue_of c u) = (if matched n then 1 else 0)"
      "length ?hs \<noteq> 1 \<Longrightarrow> expected_frame_id (queue_of c u) = expected_frame_id ?q"
      using insert_empty [OF q(1,3,4) a(3), of b i] unfolding slots b(2) q(2) by simp_all
    have one: "length (bs @ [b]) = length ?hs \<longleftrightarrow> length ?hs = 1" using True by auto
    show ?thesis by (rule out [unfolded one, OF ins(1,2) ins(3)])
  next
    case False
    then obtain n where n: "que ?q = [n]" "super_buf n = map (slot_of bs) ?hs" "frame_idx n = f"
      "unmatched_meta_idx n = 0" "matched n \<longleftrightarrow> length bs = length ?hs" "match_cnt ?q = (if matched n then 1 else 0)"
      using assms(1) by (auto simp: assembly_def Let_def)
    have un: "\<not> matched n" using n(5) len by simp
    have empty: "\<not> is_filled (super_buf n ! i)"
      using slot_filled_iff [OF a(4), of "bi_stream_id b"] b(4) at_i by (simp add: n(2))
    have "u = fill_found c b i 0 None s"
      using go [OF refl] n(1,3) un b(2) by (simp add: scan_start_def joins_def)
    then have ins: "same_frame (chs s c) (chs u c)"
      "\<exists>n. que (queue_of c u) = [n] \<and> super_buf n = map (slot_of (bs @ [b])) ?hs \<and> frame_idx n = f \<and>
        unmatched_meta_idx n = 0 \<and> (matched n \<longleftrightarrow> length (bs @ [b]) = length ?hs) \<and>
        match_cnt (queue_of c u) = (if length (bs @ [b]) = length ?hs then 1 else 0)"
      "length (bs @ [b]) \<noteq> length ?hs \<Longrightarrow> expected_frame_id (queue_of c u) = expected_frame_id ?q"
      using fill_single [OF n(1,4) empty un, of b] un n(6)
      unfolding n(2,3) slots [symmetric] full by simp_all
    obtain m where "que (queue_of c u) = [m] \<and> super_buf m = map (slot_of (bs @ [b])) ?hs \<and> frame_idx m = f \<and>
        unmatched_meta_idx m = 0 \<and> (matched m \<longleftrightarrow> length (bs @ [b]) = length ?hs) \<and>
        match_cnt (queue_of c u) = (if matched m then 1 else 0)" using ins(2) by auto
    from out [OF ins(1) exI, OF this ins(3)] show ?thesis .
  qed
  then show "assembly c f (bs @ [b]) u" "same_frame (chs s c) (chs u c)" by auto
qed

lemma assembly_step:
  assumes "assembly c f bs s" and "frame_bufs f (bundled_streams (queue_of c s)) (bs @ [b])"
    and "calm (chs s c) (b, md)"
  defines "u \<equiv> snd (superbuf_comp_and_enqueue c b md s)"
  shows "assembly c f (bs @ [b]) u" and "same_frame (chs s c) (chs u c)"
proof -
  let ?hs = "bundled_streams (queue_of c s)"
  have a: "distinct ?hs" "calm_channel (chs s c)" "length bs < length ?hs \<Longrightarrow> expected_frame_id (queue_of c s) \<le> f"
    using assms(1) by (simp_all add: assembly_def Let_def)
  have b: "bi_stream_id b \<in> set ?hs" "bi_frame_idx b = f" "f \<noteq> 0"
    using assms(2) by (auto simp: frame_bufs_def)
  have "length (bs @ [b]) \<le> length ?hs"
    using assms(2) a(1) card_mono [of "set ?hs" "set (map bi_stream_id (bs @ [b]))"]
      distinct_card [of "map bi_stream_id (bs @ [b])"] distinct_card [of ?hs]
    by (auto simp: frame_bufs_def)
  then have exp: "expected_frame_id (queue_of c s) \<le> bi_frame_idx b" using a(3) b(2) by simp
  obtain t where t: "mm_channel_handle_metadata c b md s = (True, t)" "untouched c s t"
    "expected_frame_id (queue_of c t) \<le> bi_frame_idx b"
    by (rule calm_handled [OF a(2) assms(3) exp])
  have hs: "bundled_streams (queue_of c t) = ?hs" and st: "same_frame (chs s c) (chs t c)"
    using t(2) by (simp_all add: untouched_def same_frame_def)
  obtain i where i: "index_of (\<lambda>h. bi_stream_id b = h) ?hs = Some i"
    using b(1) index_of_None [of "\<lambda>h. bi_stream_id b = h" ?hs "bi_stream_id b"]
    by (cases "index_of (\<lambda>h. bi_stream_id b = h) ?hs") auto
  have "\<not> bi_frame_idx b < expected_frame_id (queue_of c t)" using t(3) by simp
  then have u: "u = matched_in c b i t"
    unfolding u_def using i t(1) b(2,3)
    by (simp add: superbuf_comp_and_enqueue_def seq_comp_w_rollover_def matched_in_def scan_start_def Let_def)
  have "assembly c f bs t" using assembly_untouched [OF assms(1) t(2)] t(3) b(2) by simp
  from assembly_matched [OF this, of b i, folded u] assms(2) i show "assembly c f (bs @ [b]) u" "same_frame (chs s c) (chs u c)"
    using st by (simp_all add: hs same_frame_def)
qed

lemma assembly_run:
  assumes "assembly c f ps s" and "frame_bufs f (bundled_streams (queue_of c s)) (ps @ map fst bs)"
    and "\<forall>x \<in> set bs. calm (chs s c) x"
  defines "t \<equiv> fold (\<lambda>(b, md) s. snd (superbuf_comp_and_enqueue c b md s)) bs s"
  shows "assembly c f (ps @ map fst bs) t \<and> bundled_streams (queue_of c t) = bundled_streams (queue_of c s)"
  using assms(1-3) unfolding t_def
proof (induction bs arbitrary: ps s)
  case (Cons x bs)
  obtain b md where x: "x = (b, md)" by fastforce
  let ?u = "snd (superbuf_comp_and_enqueue c b md s)"
  have "frame_bufs f (bundled_streams (queue_of c s)) (ps @ [b])"
    using Cons.prems(2) by (auto simp: frame_bufs_def x)
  note step = assembly_step [OF Cons.prems(1) this, of md]
  have c: "calm (chs s c) (b, md)" using Cons.prems(3) by (simp add: x)
  have hs: "bundled_streams (queue_of c ?u) = bundled_streams (queue_of c s)"
    using step(2) [OF c] by (simp add: same_frame_def)
  have "\<forall>y \<in> set bs. calm (chs ?u c) y" using Cons.prems(3) same_frame_calm [OF step(2) [OF c]] by simp
  from Cons.IH [OF step(1) [OF c] _ this] Cons.prems(2) show ?case by (simp add: x hs)
qed simp

end
