(* ===== verification/Mm_Theorems.thy ===== *)
theory Mm_Theorems
  imports Mm_Assemble
begin

text \<open>
  The properties of the super buffer queue: commands return, buffers are accounted for, what is
  sent is complete, frames are assembled, and what goes wrong in the mode of low priority and in a
  flush of one type of stream.
\<close>

section \<open>Runs\<close>

definition came :: "nat \<Rightarrow> (nat \<times> mm_cmd) list \<Rightarrow> buf_def multiset" where
  "came x cmds = sum_list (map (\<lambda>(c, cmd). cmd_bufs c cmd x) cmds)"

text \<open>What the commands of a run lose, each in the state it finds.\<close>

fun lost :: "nat \<Rightarrow> (nat \<times> mm_cmd) list \<Rightarrow> mm_sys \<Rightarrow> buf_def multiset" where
  "lost x [] s = {#}"
| "lost x ((c, cmd) # cs) s = cmd_lost c cmd s x +
     (case process_stream_buf c cmd s of None \<Rightarrow> {#} | Some t \<Rightarrow> lost x cs t)"

lemma run_ok:
  assumes "mm_ok s" and "\<forall>(c, cmd) \<in> set cmds. cmd_ok cmd"
  shows "\<exists>t. run_cmds cmds s = Some t \<and> contract s (\<lambda>x. came x cmds) (\<lambda>x. lost x cmds s) t"
  using assms
proof (induction cmds s rule: run_cmds.induct)
  case (1 s)
  then show ?case by (simp add: came_def contract_refl)
next
  case (2 c cmd cs s)
  from command_ok [OF "2.prems"(1), of cmd c] "2.prems"(2) obtain u where
    u: "process_stream_buf c cmd s = Some u" "contract s (cmd_bufs c cmd) (cmd_lost c cmd s) u" by auto
  from "2.IH" [OF u(1) contract_ok [OF u(2) "2.prems"(1)]] "2.prems"(2) obtain t where
    t: "run_cmds cs u = Some t" "contract u (\<lambda>x. came x cs) (\<lambda>x. lost x cs u) t" by auto
  then show ?case
    using contract_trans [OF u(2) t(2)] u(1) by (simp add: came_def)
qed

text \<open>Nothing is lost where every flush is of all types and every frame is of a bundled stream.\<close>

definition keeps_all :: "nat \<Rightarrow> mm_cmd \<Rightarrow> mm_sys \<Rightarrow> bool" where
  "keeps_all c cmd s \<longleftrightarrow> (case cmd of
      CMD_DATA_CB b md \<Rightarrow> bi_stream_id b \<in> set (bundled_streams (queue_of c s))
    | CMD_FLUSH_QUEUE f ty \<Rightarrow> ty = CAM_STREAM_TYPE_DEFAULT
    | _ \<Rightarrow> True)"

lemma lost_nothing:
  assumes "mm_ok s" and "\<forall>(c, cmd) \<in> set cmds. cmd_ok cmd \<and> keeps_all c cmd s"
  shows "lost x cmds s = {#}"
  using assms
proof (induction cmds s rule: run_cmds.induct)
  case (2 c cmd cs s)
  from command_ok [OF "2.prems"(1), of cmd c] "2.prems"(2) obtain u where
    u: "process_stream_buf c cmd s = Some u" "contract s (cmd_bufs c cmd) (cmd_lost c cmd s) u" by auto
  have "keeps_all c' cmd' u = keeps_all c' cmd' s" for c' cmd'
    using contract_bundles [OF u(2) "2.prems"(1)] by (simp add: keeps_all_def split: mm_cmd.split)
  then have "lost x cs u = {#}"
    using "2.IH" [OF u(1) contract_ok [OF u(2) "2.prems"(1)]] "2.prems"(2) by auto
  moreover have "cmd_lost c cmd s x = {#}"
    using "2.prems"(2) by (auto simp: cmd_lost_def keeps_all_def is_type_def split: mm_cmd.splits)
  ultimately show ?case by (simp add: u(1))
qed simp

section \<open>A channel with two streams\<close>

definition quiet_attr :: channel_attr where
  "quiet_attr = \<lparr>attr_notify_mode = NOTIFY_BURST, water_mark = 1, look_back = 2, post_frame_skip = 0,
     max_unmatched_frames = 3, enable_frame_sync = False, sb_prio = PRIORITY_NORMAL, user_expected_frame_id = 0\<rparr>"

definition empty_queue :: "int32 list \<Rightarrow> channel_attr \<Rightarrow> channel_queue" where
  "empty_queue hs a = \<lparr>que = [], que_size = 0, bundled_streams = hs, attr = a, expected_frame_id = 0,
     match_cnt = 0, expected_frame_id_without_led = 0, led_on_start_frame_id = 0,
     led_off_start_frame_id = 0, led_on_num_frames = 0, led_once = False, q_frame_skip_count = 0,
     good_frame_id = 0\<rparr>"

definition idle_channel :: "channel_queue \<Rightarrow> chan_stream list \<Rightarrow> channel" where
  "idle_channel q ss = \<lparr>superbuf_queue = q, has_notify_cb = True, pending_cnt = 0, pending_retro_cnt = 0,
     ch_req_type = REQ_SUPER_BUF, bWaitForPrepSnapshotDone = False, unLockAEC = False,
     stopZslSnapshot = False, streams = ss, manualZSLSnapshot = False, startZSlSnapshotCalled = False,
     needLEDFlash = False, bracketingState = BRACKETING_OFF, isFlashBracketingEnabled = False,
     isZoom1xFrameRequested = False, burstSnapNum = 0, diverted_frame_id = 0, isConfigCapture = False,
     cur_capture_idx = 0, capture_frame_id = replicate 32 0, frameConfig = [], needLowLightZSL = False\<rparr>"

definition a_stream :: "int32 \<Rightarrow> stream_type \<Rightarrow> chan_stream" where
  "a_stream h t = \<lparr>stream_used = True, stream_hdl = h, stream_info = Some t, server_stream_id = h,
     owned = True, linked_here = False\<rparr>"

definition two_streams :: channel where
  "two_streams = idle_channel (empty_queue [1, 2] quiet_attr)
     [a_stream 1 CAM_STREAM_TYPE_PREVIEW, a_stream 2 CAM_STREAM_TYPE_SNAPSHOT]"

definition mm_start :: "channel \<Rightarrow> mm_sys" where
  "mm_start ch = \<lparr>chs = (\<lambda>_. ch), fs = mm_frame_sync_reset, mm_calls = [], mem_ok = (\<lambda>_. True), allocs = 0,
     junk_frame = (\<lambda>_. 0), read_freed = False, bad_link = False, undef = False\<rparr>"

definition frame :: "int32 \<Rightarrow> stream_type \<Rightarrow> int32 \<Rightarrow> buf_info" where
  "frame h t f = \<lparr>bi_stream_id = h, bi_frame_idx = f,
     bi_buf = Some \<lparr>buf_addr = 0, buf_stream_id = h, buf_frame_idx = f, buf_stream_type = t\<rparr>\<rparr>"

abbreviation preview :: "int32 \<Rightarrow> buf_info" where "preview \<equiv> frame 1 CAM_STREAM_TYPE_PREVIEW"
abbreviation snapshot :: "int32 \<Rightarrow> buf_info" where "snapshot \<equiv> frame 2 CAM_STREAM_TYPE_SNAPSHOT"

lemma two_streams_ok: "mm_ok (mm_start two_streams)"
proof -
  have "arranged [] [] (superbuf_queue two_streams)"
    by (simp add: arranged_def two_streams_def idle_channel_def empty_queue_def)
  then show ?thesis
    by (auto simp: mm_ok_def channel_ok_def queue_inv_def calls_ok_def mm_start_def two_streams_def
        idle_channel_def empty_queue_def quiet_attr_def get_stream_by_handler_def a_stream_def)
qed

lemma two_streams_frames:
  "cmd_ok (CMD_DATA_CB (frame h ty f) md)" "cmd_ok (CMD_REQ_DATA_CB t n r)" "cmd_ok (CMD_FLUSH_QUEUE f ty)"
  by (simp_all add: cmd_ok_def frame_def)

section \<open>Commands return and account for the buffers\<close>

definition one_snapshot :: "(nat \<times> mm_cmd) list" where
  "one_snapshot = [(0, CMD_DATA_CB (preview 6) None), (0, CMD_REQ_DATA_CB REQ_SUPER_BUF 1 0),
     (0, CMD_DATA_CB (preview 7) None), (0, CMD_DATA_CB (snapshot 7) None)]"

lemma one_snapshot_ok: "\<forall>(c, cmd) \<in> set one_snapshot. cmd_ok cmd"
  by (simp add: one_snapshot_def two_streams_frames)

text \<open>The same, with a frame of a stream that is not bundled and a flush of the snapshots at the end.\<close>

definition lossy_commands :: "(nat \<times> mm_cmd) list" where
  "lossy_commands = one_snapshot @ [(0, CMD_DATA_CB (frame 3 CAM_STREAM_TYPE_VIDEO 8) None),
     (0, CMD_DATA_CB (preview 9) None), (0, CMD_FLUSH_QUEUE 0 CAM_STREAM_TYPE_SNAPSHOT)]"

lemma lossy_commands_ok: "\<forall>(c, cmd) \<in> set lossy_commands. cmd_ok cmd"
  by (simp add: lossy_commands_def one_snapshot_def two_streams_frames)

text \<open>
  C28: Every sequence of commands to the channels returns, the loops over the queues included, and
  keeps the invariant of each queue. The invariant demands that no queue has low priority: C35
  shows that a command may not return with it.
\<close>

theorem mm_commands_return:
  assumes "mm_ok s" and "\<forall>(c, cmd) \<in> set cmds. cmd_ok cmd"
  shows "\<exists>t. run_cmds cmds s = Some t \<and> mm_ok t"
  using run_ok [OF assms] assms(1) contract_ok by blast

theorem mm_commands_return_witness:
  "\<exists>t. run_cmds lossy_commands (mm_start two_streams) = Some t \<and> mm_ok t"
  by (rule mm_commands_return [OF two_streams_ok lossy_commands_ok])

text \<open>
  C29: On every run of commands to channels of which none has low priority, every buffer that came, and
  every one that was there, is in the queue of its channel, or has left through exactly one call,
  to the stream or to the HAL in a super buffer, or is lost in one of the two places where the code
  loses buffers: a frame of a stream that is not bundled is dropped without a call, and a flush of
  one type of stream drops the held buffers of the other types. Nothing else is lost, so where
  every flush is of all types and every frame is of a bundled stream, nothing is.
\<close>

theorem mm_buffers_conserved:
  assumes "mm_ok s" and "\<forall>(c, cmd) \<in> set cmds. cmd_ok cmd"
  shows "\<exists>t. run_cmds cmds s = Some t \<and>
    held x t + gone x t + lost x cmds s = held x s + gone x s + came x cmds \<and>
    ((\<forall>(c, cmd) \<in> set cmds. keeps_all c cmd s) \<longrightarrow> lost x cmds s = {#})"
proof -
  have "(\<forall>(c, cmd) \<in> set cmds. keeps_all c cmd s) \<longrightarrow> lost x cmds s = {#}"
    using lost_nothing [OF assms(1), of cmds x] assms(2) by auto
  then show ?thesis using run_ok [OF assms] assms(1) by (auto simp: contract_def)
qed

lemma lossy_commands_end:
  "map_option (\<lambda>t. (mm_calls t, que (queue_of 0 t))) (run_cmds lossy_commands (mm_start two_streams)) =
     Some ([Qbuf 0 (the (bi_buf (preview 6))), Super_buf 0 [bi_buf (preview 7), bi_buf (snapshot 7)] False False,
       Post_sync 0], [])"
  by code_simp

theorem mm_buffers_conserved_witness:
  "(\<exists>t. run_cmds one_snapshot (mm_start two_streams) = Some t \<and>
     held 0 t + gone 0 t = {#the (bi_buf (preview 6)), the (bi_buf (preview 7)), the (bi_buf (snapshot 7))#}) \<and>
   lost 0 lossy_commands (mm_start two_streams) = {#the (bi_buf (frame 3 CAM_STREAM_TYPE_VIDEO 8)), the (bi_buf (preview 9))#}"
proof
  let ?p6 = "the (bi_buf (preview 6))" and ?p7 = "the (bi_buf (preview 7))" and ?s7 = "the (bi_buf (snapshot 7))"
  let ?v8 = "the (bi_buf (frame 3 CAM_STREAM_TYPE_VIDEO 8))" and ?p9 = "the (bi_buf (preview 9))"
  have start: "held 0 (mm_start two_streams) = {#}" "gone 0 (mm_start two_streams) = {#}"
    by (simp_all add: held_def gone_def mm_start_def two_streams_def idle_channel_def empty_queue_def)
  have "came 0 one_snapshot = {#?p6, ?p7, ?s7#}"
    by (simp add: came_def one_snapshot_def cmd_bufs_def some_bufs_def frame_def)
  moreover have "\<forall>(c, cmd) \<in> set one_snapshot. keeps_all c cmd (mm_start two_streams)"
    by (simp add: one_snapshot_def keeps_all_def frame_def mm_start_def two_streams_def idle_channel_def empty_queue_def)
  ultimately show "\<exists>t. run_cmds one_snapshot (mm_start two_streams) = Some t \<and> held 0 t + gone 0 t = {#?p6, ?p7, ?s7#}"
    using mm_buffers_conserved [OF two_streams_ok one_snapshot_ok, of 0] start by auto
  have came: "came 0 lossy_commands = {#?p6, ?p7, ?s7, ?v8, ?p9#}"
    by (simp add: came_def lossy_commands_def one_snapshot_def cmd_bufs_def some_bufs_def frame_def)
  obtain t where t: "run_cmds lossy_commands (mm_start two_streams) = Some t"
    "mm_calls t = [Qbuf 0 ?p6, Super_buf 0 [bi_buf (preview 7), bi_buf (snapshot 7)] False False, Post_sync 0]"
    "que (queue_of 0 t) = []"
    using lossy_commands_end by auto
  have "held 0 t = {#}" "gone 0 t = {#?p6, ?p7, ?s7#}"
    using t(2,3) by (simp_all add: held_def gone_def call_bufs_def some_bufs_def frame_def)
  then have "{#?p6, ?p7, ?s7#} + lost 0 lossy_commands (mm_start two_streams) = {#?p6, ?p7, ?s7#} + {#?v8, ?p9#}"
    using mm_buffers_conserved [OF two_streams_ok lossy_commands_ok, of 0] start came t(1) by (simp add: ac_simps)
  then show "lost 0 lossy_commands (mm_start two_streams) = {#?v8, ?p9#}" by (rule add_left_imp_eq)
qed

text \<open>
  C30: Every super buffer that is sent, on any run of commands to channels of which none has low
  priority, is complete: it has a buffer of each bundled stream, in the order of the bundle, and
  all are of the same frame. With low priority the metadata may be of another frame, as the
  interface allows: low\_priority\_mixes\_frames is a run on which it is.
\<close>

theorem mm_sent_complete:
  assumes "mm_ok s" and "\<forall>(c, cmd) \<in> set cmds. cmd_ok cmd"
    and "run_cmds cmds s = Some t" and "Super_buf c bs prep aec \<in> set (mm_calls t)"
  shows "complete (bundled_streams (queue_of c s)) bs"
proof -
  have t: "contract s (\<lambda>x. came x cmds) (\<lambda>x. lost x cmds s) t" using run_ok [OF assms(1,2)] assms(3) by auto
  have "calls_ok t" using contract_ok [OF t assms(1)] by (simp add: mm_ok_def)
  then have "complete (bundled_streams (queue_of c t)) bs" using assms(4) by (auto simp: calls_ok_def)
  then show ?thesis using contract_bundles [OF t assms(1)] by simp
qed

lemma one_snapshot_sends:
  "map_option mm_calls (run_cmds one_snapshot (mm_start two_streams)) =
     Some [Qbuf 0 (the (bi_buf (preview 6))), Super_buf 0 [bi_buf (preview 7), bi_buf (snapshot 7)] False False]"
  by code_simp

theorem mm_sent_complete_witness:
  "complete [1, 2] [bi_buf (preview 7), bi_buf (snapshot 7)]"
proof -
  obtain t where t: "run_cmds one_snapshot (mm_start two_streams) = Some t"
    "Super_buf 0 [bi_buf (preview 7), bi_buf (snapshot 7)] False False \<in> set (mm_calls t)"
    using one_snapshot_sends by auto
  show ?thesis
    using mm_sent_complete [OF two_streams_ok one_snapshot_ok t]
    by (simp add: mm_start_def two_streams_def idle_channel_def empty_queue_def)
qed

section \<open>Frames are assembled\<close>

text \<open>
  C31: The buffers of one frame, one of each bundled stream and in any order, become one complete node
  with the buffers in the order of the bundle. The queue is empty and not of low priority, its
  bundle names no stream twice, the frame is not older than the one that is expected, and the two
  allocations of the node succeed. A metadata stream may be in the bundle: its buffer passes the
  handling of the metadata first, and has to be calm, that is, nothing in it, and nothing the
  channel waits for, flushes the queue or moves the expected frame on.
\<close>

theorem frame_assembled:
  assumes "que (queue_of c s) = []" and "match_cnt (queue_of c s) = 0"
    and "sb_prio (attr (queue_of c s)) \<noteq> PRIORITY_LOW" and "distinct (bundled_streams (queue_of c s))"
    and "mem_ok s (allocs s)" and "mem_ok s (allocs s + 1)"
    and "calm_channel (chs s c)" and "\<forall>x \<in> set bs. calm (chs s c) x"
    and "distinct (map (bi_stream_id \<circ> fst) bs)"
    and "set (map (bi_stream_id \<circ> fst) bs) = set (bundled_streams (queue_of c s))"
    and "\<forall>(b, md) \<in> set bs. bi_frame_idx b = f"
    and "f \<noteq> 0" and "expected_frame_id (queue_of c s) \<le> f" and "bs \<noteq> []"
  defines "t \<equiv> fold (\<lambda>(b, md) s. snd (superbuf_comp_and_enqueue c b md s)) bs s"
  shows "\<exists>n. que (queue_of c t) = [n] \<and> matched n \<and> frame_idx n = f \<and> match_cnt (queue_of c t) = 1 \<and>
    super_buf n = map (slot_of (map fst bs)) (bundled_streams (queue_of c s))"
proof -
  let ?hs = "bundled_streams (queue_of c s)"
  have "distinct (map bi_stream_id (map fst bs))" "set (map bi_stream_id (map fst bs)) = set ?hs"
    using assms(9,10) by (simp_all add: comp_def)
  then have len: "length bs = length ?hs" using assms(4) by (metis distinct_card length_map)
  have "frame_bufs f ?hs (map fst bs)" using assms(9-12) by (auto simp: frame_bufs_def comp_def)
  moreover have "assembly c f [] s"
    using assms(1-7,12,13) by (simp add: assembly_def Let_def frame_bufs_def)
  ultimately have "assembly c f (map fst bs) t" "bundled_streams (queue_of c t) = ?hs"
    using assembly_run [of c f "[]" s bs] assms(8) by (simp_all add: t_def)
  then show ?thesis using assms(14) len by (auto simp: assembly_def Let_def)
qed

definition plain_metadata_content :: metadata where
  "plain_metadata_content = \<lparr>md_prep_snapshot_done = None, md_good_frame_idx_range = None,
     md_crop_data = None, md_divert_frame_id = None, md_low_light = None, md_aec_settled = None\<rparr>"

definition three_streams :: channel where
  "three_streams = idle_channel (empty_queue [1, 2, 3] quiet_attr)
     [a_stream 1 CAM_STREAM_TYPE_PREVIEW, a_stream 2 CAM_STREAM_TYPE_SNAPSHOT, a_stream 3 CAM_STREAM_TYPE_METADATA]"

abbreviation meta :: "int32 \<Rightarrow> buf_info" where "meta \<equiv> frame 3 CAM_STREAM_TYPE_METADATA"

theorem frame_assembled_witness:
  "\<exists>n. que (queue_of 0 (snd (superbuf_comp_and_enqueue 0 (preview 7) None
       (snd (superbuf_comp_and_enqueue 0 (meta 7) (Some plain_metadata_content)
       (snd (superbuf_comp_and_enqueue 0 (snapshot 7) None (mm_start three_streams)))))))) = [n] \<and>
     matched n \<and> super_buf n = [preview 7, snapshot 7, meta 7]"
proof -
  let ?bs = "[(snapshot 7, None), (meta 7, Some plain_metadata_content), (preview 7, None)]"
  let ?s = "mm_start three_streams"
  note defs = mm_start_def three_streams_def idle_channel_def empty_queue_def quiet_attr_def a_stream_def
  have s: "que (queue_of 0 ?s) = []" "match_cnt (queue_of 0 ?s) = 0" "sb_prio (attr (queue_of 0 ?s)) \<noteq> PRIORITY_LOW"
    "mem_ok ?s (allocs ?s)" "mem_ok ?s (allocs ?s + 1)"
    "calm_channel (chs ?s 0)" "expected_frame_id (queue_of 0 ?s) \<le> 7"
    by (simp_all add: defs calm_channel_def)
  have hs: "bundled_streams (queue_of 0 ?s) = [1, 2, 3]" by (simp add: defs)
  have bs: "\<forall>x \<in> set ?bs. calm (chs ?s 0) x"
    by (simp add: defs calm_def frame_def get_stream_by_handler_def plain_metadata_content_def)
  from frame_assembled [OF s(1-3) _ s(4-6) bs _ _ _ _ s(7)] show ?thesis
    by (auto simp: hs frame_def slot_of_def insert_commute)
qed

section \<open>The water mark\<close>

lemma drop_loop_exact:
  assumes "mm_ok s" and "drop_loop c limit s = Some t"
  shows "que (queue_of c t) = drop (unat (match_cnt (queue_of c s)) - unat limit) (que (queue_of c s))"
  using assms
proof (induction "length (que (queue_of c s))" arbitrary: s rule: less_induct)
  case less
  show ?case
  proof (cases "limit < match_cnt (queue_of c s)")
    case False
    then have "unat (match_cnt (queue_of c s)) \<le> unat limit" by (simp add: word_le_nat_alt not_less)
    then show ?thesis using less.prems(2) False by (simp add: drop_loop.simps [of c limit s])
  next
    case True
    then have pos: "match_cnt (queue_of c s) \<noteq> 0" by auto
    from dequeue_matched_Some [OF less.prems(1) this] obtain n u
      where d: "superbuf_dequeue_internal True c s = (Some n, u)" by blast
    let ?u = "qbuf_slots c has_buf n u"
    have q: "que (queue_of c s) = n # que (queue_of c u)" by (rule dequeue_que [OF d])
    have m: "match_cnt (queue_of c u) = match_cnt (queue_of c s) - 1"
      using d by (auto simp: superbuf_dequeue_internal_def Let_def split: list.splits if_splits)
    have c: "contract s none none ?u" by (rule contract_drop [OF d]) simp
    have "que (queue_of c t) = drop (unat (match_cnt (queue_of c ?u)) - unat limit) (que (queue_of c ?u))"
      using less.prems(2) True d q
      by (intro less.hyps contract_ok [OF c less.prems(1)]) (simp_all add: drop_loop.simps [of c limit s])
    moreover have "unat (match_cnt (queue_of c s)) - unat limit = Suc (unat (match_cnt (queue_of c s)) - 1 - unat limit)"
      using True by (simp add: word_less_nat_alt)
    ultimately show ?thesis
      using unat_minus_one [OF pos] by (simp add: q m)
  qed
qed

text \<open>
  C32: In burst mode the oldest complete nodes beyond the water mark are dropped, and nothing else: the
  newest stay.
\<close>

theorem overflow_keeps_newest:
  assumes "mm_ok s" and "attr_notify_mode (attr (queue_of c s)) = NOTIFY_BURST"
  shows "\<exists>t. superbuf_bufdone_overflow c s = Some t \<and>
    que (queue_of c t) = drop (unat (match_cnt (queue_of c s)) - unat (water_mark (attr (queue_of c s))))
      (que (queue_of c s)) \<and>
    unat (match_cnt (queue_of c t)) \<le> unat (water_mark (attr (queue_of c s)))"
proof -
  let ?w = "water_mark (attr (queue_of c s))"
  have "unat ?w < 2 ^ LENGTH(8)" by (rule unsigned_less)
  then have w: "unat (ucast ?w :: int32) = unat ?w" by (simp add: unsigned_ucast_eq take_bit_nat_eq_self)
  from overflow_ok [OF assms(1), of c] assms(2) obtain t where
    t: "superbuf_bufdone_overflow c s = Some t" "match_cnt (queue_of c t) \<le> ucast ?w" by auto
  then have "drop_loop c (ucast ?w) s = Some t" using assms(2) by (simp add: superbuf_bufdone_overflow_def Let_def)
  from drop_loop_exact [OF assms(1) this] t show ?thesis
    by (auto simp: w word_le_nat_alt)
qed

definition two_snapshots :: "(nat \<times> mm_cmd) list" where
  "two_snapshots = [(0, CMD_DATA_CB (preview 7) None), (0, CMD_DATA_CB (snapshot 7) None)]"

lemma two_snapshots_ok: "\<forall>(c, cmd) \<in> set two_snapshots. cmd_ok cmd"
  by (simp add: two_snapshots_def two_streams_frames)

text \<open>One complete node waits, and the water mark is lowered to none.\<close>

definition one_waits :: mm_sys where
  "one_waits = upd_q 0 (\<lambda>q. q\<lparr>attr := (attr q)\<lparr>water_mark := 0\<rparr>\<rparr>) (the (run_cmds two_snapshots (mm_start two_streams)))"

lemma one_waits_queue:
  "match_cnt (queue_of 0 one_waits) = 1" "water_mark (attr (queue_of 0 one_waits)) = 0"
  "length (que (queue_of 0 one_waits)) = 1" "attr_notify_mode (attr (queue_of 0 one_waits)) = NOTIFY_BURST"
  by code_simp+

lemma one_waits_ok: "mm_ok one_waits"
proof -
  obtain t where t: "run_cmds two_snapshots (mm_start two_streams) = Some t" "mm_ok t"
    using run_ok [OF two_streams_ok two_snapshots_ok] contract_ok [OF _ two_streams_ok] by blast
  have "contract t none none one_waits"
    unfolding one_waits_def t(1) option.sel by (rule contract_upd(1) [OF contract_refl]) (simp add: same_queue_def)
  then show ?thesis using t(2) by (rule contract_ok)
qed

theorem overflow_keeps_newest_witness:
  "\<exists>t. superbuf_bufdone_overflow 0 one_waits = Some t \<and> que (queue_of 0 t) = []"
  using overflow_keeps_newest [OF one_waits_ok one_waits_queue(4)] one_waits_queue
  by auto

text \<open>
  With too many nodes that are not complete, the loop that drops one follows the link of the node
  it has freed.
\<close>

lemma unmatched_drop_reads_freed:
  "map_option read_freed (run_cmds (map (\<lambda>f. (0, CMD_DATA_CB (preview f) None)) [1, 2, 3, 4, 5])
     (mm_start two_streams)) = Some True"
  by code_simp

section \<open>Requests\<close>

text \<open>
  C33: In burst mode, as long as only super buffers of the channel itself are requested, a channel sends
  no more super buffers than are pending and have been requested.
\<close>

theorem sent_at_most_requested:
  assumes "run_cmds cmds s = Some t" and "modest s" and "\<forall>(c, cmd) \<in> set cmds. modest_cmd cmd"
  shows "sent x t + unat (pending_cnt (chs t x)) \<le>
    sent x s + unat (pending_cnt (chs s x)) + sum_list (map (asked x) cmds)"
  using run_budget [OF assms, of x] by (simp add: budget_def)

lemma two_streams_modest: "modest (mm_start two_streams)"
  by (simp add: modest_def mm_start_def two_streams_def idle_channel_def empty_queue_def quiet_attr_def)

theorem sent_at_most_requested_witness:
  "\<exists>t. run_cmds one_snapshot (mm_start two_streams) = Some t \<and> sent 0 t \<le> 1"
proof -
  obtain t where t: "run_cmds one_snapshot (mm_start two_streams) = Some t"
    using run_ok [OF two_streams_ok one_snapshot_ok] by blast
  have "\<forall>(c, cmd) \<in> set one_snapshot. modest_cmd cmd" by (simp add: one_snapshot_def modest_cmd_def)
  from sent_at_most_requested [OF t two_streams_modest this, of 0] show ?thesis
    using t by (simp add: one_snapshot_def asked_def sent_def mm_start_def two_streams_def idle_channel_def)
qed

section \<open>Synchronised channels\<close>

text \<open>
  C34: On every run of commands to channels of which none has low priority, with a table in which every
  channel is registered once, a request of synchronised frames takes what it should: if some frame
  is marked as come from all cameras, and every registered channel has a complete node of it, one
  such node of each registered channel, and nothing otherwise, neither nodes of some of the
  channels only, nor two nodes of one.
\<close>

theorem synced_nodes_agree:
  assumes "mm_ok s" and "\<forall>(c, cmd) \<in> set cmds. cmd_ok cmd" and "table_ok (fs s)"
    and "run_cmds cmds s = Some u" and "take_synced u = (info, t)"
  shows "let f = mm_frame_sync_find_matched False (fs u) in
    map fst info = (if f \<noteq> 0 \<and> (\<forall>c \<in> set (registered_chs (fs s)). has_frame f u c)
      then registered_chs (fs s) else []) \<and>
    (\<forall>(c, n) \<in> set info. frame_idx n = f \<and>
      complete (bundled_streams (queue_of c s)) (map bi_buf (super_buf n)))"
proof -
  define f where "f = mm_frame_sync_find_matched False (fs u)"
  have r: "contract s (\<lambda>x. came x cmds) (\<lambda>x. lost x cmds s) u" using run_ok [OF assms(1,2)] assms(4) by auto
  note u = contract_ok [OF r assms(1)]
  have tab: "table_ok (fs u)" "registered_chs (fs u) = registered_chs (fs s)"
    using r assms(1,3) table_same [of "fs u" "fs s"] by (auto simp: contract_def)
  obtain i s1 where c: "collect_frame f (fs_ch (fs u)) u = (i, s1)" by fastforce
  note col = collect_ok [OF u c]
  have i: "map fst i = filter (has_frame f u) (registered_chs (fs s))"
    using collect_channels [OF _ c] tab unfolding registered_chs_def table_ok_def by simp
  have cams: "num_cam (mm_frame_sync_remove f (fs s1)) = length (registered_chs (fs s))"
    using col tab cam_table_ops(2) [of f "fs s1"] by (simp add: cam_table_def table_ok_def)
  have len: "length i = length (filter (has_frame f u) (registered_chs (fs s)))"
    using arg_cong [OF i, of length] by simp
  have all: "length i = length (registered_chs (fs s)) \<longleftrightarrow> (\<forall>c \<in> set (registered_chs (fs s)). has_frame f u c)"
    unfolding len by (metis filter_True filter_id_conv length_filter_less less_irrefl)
  have info: "info = (if f \<noteq> 0 \<and> (\<forall>c \<in> set (registered_chs (fs s)). has_frame f u c) then i else [])"
    using assms(5) c cams all by (auto simp: take_synced_def f_def [symmetric] Let_def split: if_splits)
  have bnd: "bundled_streams (queue_of c s1) = bundled_streams (queue_of c s)" for c
    using contract_bundles [OF r assms(1)] col contract_bundles [OF _ u] by (auto simp: taken_def)
  have "\<forall>(c, n) \<in> set i. frame_idx n = f \<and> complete (bundled_streams (queue_of c s)) (map bi_buf (super_buf n))"
    using col node_complete by (fastforce simp: taken_def info_ok_def bnd)
  then show ?thesis using i info by (auto simp: f_def [symmetric] Let_def)
qed

definition synced_streams :: channel where
  "synced_streams = idle_channel (empty_queue [1, 2] (quiet_attr\<lparr>enable_frame_sync := True\<rparr>))
     [a_stream 1 CAM_STREAM_TYPE_PREVIEW, a_stream 2 CAM_STREAM_TYPE_SNAPSHOT]"

definition two_cameras :: mm_sys where
  "two_cameras = (mm_start synced_streams)\<lparr>fs :=
     snd (mm_frame_sync_register_channel 1 (snd (mm_frame_sync_register_channel 0 mm_frame_sync_reset)))\<rparr>"

definition both_frames :: "(nat \<times> mm_cmd) list" where
  "both_frames = [(0, CMD_DATA_CB (preview 7) None), (1, CMD_DATA_CB (preview 7) None),
     (0, CMD_DATA_CB (snapshot 7) None), (1, CMD_DATA_CB (snapshot 7) None)]"

lemma two_cameras_ok: "mm_ok two_cameras" "\<forall>(c, cmd) \<in> set both_frames. cmd_ok cmd"
proof -
  have "arranged [] [] (superbuf_queue synced_streams)"
    by (simp add: arranged_def synced_streams_def idle_channel_def empty_queue_def)
  then show "mm_ok two_cameras"
    by (auto simp: mm_ok_def channel_ok_def queue_inv_def calls_ok_def two_cameras_def mm_start_def
        synced_streams_def idle_channel_def empty_queue_def quiet_attr_def get_stream_by_handler_def a_stream_def)
  show "\<forall>(c, cmd) \<in> set both_frames. cmd_ok cmd"
    by (simp add: both_frames_def two_streams_frames)
qed

lemma two_cameras_table: "table_ok (fs two_cameras)" "registered_chs (fs two_cameras) = [0, 1]"
  by (simp_all add: two_cameras_def table_ok_def registered_chs_def mm_frame_sync_register_channel_def
      mm_frame_sync_reset_def mm_start_def Let_def numeral_2_eq_2)

lemma both_come:
  "(case run_cmds both_frames two_cameras of None \<Rightarrow> False | Some u \<Rightarrow>
     mm_frame_sync_find_matched False (fs u) = 7 \<and> has_frame 7 u 0 \<and> has_frame 7 u 1)"
  by code_simp

theorem synced_nodes_agree_witness:
  "\<exists>u info t. run_cmds both_frames two_cameras = Some u \<and> take_synced u = (info, t) \<and>
     map fst info = [0, 1] \<and> (\<forall>(c, n) \<in> set info. frame_idx n = 7)"
proof -
  obtain u where u: "run_cmds both_frames two_cameras = Some u" "mm_frame_sync_find_matched False (fs u) = 7"
    "has_frame 7 u 0" "has_frame 7 u 1"
    using both_come by (auto split: option.splits)
  obtain info t where i: "take_synced u = (info, t)" by fastforce
  show ?thesis
    using synced_nodes_agree [OF two_cameras_ok two_cameras_table(1) u(1) i] u i
    by (auto simp: two_cameras_table(2) Let_def)
qed

section \<open>A flush of one type of stream\<close>

lemma gone_qbuf:
  assumes "get_stream_by_handler (chs s c) (buf_stream_id d) \<noteq> None"
  shows "gone c (mm_channel_qbuf c d s) = gone c s + {#d#}"
  using assms by (auto simp: mm_channel_qbuf_def mm_tell_def gone_def call_bufs_def)

lemma gone_qbufs:
  assumes "\<forall>b \<in> set bs. \<exists>d. bi_buf b = Some d \<and> get_stream_by_handler (chs s c) (buf_stream_id d) \<noteq> None"
  shows "gone c (fold (\<lambda>b. qbuf_opt c (bi_buf b)) bs s) = gone c s + some_bufs (map bi_buf bs)"
  using assms
proof (induction bs arbitrary: s)
  case Nil
  then show ?case by (simp add: some_bufs_def)
next
  case (Cons b bs)
  then obtain d where d: "bi_buf b = Some d" "get_stream_by_handler (chs s c) (buf_stream_id d) \<noteq> None" by auto
  have "chs (mm_channel_qbuf c d s) = chs s" by (simp add: mm_channel_qbuf_def mm_tell_def split: option.split)
  then show ?case
    using Cons.IH [of "mm_channel_qbuf c d s"] Cons.prems d gone_qbuf [OF d(2)] by (simp add: some_bufs_def)
qed

lemma gone_flush:
  assumes "\<forall>n \<in> set (que (queue_of c s)). node_ok (bundled_streams (queue_of c s)) n"
    and "\<forall>h \<in> set (bundled_streams (queue_of c s)). get_stream_by_handler (chs s c) h \<noteq> None"
  shows "que (queue_of c (superbuf_flush_loop False (flushed ty) c s)) = [] \<and>
    gone c (superbuf_flush_loop False (flushed ty) c s) = gone c s + filter_mset (is_type ty) (held c s)"
  using assms
proof (induction "length (que (queue_of c s))" arbitrary: s rule: less_induct)
  case less
  show ?case
  proof (cases "que (queue_of c s)")
    case Nil
    then show ?thesis by (simp add: superbuf_flush_loop.simps [of _ _ c s] superbuf_dequeue_internal_def held_def)
  next
    case (Cons n ns)
    obtain t where d: "superbuf_dequeue_internal False c s = (Some n, t)"
      using Cons by (cases "superbuf_dequeue_internal False c s")
        (auto simp: superbuf_dequeue_internal_def Let_def)
    have t: "que (queue_of c t) = ns" "bundled_streams (queue_of c t) = bundled_streams (queue_of c s)"
      "gone c t = gone c s" "streams (chs t c) = streams (chs s c)"
      using d Cons by (auto simp: superbuf_dequeue_internal_def Let_def gone_def sync_remove_def)
    let ?u = "qbuf_slots c (flushed ty) n t"
    have "\<forall>b \<in> set (filter (flushed ty) (super_buf n)). \<exists>d. bi_buf b = Some d \<and>
        get_stream_by_handler (chs t c) (buf_stream_id d) \<noteq> None"
    proof
      fix b assume "b \<in> set (filter (flushed ty) (super_buf n))"
      then have "b \<in> set (super_buf n)" "bi_buf b \<noteq> None" by (auto simp: flushed_def split: option.splits)
      with node_bufs_in [of "bundled_streams (queue_of c s)" n b] less.prems Cons t(4)
      show "\<exists>d. bi_buf b = Some d \<and> get_stream_by_handler (chs t c) (buf_stream_id d) \<noteq> None"
        by (auto simp: get_stream_by_handler_def)
    qed
    from gone_qbufs [OF this] have u: "gone c ?u = gone c s + filter_mset (is_type ty) (node_bufs n)"
      by (simp add: qbuf_slots_def some_bufs_flushed node_bufs_def t(3))
    have "que (queue_of c (superbuf_flush_loop False (flushed ty) c ?u)) = [] \<and>
      gone c (superbuf_flush_loop False (flushed ty) c ?u) = gone c ?u + filter_mset (is_type ty) (held c ?u)"
      using less.prems Cons t by (intro less.hyps) (auto simp: get_stream_by_handler_def)
    moreover have "held c s = node_bufs n + held c ?u" using Cons t(1) by (simp add: held_def)
    ultimately show ?thesis using d u by (simp add: superbuf_flush_loop.simps [of _ _ c s])
  qed
qed

text \<open>
  A flush empties the queue, and gives back the buffers of the given type of stream only: with a
  type other than the default one the others are neither held nor given back.
\<close>

theorem flush_gives_back_only_its_type:
  assumes "mm_ok s"
  shows "que (queue_of c (superbuf_flush c ty s)) = [] \<and>
    gone c (superbuf_flush c ty s) =
      gone c s + filter_mset (\<lambda>d. ty = CAM_STREAM_TYPE_DEFAULT \<or> buf_stream_type d = ty) (held c s)"
proof -
  have "\<forall>h \<in> set (bundled_streams (queue_of c s)). get_stream_by_handler (chs s c) h \<noteq> None"
    using assms by (simp add: mm_ok_def channel_ok_def)
  moreover have "\<forall>n \<in> set (que (queue_of c s)). node_ok (bundled_streams (queue_of c s)) n"
    using mm_ok_node [OF assms] by blast
  ultimately show ?thesis
    using gone_flush [where c = c and s = s and ty = ty] by (simp add: superbuf_flush_def is_type_def [abs_def])
qed

theorem flush_gives_back_only_its_type_witness:
  "held 0 one_waits = {#the (bi_buf (preview 7)), the (bi_buf (snapshot 7))#} \<and>
   held 0 (superbuf_flush 0 CAM_STREAM_TYPE_SNAPSHOT one_waits) = {#} \<and>
   gone 0 (superbuf_flush 0 CAM_STREAM_TYPE_SNAPSHOT one_waits) = {#the (bi_buf (snapshot 7))#}"
proof -
  have "map (map bi_buf \<circ> super_buf) (que (queue_of 0 one_waits)) = [[bi_buf (preview 7), bi_buf (snapshot 7)]]"
    "mm_calls one_waits = []" by code_simp+
  then have "held 0 one_waits = {#the (bi_buf (preview 7)), the (bi_buf (snapshot 7))#}" "gone 0 one_waits = {#}"
    by (auto simp: held_def gone_def node_bufs_def some_bufs_def frame_def comp_def)
  then show ?thesis
    using flush_gives_back_only_its_type [OF one_waits_ok, of 0 CAM_STREAM_TYPE_SNAPSHOT]
    by (simp add: held_def frame_def)
qed

section \<open>Low priority\<close>

text \<open>A drop that has to go on and finds no complete node at the head goes on forever.\<close>

lemma drop_loop_spins:
  assumes "limit < match_cnt (queue_of c s)"
    and "case que (queue_of c s) of [] \<Rightarrow> True | n # ns \<Rightarrow> \<not> matched n"
  shows "drop_loop c limit s = None"
proof (rule ccontr)
  assume "drop_loop c limit s \<noteq> None"
  then obtain t where t: "drop_loop c limit s = Some t" by blast
  have "superbuf_dequeue_internal True c s = (None, s)"
    using assms(2) by (auto simp: superbuf_dequeue_internal_def split: list.splits)
  with assms(1) have go: "limit < match_cnt (queue_of c s) \<and> superbuf_dequeue_internal True c s = (None, s)" by simp
  have "\<not> (limit < match_cnt (queue_of c s) \<and> superbuf_dequeue_internal True c s = (None, s))"
    by (rule drop_loop.raw_induct [of "\<lambda>c limit s t.
        \<not> (limit < match_cnt (queue_of c s) \<and> superbuf_dequeue_internal True c s = (None, s))", OF _ t])
      (auto split: if_splits)
  with go show False by blast
qed

definition low_channel :: channel where
  "low_channel = idle_channel (empty_queue [1, 2, 3] (quiet_attr\<lparr>sb_prio := PRIORITY_LOW\<rparr>))
     [a_stream 1 CAM_STREAM_TYPE_METADATA, a_stream 2 CAM_STREAM_TYPE_PREVIEW, a_stream 3 CAM_STREAM_TYPE_SNAPSHOT]"

text \<open>With low priority a super buffer may mix frames: the metadata of frame 10 with images of frame 4.\<close>

lemma low_priority_mixes_frames:
  "map_option mm_calls (run_cmds
     [(0, CMD_REQ_DATA_CB REQ_SUPER_BUF 1 0),
      (0, CMD_DATA_CB (frame 1 CAM_STREAM_TYPE_METADATA 10) (Some plain_metadata_content)),
      (0, CMD_DATA_CB (frame 2 CAM_STREAM_TYPE_PREVIEW 4) None),
      (0, CMD_DATA_CB (frame 3 CAM_STREAM_TYPE_SNAPSHOT 4) None)] (mm_start low_channel)) =
   Some [Super_buf 0 [bi_buf (frame 1 CAM_STREAM_TYPE_METADATA 10), bi_buf (frame 2 CAM_STREAM_TYPE_PREVIEW 4),
     bi_buf (frame 3 CAM_STREAM_TYPE_SNAPSHOT 4)] False False]"
  by code_simp

text \<open>Metadata runs ahead of the images: frames 4 and 6 are completed behind frame 10.\<close>

definition ahead :: "(nat \<times> mm_cmd) list" where
  "ahead =
    [(0, CMD_DATA_CB (frame 1 CAM_STREAM_TYPE_METADATA 10) (Some plain_metadata_content)),
     (0, CMD_DATA_CB (frame 2 CAM_STREAM_TYPE_PREVIEW 10) None),
     (0, CMD_DATA_CB (frame 1 CAM_STREAM_TYPE_METADATA 11) (Some plain_metadata_content)),
     (0, CMD_DATA_CB (frame 2 CAM_STREAM_TYPE_PREVIEW 4) None),
     (0, CMD_DATA_CB (frame 3 CAM_STREAM_TYPE_SNAPSHOT 4) None),
     (0, CMD_DATA_CB (frame 1 CAM_STREAM_TYPE_METADATA 12) (Some plain_metadata_content)),
     (0, CMD_DATA_CB (frame 2 CAM_STREAM_TYPE_PREVIEW 6) None)]"

lemma run_cmds_append:
  "run_cmds (xs @ ys) s = (case run_cmds xs s of None \<Rightarrow> None | Some t \<Rightarrow> run_cmds ys t)"
  by (induction xs s rule: run_cmds.induct) (auto split: option.split)

lemma ahead_state:
  "(case run_cmds ahead (mm_start low_channel) of None \<Rightarrow> False | Some s \<Rightarrow>
     (case proc_cmd 0 (CMD_DATA_CB (frame 3 CAM_STREAM_TYPE_SNAPSHOT 6) None) s of None \<Rightarrow> False | Some u \<Rightarrow>
       (let v = zsl_control 0 u; q = queue_of 0 v in
        attr_notify_mode (attr q) \<noteq> NOTIFY_CONTINUOUS \<and> ucast (water_mark (attr q)) < match_cnt q \<and>
        (case que q of [] \<Rightarrow> True | n # ns \<Rightarrow> \<not> matched n))))"
  by code_simp

text \<open>
  C35: In the mode of low priority a command may not return: frames are completed behind one that is not,
  and the loop of the overflow, which looks at the head only, does not end.
\<close>

theorem low_priority_spins:
  "run_cmds (ahead @ [(0, CMD_DATA_CB (frame 3 CAM_STREAM_TYPE_SNAPSHOT 6) None)]) (mm_start low_channel) = None"
proof -
  let ?cmd = "CMD_DATA_CB (frame 3 CAM_STREAM_TYPE_SNAPSHOT 6) None"
  obtain s u where s: "run_cmds ahead (mm_start low_channel) = Some s" and u: "proc_cmd 0 ?cmd s = Some u"
    and v: "attr_notify_mode (attr (queue_of 0 (zsl_control 0 u))) \<noteq> NOTIFY_CONTINUOUS"
    "ucast (water_mark (attr (queue_of 0 (zsl_control 0 u)))) < match_cnt (queue_of 0 (zsl_control 0 u))"
    "case que (queue_of 0 (zsl_control 0 u)) of [] \<Rightarrow> True | n # ns \<Rightarrow> \<not> matched n"
    using ahead_state unfolding Let_def by (auto split: option.splits)
  have "superbuf_bufdone_overflow 0 (zsl_control 0 u) = None"
    using drop_loop_spins [OF v(2,3)] v(1) by (simp add: superbuf_bufdone_overflow_def Let_def)
  then have "process_stream_buf 0 ?cmd s = None" using u by (simp add: process_stream_buf_def Let_def)
  then show ?thesis using s by (simp add: run_cmds_append)
qed

end
