(* ===== verification/St_Layout.thy ===== *)
theory St_Layout
  imports Mm_Channel "HOL-Library.Signed_Division"
begin

text \<open>
  The buffer layouts of a stream: the pure part of
  src/camera/QCamera2/stack/mm-camera-interface/src/mm\_camera\_stream.c.  mm\_stream\_calc\_offset
  computes from the image format, the dimensions and the padding requirements how the planes of
  a frame lie in its buffer.  There is one definition per case of the format switches of the
  seven mm\_stream\_calc\_offset\_* functions, and one per switch.  All integers are 32-bit words
  and every sum and product wraps; C leaves the overflow of the signed ones undefined.

  The strides, scanlines and sizes of the formats that the Venus video core prescribes come from
  a header of the kernel that is not in the repository (media/msm\_media\_info.h).  They are the
  parameter venus of the definitions.  The build defines VENUS\_PRESENT and not
  UBWC\_PRESENT (msm8937), so the UBWC cases fail with -1.
\<close>

section \<open>Formats\<close>

datatype cfa = GBRG | GRBG | RGGB | BGGR

datatype bayer = Cfa cfa | GREY

datatype bpp = BPP8 | BPP10 | BPP12 | BPP14

text \<open>
  cam\_format\_t.  The Bayer formats of the enumeration are the combinations of a packing, a
  sample width and a colour order; the order GREY does not exist for the PLAIN packings.
\<close>

datatype cam_format =
    CAM_FORMAT_JPEG
  | CAM_FORMAT_YUV_420_NV12
  | CAM_FORMAT_YUV_420_NV21
  | CAM_FORMAT_YUV_420_NV21_ADRENO
  | CAM_FORMAT_YUV_420_YV12
  | CAM_FORMAT_YUV_422_NV16
  | CAM_FORMAT_YUV_422_NV61
  | CAM_FORMAT_YUV_420_NV12_VENUS
  | CAM_FORMAT_YUV_RAW_8BIT_YUYV
  | CAM_FORMAT_YUV_RAW_8BIT_YVYU
  | CAM_FORMAT_YUV_RAW_8BIT_UYVY
  | CAM_FORMAT_YUV_RAW_8BIT_VYUY
  | CAM_FORMAT_BAYER_QCOM_RAW bpp bayer
  | CAM_FORMAT_BAYER_MIPI_RAW bpp bayer
  | CAM_FORMAT_BAYER_IDEAL_RAW_QCOM bpp bayer
  | CAM_FORMAT_BAYER_IDEAL_RAW_MIPI bpp bayer
  | CAM_FORMAT_BAYER_IDEAL_RAW_PLAIN8 cfa
  | CAM_FORMAT_BAYER_IDEAL_RAW_PLAIN16 bpp cfa
  | CAM_FORMAT_JPEG_RAW_8BIT
  | CAM_FORMAT_META_RAW_8BIT
  | CAM_FORMAT_META_RAW_10BIT
  | CAM_FORMAT_YUV_444_NV24
  | CAM_FORMAT_YUV_444_NV42
  | CAM_FORMAT_Y_ONLY
  | CAM_FORMAT_YUV_420_NV12_UBWC
  | CAM_FORMAT_YUV_420_NV21_VENUS
  | CAM_FORMAT_8888_ARGB
  | CAM_FORMAT_Y_ONLY_10_BPP
  | CAM_FORMAT_Y_ONLY_12_BPP
  | CAM_FORMAT_Y_ONLY_14_BPP
  | CAM_FORMAT_MAX

text \<open>The four-character codes of the kernel header linux/videodev2.h, by name.\<close>

datatype v4l2_pix_fmt =
    V4L2_NONE
  | V4L2_PIX_FMT_NV12 | V4L2_PIX_FMT_NV21 | V4L2_PIX_FMT_NV16 | V4L2_PIX_FMT_NV61
  | V4L2_PIX_FMT_S10 cfa | V4L2_PIX_FMT_S12 cfa | V4L2_PIX_FMT_S14 cfa
  | V4L2_PIX_FMT_YUYV | V4L2_PIX_FMT_YVYU | V4L2_PIX_FMT_UYVY | V4L2_PIX_FMT_VYUY
  | V4L2_PIX_FMT_GREY | V4L2_PIX_FMT_Y10 | V4L2_PIX_FMT_Y12

text \<open>
  V4L2\_NONE is the value 0, and V4L2\_PIX\_FMT\_S10 GBRG stands for
  V4L2\_PIX\_FMT\_SGBRG10.  The planar format YV12 gets the code of the semi-planar NV12.
\<close>

fun mm_stream_get_v4l2_fmt :: "cam_format \<Rightarrow> v4l2_pix_fmt" where
  "mm_stream_get_v4l2_fmt CAM_FORMAT_YUV_420_NV12 = V4L2_PIX_FMT_NV12"
| "mm_stream_get_v4l2_fmt CAM_FORMAT_YUV_420_NV12_VENUS = V4L2_PIX_FMT_NV12"
| "mm_stream_get_v4l2_fmt CAM_FORMAT_YUV_420_NV12_UBWC = V4L2_PIX_FMT_NV12"
| "mm_stream_get_v4l2_fmt CAM_FORMAT_YUV_420_NV21 = V4L2_PIX_FMT_NV21"
| "mm_stream_get_v4l2_fmt CAM_FORMAT_YUV_420_NV21_VENUS = V4L2_PIX_FMT_NV21"
| "mm_stream_get_v4l2_fmt (CAM_FORMAT_BAYER_QCOM_RAW BPP10 (Cfa c)) = V4L2_PIX_FMT_S10 c"
| "mm_stream_get_v4l2_fmt (CAM_FORMAT_BAYER_QCOM_RAW BPP12 (Cfa c)) = V4L2_PIX_FMT_S12 c"
| "mm_stream_get_v4l2_fmt (CAM_FORMAT_BAYER_QCOM_RAW BPP14 (Cfa c)) = V4L2_PIX_FMT_S14 c"
| "mm_stream_get_v4l2_fmt (CAM_FORMAT_BAYER_IDEAL_RAW_MIPI BPP14 (Cfa c)) = V4L2_PIX_FMT_S14 c"
| "mm_stream_get_v4l2_fmt CAM_FORMAT_YUV_422_NV61 = V4L2_PIX_FMT_NV61"
| "mm_stream_get_v4l2_fmt CAM_FORMAT_YUV_RAW_8BIT_YUYV = V4L2_PIX_FMT_YUYV"
| "mm_stream_get_v4l2_fmt CAM_FORMAT_YUV_RAW_8BIT_YVYU = V4L2_PIX_FMT_YVYU"
| "mm_stream_get_v4l2_fmt CAM_FORMAT_YUV_RAW_8BIT_UYVY = V4L2_PIX_FMT_UYVY"
| "mm_stream_get_v4l2_fmt CAM_FORMAT_YUV_RAW_8BIT_VYUY = V4L2_PIX_FMT_VYUY"
| "mm_stream_get_v4l2_fmt CAM_FORMAT_YUV_420_YV12 = V4L2_PIX_FMT_NV12"
| "mm_stream_get_v4l2_fmt CAM_FORMAT_YUV_422_NV16 = V4L2_PIX_FMT_NV16"
| "mm_stream_get_v4l2_fmt CAM_FORMAT_Y_ONLY = V4L2_PIX_FMT_GREY"
| "mm_stream_get_v4l2_fmt CAM_FORMAT_Y_ONLY_10_BPP = V4L2_PIX_FMT_Y10"
| "mm_stream_get_v4l2_fmt CAM_FORMAT_Y_ONLY_12_BPP = V4L2_PIX_FMT_Y12"
| "mm_stream_get_v4l2_fmt _ = V4L2_NONE"

section \<open>Layouts\<close>

text \<open>cam\_dimension\_t, cam\_padding\_info\_t with its cam\_offset\_info\_t, cam\_mp\_len\_offset\_t.\<close>

record cam_dimension =
  dim_width :: int32
  dim_height :: int32

record cam_padding =
  width_padding :: int32
  height_padding :: int32
  plane_padding :: int32
  min_stride :: int32
  min_scanline :: int32
  pad_offset_x :: int32
  pad_offset_y :: int32

record cam_mp =
  mp_len :: int32
  mp_offset :: int32
  mp_offset_x :: int32
  mp_offset_y :: int32
  mp_stride :: int32
  mp_stride_in_bytes :: int32
  mp_scanline :: int32
  mp_width :: int32
  mp_height :: int32

text \<open>cam\_frame\_len\_offset\_t, with its array of VIDEO\_MAX\_PLANES = 8 planes as a list.\<close>

record planes =
  num_planes :: int32
  mp :: "cam_mp list"
  frame_len :: int32

text \<open>
  PAD\_TO\_SIZE rounds up to the next multiple of a power of two.  The division of C rounds
  towards zero.
\<close>

definition pad_to_size :: "int32 \<Rightarrow> int32 \<Rightarrow> int32" where
  "pad_to_size sz p = (sz + (p - 1)) AND NOT (p - 1)"

definition int_quot :: "int32 \<Rightarrow> int32 \<Rightarrow> int32" where
  "int_quot a b = word_of_int (sint a sdiv sint b)"

abbreviation halve :: "int32 \<Rightarrow> int32" where
  "halve a \<equiv> int_quot a 2"

text \<open>
  The assignments to the fields of mp[i] that every case makes, and the assignments of frame\_len
  from the lengths of one, two or three planes.
\<close>

definition put_plane ::
  "nat \<Rightarrow> int32 \<Rightarrow> int32 \<Rightarrow> int32 \<times> int32 \<Rightarrow> int32 \<Rightarrow> int32 \<Rightarrow> int32 \<Rightarrow> int32 \<Rightarrow> planes \<Rightarrow> planes" where
  "put_plane i len off xy stride scanline w h b =
     b\<lparr>mp := (mp b)[i := (mp b ! i)\<lparr>mp_len := len, mp_offset := off, mp_offset_x := fst xy,
       mp_offset_y := snd xy, mp_stride := stride, mp_scanline := scanline, mp_width := w,
       mp_height := h\<rparr>]\<rparr>"

definition frame_len_1 :: "planes \<Rightarrow> planes" where
  "frame_len_1 b = b\<lparr>frame_len := pad_to_size (mp_len (mp b ! 0)) 4096\<rparr>"

definition frame_len_2 :: "planes \<Rightarrow> planes" where
  "frame_len_2 b = b\<lparr>frame_len := pad_to_size (mp_len (mp b ! 0) + mp_len (mp b ! 1)) 4096\<rparr>"

definition frame_len_3 :: "planes \<Rightarrow> planes" where
  "frame_len_3 b =
     b\<lparr>frame_len := pad_to_size (mp_len (mp b ! 0) + mp_len (mp b ! 1) + mp_len (mp b ! 2)) 4096\<rparr>"

text \<open>The functions of the kernel header msm\_media\_info.h for the two colour formats.\<close>

datatype color_fmt = COLOR_FMT_NV12 | COLOR_FMT_NV21

record venus =
  venus_y_stride :: "color_fmt \<Rightarrow> int32 \<Rightarrow> int32"
  venus_y_scanlines :: "color_fmt \<Rightarrow> int32 \<Rightarrow> int32"
  venus_uv_stride :: "color_fmt \<Rightarrow> int32 \<Rightarrow> int32"
  venus_uv_scanlines :: "color_fmt \<Rightarrow> int32 \<Rightarrow> int32"
  venus_buffer_size :: "color_fmt \<Rightarrow> int32 \<Rightarrow> int32 \<Rightarrow> int32"

text \<open>
  The fields of cam\_stream\_info\_t that the layout reads, with the union of the two
  reprocessing inputs as a datatype, and the fields of mm\_stream\_t around it.
\<close>

datatype cam_rotation = ROTATE_0 | ROTATE_90 | ROTATE_180 | ROTATE_270

datatype reproc_config =
    CAM_ONLINE_REPROCESS_TYPE stream_type
  | CAM_OFFLINE_REPROCESS_TYPE stream_type planes

record stream_info =
  si_fmt :: cam_format
  si_type :: stream_type
  si_dim :: cam_dimension
  si_buf_planes :: planes
  si_feature_mask :: "64 word"
  si_rotation :: cam_rotation
  si_reproc :: reproc_config

record stream_layout =
  lay_info :: stream_info
  lay_padding :: cam_padding
  lay_frame_offset :: planes

definition CAM_QCOM_FEATURE_ROTATION :: "64 word" where
  "CAM_QCOM_FEATURE_ROTATION = push_bit 3 1"

definition mm_camera_util_chip_is_a_family :: bool where
  "mm_camera_util_chip_is_a_family = False"

text \<open>The macro USE\_A\_FAMILY is defined by no build file of the repository.\<close>

section \<open>Preview\<close>

definition preview_nv12 :: "stream_info \<Rightarrow> cam_dimension \<Rightarrow> cam_padding \<Rightarrow> planes \<Rightarrow> planes" where
  "preview_nv12 si dim pad b =
     (let b = b\<lparr>num_planes := 2\<rparr>;
          width_pad = width_padding pad;
          height_pad = (if si_type si \<noteq> CAM_STREAM_TYPE_OFFLINE_PROC then 2 else height_padding pad);
          stride = pad_to_size (dim_width dim) width_pad;
          scanline = pad_to_size (dim_height dim) height_pad;
          b = put_plane 0 (stride * scanline) 0 (0, 0)
               stride scanline (dim_width dim) (dim_height dim) b;
          stride = pad_to_size (dim_width dim) width_pad;
          scanline = pad_to_size (halve (dim_height dim)) height_pad;
          b = put_plane 1 (stride * scanline) 0 (0, 0)
               stride scanline (dim_width dim) (halve (dim_height dim)) b
      in frame_len_2 b)"

definition preview_nv21_adreno ::
  "stream_info \<Rightarrow> cam_dimension \<Rightarrow> cam_padding \<Rightarrow> planes \<Rightarrow> planes" where
  "preview_nv21_adreno si dim pad b =
     (let b = b\<lparr>num_planes := 2\<rparr>;
          stride = (if si_type si \<noteq> CAM_STREAM_TYPE_OFFLINE_PROC then pad_to_size (dim_width dim) 32
               else pad_to_size (dim_width dim) (width_padding pad));
          scanline = (if si_type si \<noteq> CAM_STREAM_TYPE_OFFLINE_PROC then pad_to_size (dim_height dim) 32
               else pad_to_size (dim_height dim) (height_padding pad));
          b = put_plane 0 (pad_to_size (stride * scanline) 4096) 0 (0, 0)
               stride scanline (dim_width dim) (dim_height dim) b;
          stride = pad_to_size (halve (dim_width dim)) 32 * 2;
          scanline = pad_to_size (halve (dim_height dim)) 32;
          b = put_plane 1 (pad_to_size (stride * scanline) 4096) 0 (0, 0)
               stride scanline (dim_width dim) (halve (dim_height dim)) b
      in frame_len_2 b)"

definition preview_yv12 :: "stream_info \<Rightarrow> cam_dimension \<Rightarrow> cam_padding \<Rightarrow> planes \<Rightarrow> planes" where
  "preview_yv12 si dim pad b =
     (let b = b\<lparr>num_planes := 3\<rparr>;
          stride = (if si_type si \<noteq> CAM_STREAM_TYPE_OFFLINE_PROC then pad_to_size (dim_width dim) 16
               else pad_to_size (dim_width dim) (width_padding pad));
          scanline = (if si_type si \<noteq> CAM_STREAM_TYPE_OFFLINE_PROC then pad_to_size (dim_height dim) 2
               else pad_to_size (dim_height dim) (height_padding pad));
          b = put_plane 0 (stride * scanline) 0 (0, 0)
               stride scanline (dim_width dim) (dim_height dim) b;
          stride = pad_to_size (halve stride) 16;
          scanline = halve scanline;
          b = put_plane 1 (stride * scanline) 0 (0, 0)
               stride scanline (halve (dim_width dim)) (halve (dim_height dim)) b;
          b = put_plane 2 (stride * scanline) 0 (0, 0)
               stride scanline (halve (dim_width dim)) (halve (dim_height dim)) b
      in frame_len_3 b)"

definition preview_nv16 :: "stream_info \<Rightarrow> cam_dimension \<Rightarrow> cam_padding \<Rightarrow> planes \<Rightarrow> planes" where
  "preview_nv16 si dim pad b =
     (let b = b\<lparr>num_planes := 2\<rparr>;
          stride = (if si_type si \<noteq> CAM_STREAM_TYPE_OFFLINE_PROC then pad_to_size (dim_width dim) 16
               else pad_to_size (dim_width dim) (width_padding pad));
          scanline = (if si_type si \<noteq> CAM_STREAM_TYPE_OFFLINE_PROC then dim_height dim
               else pad_to_size (dim_height dim) (height_padding pad));
          b = put_plane 0 (stride * scanline) 0 (0, 0)
               stride scanline (dim_width dim) (dim_height dim) b;
          b = put_plane 1 (stride * scanline) 0 (0, 0)
               stride scanline (dim_width dim) (dim_height dim) b
      in frame_len_2 b)"

definition preview_nv12_venus ::
  "venus \<Rightarrow> stream_info \<Rightarrow> cam_dimension \<Rightarrow> cam_padding \<Rightarrow> planes \<Rightarrow> planes" where
  "preview_nv12_venus v si dim pad b =
     (let stride = (if si_type si \<noteq> CAM_STREAM_TYPE_OFFLINE_PROC then venus_y_stride v COLOR_FMT_NV12 (dim_width dim)
               else pad_to_size (dim_width dim) (width_padding pad));
          scanline = (if si_type si \<noteq> CAM_STREAM_TYPE_OFFLINE_PROC then venus_y_scanlines v COLOR_FMT_NV12 (dim_height dim)
               else pad_to_size (dim_height dim) (height_padding pad));
          b = b\<lparr>frame_len := venus_buffer_size v COLOR_FMT_NV12 stride scanline, num_planes := 2\<rparr>;
          b = put_plane 0 (stride * scanline) 0 (0, 0)
               stride scanline (dim_width dim) (dim_height dim) b;
          stride = (if si_type si \<noteq> CAM_STREAM_TYPE_OFFLINE_PROC then venus_uv_stride v COLOR_FMT_NV12 (dim_width dim)
               else pad_to_size (dim_width dim) (width_padding pad));
          scanline = (if si_type si \<noteq> CAM_STREAM_TYPE_OFFLINE_PROC then venus_uv_scanlines v COLOR_FMT_NV12 (dim_height dim)
               else pad_to_size (dim_height dim) (height_padding pad));
          b = put_plane 1 (frame_len b - mp_len (mp b ! 0)) 0 (0, 0)
               stride scanline (dim_width dim) (halve (dim_height dim)) b
      in b)"

definition preview_nv21_venus ::
  "venus \<Rightarrow> stream_info \<Rightarrow> cam_dimension \<Rightarrow> cam_padding \<Rightarrow> planes \<Rightarrow> planes" where
  "preview_nv21_venus v si dim pad b =
     (let stride = (if si_type si \<noteq> CAM_STREAM_TYPE_OFFLINE_PROC then venus_y_stride v COLOR_FMT_NV21 (dim_width dim)
               else pad_to_size (dim_width dim) (width_padding pad));
          scanline = (if si_type si \<noteq> CAM_STREAM_TYPE_OFFLINE_PROC then venus_y_scanlines v COLOR_FMT_NV21 (dim_height dim)
               else pad_to_size (dim_height dim) (height_padding pad));
          b = b\<lparr>frame_len := venus_buffer_size v COLOR_FMT_NV21 stride scanline, num_planes := 2\<rparr>;
          b = put_plane 0 (stride * scanline) 0 (0, 0)
               stride scanline (dim_width dim) (dim_height dim) b;
          stride = (if si_type si \<noteq> CAM_STREAM_TYPE_OFFLINE_PROC then venus_uv_stride v COLOR_FMT_NV21 (dim_width dim)
               else pad_to_size (dim_width dim) (width_padding pad));
          scanline = (if si_type si \<noteq> CAM_STREAM_TYPE_OFFLINE_PROC then venus_uv_scanlines v COLOR_FMT_NV21 (dim_height dim)
               else pad_to_size (dim_height dim) (height_padding pad));
          b = put_plane 1 (frame_len b - mp_len (mp b ! 0)) 0 (0, 0)
               stride scanline (dim_width dim) (halve (dim_height dim)) b
      in b)"

definition mm_stream_calc_offset_preview ::
  "venus \<Rightarrow> stream_info \<Rightarrow> cam_dimension \<Rightarrow> cam_padding \<Rightarrow> planes \<Rightarrow> int32 \<times> planes" where
  "mm_stream_calc_offset_preview v si dim pad b =
     (case si_fmt si of
        CAM_FORMAT_YUV_420_NV12 \<Rightarrow> (0, preview_nv12 si dim pad b)
      | CAM_FORMAT_YUV_420_NV21 \<Rightarrow> (0, preview_nv12 si dim pad b)
      | CAM_FORMAT_Y_ONLY \<Rightarrow> (0, preview_nv12 si dim pad b)
      | CAM_FORMAT_Y_ONLY_10_BPP \<Rightarrow> (0, preview_nv12 si dim pad b)
      | CAM_FORMAT_Y_ONLY_12_BPP \<Rightarrow> (0, preview_nv12 si dim pad b)
      | CAM_FORMAT_Y_ONLY_14_BPP \<Rightarrow> (0, preview_nv12 si dim pad b)
      | CAM_FORMAT_YUV_420_NV21_ADRENO \<Rightarrow> (0, preview_nv21_adreno si dim pad b)
      | CAM_FORMAT_YUV_420_YV12 \<Rightarrow> (0, preview_yv12 si dim pad b)
      | CAM_FORMAT_YUV_422_NV16 \<Rightarrow> (0, preview_nv16 si dim pad b)
      | CAM_FORMAT_YUV_422_NV61 \<Rightarrow> (0, preview_nv16 si dim pad b)
      | CAM_FORMAT_YUV_420_NV12_VENUS \<Rightarrow> (0, preview_nv12_venus v si dim pad b)
      | CAM_FORMAT_YUV_420_NV21_VENUS \<Rightarrow> (0, preview_nv21_venus v si dim pad b)
      | CAM_FORMAT_YUV_420_NV12_UBWC \<Rightarrow> (-1, b)
      | _ \<Rightarrow> (-1, b))"

section \<open>Postview\<close>

definition post_view_nv12 ::
  "stream_info \<Rightarrow> cam_dimension \<Rightarrow> cam_padding \<Rightarrow> planes \<Rightarrow> planes" where
  "post_view_nv12 si dim pad b =
     (let b = b\<lparr>num_planes := 2\<rparr>;
          width_pad = width_padding pad;
          height_pad = (if si_type si \<noteq> CAM_STREAM_TYPE_OFFLINE_PROC then 2 else height_padding pad);
          stride = pad_to_size (dim_width dim) width_pad;
          scanline = pad_to_size (dim_height dim) height_pad;
          b = put_plane 0 (stride * scanline) 0 (0, 0)
               stride scanline (dim_width dim) (dim_height dim) b;
          stride = pad_to_size (dim_width dim) width_pad;
          scanline = pad_to_size (halve (dim_height dim)) height_pad;
          b = put_plane 1 (stride * scanline) 0 (0, 0)
               stride scanline (dim_width dim) (halve (dim_height dim)) b
      in frame_len_2 b)"

definition post_view_nv21_adreno ::
  "stream_info \<Rightarrow> cam_dimension \<Rightarrow> cam_padding \<Rightarrow> planes \<Rightarrow> planes" where
  "post_view_nv21_adreno si dim pad b =
     (let b = b\<lparr>num_planes := 2\<rparr>;
          width_pad = (if si_type si \<noteq> CAM_STREAM_TYPE_OFFLINE_PROC then 32 else width_padding pad);
          height_pad = (if si_type si \<noteq> CAM_STREAM_TYPE_OFFLINE_PROC then 32 else height_padding pad);
          stride = pad_to_size (dim_width dim) width_pad;
          scanline = pad_to_size (dim_height dim) height_pad;
          b = put_plane 0 (pad_to_size (stride * scanline) 4096) 0 (0, 0)
               stride scanline (dim_width dim) (dim_height dim) b;
          stride = pad_to_size (halve (dim_width dim)) width_pad * 2;
          scanline = pad_to_size (halve (dim_height dim)) height_pad;
          b = put_plane 1 (pad_to_size (stride * scanline) 4096) 0 (0, 0)
               stride scanline (dim_width dim) (halve (dim_height dim)) b
      in frame_len_2 b)"

definition post_view_yv12 ::
  "stream_info \<Rightarrow> cam_dimension \<Rightarrow> cam_padding \<Rightarrow> planes \<Rightarrow> planes" where
  "post_view_yv12 si dim pad b =
     (let b = b\<lparr>num_planes := 3\<rparr>;
          width_pad = (if si_type si \<noteq> CAM_STREAM_TYPE_OFFLINE_PROC then 16 else width_padding pad);
          height_pad = (if si_type si \<noteq> CAM_STREAM_TYPE_OFFLINE_PROC then 2 else height_padding pad);
          stride = pad_to_size (dim_width dim) width_pad;
          scanline = pad_to_size (dim_height dim) height_pad;
          b = put_plane 0 (stride * scanline) 0 (0, 0)
               stride scanline (dim_width dim) (dim_height dim) b;
          stride = pad_to_size (halve stride) width_pad;
          scanline = pad_to_size (halve stride) height_pad;
          b = put_plane 1 (stride * scanline) 0 (0, 0)
               stride scanline (halve (dim_width dim)) (halve (dim_height dim)) b;
          b = put_plane 2 (stride * scanline) 0 (0, 0)
               stride scanline (halve (dim_width dim)) (halve (dim_height dim)) b
      in frame_len_3 b)"

definition post_view_nv16 ::
  "stream_info \<Rightarrow> cam_dimension \<Rightarrow> cam_padding \<Rightarrow> planes \<Rightarrow> planes" where
  "post_view_nv16 si dim pad b =
     (let b = b\<lparr>num_planes := 2\<rparr>;
          stride = (if si_type si \<noteq> CAM_STREAM_TYPE_OFFLINE_PROC then pad_to_size (dim_width dim) 16
               else pad_to_size (dim_width dim) (width_padding pad));
          scanline = (if si_type si \<noteq> CAM_STREAM_TYPE_OFFLINE_PROC then dim_height dim
               else pad_to_size (dim_height dim) (height_padding pad));
          b = put_plane 0 (stride * scanline) 0 (0, 0)
               stride scanline (dim_width dim) (dim_height dim) b;
          b = put_plane 1 (stride * scanline) 0 (0, 0)
               stride scanline (dim_width dim) (dim_height dim) b
      in frame_len_2 b)"

definition post_view_nv12_venus ::
  "venus \<Rightarrow> stream_info \<Rightarrow> cam_dimension \<Rightarrow> cam_padding \<Rightarrow> planes \<Rightarrow> planes" where
  "post_view_nv12_venus v si dim pad b =
     (let stride = (if si_type si \<noteq> CAM_STREAM_TYPE_OFFLINE_PROC then venus_y_stride v COLOR_FMT_NV12 (dim_width dim)
               else pad_to_size (dim_width dim) (width_padding pad));
          scanline = (if si_type si \<noteq> CAM_STREAM_TYPE_OFFLINE_PROC then venus_y_scanlines v COLOR_FMT_NV12 (dim_height dim)
               else pad_to_size (dim_height dim) (height_padding pad));
          b = b\<lparr>frame_len := venus_buffer_size v COLOR_FMT_NV12 stride scanline, num_planes := 2\<rparr>;
          b = put_plane 0 (stride * scanline) 0 (0, 0)
               stride scanline (dim_width dim) (dim_height dim) b;
          stride = (if si_type si \<noteq> CAM_STREAM_TYPE_OFFLINE_PROC then venus_uv_stride v COLOR_FMT_NV12 (dim_width dim)
               else pad_to_size (dim_width dim) (width_padding pad));
          scanline = (if si_type si \<noteq> CAM_STREAM_TYPE_OFFLINE_PROC then venus_uv_scanlines v COLOR_FMT_NV12 (dim_height dim)
               else pad_to_size (dim_height dim) (height_padding pad));
          b = put_plane 1 (frame_len b - mp_len (mp b ! 0)) 0 (0, 0)
               stride scanline (dim_width dim) (halve (dim_height dim)) b
      in b)"

definition post_view_nv21_venus ::
  "venus \<Rightarrow> stream_info \<Rightarrow> cam_dimension \<Rightarrow> cam_padding \<Rightarrow> planes \<Rightarrow> planes" where
  "post_view_nv21_venus v si dim pad b =
     (let stride = (if si_type si \<noteq> CAM_STREAM_TYPE_OFFLINE_PROC then venus_y_stride v COLOR_FMT_NV21 (dim_width dim)
               else pad_to_size (dim_width dim) (width_padding pad));
          scanline = (if si_type si \<noteq> CAM_STREAM_TYPE_OFFLINE_PROC then venus_y_scanlines v COLOR_FMT_NV21 (dim_height dim)
               else pad_to_size (dim_height dim) (height_padding pad));
          b = b\<lparr>frame_len := venus_buffer_size v COLOR_FMT_NV21 (dim_width dim) (dim_height dim), num_planes := 2\<rparr>;
          b = put_plane 0 (stride * scanline) 0 (0, 0)
               stride scanline (dim_width dim) (dim_height dim) b;
          stride = (if si_type si \<noteq> CAM_STREAM_TYPE_OFFLINE_PROC then venus_uv_stride v COLOR_FMT_NV21 (dim_width dim)
               else pad_to_size (dim_width dim) (width_padding pad));
          scanline = (if si_type si \<noteq> CAM_STREAM_TYPE_OFFLINE_PROC then venus_uv_scanlines v COLOR_FMT_NV21 (dim_height dim)
               else pad_to_size (dim_height dim) (height_padding pad));
          b = put_plane 1 (frame_len b - mp_len (mp b ! 0)) 0 (0, 0)
               stride scanline (dim_width dim) (halve (dim_height dim)) b
      in b)"

definition mm_stream_calc_offset_post_view ::
  "venus \<Rightarrow> stream_info \<Rightarrow> cam_dimension \<Rightarrow> cam_padding \<Rightarrow> planes \<Rightarrow> int32 \<times> planes" where
  "mm_stream_calc_offset_post_view v si dim pad b =
     (case si_fmt si of
        CAM_FORMAT_YUV_420_NV12 \<Rightarrow> (0, post_view_nv12 si dim pad b)
      | CAM_FORMAT_YUV_420_NV21 \<Rightarrow> (0, post_view_nv12 si dim pad b)
      | CAM_FORMAT_Y_ONLY \<Rightarrow> (0, post_view_nv12 si dim pad b)
      | CAM_FORMAT_Y_ONLY_10_BPP \<Rightarrow> (0, post_view_nv12 si dim pad b)
      | CAM_FORMAT_Y_ONLY_12_BPP \<Rightarrow> (0, post_view_nv12 si dim pad b)
      | CAM_FORMAT_Y_ONLY_14_BPP \<Rightarrow> (0, post_view_nv12 si dim pad b)
      | CAM_FORMAT_YUV_420_NV21_ADRENO \<Rightarrow> (0, post_view_nv21_adreno si dim pad b)
      | CAM_FORMAT_YUV_420_YV12 \<Rightarrow> (0, post_view_yv12 si dim pad b)
      | CAM_FORMAT_YUV_422_NV16 \<Rightarrow> (0, post_view_nv16 si dim pad b)
      | CAM_FORMAT_YUV_422_NV61 \<Rightarrow> (0, post_view_nv16 si dim pad b)
      | CAM_FORMAT_YUV_420_NV12_VENUS \<Rightarrow> (0, post_view_nv12_venus v si dim pad b)
      | CAM_FORMAT_YUV_420_NV21_VENUS \<Rightarrow> (0, post_view_nv21_venus v si dim pad b)
      | CAM_FORMAT_YUV_420_NV12_UBWC \<Rightarrow> (-1, b)
      | _ \<Rightarrow> (-1, b))"

section \<open>Snapshot\<close>

text \<open>Offsets, stride and scanline, common to the formats without Venus.\<close>

definition snapshot_geometry ::
  "cam_dimension \<Rightarrow> cam_padding \<Rightarrow> (int32 \<times> int32) \<times> int32 \<times> int32" where
  "snapshot_geometry dim pad =
     (if mm_camera_util_chip_is_a_family
      then (let scanline = pad_to_size (dim_height dim) 16;
                offset_y = scanline - dim_height dim
            in ((0, offset_y), dim_width dim, scanline + offset_y))
      else (let offset_x = pad_to_size (pad_offset_x pad) (plane_padding pad);
                offset_y = pad_to_size (pad_offset_y pad) (plane_padding pad)
            in ((offset_x, offset_y),
                pad_to_size (dim_width dim + 2 * offset_x) (width_padding pad),
                pad_to_size (dim_height dim + 2 * offset_y) (height_padding pad))))"

definition snapshot_nv12 :: "cam_dimension \<Rightarrow> cam_padding \<Rightarrow> planes \<Rightarrow> planes" where
  "snapshot_nv12 dim pad b =
     (let b = b\<lparr>num_planes := 2\<rparr>;
          (xy, stride, scanline) = snapshot_geometry dim pad;
          b = put_plane 0 (pad_to_size (stride * scanline) (plane_padding pad)) (pad_to_size (fst xy + stride * snd xy) (plane_padding pad)) xy
               stride scanline (dim_width dim) (dim_height dim) b;
          scanline = halve scanline;
          b = put_plane 1 (pad_to_size (stride * scanline) (plane_padding pad)) (pad_to_size (fst xy + stride * snd xy) (plane_padding pad)) xy
               stride scanline (dim_width dim) (halve (dim_height dim)) b
      in frame_len_2 b)"

definition snapshot_yv12 :: "cam_dimension \<Rightarrow> cam_padding \<Rightarrow> planes \<Rightarrow> planes" where
  "snapshot_yv12 dim pad b =
     (let b = b\<lparr>num_planes := 3\<rparr>;
          (xy, stride, scanline) = snapshot_geometry dim pad;
          b = put_plane 0 (pad_to_size (stride * scanline) (plane_padding pad)) (pad_to_size (fst xy + stride * snd xy) (plane_padding pad)) xy
               stride scanline (dim_width dim) (dim_height dim) b;
          stride = pad_to_size (halve stride) 16;
          scanline = halve scanline;
          b = put_plane 1 (pad_to_size (stride * scanline) (plane_padding pad)) (pad_to_size (fst xy + stride * snd xy) (plane_padding pad)) xy
               stride scanline (halve (dim_width dim)) (halve (dim_height dim)) b;
          b = put_plane 2 (pad_to_size (stride * scanline) (plane_padding pad)) (pad_to_size (fst xy + stride * snd xy) (plane_padding pad)) xy
               stride scanline (halve (dim_width dim)) (halve (dim_height dim)) b
      in frame_len_3 b)"

definition snapshot_nv16 :: "cam_dimension \<Rightarrow> cam_padding \<Rightarrow> planes \<Rightarrow> planes" where
  "snapshot_nv16 dim pad b =
     (let b = b\<lparr>num_planes := 2\<rparr>;
          (xy, stride, scanline) = snapshot_geometry dim pad;
          b = put_plane 0 (pad_to_size (stride * scanline) (plane_padding pad)) (pad_to_size (fst xy + stride * snd xy) (plane_padding pad)) xy
               stride scanline (dim_width dim) (dim_height dim) b;
          b = put_plane 1 (pad_to_size (stride * scanline) (plane_padding pad)) (pad_to_size (fst xy + stride * snd xy) (plane_padding pad)) xy
               stride scanline (dim_width dim) (dim_height dim) b
      in frame_len_2 b)"

definition snapshot_nv12_venus :: "venus \<Rightarrow> cam_dimension \<Rightarrow> planes \<Rightarrow> planes" where
  "snapshot_nv12_venus v dim b =
     (let stride = venus_y_stride v COLOR_FMT_NV12 (dim_width dim);
          scanline = venus_y_scanlines v COLOR_FMT_NV12 (dim_height dim);
          b = b\<lparr>frame_len := venus_buffer_size v COLOR_FMT_NV12 (dim_width dim) (dim_height dim), num_planes := 2\<rparr>;
          b = put_plane 0 (stride * scanline) 0 (0, 0)
               stride scanline (dim_width dim) (dim_height dim) b;
          stride = venus_uv_stride v COLOR_FMT_NV12 (dim_width dim);
          scanline = venus_uv_scanlines v COLOR_FMT_NV12 (dim_height dim);
          b = put_plane 1 (frame_len b - mp_len (mp b ! 0)) 0 (0, 0)
               stride scanline (dim_width dim) (halve (dim_height dim)) b
      in b)"

definition snapshot_nv21_venus :: "venus \<Rightarrow> cam_dimension \<Rightarrow> planes \<Rightarrow> planes" where
  "snapshot_nv21_venus v dim b =
     (let stride = venus_y_stride v COLOR_FMT_NV21 (dim_width dim);
          scanline = venus_y_scanlines v COLOR_FMT_NV21 (dim_height dim);
          b = b\<lparr>frame_len := venus_buffer_size v COLOR_FMT_NV21 (dim_width dim) (dim_height dim), num_planes := 2\<rparr>;
          b = put_plane 0 (stride * scanline) 0 (0, 0)
               stride scanline (dim_width dim) (dim_height dim) b;
          stride = venus_uv_stride v COLOR_FMT_NV21 (dim_width dim);
          scanline = venus_uv_scanlines v COLOR_FMT_NV21 (dim_height dim);
          b = put_plane 1 (frame_len b - mp_len (mp b ! 0)) 0 (0, 0)
               stride scanline (dim_width dim) (halve (dim_height dim)) b
      in b)"

definition mm_stream_calc_offset_snapshot ::
  "venus \<Rightarrow> cam_format \<Rightarrow> cam_dimension \<Rightarrow> cam_padding \<Rightarrow> planes \<Rightarrow> int32 \<times> planes" where
  "mm_stream_calc_offset_snapshot v fmt dim pad b =
     (case fmt of
        CAM_FORMAT_YUV_420_NV12 \<Rightarrow> (0, snapshot_nv12 dim pad b)
      | CAM_FORMAT_YUV_420_NV21 \<Rightarrow> (0, snapshot_nv12 dim pad b)
      | CAM_FORMAT_Y_ONLY \<Rightarrow> (0, snapshot_nv12 dim pad b)
      | CAM_FORMAT_Y_ONLY_10_BPP \<Rightarrow> (0, snapshot_nv12 dim pad b)
      | CAM_FORMAT_Y_ONLY_12_BPP \<Rightarrow> (0, snapshot_nv12 dim pad b)
      | CAM_FORMAT_Y_ONLY_14_BPP \<Rightarrow> (0, snapshot_nv12 dim pad b)
      | CAM_FORMAT_YUV_420_YV12 \<Rightarrow> (0, snapshot_yv12 dim pad b)
      | CAM_FORMAT_YUV_422_NV16 \<Rightarrow> (0, snapshot_nv16 dim pad b)
      | CAM_FORMAT_YUV_422_NV61 \<Rightarrow> (0, snapshot_nv16 dim pad b)
      | CAM_FORMAT_YUV_420_NV12_VENUS \<Rightarrow> (0, snapshot_nv12_venus v dim b)
      | CAM_FORMAT_YUV_420_NV21_VENUS \<Rightarrow> (0, snapshot_nv21_venus v dim b)
      | CAM_FORMAT_YUV_420_NV12_UBWC \<Rightarrow> (-1, b)
      | _ \<Rightarrow> (-1, b))"

section \<open>Raw\<close>

text \<open>
  The assignments that all the cases with one plane share; most of them then describe the plane
  as one line of len bytes.
\<close>

definition raw_one_plane :: "cam_padding \<Rightarrow> int32 \<Rightarrow> int32 \<Rightarrow> int32 \<Rightarrow> planes \<Rightarrow> planes" where
  "raw_one_plane pad stride sib scanline b =
     (let b = b\<lparr>num_planes := 1\<rparr>;
          b = b\<lparr>mp := (mp b)[0 := (mp b ! 0)\<lparr>mp_offset := 0,
                mp_len := pad_to_size (sib * scanline) (plane_padding pad)\<rparr>]\<rparr>;
          b = frame_len_1 b
      in b\<lparr>mp := (mp b)[0 := (mp b ! 0)\<lparr>mp_offset_x := 0, mp_offset_y := 0,
           mp_stride := stride, mp_stride_in_bytes := sib, mp_scanline := scanline\<rparr>]\<rparr>)"

definition raw_as_line :: "planes \<Rightarrow> planes" where
  "raw_as_line b =
     b\<lparr>mp := (mp b)[0 := (mp b ! 0)\<lparr>mp_width := mp_len (mp b ! 0), mp_height := 1\<rparr>]\<rparr>"

definition raw_nv21 :: "cam_dimension \<Rightarrow> cam_padding \<Rightarrow> planes \<Rightarrow> planes" where
  "raw_nv21 dim pad b =
     (let stride = pad_to_size (dim_width dim) (width_padding pad);
          scanline = pad_to_size (dim_height dim) (height_padding pad);
          b = b\<lparr>num_planes := 2\<rparr>;
          b = put_plane 0 (pad_to_size (stride * scanline) (plane_padding pad)) 0 (0, 0)
               stride scanline (dim_width dim) (dim_height dim) b;
          b = b\<lparr>mp := (mp b)[0 := (mp b ! 0)\<lparr>mp_stride_in_bytes := stride\<rparr>]\<rparr>;
          scanline = halve scanline;
          b = put_plane 1 (pad_to_size (stride * scanline) (plane_padding pad)) 0 (0, 0)
               stride scanline (dim_width dim) (halve (dim_height dim)) b;
          b = b\<lparr>mp := (mp b)[1 := (mp b ! 1)\<lparr>mp_stride_in_bytes := stride\<rparr>]\<rparr>
      in frame_len_2 b)"

definition raw_yuyv :: "cam_dimension \<Rightarrow> cam_padding \<Rightarrow> planes \<Rightarrow> planes" where
  "raw_yuyv dim pad b =
     (let scanline = pad_to_size (dim_height dim) (height_padding pad);
          stride = pad_to_size (dim_width dim) 16;
          stride_in_bytes = stride * 2
      in raw_as_line (raw_one_plane pad stride stride_in_bytes scanline b))"

definition raw_meta8 :: "cam_dimension \<Rightarrow> cam_padding \<Rightarrow> planes \<Rightarrow> planes" where
  "raw_meta8 dim pad b =
     (let scanline = pad_to_size (dim_height dim) (height_padding pad);
          stride = pad_to_size (dim_width dim) 16;
          stride_in_bytes = stride * 2
      in raw_one_plane pad stride stride_in_bytes scanline b)"

definition raw_8bpp :: "cam_dimension \<Rightarrow> cam_padding \<Rightarrow> planes \<Rightarrow> planes" where
  "raw_8bpp dim pad b =
     (let scanline = pad_to_size (dim_height dim) (height_padding pad);
          stride = pad_to_size (dim_width dim) 16;
          stride_in_bytes = stride
      in raw_as_line (raw_one_plane pad stride stride_in_bytes scanline b))"

definition raw_qcom10 :: "cam_dimension \<Rightarrow> cam_padding \<Rightarrow> planes \<Rightarrow> planes" where
  "raw_qcom10 dim pad b =
     (let scanline = pad_to_size (dim_height dim) (height_padding pad);
          stride = int_quot (dim_width dim + 11) 12 * 12;
          stride_in_bytes = int_quot (stride * 8) 6
      in raw_as_line (raw_one_plane pad stride stride_in_bytes scanline b))"

definition raw_qcom12 :: "cam_dimension \<Rightarrow> cam_padding \<Rightarrow> planes \<Rightarrow> planes" where
  "raw_qcom12 dim pad b =
     (let scanline = pad_to_size (dim_height dim) (height_padding pad);
          stride = int_quot (dim_width dim + 9) 10 * 10;
          stride_in_bytes = int_quot (stride * 8) 5
      in raw_as_line (raw_one_plane pad stride stride_in_bytes scanline b))"

definition raw_mipi10 :: "cam_dimension \<Rightarrow> cam_padding \<Rightarrow> planes \<Rightarrow> planes" where
  "raw_mipi10 dim pad b =
     (let scanline = pad_to_size (dim_height dim) (height_padding pad);
          stride = pad_to_size (dim_width dim) 4;
          stride_in_bytes = pad_to_size (int_quot (stride * 5) 4) 8
      in raw_as_line (raw_one_plane pad stride stride_in_bytes scanline b))"

definition raw_mipi12 :: "cam_dimension \<Rightarrow> cam_padding \<Rightarrow> planes \<Rightarrow> planes" where
  "raw_mipi12 dim pad b =
     (let scanline = pad_to_size (dim_height dim) (height_padding pad);
          stride = pad_to_size (dim_width dim) 32;
          stride_in_bytes = int_quot (stride * 3) 2
      in raw_as_line (raw_one_plane pad stride stride_in_bytes scanline b))"

definition raw_plain16 :: "cam_dimension \<Rightarrow> cam_padding \<Rightarrow> planes \<Rightarrow> planes" where
  "raw_plain16 dim pad b =
     (let scanline = pad_to_size (dim_height dim) (height_padding pad);
          stride = pad_to_size (dim_width dim) 8;
          stride_in_bytes = stride * 2
      in raw_as_line (raw_one_plane pad stride stride_in_bytes scanline b))"

definition raw_mipi14 :: "cam_dimension \<Rightarrow> cam_padding \<Rightarrow> planes \<Rightarrow> planes" where
  "raw_mipi14 dim pad b =
     (let scanline = pad_to_size (dim_height dim) (height_padding pad);
          stride = pad_to_size (dim_width dim) 64;
          stride_in_bytes = int_quot (stride * 7) 4
      in raw_as_line (raw_one_plane pad stride stride_in_bytes scanline b))"

definition raw_qcom14 :: "cam_dimension \<Rightarrow> cam_padding \<Rightarrow> planes \<Rightarrow> planes" where
  "raw_qcom14 dim pad b =
     (let scanline = pad_to_size (dim_height dim) (height_padding pad);
          stride = pad_to_size (dim_width dim) 16;
          stride_in_bytes = stride * 2
      in raw_as_line (raw_one_plane pad stride stride_in_bytes scanline b))"

definition mm_stream_calc_offset_raw ::
  "cam_format \<Rightarrow> cam_dimension \<Rightarrow> cam_padding \<Rightarrow> planes \<Rightarrow> int32 \<times> planes" where
  "mm_stream_calc_offset_raw fmt dim pad b =
     (case fmt of
        CAM_FORMAT_YUV_420_NV21 \<Rightarrow> (0, raw_nv21 dim pad b)
      | CAM_FORMAT_YUV_RAW_8BIT_YUYV \<Rightarrow> (0, raw_yuyv dim pad b)
      | CAM_FORMAT_YUV_RAW_8BIT_YVYU \<Rightarrow> (0, raw_yuyv dim pad b)
      | CAM_FORMAT_YUV_RAW_8BIT_UYVY \<Rightarrow> (0, raw_yuyv dim pad b)
      | CAM_FORMAT_YUV_RAW_8BIT_VYUY \<Rightarrow> (0, raw_yuyv dim pad b)
      | CAM_FORMAT_JPEG_RAW_8BIT \<Rightarrow> (0, raw_yuyv dim pad b)
      | CAM_FORMAT_META_RAW_8BIT \<Rightarrow> (0, raw_meta8 dim pad b)
      | CAM_FORMAT_BAYER_QCOM_RAW BPP8 _ \<Rightarrow> (0, raw_8bpp dim pad b)
      | CAM_FORMAT_BAYER_QCOM_RAW BPP10 _ \<Rightarrow> (0, raw_qcom10 dim pad b)
      | CAM_FORMAT_BAYER_QCOM_RAW BPP12 _ \<Rightarrow> (0, raw_qcom12 dim pad b)
      | CAM_FORMAT_BAYER_QCOM_RAW BPP14 _ \<Rightarrow> (0, raw_qcom14 dim pad b)
      | CAM_FORMAT_BAYER_IDEAL_RAW_QCOM BPP8 _ \<Rightarrow> (0, raw_8bpp dim pad b)
      | CAM_FORMAT_BAYER_IDEAL_RAW_QCOM BPP10 _ \<Rightarrow> (0, raw_qcom10 dim pad b)
      | CAM_FORMAT_BAYER_IDEAL_RAW_QCOM BPP12 _ \<Rightarrow> (0, raw_qcom12 dim pad b)
      | CAM_FORMAT_BAYER_IDEAL_RAW_QCOM BPP14 _ \<Rightarrow> (0, raw_qcom14 dim pad b)
      | CAM_FORMAT_BAYER_MIPI_RAW BPP8 _ \<Rightarrow> (0, raw_8bpp dim pad b)
      | CAM_FORMAT_BAYER_MIPI_RAW BPP10 _ \<Rightarrow> (0, raw_mipi10 dim pad b)
      | CAM_FORMAT_BAYER_MIPI_RAW BPP12 _ \<Rightarrow> (0, raw_mipi12 dim pad b)
      | CAM_FORMAT_BAYER_MIPI_RAW BPP14 _ \<Rightarrow> (0, raw_mipi14 dim pad b)
      | CAM_FORMAT_BAYER_IDEAL_RAW_MIPI BPP8 _ \<Rightarrow> (0, raw_8bpp dim pad b)
      | CAM_FORMAT_BAYER_IDEAL_RAW_MIPI BPP10 _ \<Rightarrow> (0, raw_mipi10 dim pad b)
      | CAM_FORMAT_BAYER_IDEAL_RAW_MIPI BPP12 _ \<Rightarrow> (0, raw_mipi12 dim pad b)
      | CAM_FORMAT_BAYER_IDEAL_RAW_MIPI BPP14 _ \<Rightarrow> (0, raw_mipi14 dim pad b)
      | CAM_FORMAT_BAYER_IDEAL_RAW_PLAIN8 _ \<Rightarrow> (0, raw_8bpp dim pad b)
      | CAM_FORMAT_BAYER_IDEAL_RAW_PLAIN16 _ _ \<Rightarrow> (0, raw_plain16 dim pad b)
      | CAM_FORMAT_META_RAW_10BIT \<Rightarrow> (0, raw_mipi10 dim pad b)
      | _ \<Rightarrow> (-1, b))"

section \<open>Video, metadata and analysis\<close>

definition video_nv12 :: "cam_dimension \<Rightarrow> planes \<Rightarrow> planes" where
  "video_nv12 dim b =
     (let b = b\<lparr>num_planes := 2\<rparr>;
          stride = dim_width dim;
          scanline = dim_height dim;
          b = put_plane 0 (pad_to_size (stride * scanline) 2048) 0 (0, 0)
               stride scanline (dim_width dim) (dim_height dim) b;
          stride = dim_width dim;
          scanline = halve (dim_height dim);
          b = put_plane 1 (pad_to_size (stride * scanline) 2048) 0 (0, 0)
               stride scanline (dim_width dim) (halve (dim_height dim)) b
      in frame_len_2 b)"

definition video_nv12_venus :: "venus \<Rightarrow> cam_dimension \<Rightarrow> planes \<Rightarrow> planes" where
  "video_nv12_venus v dim b =
     (let stride = venus_y_stride v COLOR_FMT_NV12 (dim_width dim);
          scanline = venus_y_scanlines v COLOR_FMT_NV12 (dim_height dim);
          b = b\<lparr>frame_len := venus_buffer_size v COLOR_FMT_NV12 (dim_width dim) (dim_height dim), num_planes := 2\<rparr>;
          b = put_plane 0 (stride * scanline) 0 (0, 0)
               stride scanline (dim_width dim) (dim_height dim) b;
          stride = venus_uv_stride v COLOR_FMT_NV12 (dim_width dim);
          scanline = venus_uv_scanlines v COLOR_FMT_NV12 (dim_height dim);
          b = put_plane 1 (frame_len b - mp_len (mp b ! 0)) 0 (0, 0)
               stride scanline (dim_width dim) (halve (dim_height dim)) b
      in b)"

definition video_nv21_venus :: "venus \<Rightarrow> cam_dimension \<Rightarrow> planes \<Rightarrow> planes" where
  "video_nv21_venus v dim b =
     (let stride = venus_y_stride v COLOR_FMT_NV21 (dim_width dim);
          scanline = venus_y_scanlines v COLOR_FMT_NV21 (dim_height dim);
          b = b\<lparr>frame_len := venus_buffer_size v COLOR_FMT_NV21 (dim_width dim) (dim_height dim), num_planes := 2\<rparr>;
          b = put_plane 0 (stride * scanline) 0 (0, 0)
               stride scanline (dim_width dim) (dim_height dim) b;
          stride = venus_uv_stride v COLOR_FMT_NV21 (dim_width dim);
          scanline = venus_uv_scanlines v COLOR_FMT_NV21 (dim_height dim);
          b = put_plane 1 (frame_len b - mp_len (mp b ! 0)) 0 (0, 0)
               stride scanline (dim_width dim) (halve (dim_height dim)) b
      in b)"

definition mm_stream_calc_offset_video ::
  "venus \<Rightarrow> cam_format \<Rightarrow> cam_dimension \<Rightarrow> planes \<Rightarrow> int32 \<times> planes" where
  "mm_stream_calc_offset_video v fmt dim b =
     (case fmt of
        CAM_FORMAT_YUV_420_NV12 \<Rightarrow> (0, video_nv12 dim b)
      | CAM_FORMAT_Y_ONLY \<Rightarrow> (0, video_nv12 dim b)
      | CAM_FORMAT_Y_ONLY_10_BPP \<Rightarrow> (0, video_nv12 dim b)
      | CAM_FORMAT_Y_ONLY_12_BPP \<Rightarrow> (0, video_nv12 dim b)
      | CAM_FORMAT_Y_ONLY_14_BPP \<Rightarrow> (0, video_nv12 dim b)
      | CAM_FORMAT_YUV_420_NV12_VENUS \<Rightarrow> (0, video_nv12_venus v dim b)
      | CAM_FORMAT_YUV_420_NV21_VENUS \<Rightarrow> (0, video_nv21_venus v dim b)
      | CAM_FORMAT_YUV_420_NV12_UBWC \<Rightarrow> (-1, b)
      | _ \<Rightarrow> (-1, b))"

definition mm_stream_calc_offset_metadata ::
  "cam_dimension \<Rightarrow> cam_padding \<Rightarrow> planes \<Rightarrow> int32 \<times> planes" where
  "mm_stream_calc_offset_metadata dim pad b =
     (let b = b\<lparr>num_planes := 1\<rparr>;
          b = put_plane 0 (pad_to_size (dim_width dim * dim_height dim) (plane_padding pad)) 0 (0, 0)
               (dim_width dim) (dim_height dim) (dim_width dim) (dim_height dim) b
      in (0, b\<lparr>frame_len := mp_len (mp b ! 0)\<rparr>))"

text \<open>The analysis stream first raises the dimensions to the minimum the consumer needs.\<close>

definition analysis_geometry ::
  "cam_dimension \<Rightarrow> cam_padding \<Rightarrow> (int32 \<times> int32) \<times> int32 \<times> int32" where
  "analysis_geometry dim pad =
     (let stride = (if dim_width dim < min_stride pad then min_stride pad else dim_width dim);
          scanline = (if dim_height dim < min_scanline pad then min_scanline pad else dim_height dim)
      in ((0, 0), pad_to_size stride (width_padding pad), pad_to_size scanline (height_padding pad)))"

definition analysis_nv12 :: "cam_dimension \<Rightarrow> cam_padding \<Rightarrow> planes \<Rightarrow> planes" where
  "analysis_nv12 dim pad b =
     (let b = b\<lparr>num_planes := 2\<rparr>;
          (xy, stride, scanline) = analysis_geometry dim pad;
          b = put_plane 0 (pad_to_size (stride * scanline) (plane_padding pad)) (pad_to_size (fst xy + stride * snd xy) (plane_padding pad)) xy
               stride scanline (dim_width dim) (dim_height dim) b;
          scanline = halve scanline;
          b = put_plane 1 (pad_to_size (stride * scanline) (plane_padding pad)) (pad_to_size (fst xy + stride * snd xy) (plane_padding pad)) xy
               stride scanline (dim_width dim) (halve (dim_height dim)) b
      in frame_len_2 b)"

definition analysis_yv12 :: "cam_dimension \<Rightarrow> cam_padding \<Rightarrow> planes \<Rightarrow> planes" where
  "analysis_yv12 dim pad b =
     (let b = b\<lparr>num_planes := 3\<rparr>;
          (xy, stride, scanline) = analysis_geometry dim pad;
          b = put_plane 0 (pad_to_size (stride * scanline) (plane_padding pad)) (pad_to_size (fst xy + stride * snd xy) (plane_padding pad)) xy
               stride scanline (dim_width dim) (dim_height dim) b;
          stride = pad_to_size (halve stride) 16;
          scanline = halve scanline;
          b = put_plane 1 (pad_to_size (stride * scanline) (plane_padding pad)) (pad_to_size (fst xy + stride * snd xy) (plane_padding pad)) xy
               stride scanline (halve (dim_width dim)) (halve (dim_height dim)) b;
          b = put_plane 2 (pad_to_size (stride * scanline) (plane_padding pad)) (pad_to_size (fst xy + stride * snd xy) (plane_padding pad)) xy
               stride scanline (halve (dim_width dim)) (halve (dim_height dim)) b
      in frame_len_3 b)"

definition analysis_nv16 :: "cam_dimension \<Rightarrow> cam_padding \<Rightarrow> planes \<Rightarrow> planes" where
  "analysis_nv16 dim pad b =
     (let b = b\<lparr>num_planes := 2\<rparr>;
          (xy, stride, scanline) = analysis_geometry dim pad;
          b = put_plane 0 (pad_to_size (stride * scanline) (plane_padding pad)) (pad_to_size (fst xy + stride * snd xy) (plane_padding pad)) xy
               stride scanline (dim_width dim) (dim_height dim) b;
          b = put_plane 1 (pad_to_size (stride * scanline) (plane_padding pad)) (pad_to_size (fst xy + stride * snd xy) (plane_padding pad)) xy
               stride scanline (dim_width dim) (dim_height dim) b
      in frame_len_2 b)"

definition analysis_y_only :: "cam_dimension \<Rightarrow> cam_padding \<Rightarrow> planes \<Rightarrow> planes" where
  "analysis_y_only dim pad b =
     (let b = b\<lparr>num_planes := 1\<rparr>;
          (xy, stride, scanline) = analysis_geometry dim pad;
          b = put_plane 0 (pad_to_size (stride * scanline) (plane_padding pad)) (pad_to_size (fst xy + stride * snd xy) (plane_padding pad)) xy
               stride scanline (dim_width dim) (dim_height dim) b
      in frame_len_1 b)"

definition analysis_nv12_venus :: "venus \<Rightarrow> cam_dimension \<Rightarrow> planes \<Rightarrow> planes" where
  "analysis_nv12_venus v dim b =
     (let stride = venus_y_stride v COLOR_FMT_NV12 (dim_width dim);
          scanline = venus_y_scanlines v COLOR_FMT_NV12 (dim_height dim);
          b = b\<lparr>frame_len := venus_buffer_size v COLOR_FMT_NV12 stride scanline, num_planes := 2\<rparr>;
          b = put_plane 0 (stride * scanline) 0 (0, 0)
               stride scanline (dim_width dim) (dim_height dim) b;
          stride = venus_uv_stride v COLOR_FMT_NV12 (dim_width dim);
          scanline = venus_uv_scanlines v COLOR_FMT_NV12 (dim_height dim);
          b = put_plane 1 (frame_len b - mp_len (mp b ! 0)) 0 (0, 0)
               stride scanline (dim_width dim) (halve (dim_height dim)) b
      in b)"

definition analysis_nv21_venus :: "venus \<Rightarrow> cam_dimension \<Rightarrow> planes \<Rightarrow> planes" where
  "analysis_nv21_venus v dim b =
     (let stride = venus_y_stride v COLOR_FMT_NV21 (dim_width dim);
          scanline = venus_y_scanlines v COLOR_FMT_NV21 (dim_height dim);
          b = b\<lparr>frame_len := venus_buffer_size v COLOR_FMT_NV21 stride scanline, num_planes := 2\<rparr>;
          b = put_plane 0 (stride * scanline) 0 (0, 0)
               stride scanline (dim_width dim) (dim_height dim) b;
          stride = venus_uv_stride v COLOR_FMT_NV21 (dim_width dim);
          scanline = venus_uv_scanlines v COLOR_FMT_NV21 (dim_height dim);
          b = put_plane 1 (frame_len b - mp_len (mp b ! 0)) 0 (0, 0)
               stride scanline (dim_width dim) (halve (dim_height dim)) b
      in b)"

definition mm_stream_calc_offset_analysis ::
  "venus \<Rightarrow> cam_format \<Rightarrow> cam_dimension \<Rightarrow> cam_padding \<Rightarrow> planes \<Rightarrow> int32 \<times> planes" where
  "mm_stream_calc_offset_analysis v fmt dim pad b =
     (case fmt of
        CAM_FORMAT_YUV_420_NV12 \<Rightarrow> (0, analysis_nv12 dim pad b)
      | CAM_FORMAT_YUV_420_NV21 \<Rightarrow> (0, analysis_nv12 dim pad b)
      | CAM_FORMAT_YUV_420_YV12 \<Rightarrow> (0, analysis_yv12 dim pad b)
      | CAM_FORMAT_YUV_422_NV16 \<Rightarrow> (0, analysis_nv16 dim pad b)
      | CAM_FORMAT_YUV_422_NV61 \<Rightarrow> (0, analysis_nv16 dim pad b)
      | CAM_FORMAT_Y_ONLY \<Rightarrow> (0, analysis_y_only dim pad b)
      | CAM_FORMAT_Y_ONLY_10_BPP \<Rightarrow> (0, analysis_y_only dim pad b)
      | CAM_FORMAT_Y_ONLY_12_BPP \<Rightarrow> (0, analysis_y_only dim pad b)
      | CAM_FORMAT_Y_ONLY_14_BPP \<Rightarrow> (0, analysis_y_only dim pad b)
      | CAM_FORMAT_YUV_420_NV12_VENUS \<Rightarrow> (0, analysis_nv12_venus v dim b)
      | CAM_FORMAT_YUV_420_NV21_VENUS \<Rightarrow> (0, analysis_nv21_venus v dim b)
      | CAM_FORMAT_YUV_420_NV12_UBWC \<Rightarrow> (-1, b)
      | _ \<Rightarrow> (-1, b))"

section \<open>All streams\<close>

text \<open>
  The layout of a reprocessing stream is the one of its input.  An offline stream without an
  input type takes the layout over from its source, but only while frame\_len is 0.
\<close>

definition postproc_by_type ::
  "venus \<Rightarrow> stream_type \<Rightarrow> stream_info \<Rightarrow> cam_padding \<Rightarrow> planes \<Rightarrow> int32 \<times> planes" where
  "postproc_by_type v ty si pad b =
     (case ty of
        CAM_STREAM_TYPE_PREVIEW \<Rightarrow> mm_stream_calc_offset_preview v si (si_dim si) pad b
      | CAM_STREAM_TYPE_POSTVIEW \<Rightarrow> mm_stream_calc_offset_post_view v si (si_dim si) pad b
      | CAM_STREAM_TYPE_SNAPSHOT \<Rightarrow> mm_stream_calc_offset_snapshot v (si_fmt si) (si_dim si) pad b
      | CAM_STREAM_TYPE_CALLBACK \<Rightarrow> mm_stream_calc_offset_snapshot v (si_fmt si) (si_dim si) pad b
      | CAM_STREAM_TYPE_VIDEO \<Rightarrow> mm_stream_calc_offset_video v (si_fmt si) (si_dim si) b
      | CAM_STREAM_TYPE_RAW \<Rightarrow> mm_stream_calc_offset_raw (si_fmt si) (si_dim si) pad b
      | CAM_STREAM_TYPE_ANALYSIS \<Rightarrow> mm_stream_calc_offset_analysis v (si_fmt si) (si_dim si) pad b
      | CAM_STREAM_TYPE_METADATA \<Rightarrow> mm_stream_calc_offset_metadata (si_dim si) pad b
      | CAM_STREAM_TYPE_OFFLINE_PROC \<Rightarrow> mm_stream_calc_offset_snapshot v (si_fmt si) (si_dim si) pad b
      | _ \<Rightarrow> (-1, b))"

definition mm_stream_calc_offset_postproc ::
  "venus \<Rightarrow> stream_info \<Rightarrow> cam_padding \<Rightarrow> planes \<Rightarrow> int32 \<times> planes" where
  "mm_stream_calc_offset_postproc v si pad b =
     (case si_reproc si of
        CAM_OFFLINE_REPROCESS_TYPE input_type input_buf_planes \<Rightarrow>
          if input_type = CAM_STREAM_TYPE_DEFAULT \<and> frame_len b = 0 then (0, input_buf_planes)
          else postproc_by_type v input_type si pad b
      | CAM_ONLINE_REPROCESS_TYPE input_stream_type \<Rightarrow> postproc_by_type v input_stream_type si pad b)"

text \<open>The dimensions change places when the stream is to be rotated by a quarter turn.\<close>

definition layout_dim :: "stream_info \<Rightarrow> cam_dimension" where
  "layout_dim si =
     (if si_feature_mask si AND CAM_QCOM_FEATURE_ROTATION \<noteq> 0 \<and> si_type si \<noteq> CAM_STREAM_TYPE_VIDEO
         \<and> (si_rotation si = ROTATE_90 \<or> si_rotation si = ROTATE_270)
      then \<lparr>dim_width = dim_height (si_dim si), dim_height = dim_width (si_dim si)\<rparr>
      else si_dim si)"

definition mm_stream_calc_offset :: "venus \<Rightarrow> stream_layout \<Rightarrow> int32 \<times> stream_layout" where
  "mm_stream_calc_offset v my =
     (let si = lay_info my; dim = layout_dim si; pad = lay_padding my; b = si_buf_planes si;
          (rc, b) = (case si_type si of
        CAM_STREAM_TYPE_PREVIEW \<Rightarrow> mm_stream_calc_offset_preview v si dim pad b
      | CAM_STREAM_TYPE_POSTVIEW \<Rightarrow> mm_stream_calc_offset_post_view v si dim pad b
      | CAM_STREAM_TYPE_SNAPSHOT \<Rightarrow> mm_stream_calc_offset_snapshot v (si_fmt si) dim pad b
      | CAM_STREAM_TYPE_CALLBACK \<Rightarrow> mm_stream_calc_offset_snapshot v (si_fmt si) dim pad b
      | CAM_STREAM_TYPE_VIDEO \<Rightarrow> mm_stream_calc_offset_video v (si_fmt si) dim b
      | CAM_STREAM_TYPE_RAW \<Rightarrow> mm_stream_calc_offset_raw (si_fmt si) dim pad b
      | CAM_STREAM_TYPE_ANALYSIS \<Rightarrow> mm_stream_calc_offset_analysis v (si_fmt si) dim pad b
      | CAM_STREAM_TYPE_METADATA \<Rightarrow> mm_stream_calc_offset_metadata dim pad b
      | CAM_STREAM_TYPE_OFFLINE_PROC \<Rightarrow> mm_stream_calc_offset_postproc v si pad b
      | _ \<Rightarrow> (-1, b))
      in (rc, my\<lparr>lay_info := si\<lparr>si_buf_planes := b\<rparr>, lay_frame_offset := b\<rparr>))"

section \<open>Least common multiple\<close>

text \<open>
  mm\_stream\_calc\_lcm adds the larger number to itself, in unsigned 32-bit arithmetic, until the
  sum is divisible by both.  The loop is a partial function: None would be a call that does not
  return.
\<close>

partial_function (option) lcm_loop :: "int32 \<Rightarrow> int32 \<Rightarrow> int32 \<Rightarrow> int32 \<Rightarrow> int32 option" where
  "lcm_loop num1 num2 temp m =
     (if m mod num1 = 0 \<and> m mod num2 = 0 then Some m
      else lcm_loop num1 num2 temp (m + temp))"

declare lcm_loop.simps [code]

definition mm_stream_calc_lcm :: "int32 \<Rightarrow> int32 \<Rightarrow> int32 option" where
  "mm_stream_calc_lcm num1 num2 =
     (if num1 <s 1 \<and> num2 <s 1 then Some 0
      else if num1 <s 1 then Some num2
      else if num2 <s 1 then Some num1
      else let m = (if num2 <s num1 then num1 else num2)
           in lcm_loop num1 num2 m m)"

end
