(* ===== verification/St_Layout_Bounds.thy ===== *)
theory St_Layout_Bounds
  imports St_Layout
begin

text \<open>
  The arithmetic of the layouts: what PAD\_TO\_SIZE and the halving of a dimension are as
  functions on numbers, when a product does not wrap, and when the planes of a layout lie in its
  buffer.  One lemma per number of planes carries the cases of the format switches.
\<close>

section \<open>Rounding up and halving\<close>

lemma and_not_mask_eq: "x AND NOT (mask k) = push_bit k (drop_bit k x)" for x :: int32
  by (rule bit_word_eqI) (auto simp: bit_simps)

lemma unat_and_not_mask: "unat (x AND NOT (mask k)) = unat x div 2 ^ k * 2 ^ k" for x :: int32
proof -
  have x: "unat x < 2 ^ 32"
    using unsigned_less [of x] by simp
  then have "unat x div 2 ^ k * 2 ^ k < 2 ^ 32"
    by (rule le_less_trans [OF div_times_less_eq_dividend])
  with x show ?thesis
    by (simp only: and_not_mask_eq unsigned_push_bit_eq unsigned_drop_bit_eq)
      (simp add: drop_bit_eq_div push_bit_eq_mult take_bit_eq_mod)
qed

lemma unat_pad_to_size:
  assumes "k < 32" and "unat x + 2 ^ k \<le> 2 ^ 32"
  shows "unat (pad_to_size x (2 ^ k)) = (unat x + 2 ^ k - 1) div 2 ^ k * 2 ^ k"
proof -
  have "uint (mask k :: int32) = mask k"
    using assms(1) by (simp only: uint_mask_eq) simp
  then have "unat (mask k :: int32) = mask k"
    by (metis nat_mask_eq unat_eq_nat_uint)
  then have "unat (mask k :: int32) = 2 ^ k - 1"
    by (simp only: mask_eq_exp_minus_1)
  moreover have p: "1 \<le> (2 :: nat) ^ k"
    by simp
  then have "unat x + (2 ^ k - 1) < 2 ^ 32"
    using assms(2) by linarith
  ultimately have "unat (x + mask k) = unat x + (2 ^ k - 1)"
    using unat_add_lem [of x "mask k"] by simp
  with p have "unat (x + mask k) = unat x + 2 ^ k - 1"
    by linarith
  moreover have "2 ^ k - 1 = (mask k :: int32)"
    by (simp add: mask_eq_exp_minus_1)
  ultimately show ?thesis
    by (simp add: pad_to_size_def unat_and_not_mask)
qed

lemma unat_int_quot:
  assumes "unat x < 2 ^ 31" and "unat n < 2 ^ 31"
  shows "unat (int_quot x n) = unat x div unat n"
proof -
  have s: "sint y = int (unat y)" if "unat y < 2 ^ 31" for y :: int32
  proof -
    have "int (unat y) < 2 ^ 31"
      using that by (metis of_nat_less_iff of_nat_numeral of_nat_power)
    then have "uint y < 2 ^ 31"
      by simp
    then have "signed_take_bit 31 (uint y) = uint y"
      using order_trans [OF _ uint_ge_0 [of y], of "- (2 ^ 31)"]
      by (intro signed_take_bit_int_eq_self) simp_all
    then show ?thesis
      by (subst sint_uint) simp
  qed
  have "int (unat x) sdiv int (unat n) = int (unat x div unat n)"
    by (simp add: signed_divide_int_def sgn_if zdiv_int del: of_nat_unat)
  then show ?thesis
    using assms le_less_trans [OF div_le_dividend, of "unat x" "2 ^ 32" "unat n"]
    by (simp add: int_quot_def s unat_of_nat del: of_nat_unat)
qed

text \<open>
  The values of cam\_pad\_format\_t.  Rounding up to one of them gives the least multiple
  that is not smaller.
\<close>

definition cam_pad_formats :: "int32 list" where
  "cam_pad_formats = [1, 2, 4, 8, 16, 32, 64, 128, 256, 512, 1024, 2048, 4096, 8192]"

lemma cam_pad_formats_cases:
  assumes "p \<in> set cam_pad_formats"
  obtains k where "k \<le> 13" "p = 2 ^ k" "unat p = 2 ^ k"
proof -
  have "set cam_pad_formats = (\<lambda>k. 2 ^ k) ` set [0..<14]"
    by code_simp
  note assms [unfolded this]
  then obtain k where k: "k \<in> set [0..<14]" "p = 2 ^ k"
    by (elim imageE)
  have "\<forall>k \<in> set [0..<14]. unat (2 ^ k :: int32) = 2 ^ k"
    by code_simp
  with k that [of k] show ?thesis
    by simp
qed

lemma unat_pad_format:
  assumes "p \<in> set cam_pad_formats" and "unat x \<le> 2 ^ 32 - 8192"
  shows "unat (pad_to_size x p) = (unat x + unat p - 1) div unat p * unat p"
proof -
  from assms(1) obtain k where k: "k \<le> 13" "p = 2 ^ k" "unat p = 2 ^ k"
    by (rule cam_pad_formats_cases)
  then have "(2 :: nat) ^ k \<le> 2 ^ 13"
    by (intro power_increasing) simp_all
  with k assms(2) show ?thesis
    using unat_pad_to_size [of k x] by simp
qed

text \<open>The three facts about rounding up that the layouts use.\<close>

lemma pad_format_bounds:
  assumes p: "p \<in> set cam_pad_formats" and x: "unat x \<le> 2 ^ 32 - 8192"
  shows "unat x \<le> unat (pad_to_size x p)"
    and "unat (pad_to_size x p) \<le> unat x + 8191"
    and "unat p dvd unat (pad_to_size x p)"
proof -
  from p obtain k where k: "k \<le> 13" "unat p = 2 ^ k"
    by (rule cam_pad_formats_cases)
  then have "(2 :: nat) ^ k \<le> 2 ^ 13"
    by (intro power_increasing) simp_all
  with k have q: "1 \<le> unat p" "unat p \<le> 8192"
    by simp_all
  let ?s = "unat x + unat p - 1"
  have "?s div unat p * unat p + ?s mod unat p = ?s"
    by simp
  moreover have "?s mod unat p < unat p"
    using q by simp
  ultimately have *: "unat x \<le> ?s div unat p * unat p" "?s div unat p * unat p \<le> unat x + 8191"
    using q by linarith+
  show "unat x \<le> unat (pad_to_size x p)" "unat (pad_to_size x p) \<le> unat x + 8191"
    "unat p dvd unat (pad_to_size x p)"
    using * by (simp_all add: unat_pad_format [OF p x])
qed

section \<open>Products\<close>

text \<open>
  Strides and scanlines stay below 40960, so that one plane stays below 2 GB; the chroma planes
  of the three-plane formats stay below a quarter of that.
\<close>

lemma plane_product:
  fixes a b :: int32
  assumes "unat a \<le> 40960" and "unat b \<le> 40960"
  shows "unat (a * b) = unat a * unat b" and "unat a * unat b \<le> 1677721600"
proof -
  have *: "unat a * unat b \<le> 40960 * 40960"
    using assms by (rule mult_le_mono)
  then show "unat a * unat b \<le> 1677721600"
    by simp
  from * show "unat (a * b) = unat a * unat b"
    using unat_mult_lem [of a b] by simp
qed

lemma chroma_product:
  fixes a b :: int32
  assumes "unat a \<le> 20544" and "unat b \<le> 20544"
  shows "unat a * unat b \<le> 422055936"
  using mult_le_mono [OF assms] by simp

section \<open>Layouts that fit\<close>

text \<open>
  A plane fits when its image, at its offset, lies inside the padded rows and columns, these
  inside the length of the plane, and the offset in bytes is the one of the first pixel.
\<close>

definition plane_fits :: "cam_mp \<Rightarrow> bool" where
  "plane_fits p \<longleftrightarrow>
     unat (mp_offset_x p) + unat (mp_width p) \<le> unat (mp_stride p) \<and>
     unat (mp_offset_y p) + unat (mp_height p) \<le> unat (mp_scanline p) \<and>
     unat (mp_stride p) * unat (mp_scanline p) \<le> unat (mp_len p) \<and>
     unat (mp_offset p) = unat (mp_offset_x p) + unat (mp_stride p) * unat (mp_offset_y p)"

text \<open>A layout fits when its planes do and the buffer holds them one after the other.\<close>

definition layout_fits :: "planes \<Rightarrow> bool" where
  "layout_fits b \<longleftrightarrow>
     (let ps = take (unat (num_planes b)) (mp b)
      in length ps = unat (num_planes b) \<and> list_all plane_fits ps \<and>
         sum_list (map (\<lambda>p. unat (mp_len p)) ps) \<le> unat (frame_len b))"

lemma put_plane_simps [simp]:
  "length (mp (put_plane i len off xy st sc w h b)) = length (mp b)"
  "mp (put_plane i len off xy st sc w h b) = [] \<longleftrightarrow> mp b = []"
  "num_planes (put_plane i len off xy st sc w h b) = num_planes b"
  "frame_len (put_plane i len off xy st sc w h b) = frame_len b"
  "i \<noteq> j \<Longrightarrow> mp (put_plane i len off xy st sc w h b) ! j = mp b ! j"
  "i < length (mp b) \<Longrightarrow> mp (put_plane i len off xy st sc w h b) ! i =
     (mp b ! i)\<lparr>mp_len := len, mp_offset := off, mp_offset_x := fst xy, mp_offset_y := snd xy,
       mp_stride := st, mp_scanline := sc, mp_width := w, mp_height := h\<rparr>"
  by (simp_all add: put_plane_def)

lemma frame_len_simps [simp]:
  "mp (frame_len_1 b) = mp b" "num_planes (frame_len_1 b) = num_planes b"
  "mp (frame_len_2 b) = mp b" "num_planes (frame_len_2 b) = num_planes b"
  "mp (frame_len_3 b) = mp b" "num_planes (frame_len_3 b) = num_planes b"
  "frame_len (frame_len_1 b) = pad_to_size (mp_len (mp b ! 0)) 4096"
  "frame_len (frame_len_2 b) = pad_to_size (mp_len (mp b ! 0) + mp_len (mp b ! 1)) 4096"
  "frame_len (frame_len_3 b) =
     pad_to_size (mp_len (mp b ! 0) + mp_len (mp b ! 1) + mp_len (mp b ! 2)) 4096"
  by (simp_all add: frame_len_1_def frame_len_2_def frame_len_3_def)

lemma take_nths:
  "xs \<noteq> [] \<Longrightarrow> take (Suc 0) xs = [xs ! 0]"
  "2 \<le> length xs \<Longrightarrow> take 2 xs = [xs ! 0, xs ! 1]"
  "3 \<le> length xs \<Longrightarrow> take 3 xs = [xs ! 0, xs ! 1, xs ! 2]"
  by (auto simp: numeral_eq_Suc Suc_le_length_iff neq_Nil_conv)

text \<open>
  What the code puts into a plane: the length is the product of stride and scanline, rounded up
  by less than 8192.
\<close>

definition plane_args ::
  "int32 \<Rightarrow> int32 \<Rightarrow> int32 \<times> int32 \<Rightarrow> int32 \<Rightarrow> int32 \<Rightarrow> int32 \<Rightarrow> int32 \<Rightarrow> bool" where
  "plane_args len off xy st sc w h \<longleftrightarrow>
     unat (fst xy) + unat w \<le> unat st \<and> unat (snd xy) + unat h \<le> unat sc \<and>
     unat st * unat sc \<le> unat len \<and> unat len \<le> unat st * unat sc + 8191 \<and>
     unat off = unat (fst xy) + unat st * unat (snd xy)"

lemma plane_argsI:
  assumes "unat st \<le> 40960" "unat sc \<le> 40960" "unat w \<le> unat st" "unat h \<le> unat sc"
  shows "plane_args (st * sc) 0 (0, 0) st sc w h"
  using assms plane_product [OF assms(1,2)] by (simp add: plane_args_def)

lemma plane_args_padI:
  assumes "unat st \<le> 40960" "unat sc \<le> 40960" "unat w \<le> unat st" "unat h \<le> unat sc"
    and "p \<in> set cam_pad_formats"
  shows "plane_args (pad_to_size (st * sc) p) 0 (0, 0) st sc w h"
  using assms(3,4) plane_product [OF assms(1,2)] pad_format_bounds [OF assms(5), of "st * sc"]
  by (simp add: plane_args_def)

lemma layout_two:
  assumes "plane_args l0 o0 xy0 st0 sc0 w0 h0" and "plane_args l1 o1 xy1 st1 sc1 w1 h1"
    and "unat st0 \<le> 40960" "unat sc0 \<le> 40960" "unat st1 \<le> 40960" "unat sc1 \<le> 40960"
    and "3 \<le> length (mp b)"
  shows "layout_fits (frame_len_2 (put_plane 1 l1 o1 xy1 st1 sc1 w1 h1
           (put_plane 0 l0 o0 xy0 st0 sc0 w0 h0 (b\<lparr>num_planes := 2\<rparr>))))"
    (is "layout_fits ?b")
proof -
  have l: "unat l0 \<le> 1677729791" "unat l1 \<le> 1677729791"
    using assms(1-6) plane_product(2) [OF assms(3,4)] plane_product(2) [OF assms(5,6)]
    by (auto simp: plane_args_def)
  then have s: "unat (l0 + l1) = unat l0 + unat l1"
    using unat_add_lem [of l0 l1] by simp
  have "unat (l0 + l1) \<le> unat (pad_to_size (l0 + l1) 4096)"
    using l s by (intro pad_format_bounds) (simp_all add: cam_pad_formats_def)
  moreover have "mp b \<noteq> []"
    using assms(7) by auto
  ultimately show ?thesis
    using assms s by (simp add: layout_fits_def take_nths plane_fits_def plane_args_def)
qed

lemma layout_three:
  assumes "plane_args l0 o0 xy0 st0 sc0 w0 h0" and "plane_args l1 o1 xy1 st1 sc1 w1 h1"
    and "unat st0 \<le> 40960" "unat sc0 \<le> 40960" "unat st1 \<le> 20544" "unat sc1 \<le> 20544"
    and "3 \<le> length (mp b)"
  shows "layout_fits (frame_len_3 (put_plane 2 l1 o1 xy1 st1 sc1 w1 h1
           (put_plane 1 l1 o1 xy1 st1 sc1 w1 h1
             (put_plane 0 l0 o0 xy0 st0 sc0 w0 h0 (b\<lparr>num_planes := 3\<rparr>)))))"
proof -
  have l: "unat l0 \<le> 1677729791" "unat l1 \<le> 422064127"
    using assms(1,2) plane_product(2) [OF assms(3,4)] chroma_product [OF assms(5,6)]
    by (auto simp: plane_args_def)
  then have "unat (l0 + l1) = unat l0 + unat l1"
    using unat_add_lem [of l0 l1] by simp
  with l have s: "unat (l0 + l1 + l1) = unat l0 + unat l1 + unat l1"
    using unat_add_lem [of "l0 + l1" l1] by simp
  have "unat (l0 + l1 + l1) \<le> unat (pad_to_size (l0 + l1 + l1) 4096)"
    using l s by (intro pad_format_bounds) (simp_all add: cam_pad_formats_def)
  moreover have "mp b \<noteq> []"
    using assms(7) by auto
  ultimately show ?thesis
    using assms s by (simp add: layout_fits_def take_nths plane_fits_def plane_args_def)
qed

lemma layout_one:
  assumes "plane_args l0 o0 xy0 st0 sc0 w0 h0" and "unat st0 \<le> 40960" "unat sc0 \<le> 40960"
    and "3 \<le> length (mp b)"
  shows "layout_fits (frame_len_1 (put_plane 0 l0 o0 xy0 st0 sc0 w0 h0 (b\<lparr>num_planes := 1\<rparr>)))"
proof -
  have "unat l0 \<le> 1677729791"
    using assms(1) plane_product(2) [OF assms(2,3)] by (auto simp: plane_args_def)
  then have "unat l0 \<le> unat (pad_to_size l0 4096)"
    by (intro pad_format_bounds) (simp_all add: cam_pad_formats_def)
  moreover have "mp b \<noteq> []"
    using assms(4) by auto
  ultimately show ?thesis
    using assms by (simp add: layout_fits_def take_nths plane_fits_def plane_args_def)
qed

end
