(* ===== verification/St_Layout_Fits.thy ===== *)
theory St_Layout_Fits
  imports St_Layout_Bounds
begin

text \<open>
  Every layout that mm\_stream\_calc\_offset computes for a format of the repository's own fits in
  its buffer: one lemma per case of the format switches, then one per switch.
\<close>

section \<open>Requests\<close>

text \<open>
  An even width, dimensions up to 8192, offsets up to 4096 and paddings that are values of cam\_pad\_format\_t; the
  sensors of the device are far below the first bound.
\<close>

definition layout_request :: "cam_dimension \<Rightarrow> cam_padding \<Rightarrow> bool" where
  "layout_request dim pad \<longleftrightarrow>
     even (unat (dim_width dim)) \<and> dim_width dim \<le> 8192 \<and> dim_height dim \<le> 8192 \<and>
     width_padding pad \<in> set cam_pad_formats \<and> height_padding pad \<in> set cam_pad_formats \<and>
     plane_padding pad \<in> set cam_pad_formats \<and>
     min_stride pad \<le> 8192 \<and> min_scanline pad \<le> 8192 \<and>
     pad_offset_x pad \<le> 4096 \<and> pad_offset_y pad \<le> 4096"

lemma layout_requestD:
  assumes "layout_request dim pad"
  shows "even (unat (dim_width dim))" "unat (dim_width dim) \<le> 8192" "unat (dim_height dim) \<le> 8192"
    and "width_padding pad \<in> set cam_pad_formats" "height_padding pad \<in> set cam_pad_formats"
      "plane_padding pad \<in> set cam_pad_formats"
    and "unat (min_stride pad) \<le> 8192" "unat (min_scanline pad) \<le> 8192"
      "unat (pad_offset_x pad) \<le> 4096" "unat (pad_offset_y pad) \<le> 4096"
  using assms by (simp_all add: layout_request_def word_le_nat_alt)

lemma pad_ge:
  "p \<in> set cam_pad_formats \<Longrightarrow> unat x \<le> 2 ^ 32 - 8192 \<Longrightarrow> n \<le> unat x \<Longrightarrow> n \<le> unat (pad_to_size x p)"
  using pad_format_bounds(1) le_trans by blast

lemma pad_le:
  "p \<in> set cam_pad_formats \<Longrightarrow> unat x \<le> 2 ^ 32 - 8192 \<Longrightarrow> unat x + 8191 \<le> n \<Longrightarrow>
     unat (pad_to_size x p) \<le> n"
  using pad_format_bounds(2) le_trans by blast

lemma unat_halve: "unat x \<le> 65536 \<Longrightarrow> unat (halve x) = unat x div 2"
  using unat_int_quot [of x 2] by simp

lemma literal_pads [simp]:
  "2 \<in> set cam_pad_formats" "16 \<in> set cam_pad_formats" "32 \<in> set cam_pad_formats"
  "2048 \<in> set cam_pad_formats" "4096 \<in> set cam_pad_formats"
  by (simp_all add: cam_pad_formats_def)

lemmas layout_intros =
  layout_two [unfolded One_nat_def] layout_three [unfolded One_nat_def] layout_one
  plane_argsI plane_args_padI pad_ge pad_le

section \<open>Preview and postview\<close>

lemma preview_nv12_fits:
  assumes "layout_request dim pad" and "3 \<le> length (mp b)"
  shows "layout_fits (preview_nv12 si dim pad b)"
  unfolding preview_nv12_def Let_def using assms(2) layout_requestD [OF assms(1)]
  by (auto intro!: layout_intros simp: unat_halve)

lemma double_pad:
  assumes "p \<in> set cam_pad_formats" and "even (unat w)" and "unat w \<le> 8192"
  shows "unat w \<le> unat (pad_to_size (halve w) p * 2)"
    and "unat (pad_to_size (halve w) p * 2) \<le> 40960"
proof -
  have h: "unat (halve w) = unat w div 2"
    using assms(3) by (simp add: unat_halve)
  have p: "unat w div 2 \<le> unat (pad_to_size (halve w) p)"
    "unat (pad_to_size (halve w) p) \<le> unat w div 2 + 8191"
    using pad_format_bounds [OF assms(1), of "halve w"] assms(3) h by simp_all
  moreover from p(2) assms(3) have "unat (pad_to_size (halve w) p) \<le> 12287"
    by linarith
  ultimately have "unat (pad_to_size (halve w) p * 2) = unat (pad_to_size (halve w) p) * 2"
    using unat_mult_lem [of "pad_to_size (halve w) p" 2] by simp
  with p assms show "unat w \<le> unat (pad_to_size (halve w) p * 2)"
    and "unat (pad_to_size (halve w) p * 2) \<le> 40960"
    by (auto elim!: evenE)
qed

lemma halve_pad:
  assumes "p \<in> set cam_pad_formats" and "unat w \<le> n" and "n \<le> 32768"
  shows "unat w div 2 \<le> unat (halve (pad_to_size w p))"
    and "unat (halve (pad_to_size w p)) \<le> (n + 8191) div 2"
proof -
  have "unat w \<le> unat (pad_to_size w p)" "unat (pad_to_size w p) \<le> unat w + 8191"
    using pad_format_bounds [OF assms(1), of w] assms(2,3) by simp_all
  with assms(2,3) show "unat w div 2 \<le> unat (halve (pad_to_size w p))"
    and "unat (halve (pad_to_size w p)) \<le> (n + 8191) div 2"
    by (simp_all add: unat_halve div_le_mono)
qed

lemma halve_pad_le:
  "p \<in> set cam_pad_formats \<Longrightarrow> unat w \<le> 8192 \<Longrightarrow> 8191 \<le> n \<Longrightarrow> unat (halve (pad_to_size w p)) \<le> n"
  using halve_pad(2) [of p w 8192] by simp

lemma halve_pad_le_add:
  "p \<in> set cam_pad_formats \<Longrightarrow> unat w \<le> 8192 \<Longrightarrow> 16382 \<le> n \<Longrightarrow>
     unat (halve (pad_to_size w p)) + 8191 \<le> n"
  using halve_pad(2) [of p w 8192] by simp

lemma halve_pad_ge:
  "p \<in> set cam_pad_formats \<Longrightarrow> unat w \<le> 8192 \<Longrightarrow> unat w div 2 \<le> unat (halve (pad_to_size w p))"
  using halve_pad(1) [of p w 8192] by simp

lemmas chroma_intros = double_pad halve_pad_le halve_pad_le_add halve_pad_ge

lemma preview_nv21_adreno_fits:
  assumes "layout_request dim pad" and "3 \<le> length (mp b)"
  shows "layout_fits (preview_nv21_adreno si dim pad b)"
  unfolding preview_nv21_adreno_def Let_def using assms(2) layout_requestD [OF assms(1)]
  by (auto intro!: layout_intros chroma_intros simp: unat_halve)

lemma preview_yv12_fits:
  assumes "layout_request dim pad" and "3 \<le> length (mp b)"
  shows "layout_fits (preview_yv12 si dim pad b)"
  unfolding preview_yv12_def Let_def using assms(2) layout_requestD [OF assms(1)]
  by (auto intro!: layout_intros chroma_intros simp: unat_halve)

lemma preview_nv16_fits:
  assumes "layout_request dim pad" and "3 \<le> length (mp b)"
  shows "layout_fits (preview_nv16 si dim pad b)"
  unfolding preview_nv16_def Let_def using assms(2) layout_requestD [OF assms(1)]
  by (auto intro!: layout_intros simp: unat_halve)

lemma post_view_nv12_fits:
  assumes "layout_request dim pad" and "3 \<le> length (mp b)"
  shows "layout_fits (post_view_nv12 si dim pad b)"
  unfolding post_view_nv12_def Let_def using assms(2) layout_requestD [OF assms(1)]
  by (auto intro!: layout_intros simp: unat_halve)

lemma post_view_nv21_adreno_fits:
  assumes "layout_request dim pad" and "3 \<le> length (mp b)"
  shows "layout_fits (post_view_nv21_adreno si dim pad b)"
  unfolding post_view_nv21_adreno_def Let_def using assms(2) layout_requestD [OF assms(1)]
  by (auto intro!: layout_intros chroma_intros simp: unat_halve)

lemma post_view_nv16_fits:
  assumes "layout_request dim pad" and "3 \<le> length (mp b)"
  shows "layout_fits (post_view_nv16 si dim pad b)"
  unfolding post_view_nv16_def Let_def using assms(2) layout_requestD [OF assms(1)]
  by (auto intro!: layout_intros simp: unat_halve)

section \<open>Video\<close>

lemma video_nv12_fits:
  assumes "layout_request dim pad" and "3 \<le> length (mp b)"
  shows "layout_fits (video_nv12 dim b)"
  unfolding video_nv12_def Let_def using assms(2) layout_requestD [OF assms(1)]
  by (auto intro!: layout_intros simp: unat_halve)

section \<open>Snapshot and analysis\<close>

text \<open>
  The formats of these two streams differ only in the geometry they start from: an offset that is
  a multiple of the plane padding and room for twice the offset around the image.
\<close>

definition geometry_ok :: "cam_dimension \<Rightarrow> cam_padding \<Rightarrow> (int32 \<times> int32) \<times> int32 \<times> int32 \<Rightarrow> bool" where
  "geometry_ok dim pad g \<longleftrightarrow>
     (let (xy, st, sc) = g
      in unat (dim_width dim) + 2 * unat (fst xy) \<le> unat st \<and>
         unat (dim_height dim) + 2 * unat (snd xy) \<le> unat sc \<and> unat st \<le> 40960 \<and> unat sc \<le> 40960 \<and>
         unat (plane_padding pad) dvd unat (fst xy) \<and> unat (plane_padding pad) dvd unat (snd xy))"

lemma padded_side:
  assumes "p \<in> set cam_pad_formats" and "q \<in> set cam_pad_formats"
    and "unat d \<le> 8192" and "unat x \<le> 4096"
  defines "off \<equiv> pad_to_size x q"
  shows "unat d + 2 * unat off \<le> unat (pad_to_size (d + 2 * off) p)"
    and "unat (pad_to_size (d + 2 * off) p) \<le> 40960" and "unat q dvd unat off"
proof -
  have o: "unat off \<le> 12287"
    using pad_format_bounds(2) [OF assms(2), of x] assms(4) by (simp add: off_def)
  then have "unat (2 * off) = 2 * unat off"
    using unat_mult_lem [of 2 off] by simp
  with o assms(3) have d: "unat (d + 2 * off) = unat d + 2 * unat off"
    using unat_add_lem [of d "2 * off"] by simp
  show "unat d + 2 * unat off \<le> unat (pad_to_size (d + 2 * off) p)"
    "unat (pad_to_size (d + 2 * off) p) \<le> 40960"
    using pad_format_bounds(1,2) [OF assms(1), of "d + 2 * off"] o d assms(3) by simp_all
  show "unat q dvd unat off"
    using pad_format_bounds(3) [OF assms(2), of x] assms(4) by (simp add: off_def)
qed

lemma snapshot_geometry_ok: "layout_request dim pad \<Longrightarrow> geometry_ok dim pad (snapshot_geometry dim pad)"
  using layout_requestD [of dim pad]
  by (simp add: geometry_ok_def snapshot_geometry_def mm_camera_util_chip_is_a_family_def Let_def
      padded_side)

lemma analysis_geometry_ok: "layout_request dim pad \<Longrightarrow> geometry_ok dim pad (analysis_geometry dim pad)"
  using layout_requestD [of dim pad]
  by (auto simp: geometry_ok_def analysis_geometry_def word_less_nat_alt not_less
      intro!: pad_ge pad_le)

lemma plane_args_offset:
  assumes pp: "pp \<in> set cam_pad_formats" and st: "unat st \<le> 40960" and sc: "unat sc \<le> 40960"
    and x: "unat (fst xy) + unat w \<le> unat st" and y: "unat (snd xy) + unat h \<le> unat sc"
    and dvd: "unat pp dvd unat (fst xy)" "unat pp dvd unat (snd xy)"
  shows "plane_args (pad_to_size (st * sc) pp) (pad_to_size (fst xy + st * snd xy) pp) xy st sc w h"
proof -
  let ?o = "fst xy + st * snd xy"
  have p: "unat (st * snd xy) = unat st * unat (snd xy)" "unat st * unat (snd xy) \<le> 1677721600"
    using plane_product [of st "snd xy"] st sc y by simp_all
  then have o: "unat ?o = unat (fst xy) + unat st * unat (snd xy)"
    using unat_add_lem [of "fst xy" "st * snd xy"] x st by simp
  then have "unat pp dvd unat ?o"
    using dvd by simp
  moreover have "unat pp \<noteq> 0"
    using pp by (auto elim: cam_pad_formats_cases)
  moreover have "unat ?o \<le> 2 ^ 32 - 8192"
    using o p(2) x st by simp
  moreover have "(p * k + p - 1) div p = k" if "0 < p" for p k :: nat
    using that by (intro div_nat_eqI) simp_all
  ultimately have "unat (pad_to_size ?o pp) = unat ?o"
    by (auto simp: unat_pad_format [OF pp] elim!: dvdE)
  then show ?thesis
    using o x y plane_product [OF st sc] pad_format_bounds [OF pp, of "st * sc"]
    by (simp add: plane_args_def)
qed

lemma halved_rows:
  assumes "geometry_ok dim pad (xy, st, sc)" and "unat (dim_height dim) \<le> 8192"
  shows "unat (snd xy) + unat (halve (dim_height dim)) \<le> unat (halve sc)"
    and "unat (halve sc) \<le> 20480"
proof -
  have g: "unat (dim_height dim) + 2 * unat (snd xy) \<le> unat sc" "unat sc \<le> 40960"
    using assms(1) by (simp_all add: geometry_ok_def)
  show "unat (snd xy) + unat (halve (dim_height dim)) \<le> unat (halve sc)"
    using g assms(2) div_le_mono [OF g(1), of 2] by (simp add: unat_halve)
  show "unat (halve sc) \<le> 20480"
    using g div_le_mono [OF g(2), of 2] by (simp add: unat_halve)
qed

lemma geometry_two_halves:
  assumes "geometry_ok dim pad (xy, st, sc)" and "layout_request dim pad" and "3 \<le> length (mp b)"
  shows "layout_fits (frame_len_2 (put_plane 1 (pad_to_size (st * halve sc) (plane_padding pad))
           (pad_to_size (fst xy + st * snd xy) (plane_padding pad)) xy st (halve sc)
           (dim_width dim) (halve (dim_height dim))
           (put_plane 0 (pad_to_size (st * sc) (plane_padding pad))
             (pad_to_size (fst xy + st * snd xy) (plane_padding pad)) xy st sc
             (dim_width dim) (dim_height dim) (b\<lparr>num_planes := 2\<rparr>))))"
  using assms(1,3) layout_requestD [OF assms(2)] halved_rows [OF assms(1)]
  by (intro layout_two plane_args_offset) (simp_all add: geometry_ok_def)

lemma geometry_two:
  assumes "geometry_ok dim pad (xy, st, sc)" and "layout_request dim pad" and "3 \<le> length (mp b)"
  shows "layout_fits (frame_len_2 (put_plane 1 (pad_to_size (st * sc) (plane_padding pad))
           (pad_to_size (fst xy + st * snd xy) (plane_padding pad)) xy st sc
           (dim_width dim) (dim_height dim)
           (put_plane 0 (pad_to_size (st * sc) (plane_padding pad))
             (pad_to_size (fst xy + st * snd xy) (plane_padding pad)) xy st sc
             (dim_width dim) (dim_height dim) (b\<lparr>num_planes := 2\<rparr>))))"
  using assms(1,3) layout_requestD [OF assms(2)]
  by (intro layout_two plane_args_offset) (simp_all add: geometry_ok_def)

lemma geometry_one:
  assumes "geometry_ok dim pad (xy, st, sc)" and "layout_request dim pad" and "3 \<le> length (mp b)"
  shows "layout_fits (frame_len_1 (put_plane 0 (pad_to_size (st * sc) (plane_padding pad))
           (pad_to_size (fst xy + st * snd xy) (plane_padding pad)) xy st sc
           (dim_width dim) (dim_height dim) (b\<lparr>num_planes := 1\<rparr>)))"
  using assms(1,3) layout_requestD [OF assms(2)]
  by (intro layout_one plane_args_offset) (simp_all add: geometry_ok_def)

lemma chroma_stride:
  assumes "unat st \<le> 40960" and "n \<le> unat st"
  shows "n div 2 \<le> unat (pad_to_size (halve st) 16)" and "unat (pad_to_size (halve st) 16) \<le> 20544"
proof -
  have "unat (pad_to_size (halve st) 16) = (unat st div 2 + 15) div 16 * 16"
    using assms(1) unat_pad_format [of 16 "halve st"] by (simp add: unat_halve)
  then show "n div 2 \<le> unat (pad_to_size (halve st) 16)"
    and "unat (pad_to_size (halve st) 16) \<le> 20544"
    using assms div_le_mono [OF assms(2), of 2] by (simp, linarith)+
qed

lemma geometry_three:
  assumes "geometry_ok dim pad (xy, st, sc)" and "layout_request dim pad" and "3 \<le> length (mp b)"
  defines "st1 \<equiv> pad_to_size (halve st) 16"
  shows "layout_fits (frame_len_3 (put_plane 2 (pad_to_size (st1 * halve sc) (plane_padding pad))
           (pad_to_size (fst xy + st1 * snd xy) (plane_padding pad)) xy st1 (halve sc)
           (halve (dim_width dim)) (halve (dim_height dim))
           (put_plane 1 (pad_to_size (st1 * halve sc) (plane_padding pad))
             (pad_to_size (fst xy + st1 * snd xy) (plane_padding pad)) xy st1 (halve sc)
             (halve (dim_width dim)) (halve (dim_height dim))
             (put_plane 0 (pad_to_size (st * sc) (plane_padding pad))
               (pad_to_size (fst xy + st * snd xy) (plane_padding pad)) xy st sc
               (dim_width dim) (dim_height dim) (b\<lparr>num_planes := 3\<rparr>)))))"
proof -
  have "unat (fst xy) + unat (dim_width dim) div 2 \<le> unat st1"
    using assms(1) chroma_stride(1) [of st "unat (dim_width dim) + 2 * unat (fst xy)"]
    by (simp add: geometry_ok_def st1_def)
  moreover have "unat st1 \<le> 20544"
    using assms(1) chroma_stride(2) [of st 0] by (simp add: geometry_ok_def st1_def)
  ultimately show ?thesis
    using assms(1,3) layout_requestD [OF assms(2)] halved_rows [OF assms(1)]
    by (intro layout_three plane_args_offset) (simp_all add: geometry_ok_def unat_halve)
qed

lemma snapshot_nv12_fits:
  assumes "layout_request dim pad" and "3 \<le> length (mp b)"
  shows "layout_fits (snapshot_nv12 dim pad b)"
  using geometry_two_halves [OF _ assms] snapshot_geometry_ok [OF assms(1)]
  by (auto simp: snapshot_nv12_def Let_def split: prod.split simp del: One_nat_def)

lemma snapshot_yv12_fits:
  assumes "layout_request dim pad" and "3 \<le> length (mp b)"
  shows "layout_fits (snapshot_yv12 dim pad b)"
  using geometry_three [OF _ assms] snapshot_geometry_ok [OF assms(1)]
  by (auto simp: snapshot_yv12_def Let_def split: prod.split simp del: One_nat_def)

lemma snapshot_nv16_fits:
  assumes "layout_request dim pad" and "3 \<le> length (mp b)"
  shows "layout_fits (snapshot_nv16 dim pad b)"
  using geometry_two [OF _ assms] snapshot_geometry_ok [OF assms(1)]
  by (auto simp: snapshot_nv16_def Let_def split: prod.split simp del: One_nat_def)

lemma analysis_nv12_fits:
  assumes "layout_request dim pad" and "3 \<le> length (mp b)"
  shows "layout_fits (analysis_nv12 dim pad b)"
  using geometry_two_halves [OF _ assms] analysis_geometry_ok [OF assms(1)]
  by (auto simp: analysis_nv12_def Let_def split: prod.split simp del: One_nat_def)

lemma analysis_yv12_fits:
  assumes "layout_request dim pad" and "3 \<le> length (mp b)"
  shows "layout_fits (analysis_yv12 dim pad b)"
  using geometry_three [OF _ assms] analysis_geometry_ok [OF assms(1)]
  by (auto simp: analysis_yv12_def Let_def split: prod.split simp del: One_nat_def)

lemma analysis_nv16_fits:
  assumes "layout_request dim pad" and "3 \<le> length (mp b)"
  shows "layout_fits (analysis_nv16 dim pad b)"
  using geometry_two [OF _ assms] analysis_geometry_ok [OF assms(1)]
  by (auto simp: analysis_nv16_def Let_def split: prod.split simp del: One_nat_def)

lemma analysis_y_only_fits:
  assumes "layout_request dim pad" and "3 \<le> length (mp b)"
  shows "layout_fits (analysis_y_only dim pad b)"
  using geometry_one [OF _ assms] analysis_geometry_ok [OF assms(1)]
  by (auto simp: analysis_y_only_def Let_def split: prod.split)

end
