(* ===== verification/St_Layout_Theorems.thy ===== *)
theory St_Layout_Theorems
  imports St_Layout_Fits
begin

text \<open>
  What the layouts guarantee: every format fits in its buffer, with the one exception of the
  postview YV12 format, whose chroma planes are too small; the packed raw lines hold their
  pixels; a refused request changes nothing; the least common multiple is found when it has one.
\<close>

section \<open>The format switches\<close>

text \<open>
  What msm\_media\_info.h documents for one image: the aligned luma and chroma rows and columns
  contain those of the image, and the buffer size covers both planes, also when it is asked for
  the aligned dimensions.
\<close>

definition venus_documented :: "venus \<Rightarrow> color_fmt \<Rightarrow> cam_dimension \<Rightarrow> bool" where
  "venus_documented v c dim \<longleftrightarrow>
     (let w = dim_width dim; h = dim_height dim;
          ys = venus_y_stride v c w; yl = venus_y_scanlines v c h;
          us = venus_uv_stride v c w; ul = venus_uv_scanlines v c h;
          n = unat ys * unat yl + unat us * unat ul
      in unat w \<le> unat ys \<and> unat h \<le> unat yl \<and> unat w \<le> unat us \<and> unat h div 2 \<le> unat ul \<and>
         unat ys \<le> 40960 \<and> unat yl \<le> 40960 \<and>
         n \<le> unat (venus_buffer_size v c w h) \<and> n \<le> unat (venus_buffer_size v c ys yl))"

definition venus_format :: "cam_format \<Rightarrow> color_fmt option" where
  "venus_format f =
     (case f of CAM_FORMAT_YUV_420_NV12_VENUS \<Rightarrow> Some COLOR_FMT_NV12
      | CAM_FORMAT_YUV_420_NV21_VENUS \<Rightarrow> Some COLOR_FMT_NV21
      | _ \<Rightarrow> None)"

definition venus_planes ::
  "int32 \<Rightarrow> int32 \<Rightarrow> int32 \<Rightarrow> int32 \<Rightarrow> int32 \<Rightarrow> int32 \<Rightarrow> int32 \<Rightarrow> planes \<Rightarrow> planes" where
  "venus_planes n ys yl us ul w h b =
     (let b = b\<lparr>frame_len := n, num_planes := 2\<rparr>;
          b = put_plane 0 (ys * yl) 0 (0, 0) ys yl w h b
      in put_plane 1 (frame_len b - mp_len (mp b ! 0)) 0 (0, 0) us ul w (halve h) b)"

lemma layout_venus:
  assumes "unat w \<le> unat ys" "unat h \<le> unat yl" "unat w \<le> unat us" "unat (halve h) \<le> unat ul"
    and "unat ys \<le> 40960" "unat yl \<le> 40960"
    and "unat ys * unat yl + unat us * unat ul \<le> unat n" and "3 \<le> length (mp b)"
  shows "layout_fits (venus_planes n ys yl us ul w h b)"
proof -
  have p: "unat (ys * yl) = unat ys * unat yl"
    using assms(5,6) by (rule plane_product)
  then have "ys * yl \<le> n"
    using assms(7) by (simp add: word_le_nat_alt)
  then have "unat (n - ys * yl) = unat n - unat ys * unat yl"
    using p by (simp add: unat_sub)
  moreover have "mp b \<noteq> []"
    using assms(8) by auto
  ultimately show ?thesis
    using assms p by (simp add: venus_planes_def Let_def layout_fits_def take_nths plane_fits_def)
qed

lemma venus_documented_fits:
  assumes "venus_documented v c dim" and "unat (dim_height dim) \<le> 8192" and "3 \<le> length (mp b)"
  defines "ys \<equiv> venus_y_stride v c (dim_width dim)" and "yl \<equiv> venus_y_scanlines v c (dim_height dim)"
  assumes "n = venus_buffer_size v c (dim_width dim) (dim_height dim) \<or> n = venus_buffer_size v c ys yl"
  shows "layout_fits (venus_planes n ys yl (venus_uv_stride v c (dim_width dim))
           (venus_uv_scanlines v c (dim_height dim)) (dim_width dim) (dim_height dim) b)"
  using assms by (intro layout_venus) (auto simp: venus_documented_def Let_def unat_halve)

lemma preview_fits:
  assumes "mm_stream_calc_offset_preview v si dim pad b = (0, b')"
    and "layout_request dim pad" and "3 \<le> length (mp b)"
    and "si_type si \<noteq> CAM_STREAM_TYPE_OFFLINE_PROC"
    and "\<forall>c. venus_format (si_fmt si) = Some c \<longrightarrow> venus_documented v c dim"
  shows "layout_fits b'"
  using assms venus_documented_fits [OF _ layout_requestD(3) [OF assms(2)] assms(3), of v]
  by (auto simp: mm_stream_calc_offset_preview_def venus_format_def preview_nv12_fits
      preview_nv21_adreno_fits preview_yv12_fits preview_nv16_fits preview_nv12_venus_def
      preview_nv21_venus_def Let_def venus_planes_def split: cam_format.splits)

lemma post_view_fits:
  assumes "mm_stream_calc_offset_post_view v si dim pad b = (0, b')"
    and "layout_request dim pad" and "3 \<le> length (mp b)"
    and "si_type si \<noteq> CAM_STREAM_TYPE_OFFLINE_PROC" and "si_fmt si \<noteq> CAM_FORMAT_YUV_420_YV12"
    and "\<forall>c. venus_format (si_fmt si) = Some c \<longrightarrow> venus_documented v c dim"
  shows "layout_fits b'"
  using assms venus_documented_fits [OF _ layout_requestD(3) [OF assms(2)] assms(3), of v]
  by (auto simp: mm_stream_calc_offset_post_view_def venus_format_def post_view_nv12_fits
      post_view_nv21_adreno_fits post_view_nv16_fits post_view_nv12_venus_def
      post_view_nv21_venus_def Let_def venus_planes_def split: cam_format.splits)

lemma snapshot_fits:
  assumes "mm_stream_calc_offset_snapshot v fmt dim pad b = (0, b')"
    and "layout_request dim pad" and "3 \<le> length (mp b)"
    and "\<forall>c. venus_format fmt = Some c \<longrightarrow> venus_documented v c dim"
  shows "layout_fits b'"
  using assms venus_documented_fits [OF _ layout_requestD(3) [OF assms(2)] assms(3), of v]
  by (auto simp: mm_stream_calc_offset_snapshot_def venus_format_def snapshot_nv12_fits
      snapshot_yv12_fits snapshot_nv16_fits snapshot_nv12_venus_def snapshot_nv21_venus_def
      Let_def venus_planes_def split: cam_format.splits)

lemma video_fits:
  assumes "mm_stream_calc_offset_video v fmt dim b = (0, b')"
    and "layout_request dim pad" and "3 \<le> length (mp b)"
    and "\<forall>c. venus_format fmt = Some c \<longrightarrow> venus_documented v c dim"
  shows "layout_fits b'"
  using assms venus_documented_fits [OF _ layout_requestD(3) [OF assms(2)] assms(3), of v]
  by (auto simp: mm_stream_calc_offset_video_def venus_format_def video_nv12_fits [OF assms(2)]
      video_nv12_venus_def video_nv21_venus_def Let_def venus_planes_def split: cam_format.splits)

lemma analysis_fits:
  assumes "mm_stream_calc_offset_analysis v fmt dim pad b = (0, b')"
    and "layout_request dim pad" and "3 \<le> length (mp b)"
    and "\<forall>c. venus_format fmt = Some c \<longrightarrow> venus_documented v c dim"
  shows "layout_fits b'"
  using assms venus_documented_fits [OF _ layout_requestD(3) [OF assms(2)] assms(3), of v]
  by (auto simp: mm_stream_calc_offset_analysis_def venus_format_def analysis_nv12_fits
      analysis_yv12_fits analysis_nv16_fits analysis_y_only_fits analysis_nv12_venus_def
      analysis_nv21_venus_def Let_def venus_planes_def split: cam_format.splits)

lemmas calc_offset_cases =
  mm_stream_calc_offset_preview_def mm_stream_calc_offset_post_view_def
  mm_stream_calc_offset_snapshot_def mm_stream_calc_offset_raw_def
  mm_stream_calc_offset_video_def mm_stream_calc_offset_metadata_def
  mm_stream_calc_offset_analysis_def

text \<open>
  C36: the layout of every image stream fits.  When mm\_stream\_calc\_offset succeeds for a preview,
  postview, snapshot, callback, video or analysis stream, each plane has room for its image at
  its offset, no plane is shorter than its rows, and the buffer holds the planes one after the
  other.  The request has an even width, dimensions up to 8192 and paddings of cam\_pad\_format\_t;
  for the two Venus formats the sizes of the kernel header are the documented ones.  The
  postview YV12 format is excluded: see below.
\<close>

theorem stream_layout_fits:
  assumes "mm_stream_calc_offset v my = (0, my')"
    and "layout_request (layout_dim (lay_info my)) (lay_padding my)"
    and "3 \<le> length (mp (si_buf_planes (lay_info my)))"
    and "si_type (lay_info my) \<in> {CAM_STREAM_TYPE_PREVIEW, CAM_STREAM_TYPE_POSTVIEW,
      CAM_STREAM_TYPE_SNAPSHOT, CAM_STREAM_TYPE_CALLBACK, CAM_STREAM_TYPE_VIDEO,
      CAM_STREAM_TYPE_ANALYSIS}"
    and "\<not> (si_type (lay_info my) = CAM_STREAM_TYPE_POSTVIEW \<and>
      si_fmt (lay_info my) = CAM_FORMAT_YUV_420_YV12)"
    and "\<forall>c. venus_format (si_fmt (lay_info my)) = Some c \<longrightarrow>
      venus_documented v c (layout_dim (lay_info my))"
  shows "layout_fits (lay_frame_offset my')"
  using assms preview_fits post_view_fits snapshot_fits video_fits analysis_fits
  by (auto simp: mm_stream_calc_offset_def Let_def split: prod.splits)

lemma refused_case:
  "mm_stream_calc_offset_preview v si dim pad b = (rc, b') \<Longrightarrow> rc = 0 \<or> b' = b"
  "mm_stream_calc_offset_post_view v si dim pad b = (rc, b') \<Longrightarrow> rc = 0 \<or> b' = b"
  "mm_stream_calc_offset_snapshot v fmt dim pad b = (rc, b') \<Longrightarrow> rc = 0 \<or> b' = b"
  "mm_stream_calc_offset_raw fmt dim pad b = (rc, b') \<Longrightarrow> rc = 0 \<or> b' = b"
  "mm_stream_calc_offset_video v fmt dim b = (rc, b') \<Longrightarrow> rc = 0 \<or> b' = b"
  "mm_stream_calc_offset_metadata dim pad b = (rc, b') \<Longrightarrow> rc = 0 \<or> b' = b"
  "mm_stream_calc_offset_analysis v fmt dim pad b = (rc, b') \<Longrightarrow> rc = 0 \<or> b' = b"
  by (auto simp: calc_offset_cases Let_def split: cam_format.splits bpp.splits)

lemma refused_postproc:
  "mm_stream_calc_offset_postproc v si pad b = (rc, b') \<Longrightarrow> rc = 0 \<or> b' = b"
  by (auto simp: mm_stream_calc_offset_postproc_def postproc_by_type_def
      split: reproc_config.splits stream_type.splits if_splits dest: refused_case)

text \<open>
  C38: A refused request keeps the stream information. When mm\_stream\_calc\_offset fails, nothing is
  different but the frame offset of the stream, which is overwritten all the same: it becomes the
  layout kept in the stream information.
\<close>

theorem refused_layout_keeps_info:
  assumes "mm_stream_calc_offset v my = (rc, my')" and "rc \<noteq> 0"
  shows "my' = my\<lparr>lay_frame_offset := si_buf_planes (lay_info my)\<rparr>"
  using assms
  by (auto simp: mm_stream_calc_offset_def Let_def split: prod.splits stream_type.splits
      dest: refused_case refused_postproc)

section \<open>Raw lines\<close>

text \<open>
  How many pixels a raw format packs into how many bytes, as the comments of cam\_format\_t in
  src/camera/QCamera2/stack/common/cam\_types.h define the formats.
\<close>

fun qcom_packing :: "bpp \<Rightarrow> nat \<times> nat" where
  "qcom_packing BPP8 = (1, 1)"
| "qcom_packing BPP10 = (6, 8)"
| "qcom_packing BPP12 = (5, 8)"
| "qcom_packing BPP14 = (4, 8)"

fun mipi_packing :: "bpp \<Rightarrow> nat \<times> nat" where
  "mipi_packing BPP8 = (1, 1)"
| "mipi_packing BPP10 = (4, 5)"
| "mipi_packing BPP12 = (2, 3)"
| "mipi_packing BPP14 = (4, 7)"

fun raw_packing :: "cam_format \<Rightarrow> (nat \<times> nat) option" where
  "raw_packing (CAM_FORMAT_BAYER_QCOM_RAW p _) = Some (qcom_packing p)"
| "raw_packing (CAM_FORMAT_BAYER_IDEAL_RAW_QCOM p _) = Some (qcom_packing p)"
| "raw_packing (CAM_FORMAT_BAYER_MIPI_RAW p _) = Some (mipi_packing p)"
| "raw_packing (CAM_FORMAT_BAYER_IDEAL_RAW_MIPI p _) = Some (mipi_packing p)"
| "raw_packing (CAM_FORMAT_BAYER_IDEAL_RAW_PLAIN8 _) = Some (1, 1)"
| "raw_packing (CAM_FORMAT_BAYER_IDEAL_RAW_PLAIN16 _ _) = Some (1, 2)"
| "raw_packing CAM_FORMAT_YUV_RAW_8BIT_YUYV = Some (1, 2)"
| "raw_packing CAM_FORMAT_YUV_RAW_8BIT_YVYU = Some (1, 2)"
| "raw_packing CAM_FORMAT_YUV_RAW_8BIT_UYVY = Some (1, 2)"
| "raw_packing CAM_FORMAT_YUV_RAW_8BIT_VYUY = Some (1, 2)"
| "raw_packing CAM_FORMAT_JPEG_RAW_8BIT = Some (1, 1)"
| "raw_packing CAM_FORMAT_META_RAW_8BIT = Some (1, 1)"
| "raw_packing CAM_FORMAT_META_RAW_10BIT = Some (4, 5)"
| "raw_packing _ = None"

text \<open>One plane whose lines hold the packed pixels and which the page-aligned buffer holds.\<close>

definition raw_fits :: "nat \<times> nat \<Rightarrow> cam_dimension \<Rightarrow> planes \<Rightarrow> bool" where
  "raw_fits packing dim b \<longleftrightarrow>
     (let p = mp b ! 0; (pixels, bytes) = packing
      in num_planes b = 1 \<and> unat (dim_width dim) \<le> unat (mp_stride p) \<and>
         unat (dim_height dim) \<le> unat (mp_scanline p) \<and>
         unat (dim_width dim) * bytes \<le> unat (mp_stride_in_bytes p) * pixels \<and>
         unat (mp_stride_in_bytes p) * unat (mp_scanline p) \<le> unat (mp_len p) \<and>
         mp_len p \<le> frame_len b \<and> 4096 dvd unat (frame_len b))"

lemma raw_one_plane_fits:
  assumes "layout_request dim pad" and "mp b \<noteq> []"
    and "unat sib \<le> 32768" and "unat (dim_width dim) \<le> unat st"
    and "unat (dim_width dim) * snd pk \<le> unat sib * fst pk"
  defines "b' \<equiv> raw_one_plane pad st sib (pad_to_size (dim_height dim) (height_padding pad)) b"
  shows "raw_fits pk dim b'" and "raw_fits pk dim (raw_as_line b')"
proof -
  note r = layout_requestD [OF assms(1)]
  let ?sc = "pad_to_size (dim_height dim) (height_padding pad)"
  let ?l = "pad_to_size (sib * ?sc) (plane_padding pad)"
  have sc: "unat (dim_height dim) \<le> unat ?sc" "unat ?sc \<le> 16383"
    using r by (auto intro!: pad_ge pad_le)
  then have p: "unat (sib * ?sc) = unat sib * unat ?sc" "unat sib * unat ?sc \<le> 1677721600"
    using plane_product [of sib ?sc] assms(3) by simp_all
  then have l: "unat sib * unat ?sc \<le> unat ?l" "unat ?l \<le> 1677729791"
    using r by (auto intro!: pad_ge pad_le)
  then have "unat ?l \<le> unat (pad_to_size ?l 4096)" "unat (4096 :: int32) dvd unat (pad_to_size ?l 4096)"
    using pad_format_bounds [of 4096 ?l] by simp_all
  with sc l assms(2,4,5) show "raw_fits pk dim b'" and "raw_fits pk dim (raw_as_line b')"
    by (simp_all add: b'_def raw_fits_def raw_one_plane_def raw_as_line_def Let_def frame_len_1_def
        word_le_nat_alt case_prod_beta)
qed

lemma raw_fits_mono:
  "raw_fits (1, 2) dim b \<Longrightarrow> raw_fits (1, 1) dim b"
  by (simp add: raw_fits_def Let_def)

text \<open>Stride and bytes per line of the packed formats, as numbers.\<close>

lemma padded_stride:
  assumes "p \<in> set cam_pad_formats" and "unat w \<le> 8192" and "unat p \<le> 64"
  obtains k where "unat (pad_to_size w p) = unat p * k" "unat w \<le> unat p * k" "unat p * k \<le> 8255"
proof -
  obtain k where k: "unat (pad_to_size w p) = unat p * k"
    using pad_format_bounds(3) [OF assms(1), of w] assms(2) by (auto elim: dvdE)
  moreover have "unat (pad_to_size w p) \<le> unat w + unat p - 1"
    using unat_pad_format [OF assms(1), of w] assms(2) by simp
  moreover have "unat w \<le> unat (pad_to_size w p)"
    using pad_format_bounds(1) [OF assms(1), of w] assms(2) by simp
  ultimately show ?thesis
    using that [of k] assms(2,3) by simp
qed

lemma unat_scaled:
  fixes x :: int32
  assumes "unat x * unat m < 2 ^ 31" and "unat n < 2 ^ 31"
  shows "unat (x * m) = unat x * unat m"
    and "unat (int_quot (x * m) n) = unat x * unat m div unat n"
proof -
  show *: "unat (x * m) = unat x * unat m"
    using assms(1) unat_mult_lem [of x m] by simp
  with assms show "unat (int_quot (x * m) n) = unat x * unat m div unat n"
    by (simp add: unat_int_quot)
qed

lemma whole_groups:
  fixes w :: int32
  assumes "unat w \<le> 8192" and "0 < unat n" and "unat n \<le> 16"
  defines "st \<equiv> int_quot (w + (n - 1)) n * n"
  obtains k where "unat st = unat n * k" "unat w \<le> unat n * k" "unat n * k \<le> 8208"
proof -
  have "unat (n - 1) = unat n - 1"
    using assms(2) by (simp add: unat_sub word_le_nat_alt)
  moreover have "unat w + (unat n - 1) < 2 ^ 32"
    using assms(1,3) by simp
  ultimately have "unat (w + (n - 1)) = unat w + (unat n - 1)"
    using unat_add_lem [of w "n - 1"] by simp
  then have q: "unat (int_quot (w + (n - 1)) n) = (unat w + (unat n - 1)) div unat n"
    using assms by (simp add: unat_int_quot)
  let ?s = "unat w + (unat n - 1)"
  have e: "unat n * (?s div unat n) + ?s mod unat n = ?s" "?s mod unat n < unat n"
    using assms(2) by simp_all
  then have b: "unat w \<le> unat n * (?s div unat n)" "unat n * (?s div unat n) \<le> 8208"
    using assms(1-3) by linarith+
  then have "unat st = unat n * (?s div unat n)"
    using unat_mult_lem [of "int_quot (w + (n - 1)) n" n] q by (simp add: st_def mult.commute)
  from this b show ?thesis
    by (rule that)
qed

lemma raw_yuyv_fits:
  assumes "layout_request dim pad" and "mp b \<noteq> []"
  shows "raw_fits (1, 2) dim (raw_yuyv dim pad b)" and "raw_fits (1, 2) dim (raw_meta8 dim pad b)"
    and "raw_fits (1, 1) dim (raw_8bpp dim pad b)" and "raw_fits (4, 8) dim (raw_qcom14 dim pad b)"
proof -
  let ?st = "pad_to_size (dim_width dim) 16"
  obtain k where "unat ?st = 16 * k" "unat (dim_width dim) \<le> 16 * k" "16 * k \<le> 8255"
    using padded_stride [of 16 "dim_width dim"] layout_requestD(2) [OF assms(1)]
    by (auto simp: cam_pad_formats_def)
  then have st: "unat (dim_width dim) \<le> unat ?st" "unat ?st \<le> 8255"
    by simp_all
  then have "unat (?st * 2) = unat ?st * 2"
    using unat_scaled(1) [of ?st 2 1] by simp
  with st show "raw_fits (1, 2) dim (raw_yuyv dim pad b)" "raw_fits (1, 2) dim (raw_meta8 dim pad b)"
    "raw_fits (1, 1) dim (raw_8bpp dim pad b)" "raw_fits (4, 8) dim (raw_qcom14 dim pad b)"
    using assms
    by (auto simp: raw_yuyv_def raw_meta8_def raw_8bpp_def raw_qcom14_def Let_def
        intro!: raw_one_plane_fits)
qed

lemma raw_plain16_fits:
  assumes "layout_request dim pad" and "mp b \<noteq> []"
  shows "raw_fits (1, 2) dim (raw_plain16 dim pad b)"
proof -
  let ?st = "pad_to_size (dim_width dim) 8"
  obtain k where "unat ?st = 8 * k" "unat (dim_width dim) \<le> 8 * k" "8 * k \<le> 8255"
    using padded_stride [of 8 "dim_width dim"] layout_requestD(2) [OF assms(1)]
    by (auto simp: cam_pad_formats_def)
  then have st: "unat (dim_width dim) \<le> unat ?st" "unat ?st \<le> 8255"
    by simp_all
  then have "unat (?st * 2) = unat ?st * 2"
    using unat_scaled(1) [of ?st 2 1] by simp
  with st show ?thesis
    using assms by (auto simp: raw_plain16_def Let_def intro!: raw_one_plane_fits)
qed

lemma raw_qcom10_fits:
  assumes "layout_request dim pad" and "mp b \<noteq> []"
  shows "raw_fits (6, 8) dim (raw_qcom10 dim pad b)"
proof -
  let ?st = "int_quot (dim_width dim + 11) 12 * 12"
  obtain k where k: "unat ?st = 12 * k" "unat (dim_width dim) \<le> 12 * k" "12 * k \<le> 8208"
    using whole_groups [of "dim_width dim" 12] layout_requestD(2) [OF assms(1)] by auto
  then have "unat (int_quot (?st * 8) 6) = 16 * k"
    using unat_scaled(2) [of ?st 8 6] by simp
  with k show ?thesis
    using assms by (auto simp: raw_qcom10_def Let_def intro!: raw_one_plane_fits)
qed

lemma raw_qcom12_fits:
  assumes "layout_request dim pad" and "mp b \<noteq> []"
  shows "raw_fits (5, 8) dim (raw_qcom12 dim pad b)"
proof -
  let ?st = "int_quot (dim_width dim + 9) 10 * 10"
  obtain k where k: "unat ?st = 10 * k" "unat (dim_width dim) \<le> 10 * k" "10 * k \<le> 8208"
    using whole_groups [of "dim_width dim" 10] layout_requestD(2) [OF assms(1)] by auto
  then have "unat (int_quot (?st * 8) 5) = 16 * k"
    using unat_scaled(2) [of ?st 8 5] by simp
  with k show ?thesis
    using assms by (auto simp: raw_qcom12_def Let_def intro!: raw_one_plane_fits)
qed

lemma raw_mipi12_fits:
  assumes "layout_request dim pad" and "mp b \<noteq> []"
  shows "raw_fits (2, 3) dim (raw_mipi12 dim pad b)"
proof -
  let ?st = "pad_to_size (dim_width dim) 32"
  obtain k where k: "unat ?st = 32 * k" "unat (dim_width dim) \<le> 32 * k" "32 * k \<le> 8255"
    using padded_stride [of 32 "dim_width dim"] layout_requestD(2) [OF assms(1)]
    by (auto simp: cam_pad_formats_def)
  then have "unat (int_quot (?st * 3) 2) = 48 * k"
    using unat_scaled(2) [of ?st 3 2] by simp
  with k show ?thesis
    using assms by (auto simp: raw_mipi12_def Let_def intro!: raw_one_plane_fits)
qed

lemma raw_mipi14_fits:
  assumes "layout_request dim pad" and "mp b \<noteq> []"
  shows "raw_fits (4, 7) dim (raw_mipi14 dim pad b)"
proof -
  let ?st = "pad_to_size (dim_width dim) 64"
  obtain k where k: "unat ?st = 64 * k" "unat (dim_width dim) \<le> 64 * k" "64 * k \<le> 8255"
    using padded_stride [of 64 "dim_width dim"] layout_requestD(2) [OF assms(1)]
    by (auto simp: cam_pad_formats_def)
  then have "unat (int_quot (?st * 7) 4) = 112 * k"
    using unat_scaled(2) [of ?st 7 4] by simp
  with k show ?thesis
    using assms by (auto simp: raw_mipi14_def Let_def intro!: raw_one_plane_fits)
qed

lemma raw_mipi10_fits:
  assumes "layout_request dim pad" and "mp b \<noteq> []"
  shows "raw_fits (4, 5) dim (raw_mipi10 dim pad b)"
proof -
  let ?st = "pad_to_size (dim_width dim) 4"
  obtain k where k: "unat ?st = 4 * k" "unat (dim_width dim) \<le> 4 * k" "4 * k \<le> 8255"
    using padded_stride [of 4 "dim_width dim"] layout_requestD(2) [OF assms(1)]
    by (auto simp: cam_pad_formats_def)
  then have q: "unat (int_quot (?st * 5) 4) = 5 * k"
    using unat_scaled(2) [of ?st 5 4] by simp
  have "8 \<in> set cam_pad_formats"
    by (simp add: cam_pad_formats_def)
  then have "5 * k \<le> unat (pad_to_size (int_quot (?st * 5) 4) 8)"
    "unat (pad_to_size (int_quot (?st * 5) 4) 8) \<le> 32768"
    using q k(3) by (auto intro!: pad_ge pad_le)
  with k show ?thesis
    using assms by (auto simp: raw_mipi10_def Let_def intro!: raw_one_plane_fits)
qed

text \<open>
  C37: every line of a raw frame holds its packed pixels.  For each raw format with a packing,
  mm\_stream\_calc\_offset lays out one plane with at least as many columns and lines as the image,
  with enough bytes per line for the packed pixels of the line, and with a page-aligned buffer
  that holds all its lines.
\<close>

theorem raw_lines_hold_pixels:
  assumes "si_type (lay_info my) = CAM_STREAM_TYPE_RAW"
    and "raw_packing (si_fmt (lay_info my)) = Some pk"
    and "layout_request (layout_dim (lay_info my)) (lay_padding my)"
    and "mp (si_buf_planes (lay_info my)) \<noteq> []"
  shows "\<exists>my'. mm_stream_calc_offset v my = (0, my') \<and>
           raw_fits pk (layout_dim (lay_info my)) (lay_frame_offset my')"
  using assms raw_yuyv_fits raw_fits_mono [OF raw_yuyv_fits(1)] raw_fits_mono [OF raw_yuyv_fits(2)]
    raw_plain16_fits raw_qcom10_fits raw_qcom12_fits raw_mipi10_fits
    raw_mipi12_fits raw_mipi14_fits
  by (auto simp: mm_stream_calc_offset_def mm_stream_calc_offset_raw_def Let_def
      split: cam_format.splits bpp.splits)

section \<open>The postview YV12 format\<close>

text \<open>
  C39: the chroma planes of a postview YV12 image are too small.  The code pads a half of the
  chroma stride where the chroma lines are meant, so an image that is not more than about twice
  as wide as it is high gets fewer chroma lines than it has, and the layout does not fit.
\<close>

theorem post_view_yv12_too_small:
  assumes "layout_request dim pad" and "3 \<le> length (mp b)"
    and "si_type si \<noteq> CAM_STREAM_TYPE_OFFLINE_PROC" and "si_fmt si = CAM_FORMAT_YUV_420_YV12"
    and "unat (dim_width dim) + 60 \<le> 2 * unat (dim_height dim)"
  shows "\<exists>b'. mm_stream_calc_offset_post_view v si dim pad b = (0, b') \<and> \<not> layout_fits b' \<and>
           unat (mp_scanline (mp b' ! 1)) < unat (mp_height (mp b' ! 1))"
proof -
  note r = layout_requestD [OF assms(1)]
  define st where "st = pad_to_size (dim_width dim) 16"
  define st1 where "st1 = pad_to_size (halve st) 16"
  define sc1 where "sc1 = pad_to_size (halve st1) 2"
  have st: "unat st \<le> unat (dim_width dim) + 15"
    using r unat_pad_format [of 16 "dim_width dim"] by (simp add: st_def)
  then have st1: "unat st1 \<le> unat st div 2 + 15"
    using r unat_pad_format [of 16 "halve st"] by (simp add: st1_def unat_halve)
  have sc1: "unat sc1 \<le> unat st1 div 2 + 1"
    using r st st1 unat_pad_format [of 2 "halve st1"] by (simp add: sc1_def unat_halve)
  have "unat sc1 < unat (dim_height dim) div 2"
    using st st1 sc1 assms(5) by linarith
  then have lt: "unat sc1 < unat (halve (dim_height dim))"
    using r by (simp add: unat_halve)
  let ?b = "post_view_yv12 si dim pad b"
  have p1: "mp_scanline (mp ?b ! 1) = sc1" "mp_height (mp ?b ! 1) = halve (dim_height dim)"
    "num_planes ?b = 3" "length (mp ?b) = length (mp b)"
    using assms(2,3) by (simp_all add: post_view_yv12_def Let_def st_def st1_def sc1_def)
  with lt have "\<not> plane_fits (mp ?b ! 1)"
    by (simp add: plane_fits_def)
  with p1 assms(2) have "\<not> layout_fits ?b"
    by (simp add: layout_fits_def take_nths)
  with p1 lt assms(4) show ?thesis
    by (simp add: mm_stream_calc_offset_post_view_def)
qed

section \<open>Least common multiple\<close>

text \<open>The loop returns at the latest at a multiple of its step that both numbers divide.\<close>

definition divides_both :: "int32 \<Rightarrow> int32 \<Rightarrow> int32 \<Rightarrow> bool" where
  "divides_both a b x \<longleftrightarrow> x mod a = 0 \<and> x mod b = 0"

lemma divides_both_iff: "divides_both a b x \<longleftrightarrow> unat a dvd unat x \<and> unat b dvd unat x"
  by (simp add: divides_both_def dvd_eq_mod_eq_0 unat_eq_zero flip: unat_mod)

lemma lcm_loop_step:
  "lcm_loop a b t m = (if divides_both a b m then Some m else lcm_loop a b t (m + t))"
  by (simp add: divides_both_def lcm_loop.simps [of a b t m])

lemma lcm_loop_reaches:
  assumes "divides_both a b (m + of_nat j * t)"
  shows "\<exists>k \<le> j. lcm_loop a b t m = Some (m + of_nat k * t) \<and> divides_both a b (m + of_nat k * t)"
  using assms
proof (induction j arbitrary: m)
  case 0
  then show ?case
    by (simp add: lcm_loop_step [of a b t m])
next
  case (Suc j)
  show ?case
  proof (cases "divides_both a b m")
    case True
    then show ?thesis
      by (intro exI [of _ 0]) (simp add: lcm_loop_step [of a b t m])
  next
    case False
    have shift: "m + of_nat (Suc i) * t = (m + t) + of_nat i * t" for i
      by (simp only: of_nat_Suc distrib_right mult_1_left add.assoc)
    from Suc.prems have "divides_both a b (m + t + of_nat j * t)"
      by (simp only: shift)
    from Suc.IH [OF this] obtain k where "k \<le> j"
      "lcm_loop a b t (m + t) = Some (m + t + of_nat k * t)" "divides_both a b (m + t + of_nat k * t)"
      by (elim exE conjE) (rule that)
    moreover have "lcm_loop a b t m = lcm_loop a b t (m + t)"
      using False by (simp add: lcm_loop_step [of a b t m])
    ultimately show ?thesis
      by (intro exI [of _ "Suc k"]) (simp only: shift Suc_le_mono simp_thms)
  qed
qed

lemma multiple_of_step: "t + of_nat k * t = (of_nat (Suc k * unat t) :: int32)" for t :: int32
  by (simp add: algebra_simps)

lemma lcm_loop_total: "\<exists>m. lcm_loop a b t t = Some m"
proof -
  have "2 ^ LENGTH(32) dvd Suc (2 ^ 32 - 1) * unat t"
    by simp
  then have "of_nat (Suc (2 ^ 32 - 1) * unat t) = (0 :: int32)"
    by (simp only: word_of_nat_eq_0_iff)
  then have "t + of_nat (2 ^ 32 - 1) * t = 0"
    by (simp only: multiple_of_step)
  then have "divides_both a b (t + of_nat (2 ^ 32 - 1) * t)"
    by (simp only: divides_both_iff) simp
  from lcm_loop_reaches [OF this] show ?thesis
    by blast
qed

lemma lcm_loop_exact:
  fixes a b :: int32
  assumes "0 < unat a" "0 < unat b" and t: "t = a \<or> t = b"
    and small: "lcm (unat a) (unat b) < 2 ^ 32"
  shows "\<exists>m. lcm_loop a b t t = Some m \<and> unat m = lcm (unat a) (unat b)"
proof -
  let ?L = "lcm (unat a) (unat b)"
  have fits: "unat (of_nat n :: int32) = n" if "n \<le> ?L" for n
    using that small by (simp add: unat_of_nat)
  have T: "0 < unat t" "unat t dvd ?L"
    using assms(1,2) t by auto
  moreover have "0 < ?L"
    using assms(1,2) by (simp add: lcm_pos_nat)
  ultimately obtain q where q: "?L = Suc q * unat t"
    by (metis dvdE mult.commute gr0_implies_Suc nat_0_less_mult_iff)
  then have "divides_both a b (t + of_nat q * t)"
    using fits [of ?L] by (simp only: divides_both_iff multiple_of_step flip: q) simp
  from lcm_loop_reaches [OF this] obtain k where k: "k \<le> q"
    "lcm_loop a b t t = Some (t + of_nat k * t)" "divides_both a b (t + of_nat k * t)"
    by (elim exE conjE) (rule that)
  have le: "Suc k * unat t \<le> ?L"
    using k(1) unfolding q by (intro mult_le_mono1) simp
  then have n: "unat (t + of_nat k * t) = Suc k * unat t"
    by (simp only: multiple_of_step fits)
  then have "?L dvd Suc k * unat t"
    using k(3) by (simp only: divides_both_iff lcm_least)
  then have "?L \<le> Suc k * unat t"
    using T(1) by (intro dvd_imp_le) simp_all
  with le n k(2) show ?thesis
    by (intro exI [of _ "t + of_nat k * t"]) simp
qed

text \<open>The reference: the number that is positive, or the least common multiple of both.\<close>

definition lcm_reference :: "int \<Rightarrow> int \<Rightarrow> int" where
  "lcm_reference a b =
     (if a < 1 \<and> b < 1 then 0 else if a < 1 then b else if b < 1 then a else lcm a b)"

lemma uint_of_positive: "1 \<le> sint a \<Longrightarrow> uint a = sint a" for a :: int32
  using sint_less [of a] by (subst uint_sint) (simp add: take_bit_int_eq_self)

lemma lcm_of_positive:
  fixes a b :: int32
  assumes "1 \<le> sint a" "1 \<le> sint b"
  shows "lcm (sint a) (sint b) = int (lcm (unat a) (unat b))" and "0 < unat a" "0 < unat b"
proof -
  have n: "unat a = nat (sint a)" "unat b = nat (sint b)"
    using assms by (simp_all add: unat_eq_nat_uint uint_of_positive)
  with assms show "lcm (sint a) (sint b) = int (lcm (unat a) (unat b))"
    and "0 < unat a" "0 < unat b"
    by (simp_all add: lcm_int_def)
qed

text \<open>
  C40: mm\_stream\_calc\_lcm always returns, and what it returns is the least common multiple
  whenever that fits in 32 bits.  The loop cannot run for ever because the sum wraps to 0, which
  every number divides; in that case the result is not the least common multiple.
\<close>

theorem calc_lcm_matches_reference:
  "\<exists>m. mm_stream_calc_lcm a b = Some m \<and>
     (lcm_reference (sint a) (sint b) < 2 ^ 32 \<longrightarrow> uint m = lcm_reference (sint a) (sint b))"
proof (cases "1 \<le> sint a \<and> 1 \<le> sint b")
  case True
  note p = lcm_of_positive [OF conjunct1 [OF True] conjunct2 [OF True]]
  define t where "t = (if b <s a then a else b)"
  have c: "mm_stream_calc_lcm a b = lcm_loop a b t t"
    using True by (simp add: mm_stream_calc_lcm_def t_def word_sless_alt Let_def)
  show ?thesis
  proof (cases "lcm (unat a) (unat b) < 2 ^ 32")
    case True
    moreover have "t = a \<or> t = b"
      by (simp add: t_def)
    ultimately obtain m where "lcm_loop a b t t = Some m" "unat m = lcm (unat a) (unat b)"
      using lcm_loop_exact [OF p(2,3)] by blast
    moreover from this(2) have "uint m = int (lcm (unat a) (unat b))"
      by (metis of_nat_unat)
    ultimately show ?thesis
      using c p(1) \<open>1 \<le> sint a \<and> 1 \<le> sint b\<close> by (simp add: lcm_reference_def)
  next
    case False
    with c p(1) \<open>1 \<le> sint a \<and> 1 \<le> sint b\<close> lcm_loop_total [of a b t] show ?thesis
      by (auto simp: lcm_reference_def)
  qed
next
  case False
  then show ?thesis
    using uint_of_positive [of a] uint_of_positive [of b]
    by (auto simp: mm_stream_calc_lcm_def lcm_reference_def word_sless_alt)
qed

text \<open>Where the least common multiple does not fit: the code answers 0.\<close>

lemma calc_lcm_wraps: "mm_stream_calc_lcm 1073741824 5 = Some 0"
  by code_simp

section \<open>Concrete requests\<close>

text \<open>A stream with empty planes, and sizes of the Venus core for its documented alignments.\<close>

definition empty_planes :: planes where
  "empty_planes = \<lparr>num_planes = 0,
     mp = replicate 8 \<lparr>mp_len = 0, mp_offset = 0, mp_offset_x = 0, mp_offset_y = 0, mp_stride = 0,
       mp_stride_in_bytes = 0, mp_scanline = 0, mp_width = 0, mp_height = 0\<rparr>, frame_len = 0\<rparr>"

definition demo_padding :: cam_padding where
  "demo_padding = \<lparr>width_padding = 64, height_padding = 64, plane_padding = 4096, min_stride = 0,
     min_scanline = 0, pad_offset_x = 0, pad_offset_y = 0\<rparr>"

definition demo_layout :: "cam_format \<Rightarrow> stream_type \<Rightarrow> int32 \<Rightarrow> int32 \<Rightarrow> stream_layout" where
  "demo_layout f ty w h = \<lparr>lay_info = \<lparr>si_fmt = f, si_type = ty,
     si_dim = \<lparr>dim_width = w, dim_height = h\<rparr>, si_buf_planes = empty_planes, si_feature_mask = 0,
     si_rotation = ROTATE_0, si_reproc = CAM_ONLINE_REPROCESS_TYPE CAM_STREAM_TYPE_DEFAULT\<rparr>,
     lay_padding = demo_padding, lay_frame_offset = empty_planes\<rparr>"

definition demo_venus :: venus where
  "demo_venus = \<lparr>venus_y_stride = (\<lambda>c w. pad_to_size w 128), venus_y_scanlines = (\<lambda>c h. pad_to_size h 32),
     venus_uv_stride = (\<lambda>c w. pad_to_size w 128),
     venus_uv_scanlines = (\<lambda>c h. pad_to_size (drop_bit 1 (h + 1)) 16),
     venus_buffer_size = (\<lambda>c w h. pad_to_size (pad_to_size w 128 * pad_to_size h 32 +
       pad_to_size w 128 * pad_to_size (drop_bit 1 (h + 1)) 16 + 8192) 4096)\<rparr>"

lemmas demo_requests =
  layout_request_def demo_layout_def demo_padding_def layout_dim_def cam_pad_formats_def

theorem stream_layout_fits_witness:
  "\<exists>my'. mm_stream_calc_offset demo_venus
       (demo_layout CAM_FORMAT_YUV_420_NV12_VENUS CAM_STREAM_TYPE_VIDEO 1920 1080) = (0, my') \<and>
     layout_fits (lay_frame_offset my')"
proof -
  let ?my = "demo_layout CAM_FORMAT_YUV_420_NV12_VENUS CAM_STREAM_TYPE_VIDEO 1920 1080"
  have "fst (mm_stream_calc_offset demo_venus ?my) = 0"
    by code_simp
  then obtain my' where r: "mm_stream_calc_offset demo_venus ?my = (0, my')"
    by (metis prod.collapse)
  moreover have "layout_request (layout_dim (lay_info ?my)) (lay_padding ?my)"
    by (simp add: demo_requests)
  moreover have "3 \<le> length (mp (si_buf_planes (lay_info ?my)))"
    by code_simp
  moreover have "si_type (lay_info ?my) = CAM_STREAM_TYPE_VIDEO"
    "venus_format (si_fmt (lay_info ?my)) = Some COLOR_FMT_NV12"
    by (simp_all add: demo_layout_def venus_format_def)
  moreover have "venus_documented demo_venus COLOR_FMT_NV12 (layout_dim (lay_info ?my))"
    by (simp add: demo_requests demo_venus_def venus_documented_def pad_to_size_def)
  ultimately have "layout_fits (lay_frame_offset my')"
    by (intro stream_layout_fits [OF r]) (auto simp only: option.inject insert_iff stream_type.distinct)
  with r show ?thesis by blast
qed

theorem raw_lines_hold_pixels_witness:
  "\<exists>my'. mm_stream_calc_offset demo_venus
       (demo_layout (CAM_FORMAT_BAYER_QCOM_RAW BPP10 (Cfa GBRG)) CAM_STREAM_TYPE_RAW 4208 3120) =
         (0, my') \<and>
     raw_fits (6, 8) \<lparr>dim_width = 4208, dim_height = 3120\<rparr> (lay_frame_offset my')"
proof -
  let ?my = "demo_layout (CAM_FORMAT_BAYER_QCOM_RAW BPP10 (Cfa GBRG)) CAM_STREAM_TYPE_RAW 4208 3120"
  have d: "layout_dim (lay_info ?my) = \<lparr>dim_width = 4208, dim_height = 3120\<rparr>"
    and t: "si_type (lay_info ?my) = CAM_STREAM_TYPE_RAW"
    and p: "raw_packing (si_fmt (lay_info ?my)) = Some (6, 8)"
    and n: "mp (si_buf_planes (lay_info ?my)) \<noteq> []"
    by (simp_all add: demo_layout_def layout_dim_def empty_planes_def)
  have "layout_request (layout_dim (lay_info ?my)) (lay_padding ?my)"
    by (simp add: demo_requests)
  from raw_lines_hold_pixels [OF t p this n, of demo_venus] show ?thesis
    unfolding d .
qed

theorem refused_layout_keeps_info_witness:
  "snd (mm_stream_calc_offset demo_venus ((demo_layout CAM_FORMAT_8888_ARGB CAM_STREAM_TYPE_VIDEO 64 64)
       \<lparr>lay_frame_offset := empty_planes\<lparr>frame_len := 4096\<rparr>\<rparr>)) =
     demo_layout CAM_FORMAT_8888_ARGB CAM_STREAM_TYPE_VIDEO 64 64"
proof -
  let ?my = "(demo_layout CAM_FORMAT_8888_ARGB CAM_STREAM_TYPE_VIDEO 64 64)
    \<lparr>lay_frame_offset := empty_planes\<lparr>frame_len := 4096\<rparr>\<rparr>"
  have "fst (mm_stream_calc_offset demo_venus ?my) = - 1"
    by code_simp
  then have "mm_stream_calc_offset demo_venus ?my = (- 1, snd (mm_stream_calc_offset demo_venus ?my))"
    by (metis prod.collapse)
  from refused_layout_keeps_info [OF this] show ?thesis
    by (simp add: demo_layout_def)
qed

theorem post_view_yv12_too_small_witness:
  "\<exists>b'. mm_stream_calc_offset_post_view demo_venus
       (lay_info (demo_layout CAM_FORMAT_YUV_420_YV12 CAM_STREAM_TYPE_POSTVIEW 640 480))
       \<lparr>dim_width = 640, dim_height = 480\<rparr> demo_padding empty_planes = (0, b') \<and> \<not> layout_fits b'"
proof -
  have "layout_request \<lparr>dim_width = 640, dim_height = 480\<rparr> demo_padding"
    by code_simp
  from post_view_yv12_too_small [OF this, of empty_planes
      "lay_info (demo_layout CAM_FORMAT_YUV_420_YV12 CAM_STREAM_TYPE_POSTVIEW 640 480)" demo_venus]
  show ?thesis
    by (auto simp: demo_layout_def empty_planes_def)
qed

theorem calc_lcm_matches_reference_witness: "mm_stream_calc_lcm 64 48 = Some 192"
proof -
  have "lcm_reference (sint (64 :: int32)) (sint (48 :: int32)) = 192"
    by code_simp
  with calc_lcm_matches_reference [of 64 48] obtain m where
    m: "mm_stream_calc_lcm 64 48 = Some m" "uint m = 192"
    by auto
  then have "m = 192"
    by (simp add: word_uint_eq_iff)
  with m show ?thesis by simp
qed

end
