(* ===== verification/St_Thread.thy ===== *)
theory St_Thread
  imports Mm_Channel
begin

text \<open>
  The two kinds of threads below a channel: the poll thread, which waits for the descriptors of
  the streams and for commands on a pipe, and the command thread with its queue
  (src/camera/QCamera2/stack/mm-camera-interface/src/mm\_camera\_thread.c).

  Any client thread may change the table of entries and writes a command into the pipe
  afterwards; only the poll thread reads the pipe and rebuilds the array that it polls.  A client
  call of the synchronous kind waits until its command has been processed.  The value None is a
  call that waits for ever.  Writing into the pipe can fail; which writes succeed is a field of
  the record.
\<close>

section \<open>The poll thread\<close>

datatype pipe_cmd =
    MM_CAMERA_PIPE_CMD_POLL_ENTRIES_UPDATED
  | MM_CAMERA_PIPE_CMD_POLL_ENTRIES_UPDATED_ASYNC
  | MM_CAMERA_PIPE_CMD_COMMIT
  | MM_CAMERA_PIPE_CMD_EXIT

datatype poll_type = MM_CAMERA_POLL_TYPE_EVT | MM_CAMERA_POLL_TYPE_DATA

datatype call_type = mm_camera_sync_call | mm_camera_async_call

record poll_entry =
  pe_fd :: int32
  pe_notify_cb :: bool
  pe_handler :: int32
  pe_user_data :: ptr

text \<open>
  mm\_camera\_poll\_thread\_t.  pt\_fds is the used part of poll\_fds, its length is num\_fds.  The pipe
  holds the commands written and not yet read.
\<close>

record poll_thread =
  pt_type :: poll_type
  pt_entries :: "poll_entry list"
  pt_fds :: "int32 list"
  pt_pfd :: int32
  pt_pipe :: "pipe_cmd list"
  pt_polling :: bool
  pt_status :: bool
  pt_writes :: nat
  pt_write_ok :: "nat \<Rightarrow> bool"

definition MAX_STREAM_NUM_IN_BUNDLE :: nat where
  "MAX_STREAM_NUM_IN_BUNDLE = 8"

definition mm_camera_util_get_index_by_handler :: "int32 \<Rightarrow> nat" where
  "mm_camera_util_get_index_by_handler handler = unat (handler AND 0xff)"

text \<open>Reading a command rebuilds the polled array from the entries; index 0 is the pipe.\<close>

definition rebuild_fds :: "poll_thread \<Rightarrow> int32 list" where
  "rebuild_fds t =
     (case pt_type t of
        MM_CAMERA_POLL_TYPE_EVT \<Rightarrow>
          pt_pfd t # (let fd = pe_fd (pt_entries t ! 0) in if 0 \<le>s fd then [fd] else [])
      | MM_CAMERA_POLL_TYPE_DATA \<Rightarrow>
          pt_pfd t # map (\<lambda>i. let fd = pe_fd (pt_entries t ! i) in if 0 \<le>s fd then fd else -1)
                       [0..<MAX_STREAM_NUM_IN_BUNDLE])"

definition mm_camera_poll_sig_done :: "poll_thread \<Rightarrow> poll_thread" where
  "mm_camera_poll_sig_done t = t\<lparr>pt_status := True\<rparr>"

definition mm_camera_poll_set_state :: "bool \<Rightarrow> poll_thread \<Rightarrow> poll_thread" where
  "mm_camera_poll_set_state p t = t\<lparr>pt_polling := p\<rparr>"

fun mm_camera_poll_proc_pipe :: "poll_thread \<Rightarrow> poll_thread" where
  "mm_camera_poll_proc_pipe t =
     (case pt_pipe t of
        [] \<Rightarrow> t
      | cmd # cmds \<Rightarrow>
          (let t = t\<lparr>pt_pipe := cmds\<rparr> in
           case cmd of
             MM_CAMERA_PIPE_CMD_POLL_ENTRIES_UPDATED \<Rightarrow>
               mm_camera_poll_sig_done (t\<lparr>pt_fds := rebuild_fds t\<rparr>)
           | MM_CAMERA_PIPE_CMD_POLL_ENTRIES_UPDATED_ASYNC \<Rightarrow> t\<lparr>pt_fds := rebuild_fds t\<rparr>
           | MM_CAMERA_PIPE_CMD_COMMIT \<Rightarrow> mm_camera_poll_sig_done t
           | MM_CAMERA_PIPE_CMD_EXIT \<Rightarrow>
               mm_camera_poll_sig_done (mm_camera_poll_set_state False t)))"

text \<open>
  One pass of mm\_camera\_poll\_fn.  The kernel says which descriptors are ready; a negative
  descriptor is never polled.  A command on the pipe goes first; otherwise the callbacks of the
  ready entries are called in order, each entry as it is at the time of its call.
\<close>

definition poll_ready :: "(int32 \<Rightarrow> bool) \<Rightarrow> poll_thread \<Rightarrow> nat \<Rightarrow> bool" where
  "poll_ready ready t i \<longleftrightarrow> 0 \<le>s pt_fds t ! i \<and> ready (pt_fds t ! i)"

fun poll_notify_loop ::
  "(ptr \<Rightarrow> 's \<Rightarrow> 's) \<Rightarrow> ('s \<Rightarrow> poll_thread) \<Rightarrow> (nat \<Rightarrow> bool) \<Rightarrow> nat list \<Rightarrow> 's \<Rightarrow> 's" where
  "poll_notify_loop cb get revents [] s = s"
| "poll_notify_loop cb get revents (i # is) s =
     (let e = pt_entries (get s) ! (i - 1)
      in poll_notify_loop cb get revents is
           (if revents i \<and> pe_notify_cb e then cb (pe_user_data e) s else s))"

definition mm_camera_poll_fn ::
  "(ptr \<Rightarrow> 's \<Rightarrow> 's) \<Rightarrow> ('s \<Rightarrow> poll_thread) \<Rightarrow> ((poll_thread \<Rightarrow> poll_thread) \<Rightarrow> 's \<Rightarrow> 's) \<Rightarrow>
   (int32 \<Rightarrow> bool) \<Rightarrow> 's \<Rightarrow> 's" where
  "mm_camera_poll_fn cb get upd ready s =
     (let t = get s
      in if pt_pipe t \<noteq> [] then upd mm_camera_poll_proc_pipe s
         else poll_notify_loop cb get (poll_ready ready t) [1..<length (pt_fds t)] s)"

text \<open>
  Sending a command.  After a failed write the caller does not wait and is told of success all
  the same.  The synchronous call waits while the poll thread works off the pipe.
\<close>

definition pipe_write :: "pipe_cmd \<Rightarrow> poll_thread \<Rightarrow> bool \<times> poll_thread" where
  "pipe_write cmd t =
     (let ok = pt_write_ok t (pt_writes t);
          t = t\<lparr>pt_status := False, pt_writes := pt_writes t + 1\<rparr>
      in (ok, if ok then t\<lparr>pt_pipe := pt_pipe t @ [cmd]\<rparr> else t))"

fun drain_pipe :: "nat \<Rightarrow> poll_thread \<Rightarrow> poll_thread" where
  "drain_pipe 0 t = t"
| "drain_pipe (Suc n) t =
     (if pt_polling t then drain_pipe n (mm_camera_poll_proc_pipe t) else t)"

definition mm_camera_poll_sig_async :: "pipe_cmd \<Rightarrow> poll_thread \<Rightarrow> int32 \<times> poll_thread" where
  "mm_camera_poll_sig_async cmd t = (0, snd (pipe_write cmd t))"

definition mm_camera_poll_sig :: "pipe_cmd \<Rightarrow> poll_thread \<Rightarrow> (int32 \<times> poll_thread) option" where
  "mm_camera_poll_sig cmd t =
     (let (ok, t) = pipe_write cmd t
      in if \<not> ok then Some (0, t)
         else let t = drain_pipe (length (pt_pipe t)) t
              in if pt_status t then Some (0, t) else None)"

definition mm_camera_poll_thread_notify_entries_updated ::
  "poll_thread \<Rightarrow> (int32 \<times> poll_thread) option" where
  "mm_camera_poll_thread_notify_entries_updated t =
     mm_camera_poll_sig MM_CAMERA_PIPE_CMD_POLL_ENTRIES_UPDATED t"

definition mm_camera_poll_thread_commit_updates ::
  "poll_thread \<Rightarrow> (int32 \<times> poll_thread) option" where
  "mm_camera_poll_thread_commit_updates t = mm_camera_poll_sig MM_CAMERA_PIPE_CMD_COMMIT t"

definition poll_idx :: "poll_thread \<Rightarrow> int32 \<Rightarrow> nat" where
  "poll_idx t handler =
     (if pt_type t = MM_CAMERA_POLL_TYPE_DATA then mm_camera_util_get_index_by_handler handler
      else 0)"

definition poll_sig_by ::
  "call_type \<Rightarrow> poll_thread \<Rightarrow> (int32 \<times> poll_thread) option" where
  "poll_sig_by ct t =
     (case ct of
        mm_camera_sync_call \<Rightarrow> mm_camera_poll_sig MM_CAMERA_PIPE_CMD_POLL_ENTRIES_UPDATED t
      | mm_camera_async_call \<Rightarrow>
          Some (mm_camera_poll_sig_async MM_CAMERA_PIPE_CMD_POLL_ENTRIES_UPDATED_ASYNC t))"

definition mm_camera_poll_thread_add_poll_fd ::
  "int32 \<Rightarrow> int32 \<Rightarrow> ptr \<Rightarrow> call_type \<Rightarrow> poll_thread \<Rightarrow> (int32 \<times> poll_thread) option" where
  "mm_camera_poll_thread_add_poll_fd handler fd user ct t =
     (let idx = poll_idx t handler
      in if idx < MAX_STREAM_NUM_IN_BUNDLE
         then poll_sig_by ct (t\<lparr>pt_entries := (pt_entries t)[idx :=
                \<lparr>pe_fd = fd, pe_notify_cb = True, pe_handler = handler, pe_user_data = user\<rparr>]\<rparr>)
         else Some (-1, t))"

definition mm_camera_poll_thread_del_poll_fd ::
  "int32 \<Rightarrow> call_type \<Rightarrow> poll_thread \<Rightarrow> (int32 \<times> poll_thread) option" where
  "mm_camera_poll_thread_del_poll_fd handler ct t =
     (let idx = poll_idx t handler
      in if idx < MAX_STREAM_NUM_IN_BUNDLE \<and> pe_handler (pt_entries t ! idx) = handler
         then poll_sig_by ct (t\<lparr>pt_entries := (pt_entries t)[idx := (pt_entries t ! idx)
                \<lparr>pe_fd := -1, pe_handler := 0, pe_notify_cb := False\<rparr>]\<rparr>)
         else if MAX_STREAM_NUM_IN_BUNDLE \<le> idx \<or> pe_handler (pt_entries t ! idx) \<noteq> 0
         then Some (-1, t)
         else Some (0, t))"

text \<open>
  Launching: the descriptors of the pipe come from the system.  The new thread polls the pipe,
  signals its start and enters its loop.
\<close>

definition mm_camera_poll_thread :: "poll_thread \<Rightarrow> poll_thread" where
  "mm_camera_poll_thread t =
     mm_camera_poll_set_state True (mm_camera_poll_sig_done (t\<lparr>pt_fds := pt_fds t @ [pt_pfd t]\<rparr>))"

definition mm_camera_poll_thread_launch ::
  "poll_type \<Rightarrow> int32 \<Rightarrow> int32 \<Rightarrow> poll_thread \<Rightarrow> int32 \<times> poll_thread" where
  "mm_camera_poll_thread_launch ty pipe_rc read_fd t =
     (let t = t\<lparr>pt_type := ty, pt_fds := map (\<lambda>_. -1) (pt_fds t),
                pt_entries := map (\<lambda>e. e\<lparr>pe_fd := -1\<rparr>) (pt_entries t), pt_pfd := -1\<rparr>
      in if pipe_rc <s 0 then (-1, t)
         else (pipe_rc, mm_camera_poll_thread (t\<lparr>pt_pfd := read_fd, pt_pipe := [], pt_status := False\<rparr>)))"

text \<open>Release waits for the thread to end, closes the pipe and clears the object.\<close>

definition cleared_entry :: poll_entry where
  "cleared_entry = \<lparr>pe_fd = 0, pe_notify_cb = False, pe_handler = 0, pe_user_data = NULL\<rparr>"

definition mm_camera_poll_thread_release :: "poll_thread \<Rightarrow> (int32 \<times> poll_thread) option" where
  "mm_camera_poll_thread_release t =
     (if \<not> pt_polling t then Some (0, t)
      else case mm_camera_poll_sig MM_CAMERA_PIPE_CMD_EXIT t of
          None \<Rightarrow> None
        | Some (_, t') \<Rightarrow>
            if pt_polling t' then None
            else Some (0, t'\<lparr>pt_type := MM_CAMERA_POLL_TYPE_EVT,
                   pt_entries := replicate MAX_STREAM_NUM_IN_BUNDLE cleared_entry,
                   pt_fds := [], pt_pfd := -1, pt_pipe := [], pt_status := False\<rparr>))"

section \<open>The command thread\<close>

text \<open>
  mm\_camera\_cmd\_thread\_t.  A node is a command for the callback or, as None, the exit command.
  The thread takes all nodes that are queued before it looks whether it has to stop.
\<close>

record 'a cmd_thread =
  is_active :: bool
  cmd_queue :: "'a option list"

fun mm_camera_cmd_thread ::
  "('a \<Rightarrow> 's \<Rightarrow> 's) \<Rightarrow> 'a option list \<Rightarrow> 's \<Rightarrow> 's" where
  "mm_camera_cmd_thread cb [] s = s"
| "mm_camera_cmd_thread cb (Some a # ns) s = mm_camera_cmd_thread cb ns (cb a s)"
| "mm_camera_cmd_thread cb (None # ns) s = mm_camera_cmd_thread cb ns s"

definition mm_camera_cmd_thread_launch :: "'a cmd_thread \<Rightarrow> 'a cmd_thread" where
  "mm_camera_cmd_thread_launch t = t\<lparr>cmd_queue := [], is_active := True\<rparr>"

definition mm_camera_cmd_thread_destroy :: "'a cmd_thread \<Rightarrow> 'a cmd_thread" where
  "mm_camera_cmd_thread_destroy t = t\<lparr>cmd_queue := [], is_active := False\<rparr>"

text \<open>
  Stopping queues the exit command and joins the thread, which first handles what is queued.  The
  state of the caller is the argument s, with the thread in a field of it.
\<close>

definition mm_camera_cmd_thread_stop ::
  "('a \<Rightarrow> 's \<Rightarrow> 's) \<Rightarrow> ('s \<Rightarrow> 'a cmd_thread) \<Rightarrow> (('a cmd_thread \<Rightarrow> 'a cmd_thread) \<Rightarrow> 's \<Rightarrow> 's) \<Rightarrow>
   bool \<Rightarrow> 's \<Rightarrow> int32 \<times> 's" where
  "mm_camera_cmd_thread_stop cb get upd mem s =
     (if \<not> mem then (-1, s)
      else (0, mm_camera_cmd_thread cb (cmd_queue (get s) @ [None])
                 (upd (\<lambda>t. t\<lparr>cmd_queue := []\<rparr>) s)))"

definition mm_camera_cmd_thread_release ::
  "('a \<Rightarrow> 's \<Rightarrow> 's) \<Rightarrow> ('s \<Rightarrow> 'a cmd_thread) \<Rightarrow> (('a cmd_thread \<Rightarrow> 'a cmd_thread) \<Rightarrow> 's \<Rightarrow> 's) \<Rightarrow>
   bool \<Rightarrow> 's \<Rightarrow> int32 \<times> 's" where
  "mm_camera_cmd_thread_release cb get upd mem s =
     (let (rc, s) = mm_camera_cmd_thread_stop cb get upd mem s
      in if rc = 0 then (rc, upd mm_camera_cmd_thread_destroy s) else (rc, s))"

end
