(* ===== verification/St_Stream.thy ===== *)
theory St_Stream
  imports St_Thread St_Layout
begin

text \<open>
  The object of a stream and the operations on its buffers
  (src/camera/QCamera2/stack/mm-camera-interface/src/mm\_camera\_stream.c, inc/mm\_camera.h).

  The calls that leave the component (the ioctls of the driver, messages to the camera daemon,
  the memory operations and callbacks of the HAL, memory allocation) are appended to a trace and
  answered by an arbitrary function of the trace.  A callback returns before its receiver acts on
  the buffer.  The poll thread of the channel is part of the state; a synchronous call to it that
  would wait for ever sets the flag blocked.  The build defines DAEMON\_PRESENT.
\<close>

section \<open>Data\<close>

datatype stream_state =
    MM_STREAM_STATE_NOTUSED
  | MM_STREAM_STATE_INITED
  | MM_STREAM_STATE_ACQUIRED
  | MM_STREAM_STATE_CFG
  | MM_STREAM_STATE_BUFFED
  | MM_STREAM_STATE_REG
  | MM_STREAM_STATE_ACTIVE

text \<open>
  mm\_camera\_buf\_def\_t with the user buffer of the batch mode; timestamps are integers, indices
  are natural numbers.  The user buffer's container in shared memory, which the driver reads and
  fills, is found by its address.
\<close>

record user_buf =
  bufs_used :: u8
  buf_in_use :: bool
  ub_idx :: "int list"

record frame_buf =
  fb_stream_id :: int32
  fb_stream_type :: stream_type
  fb_userptr :: bool
  fb_idx :: nat
  fb_uv_subsampled :: bool
  fb_sec :: int
  fb_nsec :: int
  fb_frame_idx :: int32
  fb_num_planes :: u8
  fb_user :: user_buf
  fb_fd :: int32
  fb_buffer :: ptr
  fb_flags :: int32

record container =
  cont_cnt :: nat
  cont_idx :: "int list"

text \<open>A pointer to a buffer: into the array buf or into the array plane\_buf.\<close>

datatype buf_ref = Buf nat | Plane nat

record frame_info =
  fi_stream_id :: int32
  fi_frame_idx :: int32
  fi_buf :: buf_ref

text \<open>mm\_stream\_buf\_status\_t and mm\_stream\_data\_cb\_t.\<close>

record buf_status =
  buf_refcnt :: u8
  initial_reg_flag :: bool
  in_kernel :: bool
  map_status :: int

record data_cb =
  cb_fn :: ptr
  cb_user :: ptr
  cb_count :: u8
  cb_sync :: bool

text \<open>The fields of cam\_stream\_info\_t that the layout does not read.\<close>

record stream_mode =
  sm_batch :: bool
  sm_num_bufs :: u8
  sm_frame_buf_cnt :: u8
  sm_user_size :: int32
  sm_frame_interval :: int
  sm_svr_id :: int32
  sm_no_frame_expected :: bool

text \<open>Which of the optional memory operations are set.\<close>

record mem_vtbl =
  has_set_config_ops :: bool
  has_invalidate_buf :: bool
  has_clean_invalidate_buf :: bool

datatype mapping_type =
    CAM_MAPPING_BUF_TYPE_STREAM_BUF
  | CAM_MAPPING_BUF_TYPE_STREAM_USER_BUF
  | CAM_MAPPING_BUF_TYPE_OTHER nat

record buf_map =
  bm_type :: mapping_type
  bm_frame_idx :: nat
  bm_plane_idx :: int
  bm_fd :: int32
  bm_size :: nat
  bm_stream_id :: int32

section \<open>Calls and their answers\<close>

datatype s_call =
    S_get_dev_name
  | S_open
  | S_close int32
  | S_ioctl_s_parm
  | S_ioctl_s_fmt int32 int32 v4l2_pix_fmt "int32 list"
  | S_ioctl_reqbufs u8
  | S_ioctl_qbuf nat int32
  | S_ioctl_dqbuf nat int32
  | S_ioctl_streamon
  | S_ioctl_streamoff
  | S_ioctl_return_buf nat
  | S_s_ctrl_parm
  | S_g_ctrl_parm
  | S_s_ctrl_info_sync
  | S_send_map buf_map
  | S_send_maps "buf_map list"
  | S_send_unmap mapping_type nat int
  | S_set_config_ops
  | S_get_bufs
  | S_put_bufs
  | S_invalidate nat
  | S_clean_invalidate nat
  | S_malloc
  | S_callback ptr ptr bool nat
  | S_notify_channel frame_info
  | S_notify_linked frame_info
  | S_wait_mapping
  | S_signal_mapping

type_synonym s_trace = "(s_call \<times> int32) list"

text \<open>What a dequeue, an allocation and a deallocation answer besides their status.\<close>

record dequeued =
  dq_rc :: int32
  dq_index :: nat
  dq_sequence :: int32
  dq_sec :: int
  dq_usec :: int
  dq_flags :: int32
  dq_uv_format :: bool
  dq_container :: "container option"

record allocation =
  al_maps :: "buf_map list option"
  al_num :: u8
  al_flags :: "bool list"
  al_bufs :: "frame_buf list"
  al_planes :: "frame_buf list option"

record s_env =
  answer :: "s_trace \<Rightarrow> s_call \<Rightarrow> int32"
  frame_of :: "s_trace \<Rightarrow> dequeued"
  memory :: "s_trace \<Rightarrow> allocation"
  unmapped_by_put :: "s_trace \<Rightarrow> (mapping_type \<times> nat \<times> int) list"
  extended_mode :: "s_trace \<Rightarrow> int32"
  venus_sizes :: venus

text \<open>mm\_stream\_t.  The array buf\_status is a function of the index.\<close>

record mm_stream =
  my_hdl :: int32
  server_stream_id :: int32
  s_fd :: int32
  s_state :: stream_state
  lay :: stream_layout
  mode :: stream_mode
  cmd_thread :: "frame_info cmd_thread"
  buf_cb :: "data_cb list"
  buf_num :: u8
  bufs :: "frame_buf list option"
  conts :: "ptr \<Rightarrow> container"
  status_of :: "nat \<Rightarrow> buf_status"
  plane_bufs :: "frame_buf list option"
  plane_buf_num :: u8
  cur_buf_idx :: int
  cur_bufs_staged :: u8
  has_channel :: bool
  is_bundled :: bool
  is_linked :: bool
  mem_ops :: mem_vtbl
  queued_buffer_count :: u8
  prev_frameID :: int32
  prev_timestamp :: int
  poll :: poll_thread
  blocked :: bool
  env :: s_env
  trace :: s_trace

definition MM_CAMERA_STREAM_BUF_CB_MAX :: nat where
  "MM_CAMERA_STREAM_BUF_CB_MAX = 4"

definition MM_CAMERA_MAX_NUM_FRAMES :: nat where
  "MM_CAMERA_MAX_NUM_FRAMES = 64"

definition s_ask :: "s_call \<Rightarrow> mm_stream \<Rightarrow> int32 \<times> mm_stream" where
  "s_ask c s = (let rc = answer (env s) (trace s) c in (rc, s\<lparr>trace := trace s @ [(c, rc)]\<rparr>))"

definition s_tell :: "s_call \<Rightarrow> mm_stream \<Rightarrow> mm_stream" where
  "s_tell c s = snd (s_ask c s)"

definition set_status :: "nat \<Rightarrow> (buf_status \<Rightarrow> buf_status) \<Rightarrow> mm_stream \<Rightarrow> mm_stream" where
  "set_status i f s = s\<lparr>status_of := (status_of s)(i := f (status_of s i))\<rparr>"

text \<open>Reading and writing a buffer through a pointer.\<close>

definition buf_at :: "mm_stream \<Rightarrow> buf_ref \<Rightarrow> frame_buf" where
  "buf_at s r = (case r of Buf i \<Rightarrow> the (bufs s) ! i | Plane i \<Rightarrow> the (plane_bufs s) ! i)"

definition put_buf :: "buf_ref \<Rightarrow> (frame_buf \<Rightarrow> frame_buf) \<Rightarrow> mm_stream \<Rightarrow> mm_stream" where
  "put_buf r f s =
     (case r of
        Buf i \<Rightarrow> s\<lparr>bufs := map_option (\<lambda>bs. bs[i := f (bs ! i)]) (bufs s)\<rparr>
      | Plane i \<Rightarrow> s\<lparr>plane_bufs := map_option (\<lambda>bs. bs[i := f (bs ! i)]) (plane_bufs s)\<rparr>)"

text \<open>Calls to the poll thread.\<close>

definition poll_call ::
  "(poll_thread \<Rightarrow> (int32 \<times> poll_thread) option) \<Rightarrow> mm_stream \<Rightarrow> int32 \<times> mm_stream" where
  "poll_call f s =
     (case f (poll s) of
        None \<Rightarrow> (0, s\<lparr>blocked := True\<rparr>)
      | Some (rc, t) \<Rightarrow> (rc, s\<lparr>poll := t\<rparr>))"

definition add_poll :: "call_type \<Rightarrow> mm_stream \<Rightarrow> int32 \<times> mm_stream" where
  "add_poll ct s =
     poll_call (mm_camera_poll_thread_add_poll_fd (my_hdl s) (s_fd s) (unat (my_hdl s)) ct) s"

definition del_poll :: "call_type \<Rightarrow> mm_stream \<Rightarrow> int32 \<times> mm_stream" where
  "del_poll ct s = poll_call (mm_camera_poll_thread_del_poll_fd (my_hdl s) ct) s"

section \<open>Queueing a buffer to the driver\<close>

text \<open>
  The return value of the call that adds the descriptor to the poll thread is overwritten by that
  of the ioctl.
\<close>

definition one_more_queued :: "mm_stream \<Rightarrow> mm_stream" where
  "one_more_queued s =
     (let s = s\<lparr>queued_buffer_count := queued_buffer_count s + 1\<rparr>
      in if queued_buffer_count s = 1 then snd (add_poll mm_camera_async_call s) else s)"

definition one_less_queued :: "mm_stream \<Rightarrow> mm_stream" where
  "one_less_queued s =
     (let s = s\<lparr>queued_buffer_count := queued_buffer_count s - 1\<rparr>
      in if queued_buffer_count s = 0 then snd (del_poll mm_camera_async_call s) else s)"

definition mm_stream_qbuf :: "frame_buf \<Rightarrow> mm_stream \<Rightarrow> int32 \<times> mm_stream" where
  "mm_stream_qbuf b s =
     (let len = (if fb_userptr b then 1 else ucast (fb_num_planes b));
          (rc, s) = (if has_invalidate_buf (mem_ops s) then s_ask (S_invalidate (fb_idx b)) s
                     else (0, s))
      in if rc <s 0 then (rc, s)
         else
           let (rc, s) = s_ask (S_ioctl_qbuf (fb_idx b) len) (one_more_queued s)
           in (rc, if rc <s 0 then one_less_queued s else s))"

text \<open>
  Batch mode.  A container is queued with the indices of its plane buffers, which are reset to -1
  when the driver has taken it.
\<close>

definition queue_container :: "nat \<Rightarrow> frame_buf \<Rightarrow> mm_stream \<Rightarrow> int32 \<times> mm_stream" where
  "queue_container i frame s =
     (let b = buf_at s (Buf i); n = unat (bufs_used (fb_user b));
          c = conts s (fb_buffer b);
          s = s\<lparr>conts := (conts s)(fb_buffer b := c\<lparr>cont_cnt := n,
                 cont_idx := take n (ub_idx (fb_user b)) @ drop n (cont_idx c)\<rparr>)\<rparr>;
          (rc, s) = mm_stream_qbuf frame s
      in if rc <s 0 then (rc, s)
         else (rc, set_status i (\<lambda>st. st\<lparr>in_kernel := True\<rparr>)
                (put_buf (Buf i) (\<lambda>b. b\<lparr>fb_user := (fb_user b)\<lparr>
                     ub_idx := replicate n (-1) @ drop n (ub_idx (fb_user b)),
                     buf_in_use := True\<rparr>\<rparr>) s)))"

definition drop_ref :: "nat \<Rightarrow> mm_stream \<Rightarrow> mm_stream" where
  "drop_ref i s = set_status i (\<lambda>st. st\<lparr>buf_refcnt := buf_refcnt st - 1\<rparr>) s"

definition add_ref :: "nat \<Rightarrow> u8 \<Rightarrow> mm_stream \<Rightarrow> mm_stream" where
  "add_ref i n s = set_status i (\<lambda>st. st\<lparr>buf_refcnt := buf_refcnt st + n\<rparr>) s"

definition find_free_container :: "mm_stream \<Rightarrow> nat option" where
  "find_free_container s =
     find (\<lambda>i. \<not> in_kernel (status_of s i) \<and> \<not> buf_in_use (fb_user (buf_at s (Buf i))))
       [0..<unat (buf_num s)]"

text \<open>
  A plane buffer is staged in the container that is being filled.  The index of the slot is the
  local variable count, which is 0 and never changed.
\<close>

definition stage_plane :: "nat \<Rightarrow> nat \<Rightarrow> mm_stream \<Rightarrow> int32 \<times> mm_stream" where
  "stage_plane index plane s =
     (let s = put_buf (Buf index) (\<lambda>b. b\<lparr>fb_user := (fb_user b)\<lparr>
                ub_idx := (ub_idx (fb_user b))[0 := int plane]\<rparr>\<rparr>) s;
          s = s\<lparr>cur_bufs_staged := cur_bufs_staged s + 1\<rparr>
      in if cur_bufs_staged s = bufs_used (fb_user (buf_at s (Buf index))) then
           let s = drop_ref index s
           in if buf_refcnt (status_of s index) = 0 then
                let (rc, s) = queue_container index (buf_at s (Buf index)) s
                in if rc <s 0 then (rc, s)
                   else (rc, s\<lparr>cur_bufs_staged := 0, cur_buf_idx := -1\<rparr>)
              else (0, s)
         else (0, s))"

definition mm_stream_write_user_buf :: "frame_buf \<Rightarrow> mm_stream \<Rightarrow> int32 \<times> mm_stream" where
  "mm_stream_write_user_buf b s =
     (if fb_userptr b then
        let s = drop_ref (fb_idx b) s
        in if buf_refcnt (status_of s (fb_idx b)) = 0 then queue_container (fb_idx b) b s else (0, s)
      else
        let (index, s) =
              (if cur_buf_idx s < 0 \<or> uint (buf_num s) \<le> cur_buf_idx s then
                 case find_free_container s of
                   None \<Rightarrow> (None, s)
                 | Some i \<Rightarrow> (Some i, s\<lparr>cur_buf_idx := int i\<rparr>)
               else (Some (nat (cur_buf_idx s)), s))
        in case index of None \<Rightarrow> (-1, s) | Some i \<Rightarrow> stage_plane i (fb_idx b) s)"

text \<open>
  A client gives a buffer back: the last reference queues it to the driver.
\<close>

definition mm_stream_buf_done :: "buf_ref \<Rightarrow> mm_stream \<Rightarrow> int32 \<times> mm_stream" where
  "mm_stream_buf_done r s =
     (let b = buf_at s r; i = fb_idx b
      in if buf_refcnt (status_of s i) = 0 then (-1, s)
         else if sm_batch (mode s) then mm_stream_write_user_buf b s
         else
           let s = drop_ref i s
           in if buf_refcnt (status_of s i) = 0 then
                let (rc, s) = mm_stream_qbuf b s
                in if rc <s 0 then (rc, s)
                   else (rc, set_status i (\<lambda>st. st\<lparr>in_kernel := True\<rparr>) s)
              else (0, s))"

definition mm_stream_cancel_buf :: "nat \<Rightarrow> mm_stream \<Rightarrow> int32 \<times> mm_stream" where
  "mm_stream_cancel_buf i s =
     (if buf_refcnt (status_of s i) \<noteq> 0 then (-1, s)
      else if sm_batch (mode s) then (0, s)
      else s_ask (S_ioctl_return_buf i) s)"

definition mm_stream_get_queued_buf_count :: "mm_stream \<Rightarrow> int32" where
  "mm_stream_get_queued_buf_count s = scast (queued_buffer_count s)"

section \<open>A frame from the driver\<close>

text \<open>
  Batch mode: the container that comes back names its plane buffers, which get consecutive frame
  numbers and evenly spaced timestamps.  The difference of the timestamps is cut to 32 bits.
\<close>

definition plane_times ::
  "nat \<Rightarrow> int32 \<Rightarrow> int \<Rightarrow> int \<Rightarrow> bool \<Rightarrow> container \<Rightarrow> mm_stream \<Rightarrow> mm_stream" where
  "plane_times n frame interval prev uv c s =
     fold (\<lambda>k s. let t = int k * interval + prev in
             put_buf (Plane (nat (cont_idx c ! k)))
               (\<lambda>b. b\<lparr>fb_frame_idx := frame + of_nat k, fb_sec := t sdiv 1000000000,
                      fb_nsec := t - t sdiv 1000000000 * 1000000000, fb_uv_subsampled := uv\<rparr>) s)
       [0..<n] s"

definition mm_stream_read_user_buf :: "nat \<Rightarrow> mm_stream \<Rightarrow> int32 \<times> mm_stream" where
  "mm_stream_read_user_buf i s =
     (let b = buf_at s (Buf i); c = conts s (fb_buffer b); n = cont_cnt c
      in if fb_buffer b \<noteq> fb_buffer (buf_at s (Buf (fb_idx b))) then (-1, s)
         else
           let frame = (if fb_frame_idx b = 1 then fb_frame_idx b
                        else (fb_frame_idx b - 1) * of_nat n);
               now = fb_sec b * 1000000000 + fb_nsec b
           in if now \<le> prev_timestamp s then (0, snd (mm_stream_qbuf b s))
              else
                let (interval, s) =
                      (if prev_timestamp s = 0 \<or> prev_frameID s \<noteq> fb_frame_idx b + 1 then
                         let interval = sint (word_of_int (sm_frame_interval (mode s) * 1000000) :: int32)
                         in (interval, s\<lparr>prev_timestamp := now - int n * interval\<rparr>)
                       else (uint (word_of_int (now - prev_timestamp s) :: int32) div int n, s));
                    prev = prev_timestamp s;
                    s = put_buf (Buf i) (\<lambda>b. b\<lparr>fb_user := (fb_user b)\<lparr>
                          ub_idx := take n (cont_idx c) @ drop n (ub_idx (fb_user b))\<rparr>\<rparr>) s;
                    s = plane_times n frame interval prev (fb_uv_subsampled b) c s;
                    s = put_buf (Buf i) (\<lambda>b. b\<lparr>fb_sec := prev sdiv 1000000000,
                          fb_nsec := prev - prev sdiv 1000000000 * 1000000000,
                          fb_user := (fb_user b)\<lparr>bufs_used := of_nat n, buf_in_use := True\<rparr>\<rparr>) s
                in (0, s\<lparr>prev_timestamp := now, prev_frameID := fb_frame_idx b\<rparr>))"

text \<open>
  Dequeueing.  The answer of the driver writes the container of a user buffer before the stream
  reads it.  The result of the last cache operation is the result of the call.
\<close>

definition dequeue_answer :: "u8 \<Rightarrow> mm_stream \<Rightarrow> dequeued \<times> mm_stream" where
  "dequeue_answer n s =
     (let d = frame_of (env s) (trace s)
      in (d, s\<lparr>trace := trace s @ [(S_ioctl_dqbuf (dq_index d) (ucast n), dq_rc d)]\<rparr>))"

definition fill_frame :: "dequeued \<Rightarrow> mm_stream \<Rightarrow> mm_stream" where
  "fill_frame d s =
     (let i = dq_index d;
          s = put_buf (Buf i) (\<lambda>b. b\<lparr>fb_stream_id := my_hdl s, fb_idx := i,
                fb_frame_idx := dq_sequence d, fb_sec := dq_sec d, fb_nsec := dq_usec d * 1000,
                fb_flags := dq_flags d, fb_uv_subsampled := dq_uv_format d\<rparr>) s
      in case dq_container d of
           None \<Rightarrow> s
         | Some c \<Rightarrow> s\<lparr>conts := (conts s)(fb_buffer (buf_at s (Buf i)) := c)\<rparr>)"

definition mm_stream_read_msm_frame ::
  "u8 \<Rightarrow> mm_stream \<Rightarrow> int32 \<times> frame_info option \<times> mm_stream" where
  "mm_stream_read_msm_frame n s =
     (let (d, s) = dequeue_answer n s
      in if dq_rc d <s 0 then (dq_rc d, None, s)
         else
           let s = one_less_queued s;
               i = dq_index d;
               info = \<lparr>fi_stream_id = my_hdl s, fi_frame_idx = dq_sequence d, fi_buf = Buf i\<rparr>;
               s = fill_frame d s;
               s = (if fb_userptr (buf_at s (Buf i)) then snd (mm_stream_read_user_buf i s) else s);
               (rc, s) = (if has_clean_invalidate_buf (mem_ops s) then s_ask (S_clean_invalidate i) s
                          else (dq_rc d, s))
           in (rc, Some info, s))"

text \<open>The callbacks of the synchronous kind, which get the buffer without a reference.\<close>

definition count_down :: "data_cb \<Rightarrow> data_cb" where
  "count_down c =
     (if 0 <s cb_count c then
        let c = c\<lparr>cb_count := cb_count c - 1\<rparr>
        in if cb_count c = 0 then c\<lparr>cb_fn := NULL, cb_user := NULL\<rparr> else c
      else c)"

definition mm_stream_dispatch_sync_data :: "nat \<Rightarrow> frame_info \<Rightarrow> mm_stream \<Rightarrow> mm_stream" where
  "mm_stream_dispatch_sync_data k info s =
     (let c = buf_cb s ! k
      in if cb_sync c \<and> cb_count c \<noteq> 0 then
           let s = s_tell (S_callback (cb_fn c) (cb_user c) True (fb_idx (buf_at s (fi_buf info)))) s
           in s\<lparr>buf_cb := (buf_cb s)[k := count_down c]\<rparr>
         else s)"

text \<open>
  The first argument says whether there is a channel to tell. The own channel is there while
  has\_channel holds; a link sets the pointer to the other channel and the flag is\_linked together,
  so a linked stream has one.
\<close>

definition mm_stream_notify_channel :: "bool \<Rightarrow> s_call \<Rightarrow> mm_stream \<Rightarrow> int32 \<times> mm_stream" where
  "mm_stream_notify_channel ch_obj c s =
     (if \<not> ch_obj then (-19, s)
      else let (m, s) = s_ask c s in (if m = 0 then -12 else 0, s))"

definition mm_stream_handle_rcvd_buf :: "frame_info \<Rightarrow> bool \<Rightarrow> mm_stream \<Rightarrow> mm_stream" where
  "mm_stream_handle_rcvd_buf info has_cb s =
     (let s = (if is_bundled s then snd (mm_stream_notify_channel (has_channel s) (S_notify_channel info) s) else s);
          s = (if is_linked s then
                 snd (mm_stream_notify_channel True (S_notify_linked info)
                   (add_ref (fb_idx (buf_at s (fi_buf info))) 1 s))
               else s)
      in if has_cb \<and> is_active (cmd_thread s) then
           let (m, s) = s_ask S_malloc s
           in if m \<noteq> 0
              then s\<lparr>cmd_thread := (cmd_thread s)\<lparr>cmd_queue := cmd_queue (cmd_thread s) @ [Some info]\<rparr>\<rparr>
              else s
         else s)"

definition async_slot :: "data_cb \<Rightarrow> bool" where
  "async_slot c \<longleftrightarrow> cb_fn c \<noteq> NULL \<and> \<not> cb_sync c"

definition has_async_cb :: "mm_stream \<Rightarrow> bool" where
  "has_async_cb s = list_ex async_slot (take MM_CAMERA_STREAM_BUF_CB_MAX (buf_cb s))"

definition mm_stream_data_notify :: "mm_stream \<Rightarrow> mm_stream" where
  "mm_stream_data_notify s =
     (if s_state s \<noteq> MM_STREAM_STATE_ACTIVE then s
      else
        let len = (if sm_batch (mode s) then 1 else ucast (num_planes (lay_frame_offset (lay s))));
            (rc, info, s) = mm_stream_read_msm_frame len s
        in case info of
             None \<Rightarrow> s
           | Some info \<Rightarrow>
               if rc \<noteq> 0 then s
               else
                 let i = fb_idx (buf_at s (fi_buf info));
                     has_cb = has_async_cb s;
                     s = fold (\<lambda>k s. if cb_fn (buf_cb s ! k) \<noteq> NULL \<and> cb_sync (buf_cb s ! k)
                                     then mm_stream_dispatch_sync_data k info s else s)
                           [0..<MM_CAMERA_STREAM_BUF_CB_MAX] s;
                     s = set_status i (\<lambda>st. st\<lparr>in_kernel := False\<rparr>) s;
                     s = (if is_bundled s then add_ref i 1 s else s);
                     s = add_ref i (if has_cb then 1 else 0) s
                 in mm_stream_handle_rcvd_buf info has_cb s)"

text \<open>
  The callbacks of the asynchronous kind, called by the command thread; each call takes a
  reference for its receiver, and the reference of the queued node is dropped at the end.
\<close>

definition app_callback :: "frame_info \<Rightarrow> nat \<Rightarrow> mm_stream \<Rightarrow> mm_stream" where
  "app_callback info k s =
     (let c = buf_cb s ! k; i = fb_idx (buf_at s (fi_buf info))
      in if async_slot c then
           let s = (if cb_count c \<noteq> 0
                    then s_tell (S_callback (cb_fn c) (cb_user c) False i) (add_ref i 1 s) else s)
           in s\<lparr>buf_cb := (buf_cb s)[k := count_down c]\<rparr>
         else s)"

definition mm_stream_dispatch_app_data :: "frame_info \<Rightarrow> mm_stream \<Rightarrow> mm_stream" where
  "mm_stream_dispatch_app_data info s =
     snd (mm_stream_buf_done (fi_buf info)
       (fold (app_callback info) [0..<MM_CAMERA_STREAM_BUF_CB_MAX] s))"

end
