(* ===== verification/St_Fsm.thy ===== *)
theory St_Fsm
  imports St_Stream
begin

text \<open>
  The state machine of a stream: configuration, mapping, allocation and registration of its
  buffers, switching the stream on and off, and the handlers of the six states
  (src/camera/QCamera2/stack/mm-camera-interface/src/mm\_camera\_stream.c).
\<close>

section \<open>Mapping buffers to the daemon\<close>

text \<open>
  Whether a client that waits for the mappings must go on waiting: a failed mapping ends the wait,
  a buffer that is with the driver and not mapped prolongs it.
\<close>

fun mapping_loop :: "buf_status list \<Rightarrow> bool \<Rightarrow> bool" where
  "mapping_loop [] wait = wait"
| "mapping_loop (st # sts) wait =
     (if map_status st = 0 \<and> in_kernel st then mapping_loop sts True
      else if map_status st < 0 then False
      else mapping_loop sts wait)"

definition mm_stream_need_wait_for_mapping :: "mm_stream \<Rightarrow> bool" where
  "mm_stream_need_wait_for_mapping s =
     mapping_loop (map (status_of s) [0..<unat (buf_num s)]) False"

definition signal_mapping :: "mm_stream \<Rightarrow> mm_stream" where
  "signal_mapping s = (if mm_stream_need_wait_for_mapping s then s else s_tell S_signal_mapping s)"

definition is_stream_buf :: "mapping_type \<Rightarrow> mm_stream \<Rightarrow> bool" where
  "is_stream_buf ty s \<longleftrightarrow>
     ty = CAM_MAPPING_BUF_TYPE_STREAM_BUF \<or>
     ty = CAM_MAPPING_BUF_TYPE_STREAM_USER_BUF \<and> sm_batch (mode s)"

definition mm_stream_map_buf :: "buf_map \<Rightarrow> mm_stream \<Rightarrow> int32 \<times> mm_stream" where
  "mm_stream_map_buf m s =
     (if \<not> has_channel s then (-1, s)
      else
        let (rc, s) = s_ask (S_send_map (m\<lparr>bm_stream_id := server_stream_id s\<rparr>)) s
        in if is_stream_buf (bm_type m) s then
             (rc, signal_mapping (set_status (bm_frame_idx m)
                    (\<lambda>st. st\<lparr>map_status := (if rc <s 0 then -1 else 1)\<rparr>) s))
           else (rc, s))"

text \<open>A list of mappings marks the first buffers, whatever the indices of the list.\<close>

definition mm_stream_map_bufs :: "buf_map list \<Rightarrow> mm_stream \<Rightarrow> int32 \<times> mm_stream" where
  "mm_stream_map_bufs ms s =
     (if \<not> has_channel s then (-1, s)
      else if ms = [] then (0, s)
      else
        let (rc, s) = s_ask (S_send_maps (map (\<lambda>m. m\<lparr>bm_stream_id := server_stream_id s\<rparr>) ms)) s
        in if is_stream_buf (bm_type (hd ms)) s then
             (rc, signal_mapping (fold (\<lambda>i. set_status i
                    (\<lambda>st. st\<lparr>map_status := (if rc <s 0 then -1 else 1)\<rparr>)) [0..<length ms] s))
           else (rc, s))"

definition mm_stream_unmap_buf ::
  "mapping_type \<Rightarrow> nat \<Rightarrow> int \<Rightarrow> mm_stream \<Rightarrow> int32 \<times> mm_stream" where
  "mm_stream_unmap_buf ty i plane s =
     (if \<not> has_channel s then (-1, s)
      else
        let (rc, s) = s_ask (S_send_unmap ty i plane) s
        in (rc, set_status i (\<lambda>st. st\<lparr>map_status := 0\<rparr>) s))"

section \<open>Configuration\<close>

record stream_config =
  cfg_info :: stream_info
  cfg_mode :: stream_mode
  cfg_padding :: cam_padding
  cfg_mem :: mem_vtbl
  cfg_cb_sync :: ptr
  cfg_cb :: ptr
  cfg_userdata :: ptr

definition mm_stream_sync_info :: "mm_stream \<Rightarrow> int32 \<times> mm_stream" where
  "mm_stream_sync_info s =
     (let s = s\<lparr>mode := (mode s)\<lparr>sm_svr_id := server_stream_id s\<rparr>\<rparr>;
          (rc, l) = mm_stream_calc_offset (venus_sizes (env s)) (lay s);
          s = s\<lparr>lay := l\<rparr>
      in if rc = 0 then s_ask S_s_ctrl_info_sync s else (rc, s))"

definition mm_stream_set_fmt :: "mm_stream \<Rightarrow> int32 \<times> mm_stream" where
  "mm_stream_set_fmt s =
     (let si = lay_info (lay s); dim = si_dim si; b = lay_frame_offset (lay s) in
      if dim_width dim = 0 \<or> dim_height dim = 0 then (-1, s)
      else
        let sizes = (if sm_batch (mode s) then [sm_user_size (mode s)]
                     else map (\<lambda>i. mp_len (mp b ! i)) [0..<unat (ucast (num_planes b) :: u8)])
        in s_ask (S_ioctl_s_fmt (dim_width dim) (dim_height dim)
                    (mm_stream_get_v4l2_fmt (si_fmt si)) sizes) s)"

text \<open>
  The synchronous callback, if there is one, takes the first slot and the asynchronous one the
  next; a slot that was filled before keeps what it held.
\<close>

definition config_cbs :: "stream_config \<Rightarrow> data_cb list \<Rightarrow> data_cb list" where
  "config_cbs cfg cbs =
     (let async = \<lparr>cb_fn = cfg_cb cfg, cb_user = cfg_userdata cfg, cb_count = -1, cb_sync = False\<rparr>
      in if cfg_cb_sync cfg \<noteq> NULL
         then cbs[0 := \<lparr>cb_fn = cfg_cb_sync cfg, cb_user = cfg_userdata cfg, cb_count = -1,
                       cb_sync = True\<rparr>, 1 := async]
         else cbs[0 := async])"

definition mm_stream_config :: "stream_config \<Rightarrow> mm_stream \<Rightarrow> int32 \<times> mm_stream" where
  "mm_stream_config cfg s =
     (let s = s\<lparr>lay := (lay s)\<lparr>lay_info := cfg_info cfg, lay_padding := cfg_padding cfg\<rparr>,
                mode := cfg_mode cfg, buf_num := sm_num_bufs (cfg_mode cfg),
                mem_ops := cfg_mem cfg, buf_cb := config_cbs cfg (buf_cb s)\<rparr>;
          (rc, s) = mm_stream_sync_info s;
          (rc, s) = (if rc = 0 then mm_stream_set_fmt s else (rc, s))
      in (rc, if has_set_config_ops (mem_ops s) then s_tell S_set_config_ops s else s))"

definition mm_stream_reg_buf_cb :: "data_cb \<Rightarrow> mm_stream \<Rightarrow> int32 \<times> mm_stream" where
  "mm_stream_reg_buf_cb v s =
     (case find (\<lambda>k. cb_fn (buf_cb s ! k) = NULL) [0..<MM_CAMERA_STREAM_BUF_CB_MAX] of
        None \<Rightarrow> (-1, s)
      | Some k \<Rightarrow> (0, s\<lparr>buf_cb := (buf_cb s)[k := v]\<rparr>))"

definition mm_stream_set_ext_mode :: "mm_stream \<Rightarrow> int32 \<times> mm_stream" where
  "mm_stream_set_ext_mode s =
     (let stream_id = extended_mode (env s) (trace s);
          (rc, s) = s_ask S_ioctl_s_parm s
      in if rc = 0 then (rc, s\<lparr>server_stream_id := stream_id\<rparr>) else (rc, s))"

text \<open>The parameter is a pointer of the client, which may be null.\<close>

definition mm_stream_set_parm :: "bool \<Rightarrow> mm_stream \<Rightarrow> int32 \<times> mm_stream" where
  "mm_stream_set_parm given s = (if given then s_ask S_s_ctrl_parm s else (-1, s))"

definition mm_stream_get_parm :: "bool \<Rightarrow> mm_stream \<Rightarrow> int32 \<times> mm_stream" where
  "mm_stream_get_parm given s = (if given then s_ask S_g_ctrl_parm s else (-1, s))"

definition mm_stream_do_action :: "bool \<Rightarrow> mm_stream \<Rightarrow> int32 \<times> mm_stream" where
  "mm_stream_do_action given s = (if given then s_ask S_s_ctrl_parm s else (-1, s))"

section \<open>Allocating and registering the buffers\<close>

text \<open>
  put\_bufs of the HAL calls back for every buffer that it unmaps.  get\_bufs maps the buffers by
  one call back, and changes its output parameters only when it succeeds.
\<close>

definition mm_stream_deinit_bufs :: "mm_stream \<Rightarrow> int32 \<times> mm_stream" where
  "mm_stream_deinit_bufs s =
     (if bufs s = None then (0, s)
      else
        let s = fold (\<lambda>(ty, i, plane) s. snd (mm_stream_unmap_buf ty i plane s))
                  (unmapped_by_put (env s) (trace s)) s;
            (rc, s) = s_ask S_put_bufs s
        in (rc, s\<lparr>plane_bufs := None, bufs := None\<rparr>))"

definition init_buf :: "mm_stream \<Rightarrow> bool list \<Rightarrow> nat \<Rightarrow> mm_stream \<Rightarrow> mm_stream" where
  "init_buf s0 flags i s =
     put_buf (Buf i) (\<lambda>b. let b = b\<lparr>fb_stream_id := my_hdl s0,
                                  fb_stream_type := si_type (lay_info (lay s0))\<rparr>
         in if fb_userptr b
            then b\<lparr>fb_user := (fb_user b)\<lparr>bufs_used := sm_frame_buf_cnt (mode s0),
                                          buf_in_use := flags ! i\<rparr>\<rparr>
            else b)
       (set_status i (\<lambda>st. st\<lparr>initial_reg_flag := flags ! i\<rparr>) s)"

definition init_planes :: "frame_buf list option \<Rightarrow> mm_stream \<Rightarrow> mm_stream" where
  "init_planes al s =
     (let s = s\<lparr>plane_bufs := al\<rparr>;
          s = (case al of
                 None \<Rightarrow> s
               | Some bs \<Rightarrow>
                   let n = buf_num s * sm_frame_buf_cnt (mode s) in
                   s\<lparr>plane_buf_num := n,
                     plane_bufs := Some (map (\<lambda>b. b\<lparr>fb_stream_id := my_hdl s,
                          fb_stream_type := si_type (lay_info (lay s))\<rparr>) (take (unat n) bs)
                        @ drop (unat n) bs)\<rparr>)
      in s\<lparr>cur_bufs_staged := 0, cur_buf_idx := -1\<rparr>)"

definition mm_stream_init_bufs :: "mm_stream \<Rightarrow> int32 \<times> mm_stream" where
  "mm_stream_init_bufs s =
     (let s = (if bufs s \<noteq> None then snd (mm_stream_deinit_bufs s) else s);
          al = memory (env s) (trace s);
          s = (case al_maps al of None \<Rightarrow> s | Some ms \<Rightarrow> snd (mm_stream_map_bufs ms s));
          (rc, s) = s_ask S_get_bufs s
      in if rc \<noteq> 0 then (rc, s)
         else
           let s = s\<lparr>buf_num := al_num al, bufs := Some (al_bufs al)\<rparr>;
               s = fold (init_buf s (al_flags al)) [0..<unat (buf_num s)] s;
               s = (if sm_batch (mode s) then init_planes (al_planes al) s else s)
           in (rc, s\<lparr>mode := (mode s)\<lparr>sm_num_bufs := buf_num s\<rparr>\<rparr>))"

definition mm_stream_request_buf :: "mm_stream \<Rightarrow> int32 \<times> mm_stream" where
  "mm_stream_request_buf s =
     (if MM_CAMERA_MAX_NUM_FRAMES < unat (buf_num s) then (-1, s)
      else s_ask (S_ioctl_reqbufs (buf_num s)) s)"

text \<open>
  Registration queues the buffers whose flag says so; the others are held by the client, with one
  reference.
\<close>

fun reg_loop :: "nat list \<Rightarrow> mm_stream \<Rightarrow> int32 \<times> mm_stream" where
  "reg_loop [] s = (0, s)"
| "reg_loop (i # is) s =
     (if initial_reg_flag (status_of s i) then
        let (rc, s) = mm_stream_qbuf (buf_at s (Buf i)) s
        in if rc \<noteq> 0 then (rc, s)
           else reg_loop is (set_status i (\<lambda>st. st\<lparr>buf_refcnt := 0, in_kernel := True\<rparr>) s)
      else reg_loop is (set_status i (\<lambda>st. st\<lparr>buf_refcnt := 1, in_kernel := False\<rparr>) s))"

definition mm_stream_reg_buf :: "mm_stream \<Rightarrow> int32 \<times> mm_stream" where
  "mm_stream_reg_buf s =
     (let (rc, s) = mm_stream_request_buf s
      in if rc \<noteq> 0 then (rc, s)
         else reg_loop [0..<unat (buf_num s)] (s\<lparr>queued_buffer_count := 0\<rparr>))"

definition mm_stream_unreg_buf :: "mm_stream \<Rightarrow> int32 \<times> mm_stream" where
  "mm_stream_unreg_buf s =
     (let (rc, s) = s_ask (S_ioctl_reqbufs 0) s
      in (rc, fold (\<lambda>i. set_status i (\<lambda>st. st\<lparr>buf_refcnt := 0, in_kernel := False\<rparr>))
               [0..<unat (buf_num s)] s))"

section \<open>Switching on and off\<close>

text \<open>
  Before it is switched on the stream waits for the first buffer that is with the driver and not
  mapped.  The answer to the wait is the result of pthread\_cond\_timedwait; while the thread waits
  another one may map buffers, which nothing after the wait looks at.
\<close>

definition ETIMEDOUT :: int32 where
  "ETIMEDOUT = 110"

definition wait_mapping :: "mm_stream \<Rightarrow> int32 \<times> mm_stream" where
  "wait_mapping s =
     (case find (\<lambda>i. map_status (status_of s i) = 0 \<and> in_kernel (status_of s i) \<or>
                     map_status (status_of s i) < 0) [0..<unat (buf_num s)] of
        None \<Rightarrow> (0, s)
      | Some i \<Rightarrow>
          if map_status (status_of s i) = 0 then
            let (rc, s) = s_ask S_wait_mapping s in (if rc = ETIMEDOUT then -1 else rc, s)
          else (-1, s))"

definition mm_stream_streamon :: "mm_stream \<Rightarrow> int32 \<times> mm_stream" where
  "mm_stream_streamon s =
     (let (rc, s) = wait_mapping s
      in if rc <s 0 then (rc, snd (del_poll mm_camera_sync_call s))
         else
           let (rc, s) = s_ask S_ioctl_streamon s
           in if rc <s 0 \<and> sm_num_bufs (mode s) \<noteq> 0
              then (rc, snd (del_poll mm_camera_sync_call s)) else (rc, s))"

definition mm_stream_streamoff :: "mm_stream \<Rightarrow> int32 \<times> mm_stream" where
  "mm_stream_streamoff s =
     (let (rc, s) = del_poll mm_camera_sync_call s;
          (rc, s) = (if rc <s 0 then
                       let (rc, s) = poll_call mm_camera_poll_thread_commit_updates s
                       in (if rc <s 0 then 0 else rc, s)
                     else (rc, s));
          (off, s) = s_ask S_ioctl_streamoff s
      in (rc OR off, s))"

text \<open>The command thread of the stream handles frames for the asynchronous callbacks.\<close>

definition upd_cmd_thread ::
  "(frame_info cmd_thread \<Rightarrow> frame_info cmd_thread) \<Rightarrow> mm_stream \<Rightarrow> mm_stream" where
  "upd_cmd_thread f s = s\<lparr>cmd_thread := f (cmd_thread s)\<rparr>"

definition release_cmd_thread :: "mm_stream \<Rightarrow> mm_stream" where
  "release_cmd_thread s =
     (let (m, s) = s_ask S_malloc s
      in snd (mm_camera_cmd_thread_release mm_stream_dispatch_app_data cmd_thread upd_cmd_thread
                (m \<noteq> 0) s))"

text \<open>Release closes the descriptor and clears the object.  The poll thread belongs to the channel.\<close>

definition cleared_status :: buf_status where
  "cleared_status =
     \<lparr>buf_refcnt = 0, initial_reg_flag = False, in_kernel = False, map_status = 0\<rparr>"

definition cleared_cb :: data_cb where
  "cleared_cb = \<lparr>cb_fn = NULL, cb_user = NULL, cb_count = 0, cb_sync = False\<rparr>"

definition mm_stream_release :: "mm_stream \<Rightarrow> int32 \<times> mm_stream" where
  "mm_stream_release s =
     (let s = (if 0 \<le>s s_fd s then s_tell (S_close (s_fd s)) s else s)
      in (0, s\<lparr>my_hdl := 0, server_stream_id := 0, s_fd := -1, s_state := MM_STREAM_STATE_NOTUSED,
              cmd_thread := \<lparr>is_active = False, cmd_queue = []\<rparr>,
              buf_cb := replicate MM_CAMERA_STREAM_BUF_CB_MAX cleared_cb,
              buf_num := 0, bufs := None, status_of := (\<lambda>_. cleared_status), plane_bufs := None,
              plane_buf_num := 0, cur_buf_idx := 0, cur_bufs_staged := 0, has_channel := False,
              is_bundled := False, is_linked := False,
              mem_ops := \<lparr>has_set_config_ops = False, has_invalidate_buf = False,
                          has_clean_invalidate_buf = False\<rparr>,
              queued_buffer_count := 0, prev_frameID := 0, prev_timestamp := 0\<rparr>))"

section \<open>The handlers of the states\<close>

text \<open>mm\_stream\_evt\_type\_t with the inputs of the events.\<close>

datatype stream_evt =
    MM_STREAM_EVT_ACQUIRE
  | MM_STREAM_EVT_RELEASE
  | MM_STREAM_EVT_SET_FMT stream_config
  | MM_STREAM_EVT_GET_BUF
  | MM_STREAM_EVT_PUT_BUF
  | MM_STREAM_EVT_REG_BUF
  | MM_STREAM_EVT_UNREG_BUF
  | MM_STREAM_EVT_START
  | MM_STREAM_EVT_STOP
  | MM_STREAM_EVT_QBUF buf_ref
  | MM_STREAM_EVT_SET_PARM bool
  | MM_STREAM_EVT_GET_PARM bool
  | MM_STREAM_EVT_DO_ACTION bool
  | MM_STREAM_EVT_GET_QUEUED_BUF_COUNT
  | MM_STREAM_EVT_CANCEL_BUF nat

definition to_state :: "stream_state \<Rightarrow> mm_stream \<Rightarrow> mm_stream" where
  "to_state st s = s\<lparr>s_state := st\<rparr>"

definition mm_stream_fsm_inited :: "stream_evt \<Rightarrow> mm_stream \<Rightarrow> int32 \<times> mm_stream" where
  "mm_stream_fsm_inited evt s =
     (case evt of
        MM_STREAM_EVT_ACQUIRE \<Rightarrow>
          if \<not> has_channel s then (-1, s)
          else
            let (name, s) = s_ask S_get_dev_name s
            in if name = 0 then (-1, s)
               else
                 let (fd, s) = s_ask S_open s; s = s\<lparr>s_fd := fd\<rparr>
                 in if fd <s 0 then (-1, s)
                    else
                      let (rc, s) = mm_stream_set_ext_mode s
                      in if rc = 0 then (rc, to_state MM_STREAM_STATE_ACQUIRED s)
                         else (rc, (s_tell (S_close (s_fd s)) s)\<lparr>s_fd := -1\<rparr>)
      | _ \<Rightarrow> (0, s))"

definition mm_stream_fsm_acquired :: "stream_evt \<Rightarrow> mm_stream \<Rightarrow> int32 \<times> mm_stream" where
  "mm_stream_fsm_acquired evt s =
     (case evt of
        MM_STREAM_EVT_SET_FMT cfg \<Rightarrow>
          let (rc, s) = mm_stream_config cfg s in (rc, to_state MM_STREAM_STATE_CFG s)
      | MM_STREAM_EVT_RELEASE \<Rightarrow>
          let (rc, s) = mm_stream_release s in (rc, to_state MM_STREAM_STATE_NOTUSED s)
      | MM_STREAM_EVT_SET_PARM p \<Rightarrow> mm_stream_set_parm p s
      | MM_STREAM_EVT_GET_PARM p \<Rightarrow> mm_stream_get_parm p s
      | _ \<Rightarrow> (0, s))"

definition mm_stream_fsm_cfg :: "stream_evt \<Rightarrow> mm_stream \<Rightarrow> int32 \<times> mm_stream" where
  "mm_stream_fsm_cfg evt s =
     (case evt of
        MM_STREAM_EVT_SET_FMT cfg \<Rightarrow>
          let (rc, s) = mm_stream_config cfg s in (rc, to_state MM_STREAM_STATE_CFG s)
      | MM_STREAM_EVT_RELEASE \<Rightarrow>
          let (rc, s) = mm_stream_release s in (rc, to_state MM_STREAM_STATE_NOTUSED s)
      | MM_STREAM_EVT_SET_PARM p \<Rightarrow> mm_stream_set_parm p s
      | MM_STREAM_EVT_GET_PARM p \<Rightarrow> mm_stream_get_parm p s
      | MM_STREAM_EVT_GET_BUF \<Rightarrow>
          let (rc, s) = mm_stream_init_bufs s
          in (rc, if rc = 0 then to_state MM_STREAM_STATE_BUFFED s else s)
      | _ \<Rightarrow> (0, s))"

definition mm_stream_fsm_buffed :: "stream_evt \<Rightarrow> mm_stream \<Rightarrow> int32 \<times> mm_stream" where
  "mm_stream_fsm_buffed evt s =
     (case evt of
        MM_STREAM_EVT_PUT_BUF \<Rightarrow>
          let (rc, s) = mm_stream_deinit_bufs s in (rc, to_state MM_STREAM_STATE_CFG s)
      | MM_STREAM_EVT_REG_BUF \<Rightarrow>
          let (rc, s) = mm_stream_reg_buf s
          in (rc, if rc = 0 then to_state MM_STREAM_STATE_REG s else s)
      | MM_STREAM_EVT_SET_PARM p \<Rightarrow> mm_stream_set_parm p s
      | MM_STREAM_EVT_GET_PARM p \<Rightarrow> mm_stream_get_parm p s
      | _ \<Rightarrow> (0, s))"

definition start_stream :: "mm_stream \<Rightarrow> int32 \<times> mm_stream" where
  "start_stream s =
     (let has_cb = has_async_cb s;
          s = (if has_cb then upd_cmd_thread mm_camera_cmd_thread_launch s else s);
          (rc, s) = mm_stream_streamon (to_state MM_STREAM_STATE_ACTIVE s)
      in if rc \<noteq> 0 then
           (rc, to_state MM_STREAM_STATE_REG (if has_cb then release_cmd_thread s else s))
         else (rc, s))"

definition mm_stream_fsm_reg :: "stream_evt \<Rightarrow> mm_stream \<Rightarrow> int32 \<times> mm_stream" where
  "mm_stream_fsm_reg evt s =
     (case evt of
        MM_STREAM_EVT_UNREG_BUF \<Rightarrow>
          let (rc, s) = mm_stream_unreg_buf s in (rc, to_state MM_STREAM_STATE_BUFFED s)
      | MM_STREAM_EVT_START \<Rightarrow> start_stream s
      | MM_STREAM_EVT_SET_PARM p \<Rightarrow> mm_stream_set_parm p s
      | MM_STREAM_EVT_GET_PARM p \<Rightarrow> mm_stream_get_parm p s
      | _ \<Rightarrow> (0, s))"

definition stop_stream :: "mm_stream \<Rightarrow> int32 \<times> mm_stream" where
  "stop_stream s =
     (let (rc, s) = mm_stream_streamoff s
      in (rc, to_state MM_STREAM_STATE_REG
                (if has_async_cb s then release_cmd_thread s else s)))"

definition mm_stream_fsm_active :: "stream_evt \<Rightarrow> mm_stream \<Rightarrow> int32 \<times> mm_stream" where
  "mm_stream_fsm_active evt s =
     (case evt of
        MM_STREAM_EVT_QBUF r \<Rightarrow> mm_stream_buf_done r s
      | MM_STREAM_EVT_CANCEL_BUF i \<Rightarrow> mm_stream_cancel_buf i s
      | MM_STREAM_EVT_GET_QUEUED_BUF_COUNT \<Rightarrow> (mm_stream_get_queued_buf_count s, s)
      | MM_STREAM_EVT_STOP \<Rightarrow> stop_stream s
      | MM_STREAM_EVT_SET_PARM p \<Rightarrow> mm_stream_set_parm p s
      | MM_STREAM_EVT_GET_PARM p \<Rightarrow> mm_stream_get_parm p s
      | MM_STREAM_EVT_DO_ACTION p \<Rightarrow> mm_stream_do_action p s
      | _ \<Rightarrow> (0, s))"

definition mm_stream_fsm_fn :: "stream_evt \<Rightarrow> mm_stream \<Rightarrow> int32 \<times> mm_stream" where
  "mm_stream_fsm_fn evt s =
     (case s_state s of
        MM_STREAM_STATE_NOTUSED \<Rightarrow> (-1, s)
      | MM_STREAM_STATE_INITED \<Rightarrow> mm_stream_fsm_inited evt s
      | MM_STREAM_STATE_ACQUIRED \<Rightarrow> mm_stream_fsm_acquired evt s
      | MM_STREAM_STATE_CFG \<Rightarrow> mm_stream_fsm_cfg evt s
      | MM_STREAM_STATE_BUFFED \<Rightarrow> mm_stream_fsm_buffed evt s
      | MM_STREAM_STATE_REG \<Rightarrow> mm_stream_fsm_reg evt s
      | MM_STREAM_STATE_ACTIVE \<Rightarrow> mm_stream_fsm_active evt s)"

end
