(* ===== verification/St_Own.thy ===== *)
theory St_Own
  imports St_Fsm
begin

text \<open>
  Who owns the buffers of a stream.  What the driver holds and which references have been handed
  out is read off the trace of calls; the invariant relates both to the reference counts.
\<close>

section \<open>Reading the trace\<close>

text \<open>
  The buffers that the driver holds, as the documentation of the video interface has it: a
  successful VIDIOC\_QBUF takes a buffer, a successful VIDIOC\_DQBUF gives it back, and
  VIDIOC\_STREAMOFF and VIDIOC\_REQBUFS remove all.
\<close>

fun held_after :: "s_call \<times> int32 \<Rightarrow> nat set \<Rightarrow> nat set" where
  "held_after (S_ioctl_qbuf i n, rc) H = (if rc <s 0 then H else insert i H)"
| "held_after (S_ioctl_dqbuf i n, rc) H = (if rc <s 0 then H else H - {i})"
| "held_after (S_ioctl_streamoff, rc) H = (if rc <s 0 then H else {})"
| "held_after (S_ioctl_reqbufs n, rc) H = (if rc <s 0 then H else {})"
| "held_after _ H = H"

definition driver_holds :: "s_trace \<Rightarrow> nat set" where
  "driver_holds t = fold held_after t {}"

lemma driver_holds_Nil [simp]: "driver_holds [] = {}"
  by (simp add: driver_holds_def)

lemma driver_holds_snoc [simp]: "driver_holds (t @ [e]) = held_after e (driver_holds t)"
  by (simp add: driver_holds_def)

text \<open>No buffer is queued while the driver holds it.\<close>

fun queue_call_ok :: "s_call \<times> int32 \<Rightarrow> nat set \<Rightarrow> bool" where
  "queue_call_ok (S_ioctl_qbuf i n, rc) H = (i \<notin> H)"
| "queue_call_ok _ H = True"

fun queued_once_from :: "nat set \<Rightarrow> s_trace \<Rightarrow> bool" where
  "queued_once_from H [] = True"
| "queued_once_from H (e # t) = (queue_call_ok e H \<and> queued_once_from (held_after e H) t)"

definition never_queued_twice :: "s_trace \<Rightarrow> bool" where
  "never_queued_twice t = queued_once_from {} t"

lemma queued_once_from_append:
  "queued_once_from H (t @ u) = (queued_once_from H t \<and> queued_once_from (fold held_after t H) u)"
  by (induction t arbitrary: H) auto

lemma never_queued_twice_Nil [simp]: "never_queued_twice []"
  by (simp add: never_queued_twice_def)

lemma never_queued_twice_snoc [simp]:
  "never_queued_twice (t @ [e]) = (never_queued_twice t \<and> queue_call_ok e (driver_holds t))"
  by (simp add: never_queued_twice_def queued_once_from_append driver_holds_def)

text \<open>
  The references handed out: one with each asynchronous callback and one with each frame that
  reached the queue of a channel.
\<close>

fun gives :: "s_call \<times> int32 \<Rightarrow> nat \<Rightarrow> nat" where
  "gives (S_callback f u sync j, rc) i = (if \<not> sync \<and> j = i then 1 else 0)"
| "gives (S_notify_channel info, rc) i = (if rc \<noteq> 0 \<and> fi_buf info = Buf i then 1 else 0)"
| "gives (S_notify_linked info, rc) i = (if rc \<noteq> 0 \<and> fi_buf info = Buf i then 1 else 0)"
| "gives _ i = 0"

definition given :: "s_trace \<Rightarrow> nat \<Rightarrow> int" where
  "given t i = int (\<Sum>e \<leftarrow> t. gives e i)"

lemma given_Nil [simp]: "given [] i = 0"
  by (simp add: given_def)

lemma given_snoc [simp]: "given (t @ [e]) i = given t i + int (gives e i)"
  by (simp add: given_def)

text \<open>The nodes of the command queue that carry a buffer.\<close>

fun carries :: "nat \<Rightarrow> frame_info option \<Rightarrow> bool" where
  "carries i (Some f) = (fi_buf f = Buf i)"
| "carries i None = False"

definition carried :: "nat \<Rightarrow> frame_info option list \<Rightarrow> nat" where
  "carried i ns = length (filter (carries i) ns)"

lemma carried_simps [simp]:
  "carried i [] = 0"
  "carried i (n # ns) = (if carries i n then 1 else 0) + carried i ns"
  "carried i (ns @ ms) = carried i ns + carried i ms"
  by (simp_all add: carried_def)

section \<open>The invariant\<close>

text \<open>
  Assumptions on the environment.  The driver gives back only buffers that it holds.  Nothing
  fails: every call succeeds and memory is always available.
\<close>

definition honest_driver :: "s_env \<Rightarrow> bool" where
  "honest_driver e \<longleftrightarrow>
     (\<forall>t. 0 \<le>s dq_rc (frame_of e t) \<longrightarrow> dq_index (frame_of e t) \<in> driver_holds t)"

fun success :: "s_call \<Rightarrow> int32" where
  "success S_malloc = 1"
| "success (S_notify_channel info) = 1"
| "success (S_notify_linked info) = 1"
| "success S_get_dev_name = 1"
| "success S_open = 1"
| "success _ = 0"

definition nothing_fails :: "s_env \<Rightarrow> bool" where
  "nothing_fails e \<longleftrightarrow>
     (\<forall>t c. answer e t c = success c) \<and> (\<forall>t. dq_rc (frame_of e t) = 0 \<or> dq_rc (frame_of e t) <s 0)"

text \<open>
  The array of buffers is as get\_bufs promises: every buffer knows its index.  Single frames: the
  stream is not in batch mode, and no buffer is a container of user pointers.  The account of this
  theory is one of single frames: what happens to a container that comes late is shown in St\_Theorems.
\<close>

definition numbered_bufs :: "mm_stream \<Rightarrow> bool" where
  "numbered_bufs s \<longleftrightarrow> bufs s \<noteq> None \<and> length (the (bufs s)) = unat (buf_num s) \<and>
     (\<forall>j < unat (buf_num s). fb_idx (the (bufs s) ! j) = j)"

definition single_frames :: "mm_stream \<Rightarrow> bool" where
  "single_frames s \<longleftrightarrow> \<not> sm_batch (mode s) \<and>
     (\<forall>j < unat (buf_num s). \<not> fb_userptr (the (bufs s) ! j))"

definition good_bufs :: "mm_stream \<Rightarrow> bool" where
  "good_bufs s \<longleftrightarrow> \<not> sm_batch (mode s) \<and> bufs s \<noteq> None \<and>
     length (the (bufs s)) = unat (buf_num s) \<and>
     (\<forall>j < unat (buf_num s). fb_idx (the (bufs s) ! j) = j \<and> \<not> fb_userptr (the (bufs s) ! j))"

lemma good_bufs_iff: "good_bufs s \<longleftrightarrow> numbered_bufs s \<and> single_frames s"
  by (auto simp: good_bufs_def numbered_bufs_def single_frames_def)

definition frame_fits_node :: "mm_stream \<Rightarrow> frame_info option \<Rightarrow> bool" where
  "frame_fits_node s n \<longleftrightarrow> n \<noteq> None \<longrightarrow> (\<exists>j < unat (buf_num s). fi_buf (the n) = Buf j)"

definition refs :: "mm_stream \<Rightarrow> nat \<Rightarrow> nat" where
  "refs s i = unat (buf_refcnt (status_of s i))"

lemma refs_0_iff: "refs s i = 0 \<longleftrightarrow> buf_refcnt (status_of s i) = 0"
  by (simp add: refs_def unat_eq_zero)

abbreviation in_queue :: "mm_stream \<Rightarrow> frame_info option list" where
  "in_queue s \<equiv> cmd_queue (cmd_thread s)"

text \<open>
  The ledger counts for each buffer the references that its users have given back, so that
  given minus ledger is what they still have.  The nodes ns are in the hands of the command
  thread.  A reference that a user or a node has is counted, and a buffer that the driver holds
  has none.
\<close>

definition counted :: "(nat \<Rightarrow> int) \<Rightarrow> frame_info option list \<Rightarrow> mm_stream \<Rightarrow> nat \<Rightarrow> bool" where
  "counted led ns s i \<longleftrightarrow>
     given (trace s) i + int (carried i (ns @ in_queue s)) \<le> int (refs s i) + led i \<and>
     led i \<le> given (trace s) i \<and>
     refs s i + 4 * carried i (ns @ in_queue s) \<le> 7 \<and>
     (i \<in> driver_holds (trace s) \<longrightarrow> refs s i = 0)"

definition accounted :: "(nat \<Rightarrow> int) \<Rightarrow> frame_info option list \<Rightarrow> mm_stream \<Rightarrow> bool" where
  "accounted led ns s \<longleftrightarrow> good_bufs s \<and> honest_driver (env s) \<and>
     length (buf_cb s) = MM_CAMERA_STREAM_BUF_CB_MAX \<and>
     never_queued_twice (trace s) \<and> driver_holds (trace s) \<subseteq> {..<unat (buf_num s)} \<and>
     list_all (frame_fits_node s) (ns @ in_queue s) \<and>
     (\<forall>i < unat (buf_num s). counted led ns s i)"

section \<open>Effects\<close>

text \<open>
  A stream is steady if it has its channel and its callbacks are not limited.

  What an operation does to the parts that the invariant looks at: buffer j gets n references, of
  which g are handed out to users and the others travel with the nodes ms that are appended to the
  command queue; the driver holds the set H afterwards.
\<close>

definition steady :: "mm_stream \<Rightarrow> bool" where
  "steady s \<longleftrightarrow> has_channel s \<and> (\<forall>c \<in> set (buf_cb s). async_slot c \<longrightarrow> cb_count c = -1)"

definition moves ::
  "nat \<Rightarrow> nat \<Rightarrow> nat \<Rightarrow> frame_info option list \<Rightarrow> nat set \<Rightarrow> mm_stream \<Rightarrow> mm_stream \<Rightarrow> bool" where
  "moves j n g ms H s s' \<longleftrightarrow>
     (good_bufs s \<longrightarrow> good_bufs s') \<and> buf_num s' = buf_num s \<and> env s' = env s \<and>
     length (buf_cb s') = length (buf_cb s) \<and>
     (steady s \<longrightarrow> steady s' \<and> has_async_cb s' = has_async_cb s) \<and>
     is_active (cmd_thread s') = is_active (cmd_thread s) \<and>
     is_bundled s' = is_bundled s \<and> is_linked s' = is_linked s \<and> s_state s' = s_state s \<and>
     in_queue s' = in_queue s @ ms \<and>
     (\<forall>i. buf_refcnt (status_of s' i) =
            buf_refcnt (status_of s i) + (if i = j then of_nat n else 0)) \<and>
     (\<forall>i. initial_reg_flag (status_of s' i) = initial_reg_flag (status_of s i)) \<and>
     (\<forall>i. given (trace s') i = given (trace s) i + (if i = j then int g else 0)) \<and>
     driver_holds (trace s') = H \<and>
     (never_queued_twice (trace s) \<longrightarrow> never_queued_twice (trace s'))"

abbreviation effect :: "nat set \<Rightarrow> mm_stream \<Rightarrow> mm_stream \<Rightarrow> bool" where
  "effect H s s' \<equiv> moves 0 0 0 [] H s s'"

abbreviation unmoved :: "mm_stream \<Rightarrow> mm_stream \<Rightarrow> bool" where
  "unmoved s \<equiv> effect (driver_holds (trace s)) s"

lemmas moves_fields = moves_def good_bufs_def steady_def has_async_cb_def

lemma effect_moves: "effect H s s' \<Longrightarrow> moves j 0 0 [] H s s'"
  by (simp add: moves_def)

lemma unmoved_refl [intro, simp]: "unmoved s s"
  by (simp add: moves_def)

lemma moves_trans:
  "moves j n g ms H s t \<Longrightarrow> moves j n' g' ms' H' t u \<Longrightarrow> moves j (n + n') (g + g') (ms @ ms') H' s u"
  by (simp add: moves_def)

lemma effect_trans: "effect H s t \<Longrightarrow> effect H' t u \<Longrightarrow> effect H' s u"
  by (simp add: moves_def)

lemma moves_effect: "moves j n g ms H s t \<Longrightarrow> effect H' t u \<Longrightarrow> moves j n g ms H' s u"
  by (simp add: moves_def)

lemma effect_then_moves: "effect H s t \<Longrightarrow> moves j n g ms H' t u \<Longrightarrow> moves j n g ms H' s u"
  by (simp add: moves_def)

lemma moves_held: "moves j n g ms H s t \<Longrightarrow> driver_holds (trace t) = H"
  by (simp add: moves_def)

lemma unmoved_then: "unmoved s t \<Longrightarrow> unmoved t u \<Longrightarrow> unmoved s u"
  by (simp add: moves_def)

text \<open>Calls that neither hand out a reference nor move a buffer.\<close>

fun unmoved_call :: "s_call \<Rightarrow> bool" where
  "unmoved_call (S_ioctl_qbuf i n) = False"
| "unmoved_call (S_ioctl_dqbuf i n) = False"
| "unmoved_call S_ioctl_streamoff = False"
| "unmoved_call (S_ioctl_reqbufs n) = False"
| "unmoved_call (S_callback f u sync i) = sync"
| "unmoved_call (S_notify_channel f) = False"
| "unmoved_call (S_notify_linked f) = False"
| "unmoved_call _ = True"

lemma unmoved_call_simps [simp]:
  "unmoved_call c \<Longrightarrow> held_after (c, rc) H = H"
  "unmoved_call c \<Longrightarrow> queue_call_ok (c, rc) H"
  "unmoved_call c \<Longrightarrow> gives (c, rc) i = 0"
  by (cases c; simp)+

lemma s_ask_snd: "snd (s_ask c s) = s\<lparr>trace := trace s @ [(c, fst (s_ask c s))]\<rparr>"
  by (simp add: s_ask_def Let_def)

lemma s_ask_eq: "s_ask c s = (answer (env s) (trace s) c,
    s\<lparr>trace := trace s @ [(c, answer (env s) (trace s) c)]\<rparr>)"
  by (simp add: s_ask_def Let_def)

lemma s_ask_unmoved: "s_ask c s = (rc, s') \<Longrightarrow> unmoved_call c \<Longrightarrow> unmoved s s'"
  by (auto simp: s_ask_eq moves_fields)

lemma s_tell_unmoved: "unmoved_call c \<Longrightarrow> unmoved s (s_tell c s)"
  by (simp add: s_tell_def s_ask_eq moves_fields)

lemma poll_call_eq:
  "snd (poll_call f s) =
     s\<lparr>poll := (case f (poll s) of None \<Rightarrow> poll s | Some (rc, t) \<Rightarrow> t),
       blocked := (blocked s \<or> f (poll s) = None)\<rparr>"
  by (simp add: poll_call_def split: option.split prod.split)

lemma poll_call_unmoved: "unmoved s (snd (poll_call f s))"
  by (simp add: poll_call_eq moves_fields)

lemma add_poll_unmoved: "unmoved s (snd (add_poll ct s))"
  by (simp add: add_poll_def poll_call_unmoved)

lemma del_poll_unmoved: "unmoved s (snd (del_poll ct s))"
  by (simp add: del_poll_def poll_call_unmoved)

lemma one_more_unmoved: "unmoved s (one_more_queued s)"
  by (simp add: one_more_queued_def Let_def add_poll_def poll_call_eq moves_fields)

lemma one_less_unmoved: "unmoved s (one_less_queued s)"
  by (simp add: one_less_queued_def Let_def del_poll_def poll_call_eq moves_fields)

lemma qbuf_ioctl_effect:
  assumes "s_ask (S_ioctl_qbuf i n) s = (rc, s')" and "i \<notin> driver_holds (trace s)"
  shows "effect (if rc <s 0 then driver_holds (trace s) else insert i (driver_holds (trace s))) s s'"
  using assms by (auto simp: s_ask_eq moves_fields)

lemma qbuf_effect:
  assumes q: "mm_stream_qbuf b s = (rc, s')" and i: "fb_idx b \<notin> driver_holds (trace s)"
  shows "effect (if rc <s 0 then driver_holds (trace s)
                 else insert (fb_idx b) (driver_holds (trace s))) s s'"
proof -
  let ?H = "driver_holds (trace s)"
  define n :: int32 where "n = (if fb_userptr b then 1 else ucast (fb_num_planes b))"
  obtain r s1 where 1: "(if has_invalidate_buf (mem_ops s) then s_ask (S_invalidate (fb_idx b)) s
      else (0, s)) = (r, s1)" by fastforce
  from 1 have q1: "unmoved s s1" by (auto split: if_splits dest: s_ask_unmoved)
  show ?thesis
  proof (cases "r <s 0")
    case True
    with q 1 q1 show ?thesis by (auto simp: mm_stream_qbuf_def)
  next
    case False
    obtain r4 s4 where 4: "s_ask (S_ioctl_qbuf (fb_idx b) n) (one_more_queued s1) = (r4, s4)"
      by fastforce
    have q3: "unmoved s (one_more_queued s1)" by (rule unmoved_then [OF q1 one_more_unmoved])
    have e4: "effect (if r4 <s 0 then ?H else insert (fb_idx b) ?H) s s4"
      using qbuf_ioctl_effect [OF 4] i moves_held [OF q3] effect_trans [OF q3] by auto
    have "(rc, s') = (r4, if r4 <s 0 then one_less_queued s4 else s4)"
      using q 1 False 4 by (auto simp: mm_stream_qbuf_def Let_def n_def split: if_splits)
    with e4 one_less_unmoved [of s4] show ?thesis
      by (auto simp: moves_held split: if_splits intro: effect_trans)
  qed
qed

section \<open>Giving a buffer back\<close>

lemma buf_at_idx: "good_bufs s \<Longrightarrow> i < unat (buf_num s) \<Longrightarrow> fb_idx (buf_at s (Buf i)) = i"
  by (auto simp: good_bufs_def buf_at_def)

lemma good_bufs_not_batch: "good_bufs s \<Longrightarrow> \<not> sm_batch (mode s)"
  by (simp add: good_bufs_def)

lemma set_status_unmoved:
  "(\<And>st. buf_refcnt (f st) = buf_refcnt st) \<Longrightarrow>
     (\<And>st. initial_reg_flag (f st) = initial_reg_flag st) \<Longrightarrow> unmoved s (set_status i f s)"
  by (simp add: set_status_def moves_fields)

lemma u8_below: "unat (x :: u8) < 256"
  using unsigned_less [of x] by simp

lemma unat_dec: "unat x \<noteq> 0 \<Longrightarrow> unat (x - 1 :: u8) = unat x - 1"
  by (metis unat_minus_one unat_0)

lemma unat_add_small: "unat (x :: u8) + n < 256 \<Longrightarrow> unat (x + of_nat n) = unat x + n"
  by (simp add: unat_word_ariths unat_of_nat mod_simps)

lemma refs_drop_ref:
  "refs s i \<noteq> 0 \<Longrightarrow> refs (drop_ref i s) k = (if k = i then refs s i - 1 else refs s k)"
  using unat_dec [of "buf_refcnt (status_of s i)"] by (simp add: drop_ref_def set_status_def refs_def)

lemma drop_ref_simps [simp]:
  "buf_num (drop_ref i s) = buf_num s" "env (drop_ref i s) = env s"
  "trace (drop_ref i s) = trace s" "buf_cb (drop_ref i s) = buf_cb s"
  "cmd_thread (drop_ref i s) = cmd_thread s" "s_state (drop_ref i s) = s_state s"
  "is_bundled (drop_ref i s) = is_bundled s" "is_linked (drop_ref i s) = is_linked s"
  "good_bufs (drop_ref i s) = good_bufs s" "mem_ops (drop_ref i s) = mem_ops s"
  "steady (drop_ref i s) = steady s" "has_async_cb (drop_ref i s) = has_async_cb s"
  "mode (drop_ref i s) = mode s" "bufs (drop_ref i s) = bufs s"
  by (simp_all add: drop_ref_def set_status_def good_bufs_def steady_def has_async_cb_def)

text \<open>
  After the reference is dropped the buffer goes to the driver if it was the last one; it does not
  arrive there when a call fails.
\<close>

lemma qbuf_succeeds:
  assumes "mm_stream_qbuf b s = (rc, s')" and "nothing_fails (env s)"
  shows "\<not> rc <s 0"
  using assms
  by (auto simp: mm_stream_qbuf_def s_ask_eq one_more_queued_def add_poll_def poll_call_eq
      nothing_fails_def Let_def split: if_splits)

lemma buf_done_effect:
  assumes g: "good_bufs s" and i: "i < unat (buf_num s)" and r: "refs s i \<noteq> 0"
    and h: "i \<notin> driver_holds (trace s)"
  obtains H where "effect H (drop_ref i s) (snd (mm_stream_buf_done (Buf i) s))"
    and "H = driver_holds (trace s) \<or> refs s i = 1 \<and> H = insert i (driver_holds (trace s))"
    and "nothing_fails (env s) \<Longrightarrow> refs s i = 1 \<Longrightarrow> H = insert i (driver_holds (trace s))"
proof -
  let ?b = "buf_at s (Buf i)"
  have idx: "fb_idx ?b = i" using g i by (rule buf_at_idx)
  have b: "\<not> sm_batch (mode s)" using g by (rule good_bufs_not_batch)
  have r0: "buf_refcnt (status_of s i) \<noteq> 0" using r by (simp add: refs_0_iff)
  have last: "buf_refcnt (status_of (drop_ref i s) i) = 0 \<longleftrightarrow> refs s i = 1"
    using refs_drop_ref [OF r, of i] r by (auto simp flip: refs_0_iff)
  show ?thesis
  proof (cases "refs s i = 1")
    case False
    then have "snd (mm_stream_buf_done (Buf i) s) = drop_ref i s"
      using last idx b r0 by (simp add: mm_stream_buf_done_def Let_def)
    then show ?thesis using False unmoved_refl [of "drop_ref i s"]
      by (intro that [of "driver_holds (trace s)"]) auto
  next
    case True
    obtain rc s1 where q: "mm_stream_qbuf ?b (drop_ref i s) = (rc, s1)" by fastforce
    let ?H = "if rc <s 0 then driver_holds (trace s) else insert i (driver_holds (trace s))"
    have e: "effect ?H (drop_ref i s) s1"
      using qbuf_effect [OF q] h idx by (simp split: if_splits)
    have "snd (mm_stream_buf_done (Buf i) s) =
        (if rc <s 0 then s1 else set_status i (\<lambda>st. st\<lparr>in_kernel := True\<rparr>) s1)"
      using True last idx b r0 q by (simp add: mm_stream_buf_done_def Let_def)
    moreover have "effect ?H (drop_ref i s)
        (if rc <s 0 then s1 else set_status i (\<lambda>st. st\<lparr>in_kernel := True\<rparr>) s1)"
      using e effect_trans [OF e] set_status_unmoved [of "\<lambda>st. st\<lparr>in_kernel := True\<rparr>" s1 i]
      by (simp add: moves_held [OF e] split: if_splits)
    moreover have "nothing_fails (env s) \<Longrightarrow> \<not> rc <s 0" using qbuf_succeeds [OF q] by simp
    ultimately show ?thesis using True by (intro that [of ?H]) auto
  qed
qed

section \<open>The invariant under effects\<close>

lemma carried_0_iff: "carried i ns = 0 \<longleftrightarrow> (\<forall>n \<in> set ns. \<not> carries i n)"
  by (auto simp: carried_def filter_empty_conv)

lemma refs_moves:
  assumes "moves j n g ms H s s'" and "refs s j + n < 256"
  shows "refs s' i = refs s i + (if i = j then n else 0)"
  unfolding refs_def
proof -
  have "buf_refcnt (status_of s' i) = buf_refcnt (status_of s i) + (if i = j then of_nat n else 0)"
    using assms(1) by (simp add: moves_def)
  then show "unat (buf_refcnt (status_of s' i)) =
      unat (buf_refcnt (status_of s i)) + (if i = j then n else 0)"
    using unat_add_small [OF assms(2) [unfolded refs_def]] by simp
qed

lemma frame_fits_node_moves: "moves j n g ms H s s' \<Longrightarrow> frame_fits_node s' = frame_fits_node s"
proof -
  assume "moves j n g ms H s s'"
  then have "buf_num s' = buf_num s" by (simp add: moves_def)
  then show ?thesis unfolding frame_fits_node_def by presburger
qed

text \<open>
  The invariant is kept when the new references cover what is handed out and queued, and the
  driver holds no buffer with references.
\<close>

lemma accounted_moves:
  assumes o: "accounted led ns s" and m: "moves j n g ms H s s'"
    and H: "H \<subseteq> {..<unat (buf_num s)}" "\<And>i. i \<in> H \<Longrightarrow> refs s i = 0 \<and> (i = j \<longrightarrow> n = 0)"
    and cover: "\<And>i. int (carried i ms) + (if i = j then int g else 0) \<le> (if i = j then int n else 0)"
    and bound: "j < unat (buf_num s) \<Longrightarrow>
      refs s j + n + 4 * (carried j (ns @ in_queue s) + carried j ms) \<le> 7"
    and j: "j < unat (buf_num s) \<or> n = 0"
    and ms: "list_all (frame_fits_node s) ms"
  shows "accounted led ns s'"
proof -
  have b: "refs s j + n < 256"
  proof (cases "j < unat (buf_num s)")
    case True
    then show ?thesis using bound by linarith
  next
    case False
    then show ?thesis using j u8_below [of "buf_refcnt (status_of s j)"] by (simp add: refs_def)
  qed
  have ns0: "i \<noteq> j \<Longrightarrow> carried i ms = 0" for i using cover [of i] by simp
  have "counted led ns s' i" if "i < unat (buf_num s')" for i
  proof -
    have c: "counted led ns s i" using o m that by (simp add: accounted_def moves_def)
    have r: "refs s' i = refs s i + (if i = j then n else 0)" by (rule refs_moves [OF m b])
    have q: "in_queue s' = in_queue s @ ms" and t: "given (trace s') i = given (trace s) i +
        (if i = j then int g else 0)" and h: "driver_holds (trace s') = H"
      using m by (simp_all add: moves_def)
    show ?thesis
    proof (cases "i = j")
      case True
      then show ?thesis
        using c r q t h cover [of i] bound that m H(2) [of i]
        by (auto simp: counted_def moves_def)
    next
      case False
      then show ?thesis
        using c r q t h ns0 [of i] H(2) [of i] by (auto simp: counted_def)
    qed
  qed
  moreover have "never_queued_twice (trace s')" "good_bufs s'" "honest_driver (env s')"
    "length (buf_cb s') = MM_CAMERA_STREAM_BUF_CB_MAX"
    "driver_holds (trace s') \<subseteq> {..<unat (buf_num s')}" "list_all (frame_fits_node s') (ns @ in_queue s')"
    using o m H(1) ms by (auto simp: accounted_def moves_def frame_fits_node_moves [OF m])
  ultimately show ?thesis by (simp add: accounted_def)
qed

lemma accounted_refs:
  assumes "accounted led ns s" and "i \<in> driver_holds (trace s)"
  shows "refs s i = 0" "i < unat (buf_num s)"
  using assms by (auto simp: accounted_def counted_def)

lemma accounted_effect:
  assumes o: "accounted led ns s" and e: "effect H s s'"
    and H: "H \<subseteq> {..<unat (buf_num s)}" "\<And>i. i \<in> H \<Longrightarrow> refs s i = 0"
  shows "accounted led ns s'"
proof (rule accounted_moves [OF o e])
  show "refs s 0 + 0 + 4 * (carried 0 (ns @ in_queue s) + carried 0 []) \<le> 7"
    if "0 < unat (buf_num s)"
    using o that by (simp add: accounted_def counted_def)
qed (use H in auto)

lemma accounted_unmoved:
  assumes "accounted led ns s" and "unmoved s s'"
  shows "accounted led ns s'"
  by (rule accounted_effect [OF assms]) (auto simp: accounted_refs [OF assms(1)])

text \<open>
  Dropping a reference of buffer i that nobody needs any more: a user has given it back, or the
  node that carried it has left the queue.
\<close>

definition spare :: "(nat \<Rightarrow> int) \<Rightarrow> frame_info option list \<Rightarrow> mm_stream \<Rightarrow> nat \<Rightarrow> bool" where
  "spare led ns s i \<longleftrightarrow>
     given (trace s) i + int (carried i (ns @ in_queue s)) < int (refs s i) + led i"

lemma spare_referenced:
  assumes "accounted led ns s" and "i < unat (buf_num s)" and "spare led ns s i"
  shows "refs s i \<noteq> 0" "i \<notin> driver_holds (trace s)"
  using assms by (auto simp: accounted_def counted_def spare_def)

lemma accounted_drop_ref:
  assumes o: "accounted led ns s" and i: "i < unat (buf_num s)" and sp: "spare led ns s i"
  shows "accounted led ns (drop_ref i s)"
proof -
  note r = refs_drop_ref [OF spare_referenced(1) [OF assms]]
  have "frame_fits_node (drop_ref i s) = frame_fits_node s" by (simp add: frame_fits_node_def fun_eq_iff)
  moreover have "counted led ns (drop_ref i s) k" if "k < unat (buf_num s)" for k
    using o that sp spare_referenced [OF assms]
    by (auto simp: accounted_def counted_def spare_def r)
  ultimately show ?thesis using o by (simp add: accounted_def)
qed

lemma buf_done_accounted:
  assumes o: "accounted led ns s" and i: "i < unat (buf_num s)" and sp: "spare led ns s i"
  shows "accounted led ns (snd (mm_stream_buf_done (Buf i) s))"
proof -
  let ?t = "drop_ref i s"
  have g: "good_bufs s" using o by (simp add: accounted_def)
  note r = spare_referenced [OF assms]
  obtain H where e: "effect H ?t (snd (mm_stream_buf_done (Buf i) s))"
    and H: "H = driver_holds (trace s) \<or> refs s i = 1 \<and> H = insert i (driver_holds (trace s))"
    using buf_done_effect [OF g i r] by metis
  show ?thesis
  proof (rule accounted_effect [OF accounted_drop_ref [OF assms] e])
    show "H \<subseteq> {..<unat (buf_num ?t)}" using H i accounted_refs(2) [OF o] by auto
    show "refs ?t k = 0" if "k \<in> H" for k
      using that H accounted_refs(1) [OF o] refs_drop_ref [OF r(1)] by auto
  qed
qed

section \<open>The command thread\<close>

lemma drop_ref_pending [simp]: "in_queue (drop_ref i s) = in_queue s"
  by simp

lemma add_ref_moves: "moves j n 0 [] (driver_holds (trace s)) s (add_ref j (of_nat n) s)"
  by (auto simp: moves_fields add_ref_def set_status_def)

lemma count_down_async: "async_slot c \<Longrightarrow> cb_count c = -1 \<Longrightarrow> count_down c = c"
  by (simp add: count_down_def)

lemma list_update_id_nth: "k < length xs \<Longrightarrow> f (xs ! k) = xs ! k \<Longrightarrow> xs[k := f (xs ! k)] = xs"
  by simp

lemma app_callback_moves:
  assumes k: "k < length (buf_cb s)" and f: "fi_buf f = Buf j" and j: "j < unat (buf_num s)"
    and g: "good_bufs s"
  obtains n where "moves j n n [] (driver_holds (trace s)) s (app_callback f k s)" and "n \<le> 1"
proof -
  let ?c = "buf_cb s ! k"
  have idx: "fb_idx (buf_at s (fi_buf f)) = j" using buf_at_idx [OF g j] f by simp
  have st: "steady s \<Longrightarrow> async_slot ?c \<Longrightarrow> (buf_cb s)[k := count_down ?c] = buf_cb s"
    using k by (simp add: steady_def count_down_async list_update_id_nth)
  consider "\<not> async_slot ?c" | "async_slot ?c" "cb_count ?c = 0" | "async_slot ?c" "cb_count ?c \<noteq> 0"
    by blast
  then show ?thesis
  proof cases
    case 1
    then show ?thesis
      by (intro that [of 0]) (simp_all add: app_callback_def Let_def moves_def)
  next
    case 2
    then show ?thesis using st
      by (intro that [of 0]) (auto simp: app_callback_def Let_def moves_fields)
  next
    case 3
    then show ?thesis using st idx
      by (intro that [of 1])
        (auto simp: app_callback_def Let_def moves_fields s_tell_def s_ask_eq add_ref_def
          set_status_def)
  qed
qed

lemma app_callbacks_moves:
  assumes f: "fi_buf f = Buf j" and j: "j < unat (buf_num s)" and g: "good_bufs s"
    and ks: "\<forall>k \<in> set ks. k < length (buf_cb s)"
  obtains n where "moves j n n [] (driver_holds (trace s)) s (fold (app_callback f) ks s)"
    and "n \<le> length ks"
proof -
  have "\<exists>n \<le> length ks. moves j n n [] (driver_holds (trace s)) s (fold (app_callback f) ks s)"
    using j g ks
  proof (induction ks arbitrary: s)
    case Nil
    then show ?case by (auto simp: moves_def intro: exI [of _ 0])
  next
    case (Cons k ks)
    have k: "k < length (buf_cb s)" using Cons.prems(3) by simp
    obtain n where n: "moves j n n [] (driver_holds (trace s)) s (app_callback f k s)" "n \<le> 1"
      using app_callback_moves [OF k f Cons.prems(1,2)] by blast
    let ?t = "app_callback f k s"
    have "j < unat (buf_num ?t)" "good_bufs ?t" "\<forall>k \<in> set ks. k < length (buf_cb ?t)"
      using n(1) Cons.prems by (simp_all add: moves_def)
    then obtain n' where n': "n' \<le> length ks"
      "moves j n' n' [] (driver_holds (trace ?t)) ?t (fold (app_callback f) ks ?t)"
      using Cons.IH by blast
    have "moves j (n + n') (n + n') [] (driver_holds (trace s)) s (fold (app_callback f) (k # ks) s)"
      using moves_trans [OF n(1) n'(2)] moves_held [OF n(1)] by simp
    then show ?case using n(2) n'(1) by (intro exI [of _ "n + n'"]) auto
  qed
  with that show thesis by blast
qed

lemma dispatch_callbacks:
  assumes o: "accounted led (Some f # ns) s" and f: "fi_buf f = Buf j" and j: "j < unat (buf_num s)"
  defines "t \<equiv> fold (app_callback f) [0..<MM_CAMERA_STREAM_BUF_CB_MAX] s"
  obtains n where "moves j n n [] (driver_holds (trace s)) s t" and "accounted led ns t"
    and "refs t j = refs s j + n" and "spare led ns t j" and "j \<notin> driver_holds (trace s)"
proof -
  have g: "good_bufs s" and l: "length (buf_cb s) = MM_CAMERA_STREAM_BUF_CB_MAX"
    using o by (auto simp: accounted_def)
  let ?ks = "[0..<MM_CAMERA_STREAM_BUF_CB_MAX]"
  obtain n where m: "moves j n n [] (driver_holds (trace s)) s t" and n: "n \<le> length ?ks"
    unfolding t_def by (rule app_callbacks_moves [OF f j g, of ?ks]) (auto simp: l)
  have n4: "n \<le> 4" using n by (simp add: MM_CAMERA_STREAM_BUF_CB_MAX_def)
  have cj: "counted led (Some f # ns) s j" using o j by (simp add: accounted_def)
  have 1: "refs s j + 4 * (1 + carried j (ns @ in_queue s)) \<le> 7"
    using cj f by (auto simp: counted_def)
  have sp: "spare led ns s j" using cj f by (auto simp: counted_def spare_def)
  have o1: "accounted led ns s"
    using o f by (auto simp: accounted_def counted_def split: if_splits)
  note nh = spare_referenced [OF o1 j sp]
  have o2: "accounted led ns t"
  proof (rule accounted_moves [OF o1 m])
    show "refs s i = 0 \<and> (i = j \<longrightarrow> n = 0)" if "i \<in> driver_holds (trace s)" for i
      using accounted_refs [OF o1 that] nh by auto
    show "refs s j + n + 4 * (carried j (ns @ in_queue s) + carried j []) \<le> 7" using 1 n4 by simp
  qed (use j accounted_refs(2) [OF o1] in auto)
  have r: "refs t j = refs s j + n" using refs_moves [OF m, of j] 1 n4 by simp
  have "spare led ns t j" using sp r m by (auto simp: spare_def moves_def)
  with m o2 r nh(2) show thesis by (intro that)
qed

lemma dispatch_accounted:
  assumes o: "accounted led (Some f # ns) s"
  shows "accounted led ns (mm_stream_dispatch_app_data f s)"
proof -
  obtain j where f: "fi_buf f = Buf j" and j: "j < unat (buf_num s)"
    using o by (auto simp: accounted_def frame_fits_node_def)
  let ?t = "fold (app_callback f) [0..<MM_CAMERA_STREAM_BUF_CB_MAX] s"
  obtain n where m: "moves j n n [] (driver_holds (trace s)) s ?t" and o2: "accounted led ns ?t"
    and "spare led ns ?t j"
    by (rule dispatch_callbacks [OF o f j])
  then have "accounted led ns (snd (mm_stream_buf_done (Buf j) ?t))"
    using j by (intro buf_done_accounted) (auto simp: moves_def)
  then show ?thesis by (simp add: mm_stream_dispatch_app_data_def f)
qed

lemma drain_accounted:
  "accounted led ns s \<Longrightarrow> accounted led [] (mm_camera_cmd_thread mm_stream_dispatch_app_data ns s)"
proof (induction ns arbitrary: s)
  case Nil
  then show ?case by simp
next
  case (Cons n ns)
  show ?case
  proof (cases n)
    case None
    with Cons.prems have "accounted led ns s" by (simp add: accounted_def counted_def)
    then show ?thesis using None Cons.IH by simp
  next
    case (Some f)
    then show ?thesis using Cons.prems Cons.IH dispatch_accounted by simp
  qed
qed

text \<open>Nodes may pass from the queue into the hands of the thread, or get lost.\<close>

lemma accounted_take_queue:
  "accounted led [] s \<Longrightarrow> accounted led (in_queue s @ [None]) (upd_cmd_thread (\<lambda>t. t\<lparr>cmd_queue := []\<rparr>) s)"
  by (auto simp: accounted_def counted_def upd_cmd_thread_def good_bufs_def frame_fits_node_def refs_def
      list_all_iff)

lemma accounted_clear_queue:
  assumes o: "accounted led ns s"
  shows "accounted led ns (upd_cmd_thread (\<lambda>t. t\<lparr>cmd_queue := [], is_active := a\<rparr>) s)"
proof -
  let ?t = "upd_cmd_thread (\<lambda>t. t\<lparr>cmd_queue := [], is_active := a\<rparr>) s"
  have "counted led ns ?t i" if "counted led ns s i" for i
    using that by (auto simp: counted_def upd_cmd_thread_def refs_def)
  moreover have "frame_fits_node ?t = frame_fits_node s"
    by (simp add: frame_fits_node_def upd_cmd_thread_def fun_eq_iff)
  ultimately show ?thesis using o by (auto simp: accounted_def upd_cmd_thread_def good_bufs_def)
qed

lemma release_cmd_thread_accounted:
  assumes o: "accounted led [] s"
  shows "accounted led [] (release_cmd_thread s)"
proof -
  obtain m s1 where m: "s_ask S_malloc s = (m, s1)" by fastforce
  have o1: "accounted led [] s1" using accounted_unmoved [OF o s_ask_unmoved [OF m]] by simp
  show ?thesis
    using m accounted_clear_queue [OF drain_accounted [OF accounted_take_queue [OF o1]], of False] o1
    by (auto simp: release_cmd_thread_def mm_camera_cmd_thread_release_def
        mm_camera_cmd_thread_stop_def mm_camera_cmd_thread_destroy_def [abs_def])
qed

section \<open>A frame\<close>

lemma fill_frame_unmoved:
  assumes i: "dq_index d < unat (buf_num s)"
  shows "unmoved s (fill_frame d s)"
proof -
  have "buf_num (fill_frame d s) = buf_num s" "mode (fill_frame d s) = mode s"
    "env (fill_frame d s) = env s" "buf_cb (fill_frame d s) = buf_cb s"
    "cmd_thread (fill_frame d s) = cmd_thread s" "is_bundled (fill_frame d s) = is_bundled s"
    "is_linked (fill_frame d s) = is_linked s" "s_state (fill_frame d s) = s_state s"
    "status_of (fill_frame d s) = status_of s" "trace (fill_frame d s) = trace s"
    "has_channel (fill_frame d s) = has_channel s"
    and b: "bufs (fill_frame d s) = map_option (\<lambda>bs. bs[dq_index d := (bs ! dq_index d)
      \<lparr>fb_stream_id := my_hdl s, fb_idx := dq_index d, fb_frame_idx := dq_sequence d,
       fb_sec := dq_sec d, fb_nsec := dq_usec d * 1000, fb_flags := dq_flags d,
       fb_uv_subsampled := dq_uv_format d\<rparr>]) (bufs s)"
    by (simp_all add: fill_frame_def put_buf_def Let_def split: option.split)
  moreover have "good_bufs (fill_frame d s)" if "good_bufs s"
    using that i b calculation(1,2) by (auto simp: good_bufs_def nth_list_update split: if_splits)
  ultimately show ?thesis by (simp add: moves_def steady_def has_async_cb_def)
qed

lemma dequeue_effect:
  assumes "dequeue_answer n s = (d, s')"
  shows "effect (if dq_rc d <s 0 then driver_holds (trace s) else driver_holds (trace s) - {dq_index d})
           s s'"
    and "d = frame_of (env s) (trace s)"
  using assms by (auto simp: dequeue_answer_def Let_def moves_fields)

lemma good_bufs_not_user: "good_bufs s \<Longrightarrow> i < unat (buf_num s) \<Longrightarrow> \<not> fb_userptr (buf_at s (Buf i))"
  by (auto simp: good_bufs_def buf_at_def)

lemma signed_nonneg: "\<not> x <s 0 \<Longrightarrow> 0 \<le>s x" for x :: int32
  by (simp add: word_sle_eq word_sless_alt)

lemma read_frame_cases:
  assumes o: "accounted led ns s" and r: "mm_stream_read_msm_frame n s = (rc, info, s')"
  obtains "info = None" and "unmoved s s'" and "rc <s 0"
  | j f where "info = Some f" and "fi_buf f = Buf j" and "j \<in> driver_holds (trace s)"
    and "effect (driver_holds (trace s) - {j}) s s'"
    and "nothing_fails (env s) \<Longrightarrow> rc = 0"
proof -
  obtain d s1 where d: "dequeue_answer n s = (d, s1)" by fastforce
  note e = dequeue_effect [OF d]
  show thesis
  proof (cases "dq_rc d <s 0")
    case True
    then show thesis using r d e(1) by (auto simp: mm_stream_read_msm_frame_def intro: that(1))
  next
    case False
    let ?j = "dq_index d" and ?H = "driver_holds (trace s)"
    let ?f = "\<lparr>fi_stream_id = my_hdl (one_less_queued s1), fi_frame_idx = dq_sequence d,
      fi_buf = Buf (dq_index d)\<rparr>"
    have h: "?j \<in> ?H"
      using o e(2) signed_nonneg [OF False] by (simp add: accounted_def honest_driver_def)
    have j: "?j < unat (buf_num s)" using accounted_refs(2) [OF o h] .
    have e1: "effect (?H - {?j}) s s1" using e(1) False by simp
    have e2: "effect (?H - {?j}) s (one_less_queued s1)"
      using effect_trans [OF e1] one_less_unmoved [of s1] by (simp add: moves_held [OF e1])
    let ?s3 = "fill_frame d (one_less_queued s1)"
    have "?j < unat (buf_num (one_less_queued s1))" using j e2 by (simp add: moves_def)
    note f3 = fill_frame_unmoved [OF this, unfolded moves_held [OF e2]]
    have e3: "effect (?H - {?j}) s ?s3" by (rule effect_trans [OF e2 f3])
    have u: "\<not> fb_userptr (buf_at ?s3 (Buf ?j))"
      using e3 o j by (intro good_bufs_not_user) (auto simp: accounted_def moves_def)
    obtain r4 s4 where 4: "(if has_clean_invalidate_buf (mem_ops ?s3)
      then s_ask (S_clean_invalidate ?j) ?s3 else (dq_rc d, ?s3)) = (r4, s4)" by fastforce
    have e4: "effect (?H - {?j}) s s4"
    proof (cases "has_clean_invalidate_buf (mem_ops ?s3)")
      case True
      then have "unmoved ?s3 s4" using 4 by (intro s_ask_unmoved) auto
      then show ?thesis by (intro effect_trans [OF e3]) (simp add: moves_held [OF e3])
    next
      case False
      then show ?thesis using 4 e3 by simp
    qed
    have "r4 = 0" if nf: "nothing_fails (env s)"
    proof -
      have "dq_rc d = 0" using e(2) False nf by (auto simp: nothing_fails_def)
      moreover have "env ?s3 = env s" using e3 by (simp add: moves_def)
      ultimately show ?thesis
        using 4 nf by (auto simp: nothing_fails_def s_ask_eq split: if_splits)
    qed
    moreover have "(rc, info, s') = (r4, Some ?f, s4)"
      using r 4 by (simp add: mm_stream_read_msm_frame_def d False u Let_def cong: if_cong)
    moreover from this have "info = Some ?f" "s' = s4" "rc = r4" by simp_all
    ultimately show thesis using that(2) [of ?f ?j] h e4 by simp
  qed
qed

text \<open>A synchronous slot stays one, and no asynchronous slot changes.\<close>

lemma count_down_sync: "cb_sync c \<Longrightarrow> \<not> async_slot (count_down c)"
  by (simp add: async_slot_def count_down_def Let_def)

lemma async_slots_update:
  assumes "\<not> async_slot c" and "k < length cs \<Longrightarrow> \<not> async_slot (cs ! k)"
  shows "list_ex async_slot (take n (cs[k := c])) = list_ex async_slot (take n cs)"
    and "(\<forall>c \<in> set (cs[k := c]). async_slot c \<longrightarrow> P c) = (\<forall>c \<in> set cs. async_slot c \<longrightarrow> P c)"
proof -
  have a: "async_slot (cs[k := c] ! i) = async_slot (cs ! i)" if "i < length cs" for i
    using that assms by (cases "i = k") (auto simp: nth_list_update)
  show "list_ex async_slot (take n (cs[k := c])) = list_ex async_slot (take n cs)"
    using a by (auto simp: list_ex_length)
  have "async_slot (cs[k := c] ! i) \<longrightarrow> cs[k := c] ! i = cs ! i" if "i < length cs" for i
    using that assms by (cases "i = k") (auto simp: nth_list_update)
  with a show "(\<forall>c \<in> set (cs[k := c]). async_slot c \<longrightarrow> P c) = (\<forall>c \<in> set cs. async_slot c \<longrightarrow> P c)"
    by (simp add: all_set_conv_all_nth)
qed

lemma sync_data_unmoved: "unmoved s (mm_stream_dispatch_sync_data k f s)"
proof (cases "cb_sync (buf_cb s ! k) \<and> cb_count (buf_cb s ! k) \<noteq> 0")
  case False
  then show ?thesis by (auto simp: mm_stream_dispatch_sync_data_def Let_def)
next
  case True
  let ?c = "count_down (buf_cb s ! k)"
  have "\<not> async_slot ?c" "\<not> async_slot (buf_cb s ! k)"
    using True count_down_sync by (auto simp: async_slot_def)
  note u = async_slots_update [OF this(1) this(2)]
  show ?thesis
    using True
    by (simp add: mm_stream_dispatch_sync_data_def Let_def moves_def good_bufs_def steady_def
        has_async_cb_def s_tell_def s_ask_eq u del: drop_ref_simps)
qed

lemma sync_loop_unmoved:
  "unmoved s (fold (\<lambda>k s. if cb_fn (buf_cb s ! k) \<noteq> NULL \<and> cb_sync (buf_cb s ! k)
                     then mm_stream_dispatch_sync_data k f s else s) ks s)"
proof (induction ks arbitrary: s)
  case Nil
  then show ?case by simp
next
  case (Cons k ks)
  show ?case using unmoved_then [OF sync_data_unmoved Cons.IH] Cons.IH by simp
qed

text \<open>
  The channels are told of a frame; a reference for a linked channel is taken before.  What is
  handed out or queued never exceeds the references that were taken.
\<close>

definition is_taken :: "bool \<Rightarrow> nat" where
  "is_taken b = (if b then 1 else 0)"

lemma notify_moves:
  assumes "fi_buf f = Buf j" and "c = S_notify_channel f \<or> c = S_notify_linked f"
  shows "moves j 0 (is_taken (answer (env s) (trace s) c \<noteq> 0)) [] (driver_holds (trace s)) s
           (snd (mm_stream_notify_channel True c s))"
  using assms
  by (auto simp: mm_stream_notify_channel_def s_ask_eq moves_def good_bufs_def steady_def
      has_async_cb_def is_taken_def Let_def)

lemma handle_rcvd_moves:
  assumes f: "fi_buf f = Buf j" and j: "j < unat (buf_num s)" and g: "good_bufs s"
  obtains m ms where
    "moves j (is_taken (is_linked s)) m ms (driver_holds (trace s)) s (mm_stream_handle_rcvd_buf f cb s)"
    and "m + length ms \<le> is_taken (is_bundled s) + is_taken (is_linked s) + is_taken cb"
    and "ms = [] \<or> ms = [Some f]" and "ms \<noteq> [] \<longrightarrow> cb \<and> is_active (cmd_thread s)"
    and "nothing_fails (env s) \<Longrightarrow> has_channel s \<Longrightarrow> (cb \<longrightarrow> is_active (cmd_thread s)) \<Longrightarrow>
           m + length ms = is_taken (is_bundled s) + is_taken (is_linked s) + is_taken cb"
proof -
  let ?H = "driver_holds (trace s)"
  define s1 where "s1 = (if is_bundled s
    then snd (mm_stream_notify_channel (has_channel s) (S_notify_channel f) s) else s)"
  obtain g1 where m1: "moves j 0 g1 [] ?H s s1" and g1: "g1 \<le> is_taken (is_bundled s)"
    and x1: "nothing_fails (env s) \<and> has_channel s \<longrightarrow> g1 = is_taken (is_bundled s)"
  proof (cases "is_bundled s \<and> has_channel s")
    case True
    with that [of "is_taken (answer (env s) (trace s) (S_notify_channel f) \<noteq> 0)"]
      notify_moves [OF f, of "S_notify_channel f" s]
    show thesis by (simp add: s1_def is_taken_def nothing_fails_def)
  next
    case False
    with that [of 0] show thesis
      by (auto simp: s1_def is_taken_def moves_def mm_stream_notify_channel_def)
  qed
  note h1 = moves_held [OF m1]
  have idx: "fb_idx (buf_at s1 (fi_buf f)) = j"
    using buf_at_idx [of s1 j] f j g m1 by (simp add: moves_def)
  define s2 where "s2 = (if is_linked s1 then snd (mm_stream_notify_channel True (S_notify_linked f)
    (add_ref (fb_idx (buf_at s1 (fi_buf f))) 1 s1)) else s1)"
  have l: "is_linked s1 = is_linked s" "env s1 = env s" using m1 by (simp_all add: moves_def)
  obtain g2 where m2: "moves j (is_taken (is_linked s)) g2 [] ?H s1 s2" and g2: "g2 \<le> is_taken (is_linked s)"
    and x2: "nothing_fails (env s) \<longrightarrow> g2 = is_taken (is_linked s)"
  proof (cases "is_linked s")
    case True
    let ?t = "add_ref j 1 s1"
    have a: "moves j 1 0 [] ?H s1 ?t" using add_ref_moves [of j 1 s1] by (simp add: h1)
    note n = notify_moves [OF f, of "S_notify_linked f" ?t]
    have "moves j 1 (is_taken (answer (env ?t) (trace ?t) (S_notify_linked f) \<noteq> 0)) [] ?H s1 s2"
      using moves_trans [OF a] n True idx l by (simp add: s2_def moves_held [OF a])
    moreover have "env ?t = env s" using a l by (simp add: moves_def)
    ultimately show thesis
      using that [of "is_taken (answer (env ?t) (trace ?t) (S_notify_linked f) \<noteq> 0)"] True
      by (simp add: is_taken_def nothing_fails_def)
  next
    case False
    with that [of 0] l show thesis by (simp add: s2_def is_taken_def moves_def h1)
  qed
  define s3 where "s3 = mm_stream_handle_rcvd_buf f cb s"
  have a: "is_active (cmd_thread s2) = is_active (cmd_thread s)" "env s2 = env s"
    using m1 m2 by (simp_all add: moves_def)
  have s3: "s3 = (if cb \<and> is_active (cmd_thread s2) then
      let (m, s) = s_ask S_malloc s2
      in if m \<noteq> 0
         then s\<lparr>cmd_thread := (cmd_thread s)\<lparr>cmd_queue := cmd_queue (cmd_thread s) @ [Some f]\<rparr>\<rparr>
         else s
      else s2)"
    unfolding s3_def mm_stream_handle_rcvd_buf_def s2_def s1_def Let_def by simp
  define m where "m \<longleftrightarrow> cb \<and> is_active (cmd_thread s2) \<and> answer (env s2) (trace s2) S_malloc \<noteq> 0"
  have m3: "moves j 0 0 (if m then [Some f] else []) ?H s2 s3"
    using moves_held [OF m2]
    by (auto simp: s3 m_def s_ask_eq moves_def good_bufs_def steady_def has_async_cb_def Let_def)
  have "moves j (is_taken (is_linked s)) (g1 + g2) (if m then [Some f] else []) ?H s s3"
    using moves_trans [OF moves_trans [OF m1 m2] m3] by simp
  note mv = this [unfolded s3_def]
  have m_cb: "nothing_fails (env s) \<Longrightarrow> (cb \<longrightarrow> is_active (cmd_thread s)) \<Longrightarrow> m = cb"
    using a by (auto simp: m_def nothing_fails_def)
  have m_le: "length (if m then [Some f] else []) \<le> is_taken cb" by (simp add: m_def is_taken_def)
  have m_act: "m \<Longrightarrow> cb \<and> is_active (cmd_thread s)" using a by (simp add: m_def)
  show thesis
  proof (rule that [OF mv])
    show "g1 + g2 + length (if m then [Some f] else [])
        \<le> is_taken (is_bundled s) + is_taken (is_linked s) + is_taken cb" using g1 g2 m_le by linarith
    show "(if m then [Some f] else []) \<noteq> [] \<longrightarrow> cb \<and> is_active (cmd_thread s)" using m_act by simp
    show "g1 + g2 + length (if m then [Some f] else [])
        = is_taken (is_bundled s) + is_taken (is_linked s) + is_taken cb"
      if "nothing_fails (env s)" and "has_channel s" and "cb \<longrightarrow> is_active (cmd_thread s)"
      using m_cb [OF that(1,3)] x1 x2 that(1,2) by (simp add: is_taken_def)
  qed simp
qed

lemma data_notify_cases:
  assumes o: "accounted led ns s"
  obtains "unmoved s (mm_stream_data_notify s)"
  | j where "s_state s = MM_STREAM_STATE_ACTIVE" and "j \<in> driver_holds (trace s)"
    and "effect (driver_holds (trace s) - {j}) s (mm_stream_data_notify s)"
    and "\<not> nothing_fails (env s)"
  | j n m ms where "s_state s = MM_STREAM_STATE_ACTIVE" and "j \<in> driver_holds (trace s)"
    and "moves j n m ms (driver_holds (trace s) - {j}) s (mm_stream_data_notify s)"
    and "m + length ms \<le> n" and "n \<le> 3" and "ms = [] \<or> (\<exists>f. ms = [Some f] \<and> fi_buf f = Buf j)"
    and "nothing_fails (env s) \<Longrightarrow> steady s \<Longrightarrow> (has_async_cb s \<longrightarrow> is_active (cmd_thread s)) \<Longrightarrow>
           m + length ms = n \<and> n = is_taken (is_bundled s) + is_taken (is_linked s) + is_taken (has_async_cb s)"
proof (cases "s_state s = MM_STREAM_STATE_ACTIVE")
  case False
  then show thesis by (intro that(1)) (simp add: mm_stream_data_notify_def)
next
  case act: True
  let ?H = "driver_holds (trace s)"
  define len where "len = (if sm_batch (mode s) then 1 :: u8
    else ucast (num_planes (lay_frame_offset (lay s))))"
  obtain rc info s1 where r: "mm_stream_read_msm_frame len s = (rc, info, s1)"
    by (metis prod_cases3)
  from o r show thesis
  proof (cases rule: read_frame_cases)
    case 1
    then show thesis using r act
      by (intro that(1)) (simp add: mm_stream_data_notify_def len_def Let_def)
  next
    case (2 j f)
    note j = accounted_refs(2) [OF o 2(3)]
    show thesis
    proof (cases "rc = 0")
      case False
      then show thesis using r act 2
        by (intro that(2) [of j]) (auto simp: mm_stream_data_notify_def len_def Let_def)
    next
      case True
      define cb where "cb = has_async_cb s1"
      define s2 where "s2 = fold (\<lambda>k s. if cb_fn (buf_cb s ! k) \<noteq> NULL \<and> cb_sync (buf_cb s ! k)
        then mm_stream_dispatch_sync_data k f s else s) [0..<MM_CAMERA_STREAM_BUF_CB_MAX] s1"
      define s3 where "s3 = set_status j (\<lambda>st. st\<lparr>in_kernel := False\<rparr>) s2"
      define s4 where "s4 = (if is_bundled s3 then add_ref j 1 s3 else s3)"
      define s5 where "s5 = add_ref j (if cb then 1 else 0) s4"
      have e1: "effect (?H - {j}) s s1" by fact
      have e2: "effect (?H - {j}) s s2"
        using effect_trans [OF e1] sync_loop_unmoved [of s1 f] by (simp add: s2_def moves_held [OF e1])
      have e3: "effect (?H - {j}) s s3"
        using effect_trans [OF e2] set_status_unmoved [of "\<lambda>st. st\<lparr>in_kernel := False\<rparr>" s2 j]
        by (simp add: s3_def moves_held [OF e2])
      have p: "good_bufs s1" "is_bundled s3 = is_bundled s"
        using e1 e3 o by (auto simp: moves_def accounted_def)
      have m4: "moves j (is_taken (is_bundled s)) 0 [] (?H - {j}) s s4"
        using effect_then_moves [OF e3] add_ref_moves [of j 1 s3] effect_moves [OF e3, of j] p(2)
        by (simp add: s4_def is_taken_def moves_held [OF e3])
      have a5: "moves j (is_taken cb) 0 [] (driver_holds (trace s4)) s4 s5"
        using add_ref_moves [of j "is_taken cb" s4] by (simp add: s5_def is_taken_def split: if_splits)
      have m5: "moves j (is_taken (is_bundled s) + is_taken cb) 0 [] (?H - {j}) s s5"
        using moves_trans [OF m4 a5] by (simp add: moves_held [OF m4])
      have idx: "fb_idx (buf_at s1 (fi_buf f)) = j"
        using buf_at_idx [OF p(1)] j e1 2(2) by (simp add: moves_def)
      have s': "mm_stream_data_notify s = mm_stream_handle_rcvd_buf f cb s5"
        using r act True 2(1) idx
        by (simp add: mm_stream_data_notify_def len_def [symmetric] Let_def cb_def s2_def s3_def
            s4_def s5_def)
      have q: "good_bufs s5" "j < unat (buf_num s5)" "is_linked s5 = is_linked s"
        "is_bundled s5 = is_bundled s" "env s5 = env s"
        "is_active (cmd_thread s5) = is_active (cmd_thread s)"
        using m5 o j by (auto simp: moves_def accounted_def)
      obtain m ms where
        m6: "moves j (is_taken (is_linked s)) m ms (driver_holds (trace s5)) s5 (mm_stream_data_notify s)"
        and le: "m + length ms \<le> is_taken (is_bundled s) + is_taken (is_linked s) + is_taken cb"
        and ms: "ms = [] \<or> ms = [Some f]"
        and eq: "nothing_fails (env s) \<Longrightarrow> has_channel s5 \<Longrightarrow> (cb \<longrightarrow> is_active (cmd_thread s)) \<Longrightarrow>
           m + length ms = is_taken (is_bundled s) + is_taken (is_linked s) + is_taken cb"
        by (rule handle_rcvd_moves [OF 2(2) q(2,1), of cb, unfolded q(3-6) s' [symmetric]])
          (rule that)
      have st: "steady s \<Longrightarrow> cb = has_async_cb s" using e1 by (simp add: cb_def moves_def)
      have mv: "moves j (is_taken (is_bundled s) + is_taken cb + is_taken (is_linked s)) m ms (?H - {j}) s
          (mm_stream_data_notify s)"
        using moves_trans [OF m5 m6] by (simp add: moves_held [OF m5])
      have t1: "is_taken b \<le> 1" for b by (simp add: is_taken_def)
      show thesis
      proof (rule that(3) [OF act 2(3) mv])
        show "m + length ms \<le> is_taken (is_bundled s) + is_taken cb + is_taken (is_linked s)"
          using le by linarith
        show "is_taken (is_bundled s) + is_taken cb + is_taken (is_linked s) \<le> 3"
          using t1 [of "is_bundled s"] t1 [of "is_linked s"] t1 [of cb] by linarith
        show "ms = [] \<or> (\<exists>f. ms = [Some f] \<and> fi_buf f = Buf j)" using ms 2(2) by metis
        show "m + length ms = is_taken (is_bundled s) + is_taken cb + is_taken (is_linked s) \<and>
            is_taken (is_bundled s) + is_taken cb + is_taken (is_linked s)
              = is_taken (is_bundled s) + is_taken (is_linked s) + is_taken (has_async_cb s)"
          if "nothing_fails (env s)" and "steady s" and "has_async_cb s \<longrightarrow> is_active (cmd_thread s)"
        proof -
          have "has_channel s5" using m5 that(2) by (simp add: moves_def steady_def)
          from eq [OF that(1) this] show ?thesis using st [OF that(2)] that(3) by simp
        qed
      qed
    qed
  qed
qed

lemma data_notify_accounted:
  assumes o: "accounted led [] s"
  shows "accounted led [] (mm_stream_data_notify s)"
  using o
proof (cases rule: data_notify_cases)
  case 1
  then show ?thesis by (rule accounted_unmoved [OF o])
next
  case (2 j)
  show ?thesis by (rule accounted_effect [OF o 2(3)]) (auto dest: accounted_refs [OF o])
next
  case (3 j n m ms)
  note r = accounted_refs [OF o 3(2)]
  have c: "counted led [] s j" using o r(2) by (simp add: accounted_def)
  have z: "carried j (in_queue s) = 0" using c r(1) 
    by (auto simp: counted_def)
  have ms: "carried i ms \<le> (if i = j then length ms else 0)" for i using 3(6) by auto
  show ?thesis
  proof (rule accounted_moves [OF o 3(3)])
    show "int (carried i ms) + (if i = j then int m else 0) \<le> (if i = j then int n else 0)" for i
      using ms [of i] 3(4) by auto
    show "list_all (frame_fits_node s) ms" using 3(6) r(2) by (auto simp: frame_fits_node_def)
    show "refs s j + n + 4 * (carried j ([] @ in_queue s) + carried j ms) \<le> 7"
      using r(1) z ms [of j] 3(4-6) by auto
  qed (use r accounted_refs [OF o] in auto)
qed

section \<open>Mapping and the other unmoved operations\<close>

lemma signal_mapping_unmoved: "unmoved s (signal_mapping s)"
  by (simp add: signal_mapping_def s_tell_unmoved)

lemma map_status_loop_unmoved:
  "unmoved s (fold (\<lambda>i. set_status i (\<lambda>st. st\<lparr>map_status := v\<rparr>)) is s)"
proof (induction "is" arbitrary: s)
  case Nil
  then show ?case by simp
next
  case (Cons i "is")
  show ?case using unmoved_then [OF set_status_unmoved Cons.IH] by simp
qed

lemma map_status_unmoved: "unmoved s (set_status i (\<lambda>st. st\<lparr>map_status := v\<rparr>) s)"
  by (rule set_status_unmoved) simp_all

lemma map_buf_unmoved: "unmoved s (snd (mm_stream_map_buf m s))"
proof -
  obtain rc s1 where a: "s_ask (S_send_map (m\<lparr>bm_stream_id := server_stream_id s\<rparr>)) s = (rc, s1)"
    by fastforce
  have q: "unmoved s s1" using s_ask_unmoved [OF a] by simp
  have "unmoved s1 (signal_mapping (set_status (bm_frame_idx m) (\<lambda>st. st\<lparr>map_status := v\<rparr>) s1))" for v
    by (rule unmoved_then [OF map_status_unmoved signal_mapping_unmoved])
  with q show ?thesis
    by (auto simp: mm_stream_map_buf_def a Let_def intro: unmoved_then [OF q])
qed

lemma map_bufs_unmoved: "unmoved s (snd (mm_stream_map_bufs ms s))"
proof -
  obtain rc s1 where
    a: "s_ask (S_send_maps (map (\<lambda>m. m\<lparr>bm_stream_id := server_stream_id s\<rparr>) ms)) s = (rc, s1)"
    by fastforce
  have q: "unmoved s s1" using s_ask_unmoved [OF a] by simp
  have "unmoved s1 (signal_mapping (fold (\<lambda>i. set_status i (\<lambda>st. st\<lparr>map_status := v\<rparr>)) is s1))"
    for "is" v by (rule unmoved_then [OF map_status_loop_unmoved signal_mapping_unmoved])
  with q show ?thesis
    by (auto simp: mm_stream_map_bufs_def a Let_def intro: unmoved_then [OF q])
qed

lemma unmap_buf_unmoved: "unmoved s (snd (mm_stream_unmap_buf ty i plane s))"
proof -
  obtain rc s1 where a: "s_ask (S_send_unmap ty i plane) s = (rc, s1)" by fastforce
  have q: "unmoved s s1" using s_ask_unmoved [OF a] by simp
  show ?thesis
    by (auto simp: mm_stream_unmap_buf_def a intro: unmoved_then [OF q map_status_unmoved])
qed

lemma ask_cond_unmoved: "unmoved_call c \<Longrightarrow> unmoved s (snd (if b then s_ask c s else (-1, s)))"
  using s_ask_unmoved [of c s "fst (s_ask c s)" "snd (s_ask c s)"] by simp

lemma parm_unmoved:
  "unmoved s (snd (mm_stream_set_parm p s))" "unmoved s (snd (mm_stream_get_parm p s))"
  "unmoved s (snd (mm_stream_do_action p s))"
  by (simp_all add: mm_stream_set_parm_def mm_stream_get_parm_def mm_stream_do_action_def
      ask_cond_unmoved del: if_split)

lemma cancel_unmoved: "unmoved s (snd (mm_stream_cancel_buf i s))"
  using s_ask_unmoved [of "S_ioctl_return_buf i" s]
  by (cases "s_ask (S_ioctl_return_buf i) s") (auto simp: mm_stream_cancel_buf_def)

lemma wait_mapping_unmoved: "unmoved s (snd (wait_mapping s))"
  using s_ask_unmoved [of S_wait_mapping s]
  by (cases "s_ask S_wait_mapping s") (auto simp: wait_mapping_def split: option.split)

lemma streamon_unmoved: "unmoved s (snd (mm_stream_streamon s))"
proof -
  obtain r1 s1 where 1: "wait_mapping s = (r1, s1)" by fastforce
  have q1: "unmoved s s1" using wait_mapping_unmoved [of s] 1 by simp
  obtain r2 s2 where 2: "s_ask S_ioctl_streamon s1 = (r2, s2)" by fastforce
  have q2: "unmoved s s2" using unmoved_then [OF q1 s_ask_unmoved [OF 2]] by simp
  show ?thesis
    using unmoved_then [OF q1 del_poll_unmoved [of s1 mm_camera_sync_call]]
      unmoved_then [OF q2 del_poll_unmoved [of s2 mm_camera_sync_call]] q2
    by (simp add: mm_stream_streamon_def 1 2)
qed

section \<open>Starting and stopping\<close>

lemma accounted_to_state [simp]: "accounted led ns (to_state st s) = accounted led ns s"
proof -
  have "frame_fits_node (to_state st s) = frame_fits_node s" by (simp add: frame_fits_node_def to_state_def fun_eq_iff)
  then show ?thesis
    by (simp add: accounted_def to_state_def good_bufs_def counted_def refs_def)
qed

lemma start_accounted:
  assumes o: "accounted led [] s"
  shows "accounted led [] (snd (start_stream s))"
proof -
  define s1 where "s1 = (if has_async_cb s then upd_cmd_thread mm_camera_cmd_thread_launch s else s)"
  have "accounted led [] s1"
    using accounted_clear_queue [OF o, of True] o
    by (simp add: s1_def mm_camera_cmd_thread_launch_def [abs_def])
  then have o2: "accounted led [] (snd (mm_stream_streamon (to_state MM_STREAM_STATE_ACTIVE s1)))"
    by (intro accounted_unmoved [OF _ streamon_unmoved]) simp
  show ?thesis
    using o2 release_cmd_thread_accounted [OF o2]
    by (auto simp: start_stream_def s1_def [symmetric] Let_def split: prod.splits)
qed

lemma streamoff_accounted:
  assumes o: "accounted led [] s"
  shows "accounted led [] (snd (mm_stream_streamoff s))"
proof -
  obtain r1 s1 where 1: "del_poll mm_camera_sync_call s = (r1, s1)" by fastforce
  have o1: "accounted led [] s1" using accounted_unmoved [OF o del_poll_unmoved [of s mm_camera_sync_call]] 1 by simp
  obtain r2 s2 where 2: "(if r1 <s 0 then
      let (rc, s) = poll_call mm_camera_poll_thread_commit_updates s1
      in (if rc <s 0 then 0 else rc, s) else (r1, s1)) = (r2, s2)" by fastforce
  have "s2 = s1 \<or> s2 = snd (poll_call mm_camera_poll_thread_commit_updates s1)"
    using 2 by (auto split: if_splits prod.splits)
  then have o2: "accounted led [] s2" using o1 accounted_unmoved [OF o1 poll_call_unmoved] by auto
  obtain r3 s3 where 3: "s_ask S_ioctl_streamoff s2 = (r3, s3)" by fastforce
  have "effect (if r3 <s 0 then driver_holds (trace s2) else {}) s2 s3"
    using 3 by (auto simp: s_ask_eq moves_fields)
  then have "accounted led [] s3"
    by (rule accounted_effect [OF o2]) (auto dest: accounted_refs [OF o2] split: if_splits)
  then show ?thesis using 3 by (simp add: mm_stream_streamoff_def 1 2 split: prod.splits)
qed

lemma stop_accounted: "accounted led [] s \<Longrightarrow> accounted led [] (snd (stop_stream s))"
  using streamoff_accounted [of led s] release_cmd_thread_accounted [of led "snd (mm_stream_streamoff s)"]
  by (auto simp: stop_stream_def Let_def split: prod.splits)

end
