(* ===== verification/St_State.thy ===== *)
theory St_State
  imports St_Fsm
begin

text \<open>
  Only the handlers of the state machine change the state of a stream and only ACQUIRE and the
  release change its descriptor; the operations below them leave both, the handle, the buffers
  and the environment as they are.
\<close>

definition same_object :: "mm_stream \<Rightarrow> mm_stream \<Rightarrow> bool" where
  "same_object s s' \<longleftrightarrow> s_state s' = s_state s \<and> s_fd s' = s_fd s \<and> my_hdl s' = my_hdl s \<and>
     (bufs s' = None \<longleftrightarrow> bufs s = None) \<and> has_channel s' = has_channel s \<and> env s' = env s"

lemma same_object_refl [simp, intro]: "same_object s s"
  by (simp add: same_object_def)

lemma same_object_trans: "same_object s t \<Longrightarrow> same_object t u \<Longrightarrow> same_object s u"
  by (simp add: same_object_def)

named_theorems objs "operations that keep the state, the descriptor and the buffers of a stream"

lemma s_ask_obj [objs]: "same_object s (snd (s_ask c s))"
  by (simp add: s_ask_def same_object_def Let_def)

lemma s_tell_obj [objs]: "same_object s (s_tell c s)"
  by (simp add: s_tell_def s_ask_obj)

lemma set_status_obj [objs]: "same_object s (set_status i f s)"
  by (simp add: set_status_def same_object_def)

lemma put_buf_obj [objs]: "same_object s (put_buf r f s)"
  by (cases r) (simp_all add: put_buf_def same_object_def)

lemma poll_call_obj [objs]: "same_object s (snd (poll_call f s))"
  by (simp add: poll_call_def same_object_def split: option.split prod.split)

lemma add_poll_obj [objs]: "same_object s (snd (add_poll ct s))"
  by (simp add: add_poll_def poll_call_obj)

lemma del_poll_obj [objs]: "same_object s (snd (del_poll ct s))"
  by (simp add: del_poll_def poll_call_obj)

text \<open>Updates of the other fields.\<close>

lemma field_objs [objs]:
  "same_object s (s\<lparr>queued_buffer_count := n\<rparr>)" "same_object s (s\<lparr>cur_bufs_staged := n\<rparr>)"
  "same_object s (s\<lparr>cur_buf_idx := k\<rparr>)" "same_object s (s\<lparr>conts := c\<rparr>)"
  "same_object s (s\<lparr>buf_cb := cbs\<rparr>)" "same_object s (s\<lparr>cmd_thread := t\<rparr>)"
  "same_object s (s\<lparr>trace := tr\<rparr>)" "same_object s (s\<lparr>prev_timestamp := ts\<rparr>)"
  "same_object s (s\<lparr>prev_frameID := f\<rparr>)" "same_object s (s\<lparr>mode := m\<rparr>)"
  "same_object s (s\<lparr>lay := l\<rparr>)" "same_object s (s\<lparr>cur_bufs_staged := n, cur_buf_idx := k\<rparr>)"
  "same_object s (s\<lparr>server_stream_id := sid\<rparr>)"
  by (simp_all add: same_object_def)

text \<open>Compositions: an operation followed by one that keeps the object.\<close>

lemma obj_prod:
  assumes "same_object s (snd p)" and "\<And>a t. p = (a, t) \<Longrightarrow> same_object t (g a t)"
  shows "same_object s (case p of (a, t) \<Rightarrow> g a t)"
  using assms same_object_trans by (cases p) fastforce

lemma obj_fold:
  assumes "\<And>x s. same_object s (f x s)"
  shows "same_object s (fold f xs s)"
proof (induction xs arbitrary: s)
  case Nil
  then show ?case by simp
next
  case (Cons x xs)
  show ?case using same_object_trans [OF assms Cons.IH] by simp
qed

lemma one_more_obj [objs]: "same_object s (one_more_queued s)"
  by (simp add: one_more_queued_def Let_def field_objs same_object_trans [OF field_objs(1) add_poll_obj])

lemma one_less_obj [objs]: "same_object s (one_less_queued s)"
  by (simp add: one_less_queued_def Let_def field_objs same_object_trans [OF field_objs(1) del_poll_obj])

lemma s_ask_objD: "s_ask c s = (rc, t) \<Longrightarrow> same_object s t"
  using s_ask_obj [of s c] by simp

lemma qbuf_obj [objs]: "same_object s (snd (mm_stream_qbuf b s))"
proof -
  obtain r s1 where 1: "(if has_invalidate_buf (mem_ops s) then s_ask (S_invalidate (fb_idx b)) s
      else (0, s)) = (r, s1)" by fastforce
  have o1: "same_object s s1" using 1 by (auto split: if_splits dest: s_ask_objD)
  define n :: int32 where "n = (if fb_userptr b then 1 else ucast (fb_num_planes b))"
  obtain r2 s2 where 2: "s_ask (S_ioctl_qbuf (fb_idx b) n) (one_more_queued s1) = (r2, s2)" by fastforce
  have o2: "same_object s s2"
    by (rule same_object_trans [OF o1 same_object_trans [OF one_more_obj s_ask_objD [OF 2]]])
  have "snd (mm_stream_qbuf b s) = (if r <s 0 then s1 else if r2 <s 0 then one_less_queued s2 else s2)"
    using 1 2 by (simp add: mm_stream_qbuf_def Let_def n_def)
  then show ?thesis using o1 o2 same_object_trans [OF o2 one_less_obj] by simp
qed

lemma qbuf_objD: "mm_stream_qbuf b s = (rc, t) \<Longrightarrow> same_object s t"
  using qbuf_obj [of s b] by simp

lemma drop_ref_obj [objs]: "same_object s (drop_ref i s)"
  by (simp add: drop_ref_def set_status_obj)

lemma add_ref_obj [objs]: "same_object s (add_ref i n s)"
  by (simp add: add_ref_def set_status_obj)

lemma queue_container_obj [objs]: "same_object s (snd (queue_container i b s))"
proof -
  define s1 where "s1 = s\<lparr>conts := (conts s)(fb_buffer (buf_at s (Buf i)) :=
      (conts s (fb_buffer (buf_at s (Buf i))))
      \<lparr>cont_cnt := unat (bufs_used (fb_user (buf_at s (Buf i)))),
       cont_idx := take (unat (bufs_used (fb_user (buf_at s (Buf i))))) (ub_idx (fb_user (buf_at s (Buf i))))
         @ drop (unat (bufs_used (fb_user (buf_at s (Buf i)))))
             (cont_idx (conts s (fb_buffer (buf_at s (Buf i)))))\<rparr>)\<rparr>"
  obtain rc s2 where q: "mm_stream_qbuf b s1 = (rc, s2)" by fastforce
  have o2: "same_object s s2"
    by (rule same_object_trans [OF _ qbuf_objD [OF q]]) (simp add: s1_def field_objs)
  have "same_object s2 (set_status i f (put_buf r g s2))" for f r g
    by (rule same_object_trans [OF put_buf_obj set_status_obj])
  with o2 show ?thesis
    using q by (auto simp: queue_container_def s1_def Let_def intro: same_object_trans)
qed

lemma stage_plane_obj [objs]: "same_object s (snd (stage_plane i k s))"
proof -
  define s1 where "s1 = (put_buf (Buf i) (\<lambda>b. b\<lparr>fb_user := (fb_user b)\<lparr>
      ub_idx := (ub_idx (fb_user b))[0 := int k]\<rparr>\<rparr>) s)"
  define s2 where "s2 = s1\<lparr>cur_bufs_staged := cur_bufs_staged s1 + 1\<rparr>"
  have o2: "same_object s s2"
    using same_object_trans [OF put_buf_obj field_objs(2)] by (simp add: s2_def s1_def)
  have o3: "same_object s (drop_ref i s2)" by (rule same_object_trans [OF o2 drop_ref_obj])
  obtain rc s4 where q: "queue_container i (buf_at (drop_ref i s2) (Buf i)) (drop_ref i s2) = (rc, s4)"
    by fastforce
  have o4: "same_object s s4"
    using same_object_trans [OF o3 queue_container_obj] q by (metis snd_conv)
  have "stage_plane i k s =
      (if cur_bufs_staged s2 = bufs_used (fb_user (buf_at s2 (Buf i))) then
         if buf_refcnt (status_of (drop_ref i s2) i) = 0 then
           if rc <s 0 then (rc, s4) else (rc, s4\<lparr>cur_bufs_staged := 0, cur_buf_idx := -1\<rparr>)
         else (0, drop_ref i s2)
       else (0, s2))"
    by (simp only: stage_plane_def Let_def s1_def [symmetric] s2_def [symmetric] q prod.case)
  then show ?thesis using o2 o3 o4 same_object_trans [OF o4 field_objs(12)] by simp
qed

lemma write_user_buf_obj [objs]: "same_object s (snd (mm_stream_write_user_buf b s))"
  using same_object_trans [OF field_objs(3) stage_plane_obj] stage_plane_obj field_objs(3)
    same_object_trans [OF drop_ref_obj queue_container_obj] drop_ref_obj
  by (auto simp: mm_stream_write_user_buf_def Let_def split: option.split prod.split)

lemma buf_done_obj [objs]: "same_object s (snd (mm_stream_buf_done r s))"
proof -
  let ?i = "fb_idx (buf_at s r)"
  obtain rc t where q: "mm_stream_qbuf (buf_at s r) (drop_ref ?i s) = (rc, t)" by fastforce
  have o: "same_object s t" by (rule same_object_trans [OF drop_ref_obj qbuf_objD [OF q]])
  show ?thesis
    using q o drop_ref_obj write_user_buf_obj same_object_trans [OF o set_status_obj]
    by (simp add: mm_stream_buf_done_def Let_def)
qed

section \<open>Frames and callbacks\<close>

lemma app_callback_obj [objs]: "same_object s (app_callback f k s)"
proof -
  have "same_object s (s_tell c (add_ref i n s))" for c i n
    by (rule same_object_trans [OF add_ref_obj s_tell_obj])
  then show ?thesis
    by (auto simp: app_callback_def Let_def field_objs intro: same_object_trans [OF _ field_objs(5)])
qed

lemma dispatch_obj [objs]: "same_object s (mm_stream_dispatch_app_data f s)"
  unfolding mm_stream_dispatch_app_data_def
  by (rule same_object_trans [OF obj_fold [of "app_callback f"] buf_done_obj]) (rule app_callback_obj)

lemma cmd_thread_obj [objs]: "same_object s (mm_camera_cmd_thread mm_stream_dispatch_app_data ns s)"
proof (induction ns arbitrary: s)
  case Nil
  then show ?case by simp
next
  case (Cons n ns)
  then show ?case
    by (cases n) (auto intro: same_object_trans [OF dispatch_obj])
qed

lemma upd_cmd_thread_obj [objs]: "same_object s (upd_cmd_thread f s)"
  by (simp add: upd_cmd_thread_def field_objs)

lemma release_cmd_thread_obj [objs]: "same_object s (release_cmd_thread s)"
proof -
  obtain m s1 where m: "s_ask S_malloc s = (m, s1)" by fastforce
  have o1: "same_object s s1" by (rule s_ask_objD [OF m])
  have "same_object s1 (upd_cmd_thread g (mm_camera_cmd_thread mm_stream_dispatch_app_data ns
      (upd_cmd_thread f s1)))" for f g ns
    by (rule same_object_trans [OF upd_cmd_thread_obj
          same_object_trans [OF cmd_thread_obj upd_cmd_thread_obj]])
  then show ?thesis
    using m o1
    by (auto simp: release_cmd_thread_def mm_camera_cmd_thread_release_def
        mm_camera_cmd_thread_stop_def intro: same_object_trans)
qed

lemma plane_times_obj [objs]: "same_object s (plane_times n fr iv pv uv c s)"
  unfolding plane_times_def Let_def by (rule obj_fold) (rule put_buf_obj)

lemma read_user_buf_obj [objs]: "same_object s (snd (mm_stream_read_user_buf i s))"
proof -
  have 1: "same_object s (put_buf r1 g1 (plane_times n fr iv pv uv c (put_buf r2 g2 s)))"
    for r1 g1 n fr iv pv uv c r2 g2 and s :: mm_stream
    by (rule same_object_trans [OF put_buf_obj same_object_trans [OF plane_times_obj put_buf_obj]])
  have 2: "same_object s (put_buf r1 g1 (plane_times n fr iv pv uv c (put_buf r2 g2 s))
      \<lparr>prev_timestamp := t, prev_frameID := k\<rparr>)"
    for r1 g1 n fr iv pv uv c r2 g2 t k and s :: mm_stream
    using same_object_trans [OF 1 same_object_trans [OF field_objs(8) field_objs(9)]] by simp
  show ?thesis
    using 2 qbuf_obj same_object_trans [OF field_objs(8) 2]
    by (simp add: mm_stream_read_user_buf_def Let_def)
qed

lemma fill_frame_obj [objs]: "same_object s (fill_frame d s)"
proof -
  have "same_object s (put_buf r f s\<lparr>conts := c\<rparr>)" for r f c
    by (rule same_object_trans [OF put_buf_obj field_objs(4)])
  then show ?thesis by (simp add: fill_frame_def Let_def put_buf_obj split: option.split)
qed

lemma read_msm_frame_obj: "mm_stream_read_msm_frame n s = (rc, info, t) \<Longrightarrow> same_object s t"
proof -
  assume r: "mm_stream_read_msm_frame n s = (rc, info, t)"
  obtain d s1 where d: "dequeue_answer n s = (d, s1)" by fastforce
  have o1: "same_object s s1" using d by (auto simp: dequeue_answer_def Let_def field_objs)
  let ?s3 = "fill_frame d (one_less_queued s1)"
  have o3: "same_object s ?s3"
    by (rule same_object_trans [OF o1 same_object_trans [OF one_less_obj fill_frame_obj]])
  define s4 where "s4 = (if fb_userptr (buf_at ?s3 (Buf (dq_index d)))
    then snd (mm_stream_read_user_buf (dq_index d) ?s3) else ?s3)"
  have o4: "same_object s s4"
    using o3 same_object_trans [OF o3 read_user_buf_obj] by (simp add: s4_def)
  obtain r5 s5 where 5: "(if has_clean_invalidate_buf (mem_ops s4)
    then s_ask (S_clean_invalidate (dq_index d)) s4 else (dq_rc d, s4)) = (r5, s5)" by fastforce
  have o5: "same_object s s5"
    using 5 o4 by (auto split: if_splits dest: s_ask_objD intro: same_object_trans)
  have "t = (if dq_rc d <s 0 then s1 else s5)"
    using r 5 by (auto simp: mm_stream_read_msm_frame_def d Let_def s4_def [symmetric]
        split: if_splits prod.splits)
  then show ?thesis using o1 o5 by simp
qed

lemma sync_data_obj: "same_object s (mm_stream_dispatch_sync_data k f s)"
  using same_object_trans [OF s_tell_obj field_objs(5)]
  by (simp add: mm_stream_dispatch_sync_data_def Let_def)

lemma notify_channel_obj: "same_object s (snd (mm_stream_notify_channel p c s))"
  using s_ask_obj [of s c] by (auto simp: mm_stream_notify_channel_def split: prod.split)

lemma handle_rcvd_obj: "same_object s (mm_stream_handle_rcvd_buf f cb s)"
proof -
  define s1 where "s1 = (if is_bundled s
    then snd (mm_stream_notify_channel (has_channel s) (S_notify_channel f) s) else s)"
  have o1: "same_object s s1" by (simp add: s1_def notify_channel_obj)
  define s2 where "s2 = (if is_linked s1 then snd (mm_stream_notify_channel True (S_notify_linked f)
    (add_ref (fb_idx (buf_at s1 (fi_buf f))) 1 s1)) else s1)"
  have o2: "same_object s s2"
    using o1 same_object_trans [OF o1 same_object_trans [OF add_ref_obj notify_channel_obj]]
    by (simp add: s2_def)
  obtain m s3 where 3: "s_ask S_malloc s2 = (m, s3)" by fastforce
  have o3: "same_object s s3" by (rule same_object_trans [OF o2 s_ask_objD [OF 3]])
  show ?thesis
    using o2 o3 same_object_trans [OF o3 field_objs(6)]
    by (simp add: mm_stream_handle_rcvd_buf_def s1_def [symmetric] s2_def [symmetric] 3 Let_def)
qed

lemma data_notify_obj: "same_object s (mm_stream_data_notify s)"
proof (cases "s_state s = MM_STREAM_STATE_ACTIVE")
  case False
  then show ?thesis by (simp add: mm_stream_data_notify_def)
next
  case True
  define len where "len = (if sm_batch (mode s) then 1 :: u8
    else ucast (num_planes (lay_frame_offset (lay s))))"
  obtain rc info s1 where r: "mm_stream_read_msm_frame len s = (rc, info, s1)" by (metis prod_cases3)
  have o1: "same_object s s1" by (rule read_msm_frame_obj [OF r])
  show ?thesis
  proof (cases "\<exists>f. info = Some f \<and> rc = 0")
    case False
    then have "mm_stream_data_notify s = s1"
      using True r by (cases info) (auto simp: mm_stream_data_notify_def len_def [symmetric] Let_def)
    then show ?thesis using o1 by simp
  next
    case rf: True
    then obtain f where f: "info = Some f" by blast
    define s2 where "s2 = fold (\<lambda>k s. if cb_fn (buf_cb s ! k) \<noteq> NULL \<and> cb_sync (buf_cb s ! k)
      then mm_stream_dispatch_sync_data k f s else s) [0..<MM_CAMERA_STREAM_BUF_CB_MAX] s1"
    have o2: "same_object s s2"
      unfolding s2_def by (rule same_object_trans [OF o1 obj_fold]) (simp add: sync_data_obj)
    define s3 where "s3 = set_status (fb_idx (buf_at s1 (fi_buf f))) (\<lambda>st. st\<lparr>in_kernel := False\<rparr>) s2"
    have o3: "same_object s s3"
      unfolding s3_def by (rule same_object_trans [OF o2 set_status_obj])
    define s4 where "s4 = (if is_bundled s3
      then add_ref (fb_idx (buf_at s1 (fi_buf f))) 1 s3 else s3)"
    have o4: "same_object s s4"
      using o3 same_object_trans [OF o3 add_ref_obj] by (simp add: s4_def)
    have "mm_stream_data_notify s = mm_stream_handle_rcvd_buf f (has_async_cb s1)
        (add_ref (fb_idx (buf_at s1 (fi_buf f))) (if has_async_cb s1 then 1 else 0) s4)"
      using True r rf f by (simp add: mm_stream_data_notify_def len_def [symmetric] Let_def
          s2_def s3_def s4_def)
    then show ?thesis
      using same_object_trans [OF o4 same_object_trans [OF add_ref_obj handle_rcvd_obj]] by simp
  qed
qed

section \<open>The other operations\<close>

lemma signal_mapping_obj: "same_object s (signal_mapping s)"
  by (simp add: signal_mapping_def s_tell_obj)

lemma map_buf_obj: "same_object s (snd (mm_stream_map_buf m s))"
proof -
  obtain rc s1 where a: "s_ask (S_send_map (m\<lparr>bm_stream_id := server_stream_id s\<rparr>)) s = (rc, s1)"
    by fastforce
  note o1 = s_ask_objD [OF a]
  have "same_object s (signal_mapping (set_status i f s1))" for i f
    by (rule same_object_trans [OF o1 same_object_trans [OF set_status_obj signal_mapping_obj]])
  then show ?thesis using o1 by (simp add: mm_stream_map_buf_def a)
qed

lemma map_bufs_obj: "same_object s (snd (mm_stream_map_bufs ms s))"
proof -
  obtain rc s1 where
    a: "s_ask (S_send_maps (map (\<lambda>m. m\<lparr>bm_stream_id := server_stream_id s\<rparr>) ms)) s = (rc, s1)"
    by fastforce
  note o1 = s_ask_objD [OF a]
  have "same_object s (signal_mapping (fold (\<lambda>i. set_status i f) ks s1))" for f ks
    by (rule same_object_trans [OF o1 same_object_trans [OF obj_fold signal_mapping_obj]])
      (rule set_status_obj)
  then show ?thesis using o1 by (simp add: mm_stream_map_bufs_def a)
qed

lemma unmap_buf_obj: "same_object s (snd (mm_stream_unmap_buf ty i plane s))"
proof -
  obtain rc s1 where a: "s_ask (S_send_unmap ty i plane) s = (rc, s1)" by fastforce
  show ?thesis
    using same_object_trans [OF s_ask_objD [OF a] set_status_obj] by (simp add: mm_stream_unmap_buf_def a)
qed

lemma reg_buf_cb_obj: "same_object s (snd (mm_stream_reg_buf_cb c s))"
  by (simp add: mm_stream_reg_buf_cb_def field_objs split: option.split)

lemma parm_obj:
  "same_object s (snd (mm_stream_set_parm p s))" "same_object s (snd (mm_stream_get_parm p s))"
  "same_object s (snd (mm_stream_do_action p s))"
  by (simp_all add: mm_stream_set_parm_def mm_stream_get_parm_def mm_stream_do_action_def s_ask_obj)

lemma cancel_obj: "same_object s (snd (mm_stream_cancel_buf i s))"
  by (simp add: mm_stream_cancel_buf_def s_ask_obj)

lemma wait_mapping_obj: "same_object s (snd (wait_mapping s))"
  using s_ask_obj [of s S_wait_mapping]
  by (auto simp: wait_mapping_def split: option.split prod.split)

lemma streamon_obj: "same_object s (snd (mm_stream_streamon s))"
proof -
  obtain r1 s1 where 1: "wait_mapping s = (r1, s1)" by fastforce
  have o1: "same_object s s1" using wait_mapping_obj [of s] 1 by simp
  obtain r2 s2 where 2: "s_ask S_ioctl_streamon s1 = (r2, s2)" by fastforce
  have o2: "same_object s s2" by (rule same_object_trans [OF o1 s_ask_objD [OF 2]])
  show ?thesis
    using o2 same_object_trans [OF o1 del_poll_obj] same_object_trans [OF o2 del_poll_obj]
    by (simp add: mm_stream_streamon_def 1 2)
qed

lemma streamoff_obj: "same_object s (snd (mm_stream_streamoff s))"
proof -
  obtain r1 s1 where 1: "del_poll mm_camera_sync_call s = (r1, s1)" by fastforce
  have o1: "same_object s s1" using del_poll_obj [of s mm_camera_sync_call] 1 by simp
  obtain r2 s2 where 2: "(if r1 <s 0 then
      let (rc, s) = poll_call mm_camera_poll_thread_commit_updates s1
      in (if rc <s 0 then 0 else rc, s) else (r1, s1)) = (r2, s2)" by fastforce
  have "s2 = s1 \<or> s2 = snd (poll_call mm_camera_poll_thread_commit_updates s1)"
    using 2 by (auto split: if_splits prod.splits)
  then have o2: "same_object s s2" using o1 same_object_trans [OF o1 poll_call_obj] by auto
  obtain r3 s3 where 3: "s_ask S_ioctl_streamoff s2 = (r3, s3)" by fastforce
  then show ?thesis
    using same_object_trans [OF o2 s_ask_objD [OF 3]]
    by (simp add: mm_stream_streamoff_def 1 2)
qed

lemma reg_loop_obj: "same_object s (snd (reg_loop ks s))"
proof (induction ks arbitrary: s)
  case Nil
  then show ?case by simp
next
  case (Cons k ks)
  obtain rc t where q: "mm_stream_qbuf (buf_at s (Buf k)) s = (rc, t)" by fastforce
  have o: "same_object s t" by (rule qbuf_objD [OF q])
  show ?case
    using o same_object_trans [OF same_object_trans [OF o set_status_obj] Cons.IH]
      same_object_trans [OF set_status_obj Cons.IH]
    by (simp add: q)
qed

lemma request_buf_obj: "same_object s (snd (mm_stream_request_buf s))"
  by (simp add: mm_stream_request_buf_def s_ask_obj)

lemma reg_buf_obj: "same_object s (snd (mm_stream_reg_buf s))"
proof -
  obtain rc t where r: "mm_stream_request_buf s = (rc, t)" by fastforce
  have o: "same_object s t" using request_buf_obj [of s] r by simp
  show ?thesis
    using o same_object_trans [OF same_object_trans [OF o field_objs(1)] reg_loop_obj]
    by (simp add: mm_stream_reg_buf_def r)
qed

lemma unreg_buf_obj: "same_object s (snd (mm_stream_unreg_buf s))"
proof -
  obtain rc t where r: "s_ask (S_ioctl_reqbufs 0) s = (rc, t)" by fastforce
  have "same_object t (fold (\<lambda>i. set_status i f) ks t)" for f ks
    by (rule obj_fold) (rule set_status_obj)
  then show ?thesis
    using same_object_trans [OF s_ask_objD [OF r]] by (simp add: mm_stream_unreg_buf_def r)
qed

end
