(* ===== verification/St_Run.thy ===== *)
theory St_Run
  imports St_Own St_State
begin

text \<open>
  Runs of a registered stream: frames of the driver, the command thread, clients that give
  buffers back, the events of the state machine and mappings, in any order.  The invariant of
  St\_Own holds on every run; when no call fails, no buffer gets lost.
\<close>

section \<open>Registration\<close>

text \<open>
  A stream whose buffers are allocated and not registered, with nothing left of a former use: no
  buffer at the driver and an empty command queue.
\<close>

definition buffed_ready :: "mm_stream \<Rightarrow> bool" where
  "buffed_ready s \<longleftrightarrow> s_state s = MM_STREAM_STATE_BUFFED \<and> numbered_bufs s \<and> honest_driver (env s) \<and>
     length (buf_cb s) = MM_CAMERA_STREAM_BUF_CB_MAX \<and> in_queue s = [] \<and>
     driver_holds (trace s) = {} \<and> never_queued_twice (trace s)"

text \<open>The buffers that are not queued by the registration are with the client, with a reference.\<close>

definition first_ledger :: "mm_stream \<Rightarrow> nat \<Rightarrow> int" where
  "first_ledger s i =
     given (trace s) i - (if initial_reg_flag (status_of s i) then 0 else 1)"

definition registered :: "nat list \<Rightarrow> mm_stream \<Rightarrow> bool" where
  "registered is s \<longleftrightarrow> driver_holds (trace s) \<subseteq> set is \<and>
     (\<forall>i \<in> set is. if initial_reg_flag (status_of s i)
        then refs s i = 0 \<and> i \<in> driver_holds (trace s)
        else refs s i = 1 \<and> i \<notin> driver_holds (trace s))"

text \<open>What registration leaves as it is; reference counts and driver are described by registered.\<close>

definition same_memory :: "mm_stream \<Rightarrow> mm_stream \<Rightarrow> bool" where
  "same_memory s s' \<longleftrightarrow>
     (good_bufs s \<longrightarrow> good_bufs s') \<and> buf_num s' = buf_num s \<and> env s' = env s \<and>
     length (buf_cb s') = length (buf_cb s) \<and>
     (steady s \<longrightarrow> steady s' \<and> has_async_cb s' = has_async_cb s) \<and>
     is_active (cmd_thread s') = is_active (cmd_thread s) \<and>
     is_bundled s' = is_bundled s \<and> is_linked s' = is_linked s \<and> s_state s' = s_state s \<and>
     in_queue s' = in_queue s \<and>
     (\<forall>i. initial_reg_flag (status_of s' i) = initial_reg_flag (status_of s i)) \<and>
     (\<forall>i. given (trace s') i = given (trace s) i) \<and>
     (never_queued_twice (trace s) \<longrightarrow> never_queued_twice (trace s'))"

lemma same_memory_trans: "same_memory s t \<Longrightarrow> same_memory t u \<Longrightarrow> same_memory s u"
  by (simp add: same_memory_def)

lemma effect_same_frame: "effect H s s' \<Longrightarrow> same_memory s s'"
  by (simp add: moves_def same_memory_def)

lemma set_status_same_frame:
  "(\<And>st. initial_reg_flag (f st) = initial_reg_flag st) \<Longrightarrow> same_memory s (set_status i f s)"
  by (simp add: same_memory_def set_status_def good_bufs_def steady_def has_async_cb_def)

lemma set_status_facts:
  "trace (set_status i f s) = trace s"
  "status_of (set_status i f s) k = (if k = i then f (status_of s i) else status_of s k)"
  by (simp_all add: set_status_def)

lemma registered_snoc:
  assumes r: "registered is s" and k: "k \<notin> set is" and e: "effect H s t"
    and H: "H = (if initial_reg_flag (status_of s k) then insert k (driver_holds (trace s))
                 else driver_holds (trace s))"
    and f: "\<And>st. initial_reg_flag (f st) = initial_reg_flag st"
    and n: "unat (buf_refcnt (f (status_of t k))) = (if initial_reg_flag (status_of s k) then 0 else 1)"
  shows "registered (is @ [k]) (set_status k f t)"
proof -
  have fl: "initial_reg_flag (status_of t i) = initial_reg_flag (status_of s i)"
    "buf_refcnt (status_of t i) = buf_refcnt (status_of s i)" for i
    using e by (simp_all add: moves_def)
  have h: "driver_holds (trace t) = H" using e by (simp add: moves_def)
  have nk: "k \<notin> driver_holds (trace s)" using r k by (auto simp: registered_def)
  show ?thesis
    using r k H nk n
    by (auto simp: registered_def set_status_facts fl h f refs_def split: if_splits)
qed

lemma reg_loop_registers:
  assumes "reg_loop ks s = (0, s')" and "registered is s" and "distinct (is @ ks)"
    and "\<forall>k \<in> set ks. k < unat (buf_num s)" and "good_bufs s"
  shows "registered (is @ ks) s' \<and> same_memory s s'"
  using assms
proof (induction ks arbitrary: s "is")
  case Nil
  then show ?case by (simp add: same_memory_def)
next
  case (Cons k ks)
  have k: "k < unat (buf_num s)" "k \<notin> set is" using Cons.prems by auto
  have nk: "k \<notin> driver_holds (trace s)" using Cons.prems(2) k by (auto simp: registered_def)
  have idx: "fb_idx (buf_at s (Buf k)) = k" using Cons.prems(5) k by (intro buf_at_idx)
  obtain t where t: "reg_loop ks t = (0, s')" "registered (is @ [k]) t" "same_memory s t"
  proof (cases "initial_reg_flag (status_of s k)")
    case True
    obtain rc u where q: "mm_stream_qbuf (buf_at s (Buf k)) s = (rc, u)" by fastforce
    have rc: "rc = 0" using Cons.prems(1) True q by (auto split: if_splits)
    have e: "effect (insert k (driver_holds (trace s))) s u"
      using qbuf_effect [OF q] nk idx rc by simp
    let ?f = "\<lambda>st. st\<lparr>buf_refcnt := 0, in_kernel := True\<rparr>"
    show thesis
    proof (rule that)
      show "reg_loop ks (set_status k ?f u) = (0, s')" using Cons.prems(1) True q rc by simp
      show "registered (is @ [k]) (set_status k ?f u)"
        by (rule registered_snoc [OF Cons.prems(2) k(2) e]) (simp_all add: True)
      show "same_memory s (set_status k ?f u)"
        by (rule same_memory_trans [OF effect_same_frame [OF e] set_status_same_frame]) simp
    qed
  next
    case False
    let ?f = "\<lambda>st. st\<lparr>buf_refcnt := 1, in_kernel := False\<rparr>"
    show thesis
    proof (rule that)
      show "reg_loop ks (set_status k ?f s) = (0, s')" using Cons.prems(1) False by simp
      show "registered (is @ [k]) (set_status k ?f s)"
        by (rule registered_snoc [OF Cons.prems(2) k(2) unmoved_refl]) (simp_all add: False)
      show "same_memory s (set_status k ?f s)" by (rule set_status_same_frame) simp
    qed
  qed
  have "registered ((is @ [k]) @ ks) s' \<and> same_memory t s'"
    using t Cons.prems(3-5) by (intro Cons.IH) (auto simp: same_memory_def)
  then show ?case using same_memory_trans [OF t(3)] by simp
qed

lemma request_buf_effect:
  assumes "mm_stream_request_buf s = (0, s')"
  shows "effect {} s s'"
  using assms
  by (auto simp: mm_stream_request_buf_def s_ask_eq moves_fields split: if_splits)

lemma accounted_from_registered:
  assumes r: "registered [0..<unat (buf_num s)] s" and g: "good_bufs s" "honest_driver (env s)"
    "length (buf_cb s) = MM_CAMERA_STREAM_BUF_CB_MAX" "in_queue s = []" "never_queued_twice (trace s)"
  shows "accounted (first_ledger s) [] s"
  using r g by (auto simp: accounted_def registered_def counted_def first_ledger_def)

lemma register_accounted:
  assumes rdy: "buffed_ready s" "single_frames s" and reg: "mm_stream_fsm_fn MM_STREAM_EVT_REG_BUF s = (0, s')"
  shows "accounted (first_ledger s') [] s'" "s_state s' = MM_STREAM_STATE_REG"
    "registered [0..<unat (buf_num s')] s'" "buf_num s' = buf_num s" "env s' = env s"
    "steady s \<Longrightarrow> steady s' \<and> has_async_cb s' = has_async_cb s"
    "is_bundled s' = is_bundled s" "is_linked s' = is_linked s"
    "is_active (cmd_thread s') = is_active (cmd_thread s)" "in_queue s' = []"
proof -
  have st: "s_state s = MM_STREAM_STATE_BUFFED" using rdy by (simp add: buffed_ready_def)
  obtain s3 where r: "mm_stream_reg_buf s = (0, s3)" and s': "s' = to_state MM_STREAM_STATE_REG s3"
    using reg st by (auto simp: mm_stream_fsm_fn_def mm_stream_fsm_buffed_def split: prod.splits if_splits)
  obtain s1 where 1: "mm_stream_request_buf s = (0, s1)"
    and 2: "reg_loop [0..<unat (buf_num s1)] (s1\<lparr>queued_buffer_count := 0\<rparr>) = (0, s3)"
    using r by (auto simp: mm_stream_reg_buf_def split: prod.splits if_splits)
  note e1 = request_buf_effect [OF 1]
  have "effect {} s1 (s1\<lparr>queued_buffer_count := 0\<rparr>)"
    using e1 by (simp add: moves_fields)
  then have e2: "effect {} s (s1\<lparr>queued_buffer_count := 0\<rparr>)" by (rule effect_trans [OF e1])
  let ?t = "s1\<lparr>queued_buffer_count := 0\<rparr>"
  have g: "good_bufs ?t" using e2 rdy by (simp add: moves_def buffed_ready_def good_bufs_iff)
  have lp: "registered ([] @ [0..<unat (buf_num s1)]) s3 \<and> same_memory ?t s3"
  proof (rule reg_loop_registers [OF 2])
    show "registered [] ?t" using e2 by (simp add: registered_def moves_def)
    show "\<forall>k \<in> set [0..<unat (buf_num s1)]. k < unat (buf_num ?t)" by simp
  qed (use g in simp_all)
  have fr: "same_memory s s3"
    by (rule same_memory_trans [OF effect_same_frame [OF e2] conjunct2 [OF lp]])
  have "buf_num s3 = buf_num s1" using conjunct2 [OF lp] by (simp add: same_memory_def)
  then have reg3: "registered [0..<unat (buf_num s3)] s3" using conjunct1 [OF lp] by simp
  have "accounted (first_ledger s3) [] s3"
    by (rule accounted_from_registered [OF reg3])
      (use fr rdy in \<open>auto simp: same_memory_def buffed_ready_def good_bufs_iff\<close>)
  moreover have "first_ledger s' = first_ledger s3"
    by (simp add: s' to_state_def first_ledger_def fun_eq_iff)
  ultimately show "accounted (first_ledger s') [] s'" by (simp add: s')
  show "s_state s' = MM_STREAM_STATE_REG" by (simp add: s' to_state_def)
  have "refs s' = refs s3" by (simp add: s' to_state_def refs_def fun_eq_iff)
  then show "registered [0..<unat (buf_num s')] s'"
    using reg3 by (simp add: registered_def) (simp add: s' to_state_def)
  show "buf_num s' = buf_num s" "env s' = env s" "is_bundled s' = is_bundled s"
    "is_linked s' = is_linked s" "is_active (cmd_thread s') = is_active (cmd_thread s)"
    "in_queue s' = []"
    using fr rdy by (simp_all add: s' to_state_def same_memory_def buffed_ready_def good_bufs_iff)
  show "steady s \<Longrightarrow> steady s' \<and> has_async_cb s' = has_async_cb s"
    using fr by (simp add: s' to_state_def same_memory_def steady_def has_async_cb_def)
qed

section \<open>Runs\<close>

text \<open>
  What can happen to a registered stream until its buffers are unregistered.  A client gives back
  only references that it has, which the ledger records; the stream is locked by its channel, so
  that steps do not overlap.
\<close>

datatype stream_input =
    Frame
  | Command
  | Give_back nat
  | Control stream_evt
  | Map_buf buf_map
  | Map_bufs "buf_map list"
  | Unmap_buf mapping_type nat int
  | Register_cb data_cb

fun in_session :: "stream_evt \<Rightarrow> bool" where
  "in_session (MM_STREAM_EVT_QBUF r) = False"
| "in_session MM_STREAM_EVT_UNREG_BUF = False"
| "in_session e = True"

definition run_command :: "mm_stream \<Rightarrow> mm_stream" where
  "run_command s =
     (case in_queue s of
        Some f # ns \<Rightarrow>
          mm_stream_dispatch_app_data f (upd_cmd_thread (\<lambda>t. t\<lparr>cmd_queue := ns\<rparr>) s)
      | _ \<Rightarrow> s)"

fun stream_step ::
  "stream_input \<Rightarrow> (nat \<Rightarrow> int) \<times> mm_stream \<Rightarrow> (nat \<Rightarrow> int) \<times> mm_stream" where
  "stream_step Frame (led, s) = (led, mm_stream_data_notify s)"
| "stream_step Command (led, s) = (led, run_command s)"
| "stream_step (Give_back i) (led, s) =
     (if s_state s = MM_STREAM_STATE_ACTIVE \<and> i < unat (buf_num s) \<and> led i < given (trace s) i
      then (led(i := led i + 1), snd (mm_stream_fsm_fn (MM_STREAM_EVT_QBUF (Buf i)) s))
      else (led, s))"
| "stream_step (Control e) (led, s) =
     (led, if in_session e then snd (mm_stream_fsm_fn e s) else s)"
| "stream_step (Map_buf m) (led, s) = (led, snd (mm_stream_map_buf m s))"
| "stream_step (Map_bufs ms) (led, s) = (led, snd (mm_stream_map_bufs ms s))"
| "stream_step (Unmap_buf ty i plane) (led, s) = (led, snd (mm_stream_unmap_buf ty i plane s))"
| "stream_step (Register_cb c) (led, s) = (led, snd (mm_stream_reg_buf_cb c s))"

definition session_ok :: "(nat \<Rightarrow> int) \<times> mm_stream \<Rightarrow> bool" where
  "session_ok p \<longleftrightarrow> accounted (fst p) [] (snd p) \<and>
     s_state (snd p) \<in> {MM_STREAM_STATE_REG, MM_STREAM_STATE_ACTIVE}"

lemma accounted_take_node:
  assumes o: "accounted led [] s" and q: "in_queue s = n # ns"
  shows "accounted led [n] (upd_cmd_thread (\<lambda>t. t\<lparr>cmd_queue := ns\<rparr>) s)"
proof -
  let ?t = "upd_cmd_thread (\<lambda>t. t\<lparr>cmd_queue := ns\<rparr>) s"
  have "frame_fits_node ?t = frame_fits_node s" by (simp add: frame_fits_node_def upd_cmd_thread_def fun_eq_iff)
  moreover have "refs ?t = refs s" by (simp add: refs_def upd_cmd_thread_def fun_eq_iff)
  moreover have "in_queue ?t = ns" "trace ?t = trace s" "env ?t = env s" "buf_cb ?t = buf_cb s"
    "buf_num ?t = buf_num s" "good_bufs ?t = good_bufs s"
    by (simp_all add: upd_cmd_thread_def good_bufs_def)
  ultimately show ?thesis using o q by (auto simp: accounted_def counted_def)
qed

lemma run_command_accounted:
  assumes o: "accounted led [] s"
  shows "accounted led [] (run_command s)"
proof (cases "in_queue s")
  case Nil
  then show ?thesis using o by (simp add: run_command_def)
next
  case (Cons n ns)
  then show ?thesis
    using accounted_take_node [OF o Cons] dispatch_accounted o
    by (cases n) (auto simp: run_command_def)
qed

lemma run_command_obj: "same_object s (run_command s)"
proof -
  have "same_object s (mm_stream_dispatch_app_data f (upd_cmd_thread g s))" for f g
    by (rule same_object_trans [OF upd_cmd_thread_obj dispatch_obj])
  then show ?thesis by (simp add: run_command_def split: list.split option.split)
qed

text \<open>A user gives a reference back.\<close>

lemma given_back_accounted:
  assumes o: "accounted led [] s" and l: "led i < given (trace s) i"
  shows "accounted (led(i := led i + 1)) [] s"
    and "i < unat (buf_num s) \<Longrightarrow> spare (led(i := led i + 1)) [] s i"
  using o l by (auto simp: accounted_def counted_def spare_def)

lemma reg_buf_cb_accounted:
  assumes o: "accounted led [] s"
  shows "accounted led [] (snd (mm_stream_reg_buf_cb c s))"
proof -
  have "accounted led [] (s\<lparr>buf_cb := cs\<rparr>)" if "length cs = length (buf_cb s)" for cs
  proof -
    have "frame_fits_node (s\<lparr>buf_cb := cs\<rparr>) = frame_fits_node s" by (simp add: frame_fits_node_def fun_eq_iff)
    moreover have "counted led [] (s\<lparr>buf_cb := cs\<rparr>) = counted led [] s"
      by (simp add: counted_def refs_def fun_eq_iff)
    ultimately show ?thesis using o that by (simp add: accounted_def good_bufs_def)
  qed
  then show ?thesis using o by (simp add: mm_stream_reg_buf_cb_def split: option.split)
qed

text \<open>Every event of the state machine but the unregistration and the return of a buffer.\<close>

lemma control_accounted:
  assumes o: "accounted led [] s" and st: "s_state s \<in> {MM_STREAM_STATE_REG, MM_STREAM_STATE_ACTIVE}"
    and e: "in_session e"
  shows "accounted led [] (snd (mm_stream_fsm_fn e s))"
proof (cases "s_state s = MM_STREAM_STATE_REG")
  case True
  then show ?thesis
    using e o start_accounted [OF o] accounted_unmoved [OF o parm_unmoved(1)]
      accounted_unmoved [OF o parm_unmoved(2)]
    by (cases e) (simp_all add: mm_stream_fsm_fn_def mm_stream_fsm_reg_def)
next
  case False
  then have "s_state s = MM_STREAM_STATE_ACTIVE" using st by simp
  then show ?thesis
    using e o stop_accounted [OF o] accounted_unmoved [OF o parm_unmoved(1)]
      accounted_unmoved [OF o parm_unmoved(2)] accounted_unmoved [OF o parm_unmoved(3)]
      accounted_unmoved [OF o cancel_unmoved]
    by (cases e) (simp_all add: mm_stream_fsm_fn_def mm_stream_fsm_active_def)
qed

lemma same_object_state: "same_object s t \<Longrightarrow> s_state t = s_state s"
  by (simp add: same_object_def)

lemma control_state:
  assumes st: "s_state s \<in> {MM_STREAM_STATE_REG, MM_STREAM_STATE_ACTIVE}" and e: "in_session e"
  shows "s_state (snd (mm_stream_fsm_fn e s)) \<in> {MM_STREAM_STATE_REG, MM_STREAM_STATE_ACTIVE}"
proof -
  have start: "s_state (snd (start_stream t)) \<in> {MM_STREAM_STATE_REG, MM_STREAM_STATE_ACTIVE}" for t
  proof -
    define u where "u = to_state MM_STREAM_STATE_ACTIVE
      (if has_async_cb t then upd_cmd_thread mm_camera_cmd_thread_launch t else t)"
    obtain rc v where v: "mm_stream_streamon u = (rc, v)" by fastforce
    have "s_state v = MM_STREAM_STATE_ACTIVE"
      using same_object_state [OF streamon_obj, of u] v by (simp add: u_def to_state_def)
    then show ?thesis
      using v by (simp add: start_stream_def Let_def u_def [symmetric]) (simp add: to_state_def)
  qed
  have stop: "s_state (snd (stop_stream t)) = MM_STREAM_STATE_REG" for t
    by (simp add: stop_stream_def Let_def to_state_def split: prod.split)
  show ?thesis
    using st e start [of s] stop [of s]
    by (cases e) (auto simp: same_object_state [OF parm_obj(1)] same_object_state [OF parm_obj(2)]
        same_object_state [OF parm_obj(3)] same_object_state [OF cancel_obj] mm_stream_fsm_fn_def mm_stream_fsm_reg_def mm_stream_fsm_active_def)
qed

lemma stream_step_ok: "session_ok p \<Longrightarrow> session_ok (stream_step i p)"
proof -
  assume ok: "session_ok p"
  obtain led s where p: "p = (led, s)" by (cases p)
  have o: "accounted led [] s" and st: "s_state s \<in> {MM_STREAM_STATE_REG, MM_STREAM_STATE_ACTIVE}"
    using ok by (simp_all add: session_ok_def p)
  have kept: "session_ok (led, t)" if "accounted led [] t" "same_object s t" for t
    using that st by (simp add: session_ok_def same_object_state)
  show ?thesis
  proof (cases i)
    case Frame
    then show ?thesis using kept [OF data_notify_accounted [OF o] data_notify_obj] p by simp
  next
    case Command
    then show ?thesis using kept [OF run_command_accounted [OF o] run_command_obj] p by simp
  next
    case (Give_back k)
    show ?thesis
    proof (cases "s_state s = MM_STREAM_STATE_ACTIVE \<and> k < unat (buf_num s) \<and> led k < given (trace s) k")
      case True
      have "accounted (led(k := led k + 1)) [] (snd (mm_stream_buf_done (Buf k) s))"
        using True given_back_accounted [OF o] by (intro buf_done_accounted) auto
      moreover have "snd (mm_stream_fsm_fn (MM_STREAM_EVT_QBUF (Buf k)) s)
          = snd (mm_stream_buf_done (Buf k) s)"
        using True by (simp add: mm_stream_fsm_fn_def mm_stream_fsm_active_def)
      ultimately show ?thesis
        using True st p Give_back
        by (simp add: session_ok_def same_object_state [OF buf_done_obj])
    next
      case False
      then have "stream_step i p = p" using p Give_back by auto
      then show ?thesis using ok by simp
    qed
  next
    case (Control e)
    then show ?thesis
      using p ok control_accounted [OF o st] control_state [OF st] by (simp add: session_ok_def)
  next
    case (Map_buf m)
    then show ?thesis using kept [OF accounted_unmoved [OF o map_buf_unmoved] map_buf_obj] p by simp
  next
    case (Map_bufs ms)
    then show ?thesis using kept [OF accounted_unmoved [OF o map_bufs_unmoved] map_bufs_obj] p by simp
  next
    case (Unmap_buf ty k plane)
    then show ?thesis using kept [OF accounted_unmoved [OF o unmap_buf_unmoved] unmap_buf_obj] p by simp
  next
    case (Register_cb c)
    then show ?thesis using kept [OF reg_buf_cb_accounted [OF o] reg_buf_cb_obj] p by simp
  qed
qed

interpretation stream_session: invariant_system stream_step session_ok
  by unfold_locales (rule stream_step_ok)

lemma session_run:
  assumes "buffed_ready s0" "single_frames s0" and "mm_stream_fsm_fn MM_STREAM_EVT_REG_BUF s0 = (0, s)"
  shows "session_ok (run_steps stream_step is (first_ledger s, s))"
  by (rule stream_session.run_inv) (simp add: session_ok_def register_accounted [OF assms])

section \<open>When nothing fails\<close>

text \<open>
  A started stream in an environment where no call fails, with at least one receiver of its
  frames and callbacks that are never used up: every reference is in somebody's hands, and a
  buffer without references is with the driver.
\<close>

definition exact :: "(nat \<Rightarrow> int) \<Rightarrow> frame_info option list \<Rightarrow> mm_stream \<Rightarrow> nat \<Rightarrow> bool" where
  "exact led ns s i \<longleftrightarrow>
     given (trace s) i + int (carried i (ns @ in_queue s)) = int (refs s i) + led i \<and>
     (refs s i = 0 \<longleftrightarrow> i \<in> driver_holds (trace s))"

definition flowing :: "mm_stream \<Rightarrow> bool" where
  "flowing s \<longleftrightarrow> nothing_fails (env s) \<and> steady s \<and>
     (has_async_cb s \<longrightarrow> is_active (cmd_thread s)) \<and>
     (is_bundled s \<or> is_linked s \<or> has_async_cb s)"

definition lossless :: "(nat \<Rightarrow> int) \<Rightarrow> frame_info option list \<Rightarrow> mm_stream \<Rightarrow> bool" where
  "lossless led ns s \<longleftrightarrow> accounted led ns s \<and> flowing s \<and>
     (\<forall>i < unat (buf_num s). exact led ns s i)"

lemma effect_refs: "effect H s t \<Longrightarrow> refs t i = refs s i"
  using refs_moves [of 0 0 0 "[]" H s t i] u8_below [of "buf_refcnt (status_of s 0)"]
  by (simp add: refs_def)

lemma flowing_moves: "moves j n g ms H s t \<Longrightarrow> flowing s \<Longrightarrow> flowing t"
  by (simp add: moves_def flowing_def)

lemma lossless_unmoved:
  assumes l: "lossless led ns s" and q: "unmoved s t"
  shows "lossless led ns t"
proof -
  have "refs t i = refs s i" for i using q by (simp add: moves_def refs_def)
  moreover have "given (trace t) i = given (trace s) i" for i using q by (simp add: moves_def)
  moreover have "in_queue t = in_queue s" "driver_holds (trace t) = driver_holds (trace s)"
    "buf_num t = buf_num s" using q by (simp_all add: moves_def)
  ultimately show ?thesis
    using l accounted_unmoved [OF _ q] flowing_moves [OF q] by (simp add: lossless_def exact_def)
qed

text \<open>
  Dropping the reference that is one too many: the buffer goes to the driver if it was the last.
\<close>

lemma buf_done_lossless:
  assumes o: "accounted led ns s" and fl: "flowing s" and i: "i < unat (buf_num s)"
    and sp: "given (trace s) i + int (carried i (ns @ in_queue s)) + 1 = int (refs s i) + led i"
    and ex: "\<And>k. k < unat (buf_num s) \<Longrightarrow> k \<noteq> i \<Longrightarrow> exact led ns s k"
  shows "lossless led ns (snd (mm_stream_buf_done (Buf i) s))"
proof -
  let ?t = "snd (mm_stream_buf_done (Buf i) s)"
  have sp': "spare led ns s i" using sp by (simp add: spare_def)
  note r = spare_referenced [OF o i sp']
  have g: "good_bufs s" using o by (simp add: accounted_def)
  have nf: "nothing_fails (env s)" using fl by (simp add: flowing_def)
  obtain H where e: "effect H (drop_ref i s) ?t"
    and H: "H = driver_holds (trace s) \<or> refs s i = 1 \<and> H = insert i (driver_holds (trace s))"
    and H1: "refs s i = 1 \<Longrightarrow> H = insert i (driver_holds (trace s))"
    using buf_done_effect [OF g i r] nf by metis
  have f1: "flowing (drop_ref i s)" using fl by (simp add: flowing_def)
  have rt: "refs ?t k = (if k = i then refs s i - 1 else refs s k)" for k
    using effect_refs [OF e] refs_drop_ref [OF r(1)] by simp
  have "exact led ns ?t k" if "k < unat (buf_num s)" for k
  proof -
    have p: "given (trace ?t) k = given (trace s) k" "in_queue ?t = in_queue s"
      "driver_holds (trace ?t) = H" using e by (simp_all add: moves_def)
    show ?thesis
    proof (cases "k = i")
      case True
      have "refs s i - 1 = 0 \<longleftrightarrow> i \<in> H" using r H H1 by auto
      moreover have "int (refs s i - 1) = int (refs s i) - 1" using r(1) by simp
      ultimately show ?thesis using sp rt [of i] by (simp add: exact_def True p [unfolded True])
    next
      case False
      have "k \<in> H \<longleftrightarrow> k \<in> driver_holds (trace s)" using H False by auto
      then show ?thesis using False ex [OF that False] rt [of k] by (simp add: exact_def p)
    qed
  qed
  then show ?thesis
    using buf_done_accounted [OF o i sp'] flowing_moves [OF e f1] e
    by (simp add: lossless_def moves_def)
qed

lemma data_notify_lossless:
  assumes l: "lossless led [] s"
  shows "lossless led [] (mm_stream_data_notify s)"
proof -
  have o: "accounted led [] s" and fl: "flowing s" using l by (simp_all add: lossless_def)
  have nf: "nothing_fails (env s)" "steady s" "has_async_cb s \<longrightarrow> is_active (cmd_thread s)"
    "is_bundled s \<or> is_linked s \<or> has_async_cb s" using fl by (simp_all add: flowing_def)
  from o show ?thesis
  proof (cases rule: data_notify_cases)
    case 1
    then show ?thesis by (rule lossless_unmoved [OF l])
  next
    case 2
    then show ?thesis using nf by simp
  next
    case (3 j n m ms)
    let ?t = "mm_stream_data_notify s"
    note j = accounted_refs [OF o 3(2)]
    note all = 3(7) [OF nf(1,2,3)]
    have n: "m + length ms = n" using all by (rule conjunct1)
    have n0: "n \<noteq> 0" using conjunct2 [OF all] nf(4) by (simp add: is_taken_def split: if_splits)
    have rt: "refs ?t i = refs s i + (if i = j then n else 0)" for i
      using 3(5) j(1) by (intro refs_moves [OF 3(3)]) simp
    have c: "carried i ms = (if i = j then length ms else 0)" for i using 3(6) by auto
    have "exact led [] ?t i" if "i < unat (buf_num s)" for i
    proof -
      have "exact led [] s i" using l that by (simp add: lossless_def)
      moreover have "given (trace ?t) i = given (trace s) i + (if i = j then int m else 0)"
        "in_queue ?t = in_queue s @ ms" "driver_holds (trace ?t) = driver_holds (trace s) - {j}"
        using 3(3) by (simp_all add: moves_def)
      moreover have "carried i (in_queue s) = 0" if "i = j"
      proof -
        have "counted led [] s j" using o j(2) by (simp add: accounted_def)
        then show ?thesis using that j(1) by (simp add: counted_def)
      qed
      ultimately show ?thesis
        using rt [of i] c [of i] n n0 j(1) 3(2) by (cases "i = j") (simp_all add: exact_def)
    qed
    moreover have "buf_num ?t = buf_num s" using 3(3) by (simp add: moves_def)
    ultimately show ?thesis
      using data_notify_accounted [OF o] flowing_moves [OF 3(3) fl] by (simp add: lossless_def)
  qed
qed

lemma dispatch_lossless:
  assumes l: "lossless led (Some f # ns) s"
  shows "lossless led ns (mm_stream_dispatch_app_data f s)"
proof -
  have o: "accounted led (Some f # ns) s" and fl: "flowing s" using l by (simp_all add: lossless_def)
  obtain j where f: "fi_buf f = Buf j" and j: "j < unat (buf_num s)"
    using o by (auto simp: accounted_def frame_fits_node_def)
  have g: "good_bufs s" using o by (simp add: accounted_def)
  obtain n where m: "moves j n n [] (driver_holds (trace s)) s
      (fold (app_callback f) [0..<MM_CAMERA_STREAM_BUF_CB_MAX] s)"
    and o2: "accounted led ns (fold (app_callback f) [0..<MM_CAMERA_STREAM_BUF_CB_MAX] s)"
    and r: "refs (fold (app_callback f) [0..<MM_CAMERA_STREAM_BUF_CB_MAX] s) j = refs s j + n"
    and nh: "j \<notin> driver_holds (trace s)"
    using dispatch_callbacks [OF o f j] by blast
  let ?t = "fold (app_callback f) [0..<MM_CAMERA_STREAM_BUF_CB_MAX] s"
  have ex: "exact led (Some f # ns) s k" if "k < unat (buf_num s)" for k
    using l that by (simp add: lossless_def)
  have "lossless led ns (snd (mm_stream_buf_done (Buf j) ?t))"
  proof (rule buf_done_lossless [OF o2 flowing_moves [OF m fl]])
    show "j < unat (buf_num ?t)" using m j by (simp add: moves_def)
    show "given (trace ?t) j + int (carried j (ns @ in_queue ?t)) + 1 = int (refs ?t j) + led j"
      using ex [OF j] r m f by (simp add: exact_def moves_def)
    show "exact led ns ?t k" if "k < unat (buf_num ?t)" and "k \<noteq> j" for k
    proof -
      have "refs ?t k = refs s k" using m that by (simp add: moves_def refs_def)
      then show ?thesis
        using ex [of k] m that f by (auto simp: exact_def moves_def)
    qed
  qed
  then show ?thesis by (simp add: mm_stream_dispatch_app_data_def f)
qed

lemma lossless_take_node:
  assumes l: "lossless led [] s" and q: "in_queue s = n # ns"
  shows "lossless led [n] (upd_cmd_thread (\<lambda>t. t\<lparr>cmd_queue := ns\<rparr>) s)"
proof -
  let ?t = "upd_cmd_thread (\<lambda>t. t\<lparr>cmd_queue := ns\<rparr>) s"
  have "accounted led [n] ?t" using l q accounted_take_node by (simp add: lossless_def)
  moreover have "refs ?t = refs s" by (simp add: refs_def upd_cmd_thread_def fun_eq_iff)
  moreover have "in_queue ?t = ns" "trace ?t = trace s" "buf_num ?t = buf_num s"
    by (simp_all add: upd_cmd_thread_def)
  moreover have "flowing ?t = flowing s"
    by (simp add: flowing_def upd_cmd_thread_def steady_def has_async_cb_def)
  ultimately show ?thesis using l q by (simp add: lossless_def exact_def)
qed

lemma run_command_lossless:
  assumes l: "lossless led [] s"
  shows "lossless led [] (run_command s)"
proof (cases "in_queue s")
  case Nil
  then show ?thesis using l by (simp add: run_command_def)
next
  case (Cons n ns)
  then show ?thesis
    using lossless_take_node [OF l Cons] dispatch_lossless l
    by (cases n) (auto simp: run_command_def)
qed

lemma give_back_lossless:
  assumes l: "lossless led [] s" and i: "i < unat (buf_num s)" and b: "led i < given (trace s) i"
  shows "lossless (led(i := led i + 1)) [] (snd (mm_stream_buf_done (Buf i) s))"
proof (rule buf_done_lossless)
  have o: "accounted led [] s" using l by (simp add: lossless_def)
  show "accounted (led(i := led i + 1)) [] s" by (rule given_back_accounted(1) [OF o b])
  show "flowing s" "i < unat (buf_num s)" using l i by (simp_all add: lossless_def)
  show "given (trace s) i + int (carried i ([] @ in_queue s)) + 1
      = int (refs s i) + (led(i := led i + 1)) i"
    using l i by (simp add: lossless_def exact_def)
  show "exact (led(i := led i + 1)) [] s k" if "k < unat (buf_num s)" and "k \<noteq> i" for k
    using l that by (simp add: lossless_def exact_def)
qed

lemma start_lossless:
  assumes a: "accounted led [] s" and ex: "\<And>i. i < unat (buf_num s) \<Longrightarrow> exact led [] s i"
    and nf: "nothing_fails (env s)" "steady s" and q: "in_queue s = []"
    and rx: "is_bundled s \<or> is_linked s \<or> has_async_cb s" and st: "start_stream s = (0, t)"
  shows "lossless led [] t" and "s_state t = MM_STREAM_STATE_ACTIVE"
proof -
  define u where "u = to_state MM_STREAM_STATE_ACTIVE
    (if has_async_cb s then upd_cmd_thread mm_camera_cmd_thread_launch s else s)"
  obtain rc v where v: "mm_stream_streamon u = (rc, v)" by fastforce
  have t: "t = v"
    using st v by (auto simp: start_stream_def Let_def u_def [symmetric] split: if_splits)
  have "unmoved u t" using streamon_unmoved [of u] v t by simp
  moreover have "lossless led [] u"
  proof -
    have "accounted led [] u"
      using a accounted_clear_queue [OF a, of True]
      by (simp add: u_def mm_camera_cmd_thread_launch_def [abs_def])
    moreover have "flowing u"
      using nf rx by (auto simp: flowing_def u_def to_state_def upd_cmd_thread_def steady_def
          has_async_cb_def mm_camera_cmd_thread_launch_def)
    moreover have "refs u = refs s" "trace u = trace s" "in_queue u = []" "buf_num u = buf_num s"
      using q by (simp_all add: u_def to_state_def upd_cmd_thread_def refs_def fun_eq_iff
          mm_camera_cmd_thread_launch_def)
    ultimately show ?thesis using ex q by (simp add: lossless_def exact_def)
  qed
  ultimately show "lossless led [] t" using lossless_unmoved by blast
  show "s_state t = MM_STREAM_STATE_ACTIVE"
    using same_object_state [OF streamon_obj, of u] v t by (simp add: u_def to_state_def)
qed

text \<open>Everything that does not end the flow of frames.\<close>

fun live :: "stream_input \<Rightarrow> bool" where
  "live (Control e) = (in_session e \<and> e \<noteq> MM_STREAM_EVT_STOP)"
| "live (Register_cb c) = False"
| "live _ = True"

definition live_step ::
  "stream_input \<Rightarrow> (nat \<Rightarrow> int) \<times> mm_stream \<Rightarrow> (nat \<Rightarrow> int) \<times> mm_stream" where
  "live_step i p = (if live i then stream_step i p else p)"

definition flow_ok :: "(nat \<Rightarrow> int) \<times> mm_stream \<Rightarrow> bool" where
  "flow_ok p \<longleftrightarrow> lossless (fst p) [] (snd p) \<and> s_state (snd p) = MM_STREAM_STATE_ACTIVE"

lemma live_step_ok: "flow_ok p \<Longrightarrow> flow_ok (live_step i p)"
proof -
  assume ok: "flow_ok p"
  obtain led s where p: "p = (led, s)" by (cases p)
  have l: "lossless led [] s" and st: "s_state s = MM_STREAM_STATE_ACTIVE"
    using ok by (simp_all add: flow_ok_def p)
  have kept: "flow_ok (led, t)" if "lossless led [] t" "same_object s t" for t
    using that st by (simp add: flow_ok_def same_object_state)
  note unmoved_kept = kept [OF lossless_unmoved [OF l]]
  show ?thesis
  proof (cases i)
    case Frame
    then show ?thesis using kept [OF data_notify_lossless [OF l] data_notify_obj] p
      by (simp add: live_step_def)
  next
    case Command
    then show ?thesis using kept [OF run_command_lossless [OF l] run_command_obj] p
      by (simp add: live_step_def)
  next
    case (Give_back k)
    show ?thesis
    proof (cases "k < unat (buf_num s) \<and> led k < given (trace s) k")
      case True
      have "snd (mm_stream_fsm_fn (MM_STREAM_EVT_QBUF (Buf k)) s) = snd (mm_stream_buf_done (Buf k) s)"
        using st by (simp add: mm_stream_fsm_fn_def mm_stream_fsm_active_def)
      then show ?thesis
        using give_back_lossless [OF l, of k] True st p Give_back
        by (simp add: live_step_def flow_ok_def same_object_state [OF buf_done_obj])
    next
      case False
      then have "live_step i p = p" using p Give_back by (auto simp: live_step_def)
      then show ?thesis using ok by simp
    qed
  next
    case (Control e)
    show ?thesis
    proof (cases "live i")
      case True
      then show ?thesis
        using p Control st ok unmoved_kept [OF parm_unmoved(1) parm_obj(1)]
          unmoved_kept [OF parm_unmoved(2) parm_obj(2)] unmoved_kept [OF parm_unmoved(3) parm_obj(3)]
          unmoved_kept [OF cancel_unmoved cancel_obj]
        by (cases e) (simp_all add: live_step_def mm_stream_fsm_fn_def mm_stream_fsm_active_def)
    qed (use ok in \<open>simp add: live_step_def\<close>)
  next
    case (Map_buf m)
    then show ?thesis using unmoved_kept [OF map_buf_unmoved map_buf_obj] p by (simp add: live_step_def)
  next
    case (Map_bufs ms)
    then show ?thesis using unmoved_kept [OF map_bufs_unmoved map_bufs_obj] p by (simp add: live_step_def)
  next
    case (Unmap_buf ty k plane)
    then show ?thesis using unmoved_kept [OF unmap_buf_unmoved unmap_buf_obj] p
      by (simp add: live_step_def)
  next
    case (Register_cb c)
    then show ?thesis using ok by (simp add: live_step_def)
  qed
qed

interpretation stream_flow: invariant_system live_step flow_ok
  by unfold_locales (rule live_step_ok)

lemma flow_run:
  assumes rdy: "buffed_ready s0" "single_frames s0" and nf: "nothing_fails (env s0)" "steady s0"
    and rx: "is_bundled s0 \<or> is_linked s0 \<or> has_async_cb s0"
    and reg: "mm_stream_fsm_fn MM_STREAM_EVT_REG_BUF s0 = (0, s)"
    and st: "mm_stream_fsm_fn MM_STREAM_EVT_START s = (0, t)"
  shows "flow_ok (run_steps live_step is (first_ledger s, t))"
proof (rule stream_flow.run_inv)
  note r = register_accounted [OF rdy reg]
  have "start_stream s = (0, t)"
    using st r(2) by (simp add: mm_stream_fsm_fn_def mm_stream_fsm_reg_def)
  moreover have "exact (first_ledger s) [] s i" if "i < unat (buf_num s)" for i
    using r(3) that r(10) by (auto simp: registered_def exact_def first_ledger_def)
  ultimately show "flow_ok (first_ledger s, t)"
    using start_lossless [OF r(1), of t] nf rx r by (simp add: flow_ok_def)
qed

end
