(* ===== verification/St_Theorems.thy ===== *)
theory St_Theorems
  imports St_Layout_Theorems St_Run
begin

text \<open>
  What the streams guarantee: the state machine moves as its table says, a stream has the
  resources of its state, every buffer has one owner, none is lost when nothing fails; and where
  the code falls short of that.
\<close>

section \<open>The state machine\<close>

text \<open>The state after an event, which depends on the state before and on whether the call succeeds.\<close>

fun next_stream_state :: "stream_state \<Rightarrow> stream_evt \<Rightarrow> bool \<Rightarrow> stream_state" where
  "next_stream_state MM_STREAM_STATE_INITED MM_STREAM_EVT_ACQUIRE ok =
     (if ok then MM_STREAM_STATE_ACQUIRED else MM_STREAM_STATE_INITED)"
| "next_stream_state MM_STREAM_STATE_ACQUIRED (MM_STREAM_EVT_SET_FMT cfg) ok = MM_STREAM_STATE_CFG"
| "next_stream_state MM_STREAM_STATE_ACQUIRED MM_STREAM_EVT_RELEASE ok = MM_STREAM_STATE_NOTUSED"
| "next_stream_state MM_STREAM_STATE_CFG MM_STREAM_EVT_RELEASE ok = MM_STREAM_STATE_NOTUSED"
| "next_stream_state MM_STREAM_STATE_CFG MM_STREAM_EVT_GET_BUF ok =
     (if ok then MM_STREAM_STATE_BUFFED else MM_STREAM_STATE_CFG)"
| "next_stream_state MM_STREAM_STATE_BUFFED MM_STREAM_EVT_PUT_BUF ok = MM_STREAM_STATE_CFG"
| "next_stream_state MM_STREAM_STATE_BUFFED MM_STREAM_EVT_REG_BUF ok =
     (if ok then MM_STREAM_STATE_REG else MM_STREAM_STATE_BUFFED)"
| "next_stream_state MM_STREAM_STATE_REG MM_STREAM_EVT_UNREG_BUF ok = MM_STREAM_STATE_BUFFED"
| "next_stream_state MM_STREAM_STATE_REG MM_STREAM_EVT_START ok =
     (if ok then MM_STREAM_STATE_ACTIVE else MM_STREAM_STATE_REG)"
| "next_stream_state MM_STREAM_STATE_ACTIVE MM_STREAM_EVT_STOP ok = MM_STREAM_STATE_REG"
| "next_stream_state st e ok = st"

lemma init_buf_obj: "same_object s (init_buf s0 flags i s)"
  unfolding init_buf_def by (rule same_object_trans [OF set_status_obj put_buf_obj])

lemma deinit_bufs_facts:
  "s_state (snd (mm_stream_deinit_bufs s)) = s_state s" "s_fd (snd (mm_stream_deinit_bufs s)) = s_fd s"
  "has_channel (snd (mm_stream_deinit_bufs s)) = has_channel s"
  "bufs (snd (mm_stream_deinit_bufs s)) = None"
proof -
  define t where "t = fold (\<lambda>(ty, i, plane) s. snd (mm_stream_unmap_buf ty i plane s))
    (unmapped_by_put (env s) (trace s)) s"
  have o1: "same_object s t"
    unfolding t_def by (rule obj_fold) (simp add: unmap_buf_obj split: prod.split)
  obtain rc u where 2: "s_ask S_put_bufs t = (rc, u)" by fastforce
  note o2 = same_object_trans [OF o1 s_ask_objD [OF 2]]
  have e: "snd (mm_stream_deinit_bufs s)
      = (if bufs s = None then s else u\<lparr>plane_bufs := None, bufs := None\<rparr>)"
    using 2 by (simp add: mm_stream_deinit_bufs_def t_def [symmetric] Let_def)
  show "s_state (snd (mm_stream_deinit_bufs s)) = s_state s"
    "s_fd (snd (mm_stream_deinit_bufs s)) = s_fd s"
    "has_channel (snd (mm_stream_deinit_bufs s)) = has_channel s"
    "bufs (snd (mm_stream_deinit_bufs s)) = None"
    using o2 by (simp_all add: e same_object_def)
qed

lemma init_planes_facts:
  "s_state (init_planes al s) = s_state s" "s_fd (init_planes al s) = s_fd s"
  "has_channel (init_planes al s) = has_channel s" "bufs (init_planes al s) = bufs s"
  by (simp_all add: init_planes_def Let_def split: option.split)

lemma init_bufs_facts:
  assumes r: "mm_stream_init_bufs s = (rc, t)" and b: "bufs s = None"
  shows "s_state t = s_state s" "s_fd t = s_fd s" "has_channel t = has_channel s"
    "bufs t = None \<longleftrightarrow> rc \<noteq> 0"
proof -
  define al where "al = memory (env s) (trace s)"
  define s1 where "s1 = (case al_maps al of None \<Rightarrow> s | Some ms \<Rightarrow> snd (mm_stream_map_bufs ms s))"
  have o1: "same_object s s1" by (simp add: s1_def map_bufs_obj split: option.split)
  obtain rc' s2 where 2: "s_ask S_get_bufs s1 = (rc', s2)" by fastforce
  have o2: "same_object s s2" by (rule same_object_trans [OF o1 s_ask_objD [OF 2]])
  define s3 where "s3 = s2\<lparr>buf_num := al_num al, bufs := Some (al_bufs al)\<rparr>"
  define s4 where "s4 = fold (init_buf s3 (al_flags al)) [0..<unat (buf_num s3)] s3"
  have o4: "same_object s3 s4" unfolding s4_def by (rule obj_fold) (rule init_buf_obj)
  have e: "(rc, t) = (if rc' \<noteq> 0 then (rc', s2) else
      let s5 = (if sm_batch (mode s4) then init_planes (al_planes al) s4 else s4)
      in (rc', s5\<lparr>mode := (mode s5)\<lparr>sm_num_bufs := buf_num s5\<rparr>\<rparr>))"
    using r 2 b unfolding mm_stream_init_bufs_def
    by (simp only: if_False simp_thms Let_def al_def [symmetric] s1_def [symmetric] prod.case
        s3_def [symmetric] s4_def [symmetric])
  have f4: "s_state s4 = s_state s" "s_fd s4 = s_fd s" "has_channel s4 = has_channel s"
    "bufs s4 \<noteq> None"
    using o2 o4 by (auto simp: same_object_def s3_def)
  show "s_state t = s_state s" "s_fd t = s_fd s" "has_channel t = has_channel s"
    "bufs t = None \<longleftrightarrow> rc \<noteq> 0"
    using e o2 b f4 by (auto simp: Let_def init_planes_facts same_object_def split: if_splits)
qed

lemma sync_info_obj: "same_object s (snd (mm_stream_sync_info s))"
proof -
  have "same_object s (s\<lparr>mode := m, lay := l\<rparr>)" for m l by (simp add: same_object_def)
  then show ?thesis
    using same_object_trans [OF _ s_ask_obj]
    by (simp add: mm_stream_sync_info_def Let_def split: prod.split)
qed

lemma set_fmt_obj: "same_object s (snd (mm_stream_set_fmt s))"
  by (simp add: mm_stream_set_fmt_def Let_def s_ask_obj)

lemma config_obj: "same_object s (snd (mm_stream_config cfg s))"
proof -
  define s1 where "s1 = s\<lparr>lay := (lay s)\<lparr>lay_info := cfg_info cfg, lay_padding := cfg_padding cfg\<rparr>,
    mode := cfg_mode cfg, buf_num := sm_num_bufs (cfg_mode cfg), mem_ops := cfg_mem cfg,
    buf_cb := config_cbs cfg (buf_cb s)\<rparr>"
  have o1: "same_object s s1" by (simp add: s1_def same_object_def)
  obtain r2 s2 where 2: "mm_stream_sync_info s1 = (r2, s2)" by fastforce
  have o2: "same_object s s2" using same_object_trans [OF o1 sync_info_obj] 2 by (metis snd_conv)
  obtain r3 s3 where 3: "(if r2 = 0 then mm_stream_set_fmt s2 else (r2, s2)) = (r3, s3)" by fastforce
  have o3: "same_object s s3"
    using same_object_trans [OF o2 set_fmt_obj] o2 3 by (metis snd_conv)
  show ?thesis
    using o3 same_object_trans [OF o3 s_tell_obj]
    by (simp add: mm_stream_config_def s1_def [symmetric] 2 3 Let_def)
qed

lemma start_state: "start_stream s = (rc, t) \<Longrightarrow>
    s_state t = (if rc = 0 then MM_STREAM_STATE_ACTIVE else MM_STREAM_STATE_REG) \<and>
    s_fd t = s_fd s \<and> has_channel t = has_channel s \<and> (bufs t = None \<longleftrightarrow> bufs s = None)"
proof -
  assume r: "start_stream s = (rc, t)"
  define u where "u = to_state MM_STREAM_STATE_ACTIVE
    (if has_async_cb s then upd_cmd_thread mm_camera_cmd_thread_launch s else s)"
  obtain rc' v where v: "mm_stream_streamon u = (rc', v)" by fastforce
  have o: "same_object u v" using streamon_obj [of u] v by simp
  have "(rc, t) = (if rc' \<noteq> 0
      then (rc', to_state MM_STREAM_STATE_REG (if has_async_cb s then release_cmd_thread v else v))
      else (rc', v))"
    using r v by (simp add: start_stream_def Let_def u_def [symmetric])
  then show ?thesis
    using o release_cmd_thread_obj [of v]
    by (auto simp: same_object_def u_def to_state_def upd_cmd_thread_def split: if_splits)
qed

lemma stop_state: "stop_stream s = (rc, t) \<Longrightarrow>
    s_state t = MM_STREAM_STATE_REG \<and> s_fd t = s_fd s \<and> has_channel t = has_channel s \<and>
    (bufs t = None \<longleftrightarrow> bufs s = None)"
proof -
  assume r: "stop_stream s = (rc, t)"
  obtain rc' v where v: "mm_stream_streamoff s = (rc', v)" by fastforce
  have o: "same_object s v" using streamoff_obj [of s] v by simp
  show ?thesis
    using r v o release_cmd_thread_obj [of v]
    by (auto simp: stop_stream_def Let_def same_object_def to_state_def split: if_splits)
qed

lemma acquire_facts:
  assumes r: "mm_stream_fsm_inited MM_STREAM_EVT_ACQUIRE s = (rc, t)"
    and st: "s_state s = MM_STREAM_STATE_INITED" and fd: "s_fd s <s 0"
  shows "s_state t = (if rc = 0 then MM_STREAM_STATE_ACQUIRED else MM_STREAM_STATE_INITED)"
    "rc = 0 \<longleftrightarrow> \<not> s_fd t <s 0" "rc = 0 \<longrightarrow> has_channel t" "bufs t = None \<longleftrightarrow> bufs s = None"
  using r st fd
  by (auto simp: mm_stream_fsm_inited_def mm_stream_set_ext_mode_def s_ask_eq s_tell_def Let_def
      to_state_def split: if_splits)

text \<open>
  What a stream has in each state: the descriptor of the device and its channel from the
  acquisition to the release, and an array of buffers between GET\_BUF and PUT\_BUF.
\<close>

fun has_device :: "stream_state \<Rightarrow> bool" where
  "has_device MM_STREAM_STATE_NOTUSED = False"
| "has_device MM_STREAM_STATE_INITED = False"
| "has_device st = True"

definition well_formed :: "mm_stream \<Rightarrow> bool" where
  "well_formed s \<longleftrightarrow> (has_device (s_state s) \<longleftrightarrow> \<not> s_fd s <s 0) \<and>
     (has_device (s_state s) \<longrightarrow> has_channel s) \<and>
     (bufs s \<noteq> None \<longleftrightarrow>
        s_state s \<in> {MM_STREAM_STATE_BUFFED, MM_STREAM_STATE_REG, MM_STREAM_STATE_ACTIVE})"

lemma well_formed_obj: "same_object s t \<Longrightarrow> well_formed s \<Longrightarrow> well_formed t"
  by (auto simp: same_object_def well_formed_def)

text \<open>Both facts for one handler: the state moves as the table says and fits the resources.\<close>

definition fits :: "mm_stream \<Rightarrow> stream_evt \<Rightarrow> int32 \<times> mm_stream \<Rightarrow> bool" where
  "fits s e p \<longleftrightarrow> s_state (snd p) = next_stream_state (s_state s) e (fst p = 0) \<and> well_formed (snd p)"

lemma fits_obj:
  "well_formed s \<Longrightarrow> same_object s (snd p) \<Longrightarrow> (\<And>ok. next_stream_state (s_state s) e ok = s_state s)
     \<Longrightarrow> fits s e p"
  using well_formed_obj by (auto simp: fits_def same_object_def)

lemma inited_fits:
  assumes w: "well_formed s" and st: "s_state s = MM_STREAM_STATE_INITED"
  shows "fits s e (mm_stream_fsm_inited e s)"
proof (cases "e = MM_STREAM_EVT_ACQUIRE")
  case True
  obtain rc t where r: "mm_stream_fsm_inited MM_STREAM_EVT_ACQUIRE s = (rc, t)" by fastforce
  have "s_fd s <s 0" using w st by (simp add: well_formed_def)
  note f = acquire_facts [OF r st this]
  show ?thesis using True r f w st by (auto simp: fits_def well_formed_def)
next
  case False
  then show ?thesis
    using w st by (cases e) (auto simp: mm_stream_fsm_inited_def fits_def)
qed

lemma config_fits:
  assumes w: "well_formed s" and st: "s_state s \<in> {MM_STREAM_STATE_ACQUIRED, MM_STREAM_STATE_CFG}"
  shows "fits s (MM_STREAM_EVT_SET_FMT cfg)
    (case mm_stream_config cfg s of (rc, s) \<Rightarrow> (rc, to_state MM_STREAM_STATE_CFG s))"
  using w st config_obj [of s cfg]
  by (auto simp: fits_def well_formed_def same_object_def to_state_def split: prod.splits)

lemma release_fits:
  assumes st: "s_state s \<in> {MM_STREAM_STATE_ACQUIRED, MM_STREAM_STATE_CFG}"
  shows "fits s MM_STREAM_EVT_RELEASE
    (case mm_stream_release s of (rc, s) \<Rightarrow> (rc, to_state MM_STREAM_STATE_NOTUSED s))"
  using st by (auto simp: fits_def well_formed_def mm_stream_release_def to_state_def Let_def)

lemma acquired_fits:
  assumes w: "well_formed s" and st: "s_state s = MM_STREAM_STATE_ACQUIRED"
  shows "fits s e (mm_stream_fsm_acquired e s)"
  using w st config_fits [OF w] release_fits [of s] fits_obj [OF w parm_obj(1)] fits_obj [OF w parm_obj(2)]
    fits_obj [OF w, of "(0, s)"]
  by (cases e) (simp_all add: mm_stream_fsm_acquired_def)

lemma cfg_fits:
  assumes w: "well_formed s" and st: "s_state s = MM_STREAM_STATE_CFG"
  shows "fits s e (mm_stream_fsm_cfg e s)"
proof (cases "e = MM_STREAM_EVT_GET_BUF")
  case True
  obtain rc t where r: "mm_stream_init_bufs s = (rc, t)" by fastforce
  have "bufs s = None" using w st by (simp add: well_formed_def)
  note f = init_bufs_facts [OF r this]
  show ?thesis
    using True r f w st
    by (auto simp: mm_stream_fsm_cfg_def fits_def well_formed_def to_state_def)
next
  case False
  then show ?thesis
    using w st config_fits [OF w] release_fits [of s] fits_obj [OF w parm_obj(1)]
      fits_obj [OF w parm_obj(2)] fits_obj [OF w, of "(0, s)"]
    by (cases e) (simp_all add: mm_stream_fsm_cfg_def)
qed

lemma buffed_fits:
  assumes w: "well_formed s" and st: "s_state s = MM_STREAM_STATE_BUFFED"
  shows "fits s e (mm_stream_fsm_buffed e s)"
proof -
  have 1: "fits s MM_STREAM_EVT_PUT_BUF
      (case mm_stream_deinit_bufs s of (rc, s) \<Rightarrow> (rc, to_state MM_STREAM_STATE_CFG s))"
    using w st deinit_bufs_facts [of s]
    by (auto simp: fits_def well_formed_def to_state_def split: prod.splits)
  have 2: "fits s MM_STREAM_EVT_REG_BUF (case mm_stream_reg_buf s of
      (rc, s) \<Rightarrow> (rc, if rc = 0 then to_state MM_STREAM_STATE_REG s else s))"
    using w st reg_buf_obj [of s]
    by (auto simp: fits_def well_formed_def same_object_def to_state_def split: prod.splits)
  show ?thesis
    using w st 1 2 fits_obj [OF w parm_obj(1)] fits_obj [OF w parm_obj(2)] fits_obj [OF w, of "(0, s)"]
    by (cases e) (simp_all add: mm_stream_fsm_buffed_def)
qed

lemma reg_fits:
  assumes w: "well_formed s" and st: "s_state s = MM_STREAM_STATE_REG"
  shows "fits s e (mm_stream_fsm_reg e s)"
proof -
  have 1: "fits s MM_STREAM_EVT_UNREG_BUF
      (case mm_stream_unreg_buf s of (rc, s) \<Rightarrow> (rc, to_state MM_STREAM_STATE_BUFFED s))"
    using w st unreg_buf_obj [of s]
    by (auto simp: fits_def well_formed_def same_object_def to_state_def split: prod.splits)
  have 2: "fits s MM_STREAM_EVT_START (start_stream s)"
    using w st start_state [of s "fst (start_stream s)" "snd (start_stream s)"]
    by (auto simp: fits_def well_formed_def split: if_splits)
  show ?thesis
    using w st 1 2 fits_obj [OF w parm_obj(1)] fits_obj [OF w parm_obj(2)] fits_obj [OF w, of "(0, s)"]
    by (cases e) (simp_all add: mm_stream_fsm_reg_def)
qed

lemma active_fits:
  assumes w: "well_formed s" and st: "s_state s = MM_STREAM_STATE_ACTIVE"
  shows "fits s e (mm_stream_fsm_active e s)"
proof -
  have 1: "fits s MM_STREAM_EVT_STOP (stop_stream s)"
    using w st stop_state [of s "fst (stop_stream s)" "snd (stop_stream s)"]
    by (auto simp: fits_def well_formed_def)
  show ?thesis
    using w st 1 fits_obj [OF w parm_obj(1)] fits_obj [OF w parm_obj(2)] fits_obj [OF w parm_obj(3)]
      fits_obj [OF w buf_done_obj] fits_obj [OF w cancel_obj]
      fits_obj [OF w, of "(0, s)"] fits_obj [OF w, of "(mm_stream_get_queued_buf_count s, s)"]
    by (cases e) (simp_all add: mm_stream_fsm_active_def)
qed

lemma fsm_fits: "well_formed s \<Longrightarrow> fits s e (mm_stream_fsm_fn e s)"
  using inited_fits acquired_fits cfg_fits buffed_fits reg_fits active_fits
    fits_obj [of s "(-1, s)" e]
  by (cases "s_state s") (simp_all add: mm_stream_fsm_fn_def)

text \<open>
  Everything that happens to a stream: events, frames, commands, mappings and new callbacks.
\<close>

definition life_step :: "stream_input \<Rightarrow> mm_stream \<Rightarrow> mm_stream" where
  "life_step i s =
     (case i of
        Control e \<Rightarrow> snd (mm_stream_fsm_fn e s)
      | Give_back k \<Rightarrow> snd (mm_stream_fsm_fn (MM_STREAM_EVT_QBUF (Buf k)) s)
      | _ \<Rightarrow> snd (stream_step i (\<lambda>_. 0, s)))"

interpretation stream_life: invariant_system life_step well_formed
proof
  fix s i assume w: "well_formed s"
  show "well_formed (life_step i s)"
    using fsm_fits [OF w] well_formed_obj [OF data_notify_obj w] well_formed_obj [OF run_command_obj w]
      well_formed_obj [OF map_buf_obj w] well_formed_obj [OF map_bufs_obj w]
      well_formed_obj [OF unmap_buf_obj w] well_formed_obj [OF reg_buf_cb_obj w]
    by (cases i) (simp_all add: life_step_def fits_def)
qed

text \<open>
  C7: the state machine of a stream follows its table.  Whatever the event and the answers of the
  driver, the state after the event is the one that the table gives for the state before and for
  the success of the call; in particular a failed registration or start does not advance, while
  a failed configuration does.
\<close>

theorem stream_moves_by_table:
  assumes "well_formed s" and "mm_stream_fsm_fn e s = (rc, t)"
  shows "s_state t = next_stream_state (s_state s) e (rc = 0)"
  using fsm_fits [OF assms(1), of e] assms(2) by (simp add: fits_def)

text \<open>
  C8: a stream has what its state needs, on every run.  Whatever happens to a stream, it has an
  open descriptor and a channel exactly from its acquisition to its release, and its array of
  buffers exists exactly between GET\_BUF and PUT\_BUF.
\<close>

theorem stream_resources_fit_state:
  assumes "well_formed s"
  shows "well_formed (run_steps life_step is s)"
  by (rule stream_life.run_inv [OF assms])

section \<open>Ownership\<close>

text \<open>
  C5: every buffer of a stream of single frames has one owner.  The stream is not in batch mode and
  none of its buffers is a container of user pointers (single\_frames).  From its registration on,
  whatever frames, commands, returned buffers, events and mappings follow, a buffer that the driver
  holds has no reference, so no client and no queue has it; the references that clients and queues
  have never exceed the count; and no buffer is queued to the driver while it holds it.  A container
  that comes late breaks this (late\_container\_is\_shared).
\<close>

theorem buffers_have_one_owner:
  assumes "buffed_ready s0" and "single_frames s0" and "mm_stream_fsm_fn MM_STREAM_EVT_REG_BUF s0 = (0, s)"
    and "run_steps stream_step is (first_ledger s, s) = (led, t)"
  shows "never_queued_twice (trace t) \<and>
    (\<forall>i < unat (buf_num t).
       led i \<le> given (trace t) i \<and>
       given (trace t) i - led i + int (carried i (in_queue t)) \<le> int (refs t i) \<and>
       (i \<in> driver_holds (trace t) \<longrightarrow>
          refs t i = 0 \<and> given (trace t) i = led i \<and> carried i (in_queue t) = 0))"
proof -
  have "session_ok (led, t)" using session_run [OF assms(1-3), of "is"] assms(4) by simp
  then have "accounted led [] t" by (simp add: session_ok_def)
  then show ?thesis by (auto simp: accounted_def counted_def)
qed

text \<open>
  C6: no buffer of a stream of single frames is lost while nothing fails.  A stream that is not in
  batch mode and has no containers of user pointers, that has its channel and a receiver, whose calls
  all succeed and whose callbacks are not limited, keeps every buffer in circulation: at any time a
  buffer is with the driver, or somebody has a reference to it, and never both.
\<close>

theorem no_buffer_is_lost:
  assumes "buffed_ready s0" and "single_frames s0" and "nothing_fails (env s0)" and "steady s0"
    and "is_bundled s0 \<or> is_linked s0 \<or> has_async_cb s0"
    and "mm_stream_fsm_fn MM_STREAM_EVT_REG_BUF s0 = (0, s)"
    and "mm_stream_fsm_fn MM_STREAM_EVT_START s = (0, s1)"
    and "run_steps live_step is (first_ledger s, s1) = (led, t)"
  shows "\<forall>i < unat (buf_num t).
    (i \<in> driver_holds (trace t)) \<noteq> (led i < given (trace t) i \<or> carried i (in_queue t) \<noteq> 0)"
proof -
  have "flow_ok (led, t)" using flow_run [OF assms(1-7), of "is"] assms(8) by simp
  then have l: "lossless led [] t" by (simp add: flow_ok_def)
  have "(i \<in> driver_holds (trace t)) \<noteq> (led i < given (trace t) i \<or> carried i (in_queue t) \<noteq> 0)"
    if "i < unat (buf_num t)" for i
  proof -
    have "led i \<le> given (trace t) i"
      using l that by (simp add: lossless_def accounted_def counted_def)
    moreover have "given (trace t) i + int (carried i (in_queue t)) = int (refs t i) + led i"
      "(refs t i = 0) = (i \<in> driver_holds (trace t))"
      using l that by (simp_all add: lossless_def exact_def)
    ultimately show ?thesis by linarith
  qed
  then show ?thesis by blast
qed

section \<open>A concrete stream\<close>

text \<open>
  Two buffers, of which the second is with the client at first, and one asynchronous callback.
  The driver fills the buffers that it has in turn; every call succeeds.
\<close>

definition demo_frame :: "nat \<Rightarrow> dequeued" where
  "demo_frame i = \<lparr>dq_rc = 0, dq_index = i, dq_sequence = 7, dq_sec = 1, dq_usec = 2, dq_flags = 0,
     dq_uv_format = False, dq_container = None\<rparr>"

definition no_frame :: dequeued where
  "no_frame = (demo_frame 0)\<lparr>dq_rc := -1\<rparr>"

definition demo_user :: user_buf where
  "demo_user = \<lparr>bufs_used = 0, buf_in_use = False, ub_idx = []\<rparr>"

definition demo_buf :: "nat \<Rightarrow> frame_buf" where
  "demo_buf i = \<lparr>fb_stream_id = 0, fb_stream_type = CAM_STREAM_TYPE_PREVIEW, fb_userptr = False,
     fb_idx = i, fb_uv_subsampled = False, fb_sec = 0, fb_nsec = 0, fb_frame_idx = 0,
     fb_num_planes = 2, fb_user = demo_user, fb_fd = 5, fb_buffer = 100 + i, fb_flags = 0\<rparr>"

definition demo_alloc :: allocation where
  "demo_alloc = \<lparr>al_maps = None, al_num = 2, al_flags = [True, False], al_bufs = [demo_buf 0, demo_buf 1],
     al_planes = None\<rparr>"

definition demo_env :: "(s_call \<Rightarrow> int32) \<Rightarrow> s_env" where
  "demo_env ans = \<lparr>answer = \<lambda>_. ans,
     frame_of = \<lambda>t. if 0 \<in> driver_holds t then demo_frame 0
                    else if 1 \<in> driver_holds t then demo_frame 1 else no_frame,
     memory = \<lambda>_. demo_alloc, unmapped_by_put = \<lambda>_. [], extended_mode = \<lambda>_. 3,
     venus_sizes = demo_venus\<rparr>"

definition demo_poll :: poll_thread where
  "demo_poll = \<lparr>pt_type = MM_CAMERA_POLL_TYPE_DATA, pt_entries = replicate 8 (cleared_entry\<lparr>pe_fd := -1\<rparr>),
     pt_fds = [4], pt_pfd = 4, pt_pipe = [], pt_polling = True, pt_status = True, pt_writes = 0,
     pt_write_ok = \<lambda>_. True\<rparr>"

definition demo_status :: "bool \<Rightarrow> buf_status" where
  "demo_status flag = cleared_status\<lparr>initial_reg_flag := flag, map_status := 1\<rparr>"

definition demo_cbs :: "data_cb list" where
  "demo_cbs = [\<lparr>cb_fn = 11, cb_user = 12, cb_count = -1, cb_sync = False\<rparr>, cleared_cb, cleared_cb,
     cleared_cb]"

definition demo_mode :: stream_mode where
  "demo_mode = \<lparr>sm_batch = False, sm_num_bufs = 2, sm_frame_buf_cnt = 0, sm_user_size = 0,
     sm_frame_interval = 33, sm_svr_id = 3, sm_no_frame_expected = False\<rparr>"

definition demo_lay :: stream_layout where
  "demo_lay = (demo_layout CAM_FORMAT_YUV_420_NV12 CAM_STREAM_TYPE_PREVIEW 640 480)
     \<lparr>lay_frame_offset := empty_planes\<lparr>num_planes := 2\<rparr>\<rparr>"

definition demo_stream :: "(s_call \<Rightarrow> int32) \<Rightarrow> mm_stream" where
  "demo_stream ans = \<lparr>my_hdl = 257, server_stream_id = 3, s_fd = 9, s_state = MM_STREAM_STATE_BUFFED,
     lay = demo_lay, mode = demo_mode, cmd_thread = \<lparr>is_active = False, cmd_queue = []\<rparr>,
     buf_cb = demo_cbs, buf_num = 2, bufs = Some [demo_buf 0, demo_buf 1],
     conts = (\<lambda>_. \<lparr>cont_cnt = 0, cont_idx = []\<rparr>),
     status_of = (\<lambda>i. demo_status (i = 0)), plane_bufs = None, plane_buf_num = 0, cur_buf_idx = -1,
     cur_bufs_staged = 0, has_channel = True, is_bundled = False, is_linked = False,
     mem_ops = \<lparr>has_set_config_ops = True, has_invalidate_buf = True, has_clean_invalidate_buf = True\<rparr>,
     queued_buffer_count = 0, prev_frameID = 0, prev_timestamp = 0, poll = demo_poll, blocked = False,
     env = demo_env ans, trace = []\<rparr>"

lemma demo_honest: "honest_driver (demo_env ans)"
  by (simp add: honest_driver_def demo_env_def no_frame_def demo_frame_def)

lemma demo_success: "nothing_fails (demo_env success)"
  by (simp add: nothing_fails_def demo_env_def no_frame_def demo_frame_def)

lemma all_below_2: "(\<forall>j < (2 :: nat). P j) \<longleftrightarrow> P 0 \<and> P 1"
  by (auto simp: less_Suc_eq numeral_2_eq_2)

lemma demo_ready: "buffed_ready (demo_stream ans)"
  using demo_honest [of ans]
  by (simp add: buffed_ready_def demo_stream_def numbered_bufs_def demo_mode_def demo_buf_def demo_cbs_def
      MM_CAMERA_STREAM_BUF_CB_MAX_def all_below_2)

lemma demo_single: "single_frames (demo_stream ans)"
  by (simp add: single_frames_def demo_stream_def demo_mode_def demo_buf_def all_below_2)

lemma demo_well_formed: "well_formed (demo_stream ans)"
  by (simp add: well_formed_def demo_stream_def word_sless_alt)

lemma demo_steady: "steady (demo_stream ans)"
  by (simp add: steady_def demo_stream_def demo_cbs_def async_slot_def cleared_cb_def)

definition demo_registered :: mm_stream where
  "demo_registered = snd (mm_stream_fsm_fn MM_STREAM_EVT_REG_BUF (demo_stream success))"

definition demo_started :: mm_stream where
  "demo_started = snd (mm_stream_fsm_fn MM_STREAM_EVT_START demo_registered)"

lemma demo_reg:
  "mm_stream_fsm_fn MM_STREAM_EVT_REG_BUF (demo_stream success) = (0, demo_registered)"
proof -
  have "fst (mm_stream_fsm_fn MM_STREAM_EVT_REG_BUF (demo_stream success)) = 0" by code_simp
  then show ?thesis by (simp add: demo_registered_def prod_eq_iff)
qed

lemma demo_start: "mm_stream_fsm_fn MM_STREAM_EVT_START demo_registered = (0, demo_started)"
proof -
  have "fst (mm_stream_fsm_fn MM_STREAM_EVT_START demo_registered) = 0" by code_simp
  then show ?thesis by (simp add: demo_started_def prod_eq_iff)
qed

theorem stream_moves_by_table_witness:
  "s_state demo_registered = MM_STREAM_STATE_REG"
  using stream_moves_by_table [OF demo_well_formed demo_reg] by (simp add: demo_stream_def)

theorem stream_resources_fit_state_witness:
  "let t = run_steps life_step [Control MM_STREAM_EVT_REG_BUF, Control MM_STREAM_EVT_UNREG_BUF,
       Control MM_STREAM_EVT_PUT_BUF, Control MM_STREAM_EVT_RELEASE] (demo_stream success)
   in s_state t = MM_STREAM_STATE_NOTUSED \<and> well_formed t"
proof -
  have "s_state (run_steps life_step [Control MM_STREAM_EVT_REG_BUF, Control MM_STREAM_EVT_UNREG_BUF,
       Control MM_STREAM_EVT_PUT_BUF, Control MM_STREAM_EVT_RELEASE] (demo_stream success))
     = MM_STREAM_STATE_NOTUSED" by code_simp
  then show ?thesis
    unfolding Let_def using stream_resources_fit_state [OF demo_well_formed] by blast
qed

text \<open>A frame arrives, is delivered to the callback and given back.\<close>

definition demo_inputs :: "stream_input list" where
  "demo_inputs = [Frame, Command, Give_back 0]"

definition demo_run :: "stream_input list \<Rightarrow> (nat \<Rightarrow> int) \<times> mm_stream" where
  "demo_run is = run_steps stream_step is (first_ledger demo_registered, demo_registered)"

text \<open>The driver delivers the first buffer, which is put into the queue of the command thread.\<close>

definition demo_read :: mm_stream where
  "demo_read = snd (snd (mm_stream_read_msm_frame 2 demo_started))"

definition demo_info :: frame_info where
  "demo_info = \<lparr>fi_stream_id = 257, fi_frame_idx = 7, fi_buf = Buf 0\<rparr>"

lemma demo_read_eq: "mm_stream_read_msm_frame 2 demo_started = (0, Some demo_info, demo_read)"
proof -
  have "fst (mm_stream_read_msm_frame 2 demo_started) = 0"
    "fst (snd (mm_stream_read_msm_frame 2 demo_started)) = Some demo_info"
    by code_simp+
  then show ?thesis by (simp add: demo_read_def prod_eq_iff)
qed

lemma demo_flows: "flow_ok (first_ledger demo_registered, demo_started)"
proof -
  have "nothing_fails (env (demo_stream success))" "has_async_cb (demo_stream success)"
    using demo_success
    by (simp_all add: demo_stream_def has_async_cb_def demo_cbs_def async_slot_def
        MM_CAMERA_STREAM_BUF_CB_MAX_def)
  then show ?thesis
    using flow_run [OF demo_ready demo_single _ demo_steady _ demo_reg demo_start, of "[]"] by simp
qed

lemma demo_read_facts:
  "buf_cb demo_read = demo_cbs" "is_bundled demo_read = False" "is_linked demo_read = False"
  "fb_idx (buf_at demo_read (Buf 0)) = 0" "is_active (cmd_thread demo_read)" "buf_num demo_read = 2"
  "in_queue demo_read = []" "driver_holds (trace demo_read) = {}" "nothing_fails (env demo_read)"
proof -
  show "buf_cb demo_read = demo_cbs" "is_bundled demo_read = False" "is_linked demo_read = False"
    "fb_idx (buf_at demo_read (Buf 0)) = 0" "is_active (cmd_thread demo_read)" "buf_num demo_read = 2"
    "in_queue demo_read = []" "driver_holds (trace demo_read) = {}"
    by code_simp+
  have a: "accounted (first_ledger demo_registered) [] demo_started" and
    n: "nothing_fails (env demo_started)"
    using demo_flows by (simp_all add: flow_ok_def lossless_def flowing_def)
  show "nothing_fails (env demo_read)"
    using n by (cases rule: read_frame_cases [OF a demo_read_eq]) (simp_all add: moves_def)
qed

lemma demo_notify:
  "driver_holds (trace (mm_stream_data_notify demo_started)) = {}"
  "in_queue (mm_stream_data_notify demo_started) = [Some demo_info]"
  "buf_num (mm_stream_data_notify demo_started) = 2"
proof -
  have upt4: "[0..<4] = [0, 1, 2, 3 :: nat]" by (simp add: upt_rec)
  have 1: "s_state demo_started = MM_STREAM_STATE_ACTIVE" "sm_batch (mode demo_started) = False"
    "num_planes (lay_frame_offset (lay demo_started)) = 2" by code_simp+
  have 2: "has_async_cb demo_read"
    by (simp add: has_async_cb_def demo_read_facts demo_cbs_def async_slot_def
        MM_CAMERA_STREAM_BUF_CB_MAX_def)
  define u where "u = set_status 0 (\<lambda>st. st\<lparr>in_kernel := False\<rparr>) demo_read"
  have 3: "\<not> is_bundled u" "\<not> is_linked u" "is_active (cmd_thread u)" "buf_num u = 2" "in_queue u = []"
    "trace u = trace demo_read" "answer (env u) (trace u) S_malloc = 1"
    using demo_read_facts by (simp_all add: u_def set_status_def nothing_fails_def)
  have "mm_stream_data_notify demo_started = mm_stream_handle_rcvd_buf demo_info True (add_ref 0 1 u)"
    using demo_read_facts 2 3(1)
    by (simp add: mm_stream_data_notify_def 1 demo_read_eq Let_def MM_CAMERA_STREAM_BUF_CB_MAX_def upt4
        demo_cbs_def cleared_cb_def demo_info_def u_def)
  then show "driver_holds (trace (mm_stream_data_notify demo_started)) = {}"
    "in_queue (mm_stream_data_notify demo_started) = [Some demo_info]"
    "buf_num (mm_stream_data_notify demo_started) = 2"
    using 3 demo_read_facts(8)
    by (simp_all add: mm_stream_handle_rcvd_buf_def add_ref_def set_status_def s_ask_eq Let_def)
qed

theorem buffers_have_one_owner_witness:
  "let t = snd (run_steps stream_step [Control MM_STREAM_EVT_START, Frame]
       (first_ledger demo_registered, demo_registered))
   in in_queue t = [Some demo_info] \<and> refs t 0 \<ge> 1 \<and> 0 \<notin> driver_holds (trace t)"
proof -
  define t where "t = mm_stream_data_notify demo_started"
  have r: "run_steps stream_step [Control MM_STREAM_EVT_START, Frame]
      (first_ledger demo_registered, demo_registered) = (first_ledger demo_registered, t)"
    by (simp add: t_def demo_started_def)
  have q: "in_queue t = [Some demo_info]" "buf_num t = 2" by (simp_all add: t_def demo_notify)
  have "carried 0 (in_queue t) = 1" by (simp add: q demo_info_def)
  then have "refs t 0 \<ge> 1 \<and> 0 \<notin> driver_holds (trace t)"
    using buffers_have_one_owner [OF demo_ready demo_single demo_reg r] q by (simp add: all_below_2)
  then show ?thesis unfolding Let_def r snd_conv using q by blast
qed

theorem no_buffer_is_lost_witness:
  "let (led, t) = run_steps live_step [Frame] (first_ledger demo_registered, demo_started)
   in 1 \<notin> driver_holds (trace t) \<and> (led 1 < given (trace t) 1)"
proof -
  define t where "t = mm_stream_data_notify demo_started"
  have r: "run_steps live_step [Frame] (first_ledger demo_registered, demo_started)
      = (first_ledger demo_registered, t)"
    by (simp add: t_def live_step_def)
  have q: "in_queue t = [Some demo_info]" "buf_num t = 2" "driver_holds (trace t) = {}"
    by (simp_all add: t_def demo_notify)
  have "nothing_fails (env (demo_stream success))" "has_async_cb (demo_stream success)"
    using demo_success
    by (simp_all add: demo_stream_def has_async_cb_def demo_cbs_def async_slot_def
        MM_CAMERA_STREAM_BUF_CB_MAX_def)
  then have "\<forall>i < unat (buf_num t). (i \<in> driver_holds (trace t))
      \<noteq> (first_ledger demo_registered i < given (trace t) i \<or> carried i (in_queue t) \<noteq> 0)"
    using no_buffer_is_lost [OF demo_ready demo_single _ demo_steady _ demo_reg demo_start r] by blast
  then have "1 \<notin> driver_holds (trace t) \<and> first_ledger demo_registered 1 < given (trace t) 1"
    using q by (simp add: all_below_2 demo_info_def)
  then show ?thesis unfolding r by simp
qed

section \<open>Where the code falls short\<close>

text \<open>
  A buffer that the driver refuses when its last reference is given back has neither a reference nor
  the driver, and every later attempt to give it back is refused.
\<close>

lemma refused_buffer_is_stranded:
  assumes g: "good_bufs s" and i: "i < unat (buf_num s)" and r: "refs s i = 1"
    and h: "i \<notin> driver_holds (trace s)" and f: "mm_stream_buf_done (Buf i) s = (rc, t)" "rc <s 0"
  shows "refs t i = 0" and "i \<notin> driver_holds (trace t)" and "mm_stream_buf_done (Buf i) t = (-1, t)"
proof -
  have b: "fb_idx (the (bufs s) ! i) = i" "\<not> sm_batch (mode s)" using g i by (auto simp: good_bufs_def)
  have one: "buf_refcnt (status_of s i) = 1"
    using r word_unat_eq_iff [of "buf_refcnt (status_of s i)" 1] by (simp add: refs_def)
  define u where "u = drop_ref i s"
  have u: "buf_refcnt (status_of u i) = 0" "trace u = trace s" "good_bufs u" "buf_num u = buf_num s"
    using g by (simp_all add: u_def drop_ref_def set_status_def one good_bufs_def)
  have q: "mm_stream_qbuf (the (bufs s) ! i) u = (rc, t)"
    using f one u(1) b
    by (auto simp: mm_stream_buf_done_def buf_at_def u_def [symmetric] Let_def split: prod.splits if_splits)
  have e: "effect (driver_holds (trace s)) u t"
    using qbuf_effect [OF q] f(2) b(1) h u(2) by simp
  then have t: "buf_refcnt (status_of t i) = 0" "good_bufs t" "buf_num t = buf_num s"
    using u by (simp_all add: moves_def)
  then show "refs t i = 0" by (simp add: refs_def)
  show "i \<notin> driver_holds (trace t)" using moves_held [OF e] h by simp
  have "fb_idx (the (bufs t) ! i) = i" using t i by (auto simp: good_bufs_def)
  then show "mm_stream_buf_done (Buf i) t = (-1, t)"
    using t(1) by (simp add: mm_stream_buf_done_def buf_at_def)
qed

text \<open>
  A container with a time stamp that is not later than the last one is queued to the driver again,
  and is still handed to the callbacks and the channel: the driver fills what the clients read.
\<close>

lemma late_container_is_shared:
  assumes nf: "nothing_fails (env s)" and d: "d = frame_of (env s) (trace s)" "\<not> dq_rc d <s 0"
    and b: "numbered_bufs s" and i: "dq_index d < unat (buf_num s)"
    and u: "fb_userptr (the (bufs s) ! dq_index d)"
    and late: "dq_sec d * 1000000000 + dq_usec d * 1000 \<le> prev_timestamp s"
  shows "\<exists>f t. mm_stream_read_msm_frame n s = (0, Some f, t) \<and> fi_buf f = Buf (dq_index d) \<and>
    dq_index d \<in> driver_holds (trace t)"
proof -
  let ?i = "dq_index d" and ?H = "driver_holds (trace s)"
  obtain s1 where 1: "dequeue_answer n s = (d, s1)"
    using d(1) by (simp add: dequeue_answer_def Let_def)
  define s2 where "s2 = one_less_queued s1"
  define s3 where "s3 = fill_frame d s2"
  have e1: "effect (?H - {?i}) s s1" using dequeue_effect(1) [OF 1] d(2) by simp
  have e2: "effect (?H - {?i}) s s2"
    using effect_trans [OF e1] one_less_unmoved [of s1] by (simp add: s2_def moves_held [OF e1])
  have "?i < unat (buf_num s2)" using i e2 by (simp add: moves_def)
  note f3 = fill_frame_unmoved [OF this, unfolded moves_held [OF e2]]
  have e3: "effect (?H - {?i}) s s3" unfolding s3_def by (rule effect_trans [OF e2 f3])
  obtain bs where bs: "bufs s = Some bs" "?i < length bs" using b i by (auto simp: numbered_bufs_def)
  have s2: "bufs s2 = Some bs" "prev_timestamp s2 = prev_timestamp s"
    using 1 bs by (auto simp: s2_def dequeue_answer_def one_less_queued_def del_poll_def poll_call_eq Let_def)
  have at3: "fb_idx (buf_at s3 (Buf ?i)) = ?i" "fb_userptr (buf_at s3 (Buf ?i))"
    "fb_sec (buf_at s3 (Buf ?i)) = dq_sec d" "fb_nsec (buf_at s3 (Buf ?i)) = dq_usec d * 1000"
    "prev_timestamp s3 = prev_timestamp s"
    using s2 bs u by (simp_all add: s3_def fill_frame_def put_buf_def buf_at_def Let_def split: option.split)
  obtain rc s4 where 4: "mm_stream_qbuf (buf_at s3 (Buf ?i)) s3 = (rc, s4)" by fastforce
  have r: "mm_stream_read_user_buf ?i s3 = (0, s4)"
    using 4 late by (simp add: mm_stream_read_user_buf_def Let_def at3)
  have nf3: "nothing_fails (env s3)" using e3 nf by (simp add: moves_def)
  have e4: "effect (insert ?i (?H - {?i})) s3 s4"
    using qbuf_effect [OF 4] qbuf_succeeds [OF 4 nf3] at3(1) by (simp add: moves_held [OF e3])
  obtain r5 s5 where 5: "(if has_clean_invalidate_buf (mem_ops s4)
    then s_ask (S_clean_invalidate ?i) s4 else (dq_rc d, s4)) = (r5, s5)" by fastforce
  have "unmoved s4 s5"
    using 5 s_ask_unmoved [of "S_clean_invalidate ?i" s4] by (auto split: if_splits)
  then have h: "?i \<in> driver_holds (trace s5)" using moves_held [of 0 0 0 "[]" _ s4 s5] moves_held [OF e4] by simp
  have "env s4 = env s" using e3 e4 by (simp add: moves_def)
  moreover have "dq_rc d = 0" using nf d by (auto simp: nothing_fails_def)
  ultimately have r5: "r5 = 0" using 5 nf by (auto simp: nothing_fails_def s_ask_eq split: if_splits)
  define f where "f = \<lparr>fi_stream_id = my_hdl s2, fi_frame_idx = dq_sequence d, fi_buf = Buf ?i\<rparr>"
  have "mm_stream_read_msm_frame n s = (r5, Some f, s5)"
    using 1 d(2) at3(2) r 5
    by (simp add: mm_stream_read_msm_frame_def Let_def s2_def [symmetric] s3_def [symmetric] f_def cong: if_cong)
  then show ?thesis using h r5 by (simp add: f_def)
qed

text \<open>
  In batch mode every plane buffer is staged in slot 0 of the container, so the indices of a
  container with two are those of the second buffer and what was there before.
\<close>

lemma staging_overwrites_slot_0:
  assumes "bufs s = Some [c]" and "bufs_used (fb_user c) = 2" and "ub_idx (fb_user c) = [-1, -1]"
    and "cur_bufs_staged s = 0" and "cur_buf_idx s = 0" and "buf_num s = 1"
    and "buf_refcnt (status_of s 0) = 2" and "\<not> fb_userptr p" and "\<not> fb_userptr q"
    and "fb_idx p = 4" and "fb_idx q = 5"
  shows "ub_idx (fb_user (buf_at (snd (mm_stream_write_user_buf q
    (snd (mm_stream_write_user_buf p s)))) (Buf 0))) = [5, -1]"
  using assms
  by (simp add: mm_stream_write_user_buf_def stage_plane_def put_buf_def buf_at_def drop_ref_def
      set_status_def Let_def)
end
