(* ===== verification/Spec2Isabelle.thy ===== *)
theory Spec2Isabelle
  imports Queue_Theorems Sm_Theorems Api_Theorems Timer_Theorems Agps_Theorems Mm_Theorems
    St_Theorems
begin

text \<open>
  The device tree of the Wileyfox Marmite contains the sources of its hardware abstraction layers.
  This development models parts of two of them, the camera HAL (camera/QCamera2) and the GPS HAL
  (gps), and proves what makes those parts correct.

  \<^bold>\<open>The program.\<close> The camera HAL is one object, QCamera2HardwareInterface, behind the device
  operations of Android. A device operation posts an API command to the state machine
  (QCameraStateMachine), whose thread takes commands from two queues (QCameraQueue), API commands
  first, runs the handler of the current state, which calls the HAL object back for the real work,
  and posts a result that the device operation waits for. Driver callbacks enter as events in the
  second queue. The GPS HAL is a set of classes around the modem's location engine; modelled are
  its timer service (LocTimer over LocHeap, a message task and a poll thread) and the manager of
  the assisted GPS data connections (AgpsManager and its state machines), which the adapter thread
  drives one message at a time.

  \<^bold>\<open>The theories of the camera HAL.\<close> Hal\_Prelude has the shared vocabulary: 32 bit integers, addresses,
  list lemmas, and the locales of a data queue and of a system with an invariant. Camera\_Queue models
  util/QCameraQueue.cpp over stack/common/cam\_list.h: the intrusive circular list as two maps of
  addresses, each operation of the queue on it, and the list queue (fifo) it refines, the
  interpretation of the locale data\_queue. Sm\_Types has the states, events, payloads and results of
  HAL/QCameraStateMachine.h, and the machine's record: the calls of the parent object are
  constructors of one type, recorded in a trace and answered by an arbitrary function of the trace.
  Sm\_Ops has the primitive operations (posting, results, delayed messages, the calls), Sm\_Preview,
  Sm\_Previewing, Sm\_Capture, Sm\_PreviewPic and Sm\_Recording the handlers of the eight states of
  HAL/QCameraStateMachine.cpp, one definition for each, cut where the C++ function is longer than a
  definition should be; Sm\_Machine the dispatch, the thread's loop and its release. Sm\_Spec has the abstract
  contract, which events a state answers, refuses or leaves unanswered and the transition graph;
  Sm\_Messages the message mask with its delayed part. Hal\_Api models the device operations of
  HAL/QCamera2HWI.cpp that go through the machine: processAPI, waitAPIResult, the result lists and
  the operations built on them. Queue\_Theorems, Sm\_Theorems and Api\_Theorems hold the properties.

  \<^bold>\<open>The theories of the camera interface.\<close> Below the HAL object, mm-camera-interface collects the frames of
  the streams. Mm\_Channel, Mm\_Match and Mm\_Dispatch model the command thread of a channel of
  stack/mm-camera-interface/src/mm\_camera\_channel.c: the queue of super buffers, whose nodes have one
  slot for each bundled stream, and the table that synchronises the frames of several cameras; the
  matching of an incoming buffer, with what metadata changes before it; the commands, the control
  of zero shutter lag, and the dispatch of complete nodes to the HAL. A system has a channel for
  every index and one table; a call that leaves it is recorded in a trace. Mm\_Inv, Mm\_Match\_Inv and
  Mm\_Dispatch\_Inv have the invariant of the queue and, for each operation, a contract: from good
  states to good states, with what came in and what is still in transit; contracts compose.
  Mm\_Sent counts what is sent, Mm\_Assemble follows the buffers of one frame, and Mm\_Theorems holds
  the properties.
  St\_Layout models the layouts of mm\_camera\_stream.c: for each type of stream and each format the
  strides, lines, lengths and offsets of the planes of a frame, in 32 bit arithmetic, and the least
  common multiple of strides. St\_Layout\_Bounds has the numbers behind the paddings, St\_Layout\_Fits
  the contract of each format, and St\_Layout\_Theorems the properties.
  St\_Thread models mm\_camera\_thread.c: the poll thread, whose table of descriptors is changed through
  commands on a pipe, and the command thread. St\_Stream and St\_Fsm model the streams of
  mm\_camera\_stream.c: the buffers with their reference counts, queueing and dequeueing at the driver,
  the delivery of a frame to the channel, to a linked channel and to callbacks, the batch mode,
  mapping, configuration, allocation, registration, starting and stopping, and the handlers of the six
  states. What a stream asks of the driver, of the allocator and of its receivers is a call with an
  answer: an arbitrary function of the calls before, kept in a trace. St\_Own reads from the
  trace which buffers the driver holds and which were handed out, and has for each operation a
  contract over these and the counts; St\_State has what no operation changes; St\_Run has the runs
  of a registered stream, as interpretations of the locale of a system with an invariant; and
  St\_Theorems the properties.

  \<^bold>\<open>The theories of the GPS HAL.\<close> Loc\_Heap models utils/LocHeap.cpp as a binary tree of nodes, with
  push, pop, remove and checkTree as the code has them; two locales state what a ranking must
  satisfy and what a ranked queue promises, and the heap is a sublocale of the second. Loc\_Timer
  models utils/LocTimer.cpp: clients, delegates at addresses in a store that makes their lifetime
  explicit, the two containers, the three messages of the task, the poll thread, and the kernel's
  descriptors as the fields armed and polled. Timer\_Inv has the invariant of that system and the
  interpretation of the locales. Agps models gnss/Agps.cpp: three machines, their subscribers at
  addresses, every operation of the manager, and a flag that records the read of a freed
  subscriber or a call through a null pointer. Agps\_Inv has the invariant of the subscriber lists
  and what a round of notifications does, Agps\_Conn the invariant of the connections.
  Heap\_Theorems, Timer\_Theorems and Agps\_Theorems hold the properties.

  \<^bold>\<open>What the lemmas show.\<close> Of the camera queue: it refines a list queue; its loops end, with the
  exact result of flush and of the searching dequeue. Of the state machine: every command that a
  state answers is answered once, under its name, with the status the handler returns; refusals
  change nothing; the machine moves only along the edges of its graph; no wake-up of its thread is
  lost; the delayed preview messages implement a set; the branches of starting, stopping and
  restarting in the order of their calls; what happens when the camera daemon dies. Of the device
  operations: a call whose state answers returns with the handler's status and leaves the result
  list as it was; a call that a state never answers still waits after any number of runs of the
  thread, as long as no other client calls. Of the heap: popping sorts, remove is
  exact, checkTree is an invariant. Of the timers: no deleted delegate is read, starts balance
  callbacks and stops, a container with a timer is always watched, an expiry leaves none that is
  due. Of the super buffer queue, when no queue has low priority: every command returns, every
  buffer is held, has left through one call, or is lost in one of the two places where the code
  loses buffers (a frame of a stream that is not bundled, a flush of one type of stream), what is
  sent is complete, no more than requested, and the newest complete nodes stay under the water
  mark; synchronised channels give one node each, of one frame, or none; in low priority mode a
  command may not return and a super buffer may mix frames. Of the layouts: every plane fits in its
  buffer, with one exception, and a refused request keeps the stream information. Of the streams: a
  buffer of a stream of single frames that the driver holds is with no client and in no queue, none
  is lost while no call fails, the state moves as its table says and a stream has the resources of
  its state; in batch mode a late container is with the driver and with clients at once. Of the
  AGPS manager: lists and live subscribers agree on every run, the connection follows the state, each event tells the right subscribers once, in order. Several properties state where
  the code falls short of its intent; they are listed as findings.

  \<^bold>\<open>Bounds and fuel.\<close> No definition has fuel. The loops over the pointer queue are partial functions
  with value None where they would not end, and are proved to end. A schedule of Hal\_Api is the list of
  the steps that the other threads take while a caller waits: None means that the caller still waits
  at the end of it. The clock is below 2^30 seconds since boot, so that differences of seconds fit an int;
  the sizes of heap nodes and of the camera queue are unbounded integers, which less than 2^31 nodes
  do not tell from int. The invariant of the super buffer queue asks for a priority other than low and for
  max\_unmatched\_frames below 255, as the count of unmatched nodes has 8 bits; match\_cnt and size wrap
  as in the code. The assumption cmd\_ok on a command says that the descriptor of a frame agrees with
  its buffer, and nothing of its stream or of the type of a flush. A super buffer command that does not return has the value None.

  \<^bold>\<open>Abstractions.\<close> Locks are not modelled: each operation on a queue, each client call of a timer and each
  message is one step. Wake-ups of a condition variable without a signal do not occur. The payload
  of an event is a record with one field for each type it is cast to. Code under
  VANILLA\_HAL is not compiled in this tree, the code under its negation is modelled. In Agps the callbacks
  that the manager calls without a test are assumed to be registered. Addresses of subscribers are
  not used again after a free; those of delegates may be. Where the loop that drops unmatched nodes
  follows the link of the node that it has freed, the memory is read as it was, and the flags
  read\_freed and bad\_link record it. The sizes that the Venus video
  core asks for come from a kernel header outside the repository and are a parameter. The super buffer queue is a list of nodes,
  the intrusive list below it is that of Camera\_Queue; a metadata buffer comes with its content.
  The steps of a stream do not overlap, and a receiver that gets a buffer acts on it in a later step; a call that
  waits for ever sets the flag blocked of the stream. The clients of a stream give back buffers that
  they have, once for each reference. The code under the absence of DAEMON\_PRESENT, a second way to
  the camera daemon, is not modelled.

  \<^bold>\<open>Not modelled.\<close> QCameraParameters and the HAL3 code translate between Android's parameters and batches
  of the driver, over types that are not in the repository (CameraParameters, camera metadata,
  cam\_types of the driver). QCamera2HWICallbacks, QCameraPostProc, QCameraChannel, QCameraStream,
  QCameraMem and QCameraMuxer move buffers between the driver, the JPEG encoder and the
  application. mm-camera-interface, mm-jpeg-interface and mm-lib2d-interface are C libraries over
  ioctl and OMX. Of the GPS HAL the adapter, the location API, the NMEA sentences, SystemStatus and
  the configuration reader are not modelled, nor the message queue of msg\_q.c. The fingerprint,
  audio amplifier, touch, init and power code are thin wrappers of vendor libraries and of sysfs. The
  overlays, configurations, policies and make files contain no program.
\<close>

end
